(* ===== verification/Prelude.thy ===== *)
theory Prelude
  imports Main "HOL-Library.Word"
begin

text \<open>
  Shared vocabulary of the development: machine word types, C strings and
  fixed-size character buffers, the linear search loops the kernel's tables
  use, and the lemmas about them that the component theories rest on.

  A \<open>const char *\<close> is a character list; the terminating NUL is the first NUL
  character of the list, or implicitly the position after its end.  Reading
  through a pointer is \<open>cget p 0\<close>, advancing it is \<open>tl p\<close>.  A \<open>char[N]\<close> array
  is a list of length \<open>N\<close> and its contents as a C string is \<open>cstr\<close>.
\<close>

unbundle bit_operations_syntax

type_synonym u8 = "8 word"
type_synonym u16 = "16 word"
type_synonym u32 = "32 word"
type_synonym u64 = "64 word"

named_theorems cbuf_simps
named_theorems search_simps

abbreviation NUL :: char where "NUL \<equiv> CHR 0x00"

section \<open>C strings\<close>

definition cget :: "char list \<Rightarrow> nat \<Rightarrow> char" where
  "cget s i = (if i < length s then s ! i else NUL)"

definition cstr :: "char list \<Rightarrow> string" where
  "cstr s = takeWhile (\<lambda>c. c \<noteq> NUL) s"

text \<open>The numeric value of a character, as the C code's \<open>(unsigned char) c\<close>.\<close>

definition uchar :: "char \<Rightarrow> int" where
  "uchar c = int (of_char c)"

text \<open>The value of a plain \<open>char\<close>, which is signed on the target.\<close>

definition schar :: "char \<Rightarrow> int" where
  "schar c = (if uchar c < 128 then uchar c else uchar c - 256)"

lemma cget_Nil [simp]: "cget [] i = NUL"
  by (simp add: cget_def)

lemma cget_Cons_0 [simp]: "cget (c # s) 0 = c"
  by (simp add: cget_def)

lemma cget_Cons_Suc [simp]: "cget (c # s) (Suc i) = cget s i"
  by (simp add: cget_def)

lemma cget_append: "cget (s @ t) i = (if i < length s then s ! i else cget t (i - length s))"
  by (auto simp: cget_def nth_append)

lemma cget_beyond: "length s \<le> i \<Longrightarrow> cget s i = NUL"
  by (simp add: cget_def)

lemma cget_0_drop: "cget (drop i s) 0 = cget s i"
  by (auto simp: cget_def)

lemma cstr_Nil [simp]: "cstr [] = []"
  by (simp add: cstr_def)

lemma cstr_Cons: "cstr (c # s) = (if c = NUL then [] else c # cstr s)"
  by (simp add: cstr_def)

lemma cstr_NUL [simp]: "cstr (NUL # s) = []"
  by (simp add: cstr_def)

lemma cstr_no_NUL [simp]: "NUL \<notin> set (cstr s)"
  by (auto simp: cstr_def dest: set_takeWhileD)

lemma cstr_id: "NUL \<notin> set s \<Longrightarrow> cstr s = s"
  by (simp add: cstr_def takeWhile_eq_all_conv) metis

lemma cstr_cstr [simp]: "cstr (cstr s) = cstr s"
  by (simp add: cstr_id)

lemma cstr_append: "NUL \<notin> set s \<Longrightarrow> cstr (s @ t) = s @ cstr t"
  by (induction s) (auto simp: cstr_Cons)

lemma cstr_prefix_NUL: "NUL \<notin> set s \<Longrightarrow> cstr (s @ NUL # t) = s"
  by (simp add: cstr_append)

lemma length_cstr_le: "length (cstr s) \<le> length s"
  by (simp add: cstr_def length_takeWhile_le)

lemma cstr_eq_Nil_iff: "cstr s = [] \<longleftrightarrow> cget s 0 = NUL"
  by (cases s) (auto simp: cstr_Cons)

lemma cget_cstr: "i < length (cstr s) \<Longrightarrow> cget s i = cstr s ! i \<and> cget s i \<noteq> NUL"
proof (induction s arbitrary: i)
  case (Cons c s)
  then have c: "c \<noteq> NUL" by (auto simp: cstr_Cons)
  show ?case
  proof (cases i)
    case (Suc j)
    with Cons.prems c have "j < length (cstr s)" by (simp add: cstr_Cons)
    from Cons.IH [OF this] Suc c show ?thesis by (auto simp: cstr_Cons)
  qed (use c in \<open>simp add: cstr_Cons\<close>)
qed simp

lemma cget_length_cstr: "cget s (length (cstr s)) = NUL"
  by (induction s) (auto simp: cstr_Cons)

lemma cget_nonNUL_take:
  "\<forall>j < i. cget s j \<noteq> NUL \<Longrightarrow> i \<le> length (cstr s) \<and> take i s = take i (cstr s)"
proof (induction i arbitrary: s)
  case (Suc i)
  then have "cget s 0 \<noteq> NUL" by auto
  then obtain c t where s: "s = c # t" "c \<noteq> NUL" by (cases s) auto
  have "\<forall>j < i. cget t j \<noteq> NUL"
    using Suc.prems s by (metis Suc_less_eq cget_Cons_Suc)
  from Suc.IH [OF this] show ?case using s by (simp add: cstr_Cons)
qed simp

section \<open>String comparison\<close>

text \<open>\<open>strcmp\<close>: the loop over two pointers, its result \<open>(unsigned char) *a - (unsigned char) *b\<close>.\<close>

function strcmp :: "char list \<Rightarrow> char list \<Rightarrow> int" where
  "strcmp a b =
     (if cget a 0 \<noteq> NUL \<and> cget a 0 = cget b 0 then strcmp (tl a) (tl b)
      else uchar (cget a 0) - uchar (cget b 0))"
  by pat_completeness auto
termination
  by (relation "measure (\<lambda>(a, b). length a)") (auto simp: cget_def split: if_splits)

declare strcmp.simps [simp del]

lemma uchar_eq_iff: "uchar a = uchar b \<longleftrightarrow> a = b"
  by (metis char_of_char of_nat_eq_iff uchar_def)

lemma strcmp_0_iff: "strcmp a b = 0 \<longleftrightarrow> cstr a = cstr b"
proof (induction a b rule: strcmp.induct)
  case (1 a b)
  show ?case
  proof (cases "cget a 0 \<noteq> NUL \<and> cget a 0 = cget b 0")
    case True
    then obtain c a' b' where "a = c # a'" "b = c # b'" "c \<noteq> NUL"
      by (cases a; cases b) auto
    moreover from True have "strcmp a b = strcmp (tl a) (tl b)"
      by (subst strcmp.simps) argo
    ultimately show ?thesis
      using "1.IH" [OF True] by (simp add: cstr_Cons)
  next
    case False
    then have "strcmp a b = uchar (cget a 0) - uchar (cget b 0)"
      by (subst strcmp.simps) argo
    then have "strcmp a b = 0 \<longleftrightarrow> cget a 0 = cget b 0" by (simp add: uchar_eq_iff)
    with False show ?thesis by (cases a; cases b) (auto simp: cstr_Cons)
  qed
qed

section \<open>Bounded copies into fixed-size buffers\<close>

text \<open>
  Every module of the kernel carries the same copy loop
  \<open>while (i + 1 < size && src[i] != '\0') { dest[i] = src[i]; i++; } dest[i] = '\0';\<close>
  guarded by \<open>if (size == 0) return;\<close>, always called with the buffer's own size.
\<close>

function copy_text_loop :: "char list \<Rightarrow> char list \<Rightarrow> nat \<Rightarrow> char list" where
  "copy_text_loop dest src i =
     (if i + 1 < length dest \<and> cget src i \<noteq> NUL
      then copy_text_loop (dest[i := cget src i]) src (i + 1)
      else dest[i := NUL])"
  by pat_completeness auto
termination
  by (relation "measure (\<lambda>(dest, src, i). length dest - i)") auto

declare copy_text_loop.simps [simp del]

definition copy_text :: "char list \<Rightarrow> char list \<Rightarrow> char list" where
  "copy_text dest src = (if length dest = 0 then dest else copy_text_loop dest src 0)"

lemma copy_text_loop_eq:
  assumes "i < length dest" and "i \<le> length (cstr src)"
  shows "copy_text_loop dest src i =
    (let n = min (length dest - 1) (length (cstr src))
     in take i dest @ drop i (take n (cstr src)) @ NUL # drop (Suc n) dest)"
  using assms
proof (induction dest src i rule: copy_text_loop.induct)
  case (1 dest src i)
  show ?case
  proof (cases "i + 1 < length dest \<and> cget src i \<noteq> NUL")
    case True
    then have i: "i < length (cstr src)"
      using "1.prems" cget_length_cstr [of src] by (metis le_neq_implies_less)
    let ?d = "dest[i := cget src i]"
    let ?n = "min (length dest - 1) (length (cstr src))"
    have in_n: "i < ?n" using True i by auto
    have "copy_text_loop dest src i = copy_text_loop ?d src (i + 1)"
      using True by (simp add: copy_text_loop.simps [of dest src i])
    also have "\<dots> = take (i + 1) ?d @ drop (i + 1) (take ?n (cstr src)) @ NUL # drop (Suc ?n) ?d"
      using "1.IH" [OF True] True i by (simp add: Let_def)
    also have "take (i + 1) ?d = take i dest @ [cstr src ! i]"
      using "1.prems" i cget_cstr [of i src] by (simp add: take_Suc_conv_app_nth)
    also have "drop (Suc ?n) ?d = drop (Suc ?n) dest" using in_n by (intro drop_update_cancel less_SucI)
    also have "drop i (take ?n (cstr src)) = cstr src ! i # drop (i + 1) (take ?n (cstr src))"
      using in_n i by (subst Cons_nth_drop_Suc [symmetric]) simp_all
    ultimately show ?thesis by (simp add: Let_def)
  next
    case False
    have "min (length dest - 1) (length (cstr src)) = i"
    proof (cases "i + 1 < length dest")
      case True
      with False have "cget src i = NUL" by simp
      then have "\<not> i < length (cstr src)" using cget_cstr by blast
      with "1.prems" True show ?thesis by simp
    next
      case False
      with "1.prems" show ?thesis by simp
    qed
    moreover have "copy_text_loop dest src i = dest[i := NUL]"
      using False by (subst copy_text_loop.simps) argo
    ultimately show ?thesis
      using "1.prems" by (simp add: Let_def upd_conv_take_nth_drop)
  qed
qed

lemma copy_text_eq:
  assumes "dest \<noteq> []"
  shows "copy_text dest src =
    (let n = min (length dest - 1) (length (cstr src))
     in take n (cstr src) @ NUL # drop (Suc n) dest)"
  using assms copy_text_loop_eq [of 0 dest src] by (simp add: copy_text_def Let_def)

lemma length_copy_text [simp, cbuf_simps]: "length (copy_text dest src) = length dest"
proof (cases "dest = []")
  case False
  then have "length dest - 1 < length dest" by simp
  then have "min (length dest - 1) (length (cstr src)) < length dest" by linarith
  then show ?thesis by (auto simp: copy_text_eq [OF False] Let_def)
qed (simp add: copy_text_def)

lemma cstr_copy_text [cbuf_simps]:
  "dest \<noteq> [] \<Longrightarrow> cstr (copy_text dest src) = take (length dest - 1) (cstr src)"
proof -
  assume d: "dest \<noteq> []"
  let ?n = "min (length dest - 1) (length (cstr src))"
  have "NUL \<notin> set (take ?n (cstr src))"
    using cstr_no_NUL [of src] in_set_takeD by fast
  then have "cstr (copy_text dest src) = take ?n (cstr src)"
    using d by (simp add: copy_text_eq Let_def cstr_prefix_NUL)
  then show ?thesis by (simp add: min_def split: if_splits)
qed

text \<open>A buffer holds a terminated string when a NUL lies inside it.\<close>

definition terminated :: "char list \<Rightarrow> bool" where
  "terminated buf \<longleftrightarrow> length (cstr buf) < length buf"

lemma terminated_copy_text [cbuf_simps]: "dest \<noteq> [] \<Longrightarrow> terminated (copy_text dest src)"
  by (cases dest) (simp_all add: terminated_def cstr_copy_text min_less_iff_disj)

text \<open>A buffer cleared by \<open>memset(_, 0, n)\<close>.\<close>

definition zbuf :: "nat \<Rightarrow> char list" where
  "zbuf n = replicate n NUL"

lemma length_zbuf [simp, cbuf_simps]: "length (zbuf n) = n"
  by (simp add: zbuf_def)

lemma cstr_zbuf [simp, cbuf_simps]: "cstr (zbuf n) = []"
  by (cases n) (simp_all add: zbuf_def)

lemma terminated_zbuf [cbuf_simps]: "0 < n \<Longrightarrow> terminated (zbuf n)"
  by (simp add: terminated_def)

lemma zbuf_eq_Nil_iff [simp]: "zbuf n = [] \<longleftrightarrow> n = 0"
  by (simp add: zbuf_def)

section \<open>Linear searches over tables\<close>

text \<open>
  The loop \<open>for (i = 0; i < MAX; i++) if (P(table[i])) return i; return -1;\<close>;
  \<open>None\<close> stands for the \<open>-1\<close>.
\<close>

fun first_index :: "('a \<Rightarrow> bool) \<Rightarrow> 'a list \<Rightarrow> nat option" where
  "first_index P [] = None"
| "first_index P (x # xs) = (if P x then Some 0 else map_option Suc (first_index P xs))"

lemma first_index_Some_iff:
  "first_index P xs = Some i \<longleftrightarrow> i < length xs \<and> P (xs ! i) \<and> (\<forall>j < i. \<not> P (xs ! j))"
proof (induction xs arbitrary: i)
  case (Cons x xs)
  show ?case
  proof (cases "P x")
    case True
    then show ?thesis by (cases i) auto
  next
    case False
    with Cons show ?thesis by (cases i) (auto simp: All_less_Suc2)
  qed
qed simp

lemma first_index_None_iff: "first_index P xs = None \<longleftrightarrow> (\<forall>x \<in> set xs. \<not> P x)"
  by (induction xs) auto

lemma first_indexD:
  "first_index P xs = Some i \<Longrightarrow> i < length xs"
  "first_index P xs = Some i \<Longrightarrow> P (xs ! i)"
  by (auto simp: first_index_Some_iff)

lemma first_index_cong:
  "(\<And>x. x \<in> set xs \<Longrightarrow> P x = Q x) \<Longrightarrow> first_index P xs = first_index Q xs"
  by (induction xs) auto

lemma first_index_update_same:
  "P x = P (xs ! i) \<Longrightarrow> first_index P (xs[i := x]) = first_index P xs"
proof (induction xs arbitrary: i)
  case (Cons y ys)
  then show ?case by (cases i) auto
qed simp

text \<open>
  The listing loop \<open>for (i...; i < MAX && count < max) if (used) out[count++] = table[i];\<close>.
\<close>

fun list_used :: "('a \<Rightarrow> bool) \<Rightarrow> 'a list \<Rightarrow> nat \<Rightarrow> 'a list" where
  "list_used P [] m = []"
| "list_used P (x # xs) m =
     (if m = 0 then [] else if P x then x # list_used P xs (m - 1) else list_used P xs m)"

lemma list_used_eq: "list_used P xs m = take m (filter P xs)"
  by (induction xs arbitrary: m) (auto simp: take_Cons')

text \<open>The counting loop over a table.\<close>

definition count_used :: "('a \<Rightarrow> bool) \<Rightarrow> 'a list \<Rightarrow> nat" where
  "count_used P xs = length (filter P xs)"

lemma count_used_le: "count_used P xs \<le> length xs"
  by (simp add: count_used_def)

lemma count_used_update:
  "i < length xs \<Longrightarrow>
   count_used P (xs[i := x]) + (if P (xs ! i) then 1 else 0) =
   count_used P xs + (if P x then 1 else 0)"
proof (induction xs arbitrary: i)
  case (Cons y ys)
  show ?case
  proof (cases i)
    case (Suc j)
    with Cons.prems Cons.IH [of j] show ?thesis by (simp add: count_used_def)
  qed (simp add: count_used_def)
qed simp

lemma count_used_lt_if_free:
  "first_index (\<lambda>x. \<not> P x) xs = Some i \<Longrightarrow> count_used P xs < length xs"
  unfolding count_used_def first_index_Some_iff
  using length_filter_less [of "xs ! i" xs P] nth_mem [of i xs] by blast

section \<open>C truth values\<close>

text \<open>Results of \<open>int\<close>-valued predicates and status codes.\<close>

abbreviation c_ok :: int where "c_ok \<equiv> 0"
abbreviation c_err :: int where "c_err \<equiv> -1"

end
