(* ===== verification/WordLib.thy ===== *)
theory WordLib
  imports Prelude
begin

text \<open>
  Machine-word facts shared by the components: reading sums and differences
  as natural numbers when they do not wrap, clearing low bits (alignment), and
  splitting a word into bytes and putting it together again.
\<close>

named_theorems unat_simps

section \<open>Arithmetic without wrap-around\<close>

lemma unat_add_nowrap:
  fixes a b :: "'a::len word"
  shows "unat a + unat b < 2 ^ LENGTH('a) \<Longrightarrow> unat (a + b) = unat a + unat b"
  by (simp add: unat_add_lem [symmetric])

lemma unat_add_wrap_less:
  fixes a b :: "'a::len word"
  shows "2 ^ LENGTH('a) \<le> unat a + unat b \<Longrightarrow> a + b < a"
  by (simp add: word_less_nat_alt unat_plus_if' not_less) 
     (metis add.commute add_less_cancel_left diff_add_inverse le_add_diff_inverse less_diff_conv2 unsigned_less)

lemma word_add_less_iff:
  fixes a b :: "'a::len word"
  shows "a + b < a \<longleftrightarrow> 2 ^ LENGTH('a) \<le> unat a + unat b"
  using unat_add_nowrap [of a b] unat_add_wrap_less [of a b]
  by (metis le_add1 not_le word_le_nat_alt)

lemma unat_sub_le:
  fixes a b :: "'a::len word"
  shows "b \<le> a \<Longrightarrow> unat (a - b) = unat a - unat b"
  by (simp add: unat_sub)

lemma unat_mask:
  "n < LENGTH('a) \<Longrightarrow> unat (mask n :: 'a::len word) = 2 ^ n - 1"
proof -
  assume "n < LENGTH('a)"
  then have "uint (mask n :: 'a word) = mask n" by (simp add: uint_mask_eq min_def)
  then have "unat (mask n :: 'a word) = mask n" by (simp only: unat_eq_nat_uint nat_mask_eq)
  then show ?thesis by (simp add: mask_eq_exp_minus_1)
qed

lemma unat_word_of_int:
  "0 \<le> k \<Longrightarrow> k < 2 ^ LENGTH('a) \<Longrightarrow> unat (word_of_int k :: 'a::len word) = nat k"
  by (simp only: unat_eq_nat_uint uint_word_of_int mod_pos_pos_trivial)

lemma uint_eq_sint:
  fixes w :: "'a::len word"
  assumes "0 \<le> sint w"
  shows "uint w = sint w"
proof -
  have "sint w < 2 ^ (LENGTH('a) - 1)" by (rule sint_lt)
  also have "(2 :: int) ^ (LENGTH('a) - 1) \<le> 2 ^ LENGTH('a)" by simp
  finally show ?thesis using assms by (simp add: uint_sint take_bit_int_eq_self)
qed

lemma unat_add_of_nat_lt:
  fixes a :: "'a::len word"
  assumes lt: "unat a + k < 2 ^ LENGTH('a)"
  shows "unat (a + of_nat k) = unat a + k"
proof -
  have "unat (of_nat k :: 'a word) = k" using lt by (simp add: unat_of_nat take_bit_nat_eq_self)
  with lt unat_add_nowrap [of a "of_nat k"] show ?thesis by simp
qed

lemma unat_add_of_nat:
  fixes a b :: "'a::len word"
  assumes "unat a + k \<le> unat b"
  shows "unat (a + of_nat k) = unat a + k"
proof (rule unat_add_of_nat_lt)
  have "unat b < 2 ^ LENGTH('a)" by (rule unsigned_less)
  with assms show "unat a + k < 2 ^ LENGTH('a)" by linarith
qed

lemma word_eq_unatI: "unat a = unat b \<Longrightarrow> a = b"
  by (rule unsigned_word_eqI)

section \<open>Clearing low bits\<close>

lemma and_not_mask:
  fixes x :: "'a::len word"
  shows "x AND NOT (mask n) = push_bit n (drop_bit n x)"
  by (rule bit_word_eqI) (auto simp: bit_simps)

lemma unat_clear_low_bits:
  fixes x :: "'a::len word"
  shows "unat (push_bit n (drop_bit n x)) = unat x div 2 ^ n * 2 ^ n"
proof -
  have "unat x div 2 ^ n * 2 ^ n \<le> unat x" by simp
  also have "\<dots> < 2 ^ LENGTH('a)" by simp
  finally have "take_bit LENGTH('a) (unat x div 2 ^ n * 2 ^ n) = unat x div 2 ^ n * 2 ^ n"
    by (rule take_bit_nat_eq_self)
  then show ?thesis
    by (subst unsigned_push_bit_eq, subst unat_drop_bit_eq) (simp add: push_bit_eq_mult drop_bit_eq_div)
qed

lemma round_up_bounds:
  fixes v k :: nat
  assumes "0 < k"
  shows "v \<le> (v + k - 1) div k * k" and "(v + k - 1) div k * k \<le> v + k - 1"
proof -
  have "v + k - 1 = (v + k - 1) div k * k + (v + k - 1) mod k" by simp
  moreover have "(v + k - 1) mod k < k" using assms by simp
  ultimately show "v \<le> (v + k - 1) div k * k" by linarith
  show "(v + k - 1) div k * k \<le> v + k - 1" by simp
qed

section \<open>Bytes of a word\<close>

lemma ucast_and_FF [simp]:
  "(ucast ((x :: u16) AND 255) :: u8) = ucast x"
  "(ucast ((y :: u32) AND 255) :: u8) = ucast y"
  "(ucast ((z :: u64) AND 255) :: u8) = ucast z"
proof -
  have m: "255 = (mask 8 :: 'a::len word)" by (simp add: mask_eq_exp_minus_1)
  show "(ucast (x AND 255) :: u8) = ucast x" "(ucast (y AND 255) :: u8) = ucast y"
    "(ucast (z AND 255) :: u8) = ucast z"
    unfolding m by (rule bit_word_eqI; auto simp: bit_simps)+
qed

definition word16_of :: "u8 \<Rightarrow> u8 \<Rightarrow> u16" where
  "word16_of hi lo = push_bit 8 (ucast hi) OR ucast lo"

definition word32_of :: "u8 \<Rightarrow> u8 \<Rightarrow> u8 \<Rightarrow> u8 \<Rightarrow> u32" where
  "word32_of b3 b2 b1 b0 =
     push_bit 24 (ucast b3) OR push_bit 16 (ucast b2) OR push_bit 8 (ucast b1) OR ucast b0"

lemma word16_of_bytes: "word16_of (ucast (drop_bit 8 p)) (ucast p) = p"
  unfolding word16_of_def
proof (rule bit_word_eqI, goal_cases)
  case (1 n)
  then show ?case by (cases "n < 8") (auto simp: bit_simps)
qed

lemma word32_of_bytes:
  "word32_of (ucast (drop_bit 24 p)) (ucast (drop_bit 16 p)) (ucast (drop_bit 8 p)) (ucast p) = p"
  unfolding word32_of_def
proof (rule bit_word_eqI, goal_cases)
  case (1 n)
  then consider "n < 8" | "8 \<le> n" "n < 16" | "16 \<le> n" "n < 24" | "24 \<le> n" "n < 32"
    by fastforce
  then show ?case by cases (auto simp: bit_simps)
qed

lemma word32_of_byte:
  "(ucast (word32_of b3 b2 b1 b0) :: u8) = b0"
  "(ucast (drop_bit 8 (word32_of b3 b2 b1 b0)) :: u8) = b1"
  "(ucast (drop_bit 16 (word32_of b3 b2 b1 b0)) :: u8) = b2"
  "(ucast (drop_bit 24 (word32_of b3 b2 b1 b0)) :: u8) = b3"
  unfolding word32_of_def
  by (rule bit_word_eqI; auto simp: bit_simps dest: bit_imp_le_length)+

lemma word16_of_byte:
  "(ucast (word16_of hi lo) :: u8) = lo"
  "(ucast (drop_bit 8 (word16_of hi lo)) :: u8) = hi"
  unfolding word16_of_def
  by (rule bit_word_eqI; auto simp: bit_simps dest: bit_imp_le_length)+

end
