(* ===== verification/SlotTable.thy ===== *)
theory SlotTable
  imports Prelude
begin

text \<open>
  The interface of the kernel's fixed-size registries.  Configuration entries,
  packages, services, users, directory entries, sockets and GUI objects are all
  kept the same way: an array of records, a field that says whether a slot is
  live, a search for the first live slot with a given key and a search for the
  first free slot.  The locale names the two searches and the laws the modules
  promise of them; its lemmas say that an update of one slot is an update of
  the partial map the table stands for.
\<close>

section \<open>The map a table stands for\<close>

definition tab_of :: "('e \<Rightarrow> bool) \<Rightarrow> ('e \<Rightarrow> 'k) \<Rightarrow> 'e list \<Rightarrow> 'k \<Rightarrow> 'e option" where
  "tab_of live key es k =
     map_option ((!) es) (first_index (\<lambda>e. live e \<and> key e = k) es)"

definition keys_distinct :: "('e \<Rightarrow> bool) \<Rightarrow> ('e \<Rightarrow> 'k) \<Rightarrow> 'e list \<Rightarrow> bool" where
  "keys_distinct live key es \<longleftrightarrow>
     (\<forall>i < length es. \<forall>j < length es.
        live (es ! i) \<longrightarrow> live (es ! j) \<longrightarrow> key (es ! i) = key (es ! j) \<longrightarrow> i = j)"

lemma keys_distinctD:
  "keys_distinct live key es \<Longrightarrow> i < length es \<Longrightarrow> j < length es \<Longrightarrow>
   live (es ! i) \<Longrightarrow> live (es ! j) \<Longrightarrow> key (es ! i) = key (es ! j) \<Longrightarrow> i = j"
  unfolding keys_distinct_def by blast

lemma keys_distinct_none_live:
  "\<forall>e \<in> set es. \<not> live e \<Longrightarrow> keys_distinct live key es"
  unfolding keys_distinct_def by (metis nth_mem)

lemma tab_of_none_live: "\<forall>e \<in> set es. \<not> live e \<Longrightarrow> tab_of live key es k = None"
  by (simp add: tab_of_def first_index_None_iff)

lemma tab_of_SomeD:
  "tab_of live key es k = Some e \<Longrightarrow> e \<in> set es \<and> live e \<and> key e = k"
  unfolding tab_of_def first_index_Some_iff map_option_eq_Some using nth_mem by blast

lemma tab_of_eq_None_iff:
  "tab_of live key es k = None \<longleftrightarrow> (\<forall>e \<in> set es. live e \<longrightarrow> key e \<noteq> k)"
  by (auto simp: tab_of_def first_index_None_iff)

lemma first_index_distinct:
  assumes "keys_distinct live key es" and "i < length es" and "live (es ! i)"
  shows "first_index (\<lambda>e. live e \<and> key e = key (es ! i)) es = Some i"
  unfolding first_index_Some_iff
  using assms keys_distinctD [OF assms(1)] by (metis order.strict_trans nat_neq_iff)

lemma tab_of_nth:
  "keys_distinct live key es \<Longrightarrow> i < length es \<Longrightarrow> live (es ! i) \<Longrightarrow>
   tab_of live key es (key (es ! i)) = Some (es ! i)"
  by (simp add: tab_of_def first_index_distinct)

lemma tab_of_eq_Some_iff:
  assumes "keys_distinct live key es"
  shows "tab_of live key es k = Some e \<longleftrightarrow> e \<in> set es \<and> live e \<and> key e = k"
  using tab_of_SomeD [of live key es k e] tab_of_nth [OF assms] by (metis in_set_conv_nth)

text \<open>
  Storing a live record with key \<open>k\<close> in a slot that is free or already holds
  \<open>k\<close>, when no other live slot holds \<open>k\<close>.
\<close>

lemma keys_distinct_update:
  assumes "keys_distinct live key es"
    and "\<And>j. j < length es \<Longrightarrow> j \<noteq> i \<Longrightarrow> live (es ! j) \<Longrightarrow> live e \<Longrightarrow> key (es ! j) \<noteq> key e"
  shows "keys_distinct live key (es[i := e])"
  unfolding keys_distinct_def
proof (intro allI impI)
  fix a b
  assume *: "a < length (es[i := e])" "b < length (es[i := e])"
    "live (es[i := e] ! a)" "live (es[i := e] ! b)"
    "key (es[i := e] ! a) = key (es[i := e] ! b)"
  then show "a = b"
    using keys_distinctD [OF assms(1), of a b] assms(2) [of a] assms(2) [of b]
    by (cases "a = i"; cases "b = i") auto
qed

lemma tab_of_update:
  assumes d: "keys_distinct live key es" and i: "i < length es"
    and own: "live (es ! i) \<Longrightarrow> key (es ! i) = key e"
    and fresh: "\<And>j. j < length es \<Longrightarrow> j \<noteq> i \<Longrightarrow> live (es ! j) \<Longrightarrow> key (es ! j) \<noteq> key e"
    and e: "live e"
  shows "tab_of live key (es[i := e]) = (tab_of live key es)(key e \<mapsto> e)"
proof
  fix k
  have d': "keys_distinct live key (es[i := e])"
    using d fresh by (rule keys_distinct_update)
  show "tab_of live key (es[i := e]) k = ((tab_of live key es)(key e \<mapsto> e)) k"
  proof (cases "k = key e")
    case True
    then show ?thesis using tab_of_nth [OF d', of i] i e by simp
  next
    case False
    have "x \<in> set (es[i := e]) \<and> live x \<and> key x = k \<longleftrightarrow> x \<in> set es \<and> live x \<and> key x = k" for x
      using False own i by (metis in_set_conv_nth length_list_update nth_list_update)
    then have "tab_of live key (es[i := e]) k = Some x \<longleftrightarrow> tab_of live key es k = Some x" for x
      using tab_of_eq_Some_iff [OF d, of k x] tab_of_eq_Some_iff [OF d', of k x] by blast
    then have "tab_of live key (es[i := e]) k = tab_of live key es k"
      by (metis option.exhaust)
    with False show ?thesis by simp
  qed
qed

text \<open>Releasing a slot removes its key.\<close>

lemma tab_of_release:
  assumes d: "keys_distinct live key es" and i: "i < length es" and l: "live (es ! i)"
    and e: "\<not> live e"
  shows "tab_of live key (es[i := e]) = (tab_of live key es)(key (es ! i) := None)"
proof
  fix k
  have d': "keys_distinct live key (es[i := e])"
    using d e by (intro keys_distinct_update) auto
  have "x \<in> set (es[i := e]) \<and> live x \<and> key x = k \<longleftrightarrow>
        x \<in> set es \<and> live x \<and> key x = k \<and> k \<noteq> key (es ! i)" for x
    using d i l e keys_distinctD [OF d _ i _ l]
    by (metis in_set_conv_nth length_list_update nth_list_update)
  then have "tab_of live key (es[i := e]) k = Some x \<longleftrightarrow>
             ((tab_of live key es)(key (es ! i) := None)) k = Some x" for x
    using tab_of_eq_Some_iff [OF d, of k x] tab_of_eq_Some_iff [OF d', of k x] by auto
  then show "tab_of live key (es[i := e]) k = ((tab_of live key es)(key (es ! i) := None)) k"
    by (metis option.exhaust)
qed

text \<open>Dead records at the end of a table do not matter.\<close>

lemma first_index_append_dead:
  "\<forall>y \<in> set ys. \<not> P y \<Longrightarrow> first_index P (xs @ ys) = first_index P xs"
  by (induction xs) (simp_all add: first_index_None_iff)

lemma tab_of_append_dead:
  assumes "\<forall>e \<in> set ys. \<not> live e"
  shows "tab_of live key (xs @ ys) k = tab_of live key xs k"
proof -
  have "first_index (\<lambda>e. live e \<and> key e = k) (xs @ ys) = first_index (\<lambda>e. live e \<and> key e = k) xs"
    using assms by (intro first_index_append_dead) blast
  then show ?thesis
    using first_indexD(1) by (cases "first_index (\<lambda>e. live e \<and> key e = k) xs")
      (fastforce simp: tab_of_def nth_append)+
qed

text \<open>Changing every record of a table without touching its key.\<close>

lemma first_index_map: "first_index P (map f xs) = first_index (\<lambda>x. P (f x)) xs"
  by (induction xs) simp_all

lemma tab_of_map:
  assumes "\<And>e. live (f e) = live e" and "\<And>e. key (f e) = key e"
  shows "tab_of live key (map f es) k = map_option f (tab_of live key es k)"
proof (cases "first_index (\<lambda>e. live e \<and> key e = k) es")
  case (Some i)
  then show ?thesis using first_indexD(1) [OF Some] by (simp add: tab_of_def first_index_map assms)
qed (simp add: tab_of_def first_index_map assms)

text \<open>A table without duplicate keys has as many keys as live records.\<close>

lemma keys_distinct_Cons:
  "keys_distinct live key (e # es) \<longleftrightarrow>
     keys_distinct live key es \<and> (live e \<longrightarrow> (\<forall>x \<in> set es. live x \<longrightarrow> key x \<noteq> key e))"
proof -
  have "keys_distinct live key (e # es) \<longleftrightarrow>
      (\<forall>j < length es. live e \<longrightarrow> live (es ! j) \<longrightarrow> key e \<noteq> key (es ! j)) \<and>
      (\<forall>i < length es. (live (es ! i) \<longrightarrow> live e \<longrightarrow> key (es ! i) \<noteq> key e) \<and>
        (\<forall>j < length es. live (es ! i) \<longrightarrow> live (es ! j) \<longrightarrow> key (es ! i) = key (es ! j) \<longrightarrow> i = j))"
    unfolding keys_distinct_def length_Cons All_less_Suc2 by simp
  also have "\<dots> \<longleftrightarrow> keys_distinct live key es \<and>
      (\<forall>i < length es. live e \<longrightarrow> live (es ! i) \<longrightarrow> key (es ! i) \<noteq> key e)"
    unfolding keys_distinct_def by (rule iffI) (simp, (elim conjE, intro conjI; fastforce))
  finally show ?thesis unfolding all_set_conv_all_nth by blast
qed

lemma keys_distinct_iff: "keys_distinct live key es \<longleftrightarrow> distinct (map key (filter live es))"
proof (induction es)
  case (Cons e es)
  then show ?case by (auto simp: keys_distinct_Cons image_iff)
qed (simp add: keys_distinct_def)

lemma tab_of_Cons:
  "tab_of live key (e # es) k = (if live e \<and> key e = k then Some e else tab_of live key es k)"
  by (cases "first_index (\<lambda>e. live e \<and> key e = k) es") (simp_all add: tab_of_def)

lemma tab_of_map_of:
  "map_option g (tab_of live key es k) = map_of (map (\<lambda>e. (key e, g e)) (filter live es)) k"
  by (induction es) (simp_all add: tab_of_Cons tab_of_none_live)

lemma dom_tab_of: "dom (tab_of live key es) = key ` set (filter live es)"
proof -
  have "k \<in> dom (tab_of live key es) \<longleftrightarrow> k \<in> key ` set (filter live es)" for k
    using tab_of_eq_None_iff [of live key es k] by (auto simp: dom_def)
  then show ?thesis by blast
qed

lemma card_dom_tab:
  assumes "keys_distinct live key es"
  shows "card (dom (tab_of live key es)) = count_used live es"
  using distinct_card [OF assms [unfolded keys_distinct_iff]] by (simp add: dom_tab_of count_used_def)

section \<open>The registry interface\<close>

locale slot_table =
  fixes live :: "'e \<Rightarrow> bool"
    and key :: "'e \<Rightarrow> 'k"
    and view :: "'q \<Rightarrow> 'k"
    and find_slot :: "'e list \<Rightarrow> 'q \<Rightarrow> nat option"
    and find_free :: "'e list \<Rightarrow> nat option"
  assumes find_slot_hit:
      "find_slot es q = Some i \<Longrightarrow> i < length es \<and> live (es ! i) \<and> key (es ! i) = view q"
    and find_slot_first:
      "find_slot es q = Some i \<Longrightarrow> j < i \<Longrightarrow> live (es ! j) \<Longrightarrow> key (es ! j) \<noteq> view q"
    and find_slot_miss:
      "find_slot es q = None \<Longrightarrow> e \<in> set es \<Longrightarrow> live e \<Longrightarrow> key e \<noteq> view q"
    and find_free_hit: "find_free es = Some i \<Longrightarrow> i < length es \<and> \<not> live (es ! i)"
    and find_free_miss: "find_free es = None \<Longrightarrow> e \<in> set es \<Longrightarrow> live e"
begin

lemma find_slot_eq: "find_slot es q = first_index (\<lambda>e. live e \<and> key e = view q) es"
proof (cases "find_slot es q")
  case None
  then have "first_index (\<lambda>e. live e \<and> key e = view q) es = None"
    using find_slot_miss by (auto simp: first_index_None_iff)
  with None show ?thesis by simp
next
  case (Some i)
  then have "first_index (\<lambda>e. live e \<and> key e = view q) es = Some i"
    unfolding first_index_Some_iff using find_slot_hit find_slot_first by blast
  with Some show ?thesis by simp
qed

lemma tab_of_find: "tab_of live key es (view q) = map_option ((!) es) (find_slot es q)"
  by (simp add: tab_of_def find_slot_eq)

lemma find_slot_None_iff: "find_slot es q = None \<longleftrightarrow> tab_of live key es (view q) = None"
  by (simp add: tab_of_find)

lemma find_slot_Some_tab:
  "find_slot es q = Some i \<Longrightarrow> tab_of live key es (view q) = Some (es ! i)"
  by (simp add: tab_of_find)

lemma find_slot_nth:
  "keys_distinct live key es \<Longrightarrow> i < length es \<Longrightarrow> live (es ! i) \<Longrightarrow> view q = key (es ! i) \<Longrightarrow>
   find_slot es q = Some i"
  by (simp add: find_slot_eq first_index_distinct)

lemma overwrite_slot:
  assumes d: "keys_distinct live key es" and f: "find_slot es q = Some i"
    and e: "live e" "key e = view q"
  shows "keys_distinct live key (es[i := e])"
    and "tab_of live key (es[i := e]) = (tab_of live key es)(view q \<mapsto> e)"
proof -
  note hit = find_slot_hit [OF f]
  have fresh: "key (es ! j) \<noteq> key e"
    if "j < length es" "j \<noteq> i" "live (es ! j)" for j
    using keys_distinctD [OF d] that hit e by metis
  then show "keys_distinct live key (es[i := e])"
    using d by (intro keys_distinct_update) auto
  show "tab_of live key (es[i := e]) = (tab_of live key es)(view q \<mapsto> e)"
    using tab_of_update [OF d _ _ fresh e(1)] hit e(2) by simp
qed

lemma insert_slot:
  assumes d: "keys_distinct live key es" and f: "find_slot es q = None"
    and g: "find_free es = Some i" and e: "live e" "key e = view q"
  shows "keys_distinct live key (es[i := e])"
    and "tab_of live key (es[i := e]) = (tab_of live key es)(view q \<mapsto> e)"
proof -
  note free = find_free_hit [OF g]
  have fresh: "key (es ! j) \<noteq> key e"
    if "j < length es" "j \<noteq> i" "live (es ! j)" for j
    using find_slot_miss [OF f] that e by (metis nth_mem)
  then show "keys_distinct live key (es[i := e])"
    using d by (intro keys_distinct_update) auto
  show "tab_of live key (es[i := e]) = (tab_of live key es)(view q \<mapsto> e)"
    using tab_of_update [OF d, of i e] fresh free e by metis
qed

lemma release_slot:
  assumes d: "keys_distinct live key es" and f: "find_slot es q = Some i" and e: "\<not> live e"
  shows "keys_distinct live key (es[i := e])"
    and "tab_of live key (es[i := e]) = (tab_of live key es)(view q := None)"
  using tab_of_release [OF d _ _ e] find_slot_hit [OF f] d e
  by (auto intro!: keys_distinct_update)

lemma find_free_full: "find_free es = None \<longleftrightarrow> (\<forall>e \<in> set es. live e)"
  using find_free_hit [of es] find_free_miss [of es] by (metis nth_mem option.exhaust)

lemma free_if_room:
  assumes d: "keys_distinct live key es" and f: "find_slot es q = None"
    and room: "card (insert (view q) (dom (tab_of live key es))) \<le> length es"
  obtains i where "find_free es = Some i"
proof (cases "find_free es")
  case None
  then have "filter live es = es" by (auto simp: find_free_full)
  then have "card (dom (tab_of live key es)) = length es" by (simp add: card_dom_tab [OF d] count_used_def)
  moreover have "view q \<notin> dom (tab_of live key es)" using f by (simp add: find_slot_None_iff domIff)
  moreover have "finite (dom (tab_of live key es))" by (simp add: dom_tab_of)
  ultimately show ?thesis using room by simp
qed (use that in blast)

end

text \<open>
  Every module writes the two searches as the loops modelled by \<open>first_index\<close>;
  this is the introduction rule their interpretations use.
\<close>

lemma slot_tableI:
  assumes "\<And>es q. find_slot es q = first_index (\<lambda>e. live e \<and> key e = view q) es"
    and "\<And>es. find_free es = first_index (\<lambda>e. \<not> live e) es"
  shows "slot_table live key view find_slot find_free"
  by unfold_locales
    (auto simp: assms first_index_Some_iff first_index_None_iff)

end
