(* ===== verification/Kstring.thy ===== *)
theory Kstring
  imports Prelude
begin

text \<open>
  The freestanding string and memory routines of \<open>kernel/lib/kstring.c\<close>.
  Memory regions are lists; \<open>memset\<close> and \<open>memcpy\<close> return the updated
  destination.  \<open>strcmp\<close> is defined in \<open>Prelude\<close>; here is what it orders.
\<close>

section \<open>memset and memcpy\<close>

function memset_loop :: "'a list \<Rightarrow> 'a \<Rightarrow> nat \<Rightarrow> nat \<Rightarrow> 'a list" where
  "memset_loop d v count i =
     (if i < count then memset_loop (d[i := v]) v count (i + 1) else d)"
  by pat_completeness auto
termination
  by (relation "measure (\<lambda>(d, v, count, i). count - i)") auto

definition memset :: "'a list \<Rightarrow> 'a \<Rightarrow> nat \<Rightarrow> 'a list" where
  "memset dest v count = memset_loop dest v count 0"

function memcpy_loop :: "'a list \<Rightarrow> 'a list \<Rightarrow> nat \<Rightarrow> nat \<Rightarrow> 'a list" where
  "memcpy_loop d s count i =
     (if i < count then memcpy_loop (d[i := s ! i]) s count (i + 1) else d)"
  by pat_completeness auto
termination
  by (relation "measure (\<lambda>(d, s, count, i). count - i)") auto

definition memcpy :: "'a list \<Rightarrow> 'a list \<Rightarrow> nat \<Rightarrow> 'a list" where
  "memcpy dest src count = memcpy_loop dest src count 0"

declare memset_loop.simps [simp del] memcpy_loop.simps [simp del]

lemma memset_loop_eq:
  "i \<le> count \<Longrightarrow> count \<le> length d \<Longrightarrow>
   memset_loop d v count i = take i d @ replicate (count - i) v @ drop count d"
proof (induction d v count i rule: memset_loop.induct)
  case (1 d v count i)
  show ?case
  proof (cases "i < count")
    case True
    then have "memset_loop d v count i = memset_loop (d[i := v]) v count (i + 1)"
      by (subst memset_loop.simps) simp
    also have "\<dots> = take (i + 1) (d[i := v]) @ replicate (count - (i + 1)) v @ drop count (d[i := v])"
      using "1.IH" [OF True] True "1.prems" by simp
    also have "take (i + 1) (d[i := v]) = take i d @ [v]"
      using True "1.prems" by (simp add: take_Suc_conv_app_nth)
    also have "replicate (count - i) v = v # replicate (count - (i + 1)) v"
      using True by (metis Suc_diff_Suc Suc_eq_plus1 replicate_Suc)
    ultimately show ?thesis using True by simp
  next
    case False
    then have "memset_loop d v count i = d" by (subst memset_loop.simps) simp
    with False "1.prems" show ?thesis by simp
  qed
qed

lemma memset_eq: "count \<le> length d \<Longrightarrow> memset d v count = replicate count v @ drop count d"
  by (simp add: memset_def memset_loop_eq)

lemma memcpy_loop_eq:
  "i \<le> count \<Longrightarrow> count \<le> length d \<Longrightarrow> count \<le> length s \<Longrightarrow>
   memcpy_loop d s count i = take i d @ drop i (take count s) @ drop count d"
proof (induction d s count i rule: memcpy_loop.induct)
  case (1 d s count i)
  show ?case
  proof (cases "i < count")
    case True
    then have "memcpy_loop d s count i = memcpy_loop (d[i := s ! i]) s count (i + 1)"
      by (subst memcpy_loop.simps) simp
    also have "\<dots> = take (i + 1) (d[i := s ! i]) @ drop (i + 1) (take count s)
        @ drop count (d[i := s ! i])"
      using "1.IH" [OF True] True "1.prems" by simp
    also have "take (i + 1) (d[i := s ! i]) = take i d @ [s ! i]"
      using True "1.prems" by (simp add: take_Suc_conv_app_nth)
    also have "drop i (take count s) = s ! i # drop (i + 1) (take count s)"
      using True "1.prems" by (subst Cons_nth_drop_Suc [symmetric]) simp_all
    ultimately show ?thesis using True by simp
  next
    case False
    then have "memcpy_loop d s count i = d" by (subst memcpy_loop.simps) simp
    with False "1.prems" show ?thesis by simp
  qed
qed

lemma memcpy_eq:
  "count \<le> length d \<Longrightarrow> count \<le> length s \<Longrightarrow> memcpy d s count = take count s @ drop count d"
  by (simp add: memcpy_def memcpy_loop_eq)

section \<open>strlen and memcmp\<close>

function strlen_loop :: "char list \<Rightarrow> nat \<Rightarrow> nat" where
  "strlen_loop s len = (if cget s len \<noteq> NUL then strlen_loop s (len + 1) else len)"
  by pat_completeness auto
termination
  by (relation "measure (\<lambda>(s, len). length s - len)") (auto simp: cget_def split: if_splits)

declare strlen_loop.simps [simp del]

definition strlen :: "char list \<Rightarrow> nat" where
  "strlen s = strlen_loop s 0"

lemma strlen_loop_eq: "len \<le> length (cstr s) \<Longrightarrow> strlen_loop s len = length (cstr s)"
proof (induction s len rule: strlen_loop.induct)
  case (1 s len)
  show ?case
  proof (cases "cget s len = NUL")
    case True
    then have "\<not> len < length (cstr s)" using cget_cstr by blast
    moreover have "strlen_loop s len = len" using True by (subst strlen_loop.simps) simp
    ultimately show ?thesis using "1.prems" by simp
  next
    case False
    then have "len \<noteq> length (cstr s)" using cget_length_cstr by metis
    moreover have "strlen_loop s len = strlen_loop s (len + 1)"
      using False by (subst strlen_loop.simps) simp
    ultimately show ?thesis using False "1.IH" "1.prems" by simp
  qed
qed

lemma strlen_eq [simp]: "strlen s = length (cstr s)"
  by (simp add: strlen_def strlen_loop_eq)

text \<open>\<open>memcmp\<close>: the loop from \<open>i\<close>, and its result at the first difference.\<close>

function memcmp_loop :: "char list \<Rightarrow> char list \<Rightarrow> nat \<Rightarrow> nat \<Rightarrow> int" where
  "memcmp_loop a b count i =
     (if i < count then
        if cget a i \<noteq> cget b i then uchar (cget a i) - uchar (cget b i)
        else memcmp_loop a b count (i + 1)
      else 0)"
  by pat_completeness auto
termination
  by (relation "measure (\<lambda>(a, b, count, i). count - i)") auto

declare memcmp_loop.simps [simp del]

definition memcmp :: "char list \<Rightarrow> char list \<Rightarrow> nat \<Rightarrow> int" where
  "memcmp a b count = memcmp_loop a b count 0"

lemma memcmp_loop_0_iff:
  "memcmp_loop a b count i = 0 \<longleftrightarrow> (\<forall>j. i \<le> j \<and> j < count \<longrightarrow> cget a j = cget b j)"
proof (induction a b count i rule: memcmp_loop.induct)
  case (1 a b count i)
  show ?case
  proof (cases "i < count \<and> cget a i = cget b i")
    case True
    then have "memcmp_loop a b count i = memcmp_loop a b count (i + 1)"
      by (subst memcmp_loop.simps) simp
    moreover have "(\<forall>j. i \<le> j \<and> j < count \<longrightarrow> cget a j = cget b j) \<longleftrightarrow>
        (\<forall>j. i + 1 \<le> j \<and> j < count \<longrightarrow> cget a j = cget b j)"
    proof -
      have "i \<le> j \<longleftrightarrow> j = i \<or> i + 1 \<le> j" for j by auto
      then show ?thesis using True by metis
    qed
    ultimately show ?thesis using "1.IH" True by simp
  next
    case False
    then have "memcmp_loop a b count i =
        (if i < count then uchar (cget a i) - uchar (cget b i) else 0)"
      by (subst memcmp_loop.simps) auto
    with False show ?thesis by (auto simp: uchar_eq_iff)
  qed
qed

lemma memcmp_0_iff: "memcmp a b count = 0 \<longleftrightarrow> (\<forall>j < count. cget a j = cget b j)"
  by (simp add: memcmp_def memcmp_loop_0_iff)

text \<open>Comparing \<open>strlen(word)\<close> bytes is the prefix test: the comparison stops at the NUL of a
  shorter line, so bytes behind it never decide.\<close>

lemma memcmp_word_iff:
  assumes "NUL \<notin> set word"
  shows "memcmp line word (length word) = 0 \<longleftrightarrow> take (length word) (cstr line) = word"
proof
  assume "memcmp line word (length word) = 0"
  then have eq: "cget line j = word ! j" if "j < length word" for j
    using that by (simp add: memcmp_0_iff) (simp add: cget_def)
  then have "\<forall>j < length word. cget line j \<noteq> NUL"
    using assms nth_mem by metis
  from cget_nonNUL_take [OF this]
  have len: "length word \<le> length (cstr line)" and "take (length word) line = take (length word) (cstr line)"
    by auto
  show "take (length word) (cstr line) = word"
  proof (intro nth_equalityI)
    fix j
    assume "j < length (take (length word) (cstr line))"
    then show "take (length word) (cstr line) ! j = word ! j"
      using eq [of j] cget_cstr [of j line] by simp
  qed (use len in simp)
next
  assume eq: "take (length word) (cstr line) = word"
  then have "length word \<le> length (cstr line)" by (metis length_take min.cobounded1)
  then have "cget line j = cget word j" if "j < length word" for j
    using that eq cget_cstr [of j line] by (metis cget_def nth_take order.strict_trans2)
  then show "memcmp line word (length word) = 0" by (simp add: memcmp_0_iff)
qed

section \<open>What strcmp orders\<close>

definition char_less :: "(char \<times> char) set" where
  "char_less = {(x, y). uchar x < uchar y}"

lemma strcmp_Cons_eq [simp]: "c \<noteq> NUL \<Longrightarrow> strcmp (c # a) (c # b) = strcmp a b"
  by (simp add: strcmp.simps [of "c # a"])

lemma strcmp_stop:
  "\<not> (cget a 0 \<noteq> NUL \<and> cget a 0 = cget b 0) \<Longrightarrow> strcmp a b = uchar (cget a 0) - uchar (cget b 0)"
  by (subst strcmp.simps) argo

lemma uchar_NUL: "uchar NUL = 0"
  by (simp add: uchar_def)

lemma uchar_nonneg: "0 \<le> uchar c"
  by (simp add: uchar_def)

lemma uchar_pos: "c \<noteq> NUL \<Longrightarrow> 0 < uchar c"
  using uchar_eq_iff [of c NUL] uchar_nonneg [of c] by (simp add: uchar_NUL)

lemma strcmp_less_iff: "strcmp a b < 0 \<longleftrightarrow> (cstr a, cstr b) \<in> lexord char_less"
proof (induction a b rule: strcmp.induct)
  case (1 a b)
  show ?case
  proof (cases "cget a 0 \<noteq> NUL \<and> cget a 0 = cget b 0")
    case True
    then obtain c a' b' where ab: "a = c # a'" "b = c # b'" "c \<noteq> NUL"
      by (cases a; cases b) auto
    with "1.IH" [OF True] show ?thesis by (simp add: cstr_Cons char_less_def)
  next
    case False
    then have s: "strcmp a b = uchar (cget a 0) - uchar (cget b 0)" by (rule strcmp_stop)
    show ?thesis
    proof (cases "cget a 0 = NUL")
      case True
      then have "cstr a = []" by (simp add: cstr_eq_Nil_iff)
      then show ?thesis
        using True s uchar_pos [of "cget b 0"] uchar_NUL cstr_eq_Nil_iff [of b]
        by (cases "cget b 0 = NUL") (auto simp: neq_Nil_conv)
    next
      case nz: False
      then obtain c a' where a: "a = c # a'" "c \<noteq> NUL" by (cases a) auto
      show ?thesis
      proof (cases b)
        case Nil
        then show ?thesis using s a uchar_nonneg [of c] by (simp add: uchar_NUL)
      next
        case (Cons d b')
        then show ?thesis
          using s a False uchar_nonneg [of c] by (auto simp: cstr_Cons char_less_def uchar_NUL)
      qed
    qed
  qed
qed

lemma strcmp_antisym: "strcmp b a = - strcmp a b"
proof (induction a b rule: strcmp.induct)
  case (1 a b)
  show ?case
  proof (cases "cget a 0 \<noteq> NUL \<and> cget a 0 = cget b 0")
    case True
    then have "strcmp a b = strcmp (tl a) (tl b)" "strcmp b a = strcmp (tl b) (tl a)"
      by (subst strcmp.simps, simp)+
    with "1.IH" [OF True] show ?thesis by simp
  next
    case False
    then show ?thesis using strcmp_stop [of a b] strcmp_stop [of b a] by auto
  qed
qed

end
