(* ===== verification/Kheap.thy ===== *)
theory Kheap
  imports WordLib
begin

text \<open>
  The bump allocator of \<open>memory/kheap.c\<close>: its four static variables as a
  record, one definition per function.  Memory is a map from addresses to
  bytes; the linker symbol \<open>__kernel_end\<close> is the parameter \<open>kernel_end\<close>.
\<close>

record heap =
  heap_start :: u64
  heap_current :: u64
  heap_end :: u64
  allocation_count :: u64

record kheap_stats =
  hs_heap_start :: u64
  hs_heap_current :: u64
  hs_heap_end :: u64
  hs_bytes_used :: u64
  hs_allocation_count :: u64

type_synonym memory = "u64 \<Rightarrow> u8"

definition KHEAP_SIZE_BYTES :: u64 where "KHEAP_SIZE_BYTES = 1024 * 1024"
definition KHEAP_ALIGNMENT :: u64 where "KHEAP_ALIGNMENT = 16"

definition align_up :: "u64 \<Rightarrow> u64 \<Rightarrow> u64" where
  "align_up value alignment = (value + alignment - 1) AND NOT (alignment - 1)"

definition kheap_init :: "u64 \<Rightarrow> heap" where
  "kheap_init kernel_end =
     (let start = align_up kernel_end 4096 in
      \<lparr>heap_start = start, heap_current = start, heap_end = start + KHEAP_SIZE_BYTES,
       allocation_count = 0\<rparr>)"

definition kmalloc :: "u64 \<Rightarrow> heap \<Rightarrow> u64 \<times> heap" where
  "kmalloc sz h =
     (if sz = 0 then (0, h)
      else
        let allocation = align_up (heap_current h) KHEAP_ALIGNMENT;
            nxt = allocation + sz
        in if nxt < allocation \<or> nxt > heap_end h then (0, h)
           else (allocation,
                 h\<lparr>heap_current := nxt, allocation_count := allocation_count h + 1\<rparr>))"

text \<open>\<open>memset(ptr, 0, size)\<close> on the address space.\<close>

definition mem_clear :: "u64 \<Rightarrow> u64 \<Rightarrow> memory \<Rightarrow> memory" where
  "mem_clear p sz m = (\<lambda>a. if a - p < sz then 0 else m a)"

definition kzalloc :: "u64 \<Rightarrow> heap \<Rightarrow> memory \<Rightarrow> u64 \<times> heap \<times> memory" where
  "kzalloc sz h m =
     (let (p, h') = kmalloc sz h
      in if p \<noteq> 0 then (p, h', mem_clear p sz m) else (p, h', m))"

definition kfree :: "u64 \<Rightarrow> heap \<Rightarrow> heap" where
  "kfree p h = h"

definition kheap_get_stats :: "heap \<Rightarrow> kheap_stats" where
  "kheap_get_stats h =
     \<lparr>hs_heap_start = heap_start h, hs_heap_current = heap_current h, hs_heap_end = heap_end h,
      hs_bytes_used = heap_current h - heap_start h,
      hs_allocation_count = allocation_count h\<rparr>"

definition kheap_self_test :: "heap \<Rightarrow> memory \<Rightarrow> int \<times> heap \<times> memory" where
  "kheap_self_test h m =
     (let (a, h1) = kmalloc 32 h;
          (b, h2, m1) = kzalloc 64 h1 m
      in if a = 0 \<or> b = 0 then (0, h2, m1)
         else if a mod KHEAP_ALIGNMENT \<noteq> 0 \<or> b mod KHEAP_ALIGNMENT \<noteq> 0 then (0, h2, m1)
         else if b \<le> a then (0, h2, m1)
         else if list_ex (\<lambda>i. m1 (b + of_nat i) \<noteq> 0) [0..<64] then (0, h2, m1)
         else
           let m2 = m1(a := 0xA5, a + 31 := 0x5A)
           in (if m2 a = 0xA5 \<and> m2 (a + 31) = 0x5A then 1 else 0, h2, m2))"

section \<open>Alignment\<close>

lemma unat_align_up:
  assumes "al - 1 = mask n" and "n < 64" and "unat v + 2 ^ n \<le> 2 ^ 64"
  shows "unat (align_up v al) = (unat v + 2 ^ n - 1) div 2 ^ n * 2 ^ n"
proof -
  have un: "unat (mask n :: u64) = 2 ^ n - 1" using assms(2) by (simp add: unat_mask)
  have "(1::nat) \<le> 2 ^ n" by simp
  then have "unat (v + mask n) = unat v + 2 ^ n - 1"
    using un assms(3) by (subst unat_add_nowrap) (simp_all del: one_le_power)
  moreover have "v + al - 1 = v + mask n" using assms(1) by (metis add_diff_eq)
  ultimately show ?thesis
    unfolding align_up_def assms(1) and_not_mask unat_clear_low_bits by metis
qed

lemma alignment_mask: "(KHEAP_ALIGNMENT - 1 :: u64) = mask 4" "(4096 - 1 :: u64) = mask 12"
  by (simp_all add: KHEAP_ALIGNMENT_def mask_eq_exp_minus_1)

lemma unat_align_16:
  assumes "unat v + 16 \<le> 2 ^ 64"
  shows "unat v \<le> unat (align_up v KHEAP_ALIGNMENT)"
    and "unat (align_up v KHEAP_ALIGNMENT) \<le> unat v + 15"
    and "16 dvd unat (align_up v KHEAP_ALIGNMENT)"
proof -
  have "unat (align_up v KHEAP_ALIGNMENT) = (unat v + 16 - 1) div 16 * 16"
    using unat_align_up [OF alignment_mask(1), of v] assms by simp
  then show "unat v \<le> unat (align_up v KHEAP_ALIGNMENT)"
    and "unat (align_up v KHEAP_ALIGNMENT) \<le> unat v + 15"
    and "16 dvd unat (align_up v KHEAP_ALIGNMENT)"
    using round_up_bounds [of 16 "unat v"] by simp_all
qed

lemma align_16_id: "16 dvd unat v \<Longrightarrow> unat v + 16 \<le> 2 ^ 64 \<Longrightarrow> align_up v KHEAP_ALIGNMENT = v"
  using unat_align_up [OF alignment_mask(1), of v] by (intro word_eq_unatI) auto

section \<open>The heap invariant\<close>

text \<open>The arena lies inside the address space, above address 0, with a page to spare.\<close>

definition heap_ok :: "heap \<Rightarrow> bool" where
  "heap_ok h \<longleftrightarrow>
     0 < unat (heap_start h) \<and>
     unat (heap_start h) \<le> unat (heap_current h) \<and>
     unat (heap_current h) \<le> unat (heap_end h) \<and>
     unat (heap_end h) = unat (heap_start h) + 1048576 \<and>
     unat (heap_end h) + 4096 \<le> 2 ^ 64"

lemma heap_ok_kheap_init:
  assumes "0 < kernel_end" and "unat kernel_end + 1060864 \<le> 2 ^ 64"
  shows "heap_ok (kheap_init kernel_end)"
proof -
  let ?s = "align_up kernel_end 4096"
  have "unat ?s = (unat kernel_end + 4096 - 1) div 4096 * 4096"
    using unat_align_up [OF alignment_mask(2), of kernel_end] assms(2) by simp
  then have s: "unat kernel_end \<le> unat ?s" "unat ?s \<le> unat kernel_end + 4095"
    using round_up_bounds [of 4096 "unat kernel_end"] by simp_all
  moreover have "unat (?s + KHEAP_SIZE_BYTES) = unat ?s + 1048576"
    using s assms(2) by (subst unat_add_nowrap) (simp_all add: KHEAP_SIZE_BYTES_def)
  moreover have "0 < unat kernel_end" using assms(1) by (simp add: word_less_nat_alt)
  ultimately show ?thesis
    using assms(2) by (simp add: heap_ok_def kheap_init_def Let_def)
qed

lemma kmalloc_success:
  assumes ok: "heap_ok h" and k: "kmalloc sz h = (p, h')" and p: "p \<noteq> 0"
  shows "16 dvd unat p" and "unat (heap_current h) \<le> unat p"
    and "unat p \<le> unat (heap_current h) + 15"
    and "unat p + unat sz \<le> unat (heap_end h)"
    and "0 < unat sz"
    and "unat (heap_current h') = unat p + unat sz"
    and "heap_ok h'" and "heap_start h' = heap_start h" and "heap_end h' = heap_end h"
    and "allocation_count h' = allocation_count h + 1"
proof -
  let ?a = "align_up (heap_current h) KHEAP_ALIGNMENT"
  have fits: "unat (heap_current h) + 16 \<le> 2 ^ 64" using ok by (simp add: heap_ok_def)
  note al = unat_align_16 [OF fits]
  have sz: "sz \<noteq> 0" and pa: "p = ?a"
    and nowrap: "\<not> ?a + sz < ?a" and le: "\<not> ?a + sz > heap_end h"
    and h': "h' = h\<lparr>heap_current := ?a + sz, allocation_count := allocation_count h + 1\<rparr>"
    using k p by (auto simp: kmalloc_def Let_def split: if_splits)
  have "unat ?a + unat sz < 2 ^ 64"
    using nowrap by (simp add: word_add_less_iff)
  then have sum: "unat (?a + sz) = unat ?a + unat sz" by (intro unat_add_nowrap) simp
  show "16 dvd unat p" "unat (heap_current h) \<le> unat p" "unat p \<le> unat (heap_current h) + 15"
    using al pa by simp_all
  show end_le: "unat p + unat sz \<le> unat (heap_end h)"
    using le sum pa by (simp add: not_less word_le_nat_alt)
  show "0 < unat sz" using sz by (simp add: unat_gt_0)
  show "unat (heap_current h') = unat p + unat sz" using h' sum pa by simp
  show "heap_ok h'" using ok h' end_le sum al pa by (simp add: heap_ok_def)
  show "heap_start h' = heap_start h" "heap_end h' = heap_end h"
    "allocation_count h' = allocation_count h + 1" using h' by simp_all
qed

lemma kmalloc_fail: "kmalloc sz h = (0, h') \<Longrightarrow> heap_ok h \<Longrightarrow> h' = h"
proof -
  assume k: "kmalloc sz h = (0, h')" and ok: "heap_ok h"
  have fits: "unat (heap_current h) + 16 \<le> 2 ^ 64" using ok by (simp add: heap_ok_def)
  have "unat (align_up (heap_current h) KHEAP_ALIGNMENT) \<noteq> 0"
    using unat_align_16 [OF fits] ok by (simp add: heap_ok_def)
  then have "align_up (heap_current h) KHEAP_ALIGNMENT \<noteq> 0" by auto
  with k show "h' = h" by (auto simp: kmalloc_def Let_def split: if_splits)
qed

lemma kmalloc_heap_ok: "heap_ok h \<Longrightarrow> kmalloc sz h = (p, h') \<Longrightarrow> heap_ok h'"
  using kmalloc_success(7) kmalloc_fail by (cases "p = 0") blast+

section \<open>Runs of allocations\<close>

text \<open>The blocks handed out by a sequence of requests, in order; failed requests give none.\<close>

fun kmalloc_run :: "u64 list \<Rightarrow> heap \<Rightarrow> (u64 \<times> u64) list \<times> heap" where
  "kmalloc_run [] h = ([], h)"
| "kmalloc_run (sz # szs) h =
     (let (p, h1) = kmalloc sz h; (bs, h2) = kmalloc_run szs h1
      in (if p = 0 then bs else (p, sz) # bs, h2))"

definition block_in :: "heap \<Rightarrow> u64 \<times> u64 \<Rightarrow> bool" where
  "block_in h b \<longleftrightarrow>
     16 dvd unat (fst b) \<and> unat (heap_start h) \<le> unat (fst b) \<and>
     unat (fst b) + unat (snd b) \<le> unat (heap_end h)"

lemma kmalloc_run_blocks:
  assumes "heap_ok h" and "kmalloc_run szs h = (bs, h')"
  shows "heap_ok h'" and "heap_start h' = heap_start h" and "heap_end h' = heap_end h"
    and "\<forall>b \<in> set bs. block_in h b \<and> unat (heap_current h) \<le> unat (fst b)"
    and "sorted_wrt (\<lambda>b c. unat (fst b) + unat (snd b) \<le> unat (fst c)) bs"
proof -
  have "heap_ok h' \<and> heap_start h' = heap_start h \<and> heap_end h' = heap_end h \<and>
    (\<forall>b \<in> set bs. block_in h b \<and> unat (heap_current h) \<le> unat (fst b)) \<and>
    sorted_wrt (\<lambda>b c. unat (fst b) + unat (snd b) \<le> unat (fst c)) bs"
    using assms
  proof (induction szs arbitrary: h bs)
    case (Cons sz szs)
    obtain p h1 where k: "kmalloc sz h = (p, h1)" by (cases "kmalloc sz h")
    obtain bs1 h2 where r: "kmalloc_run szs h1 = (bs1, h2)" by (cases "kmalloc_run szs h1")
    have ok1: "heap_ok h1" using kmalloc_heap_ok [OF Cons.prems(1) k] .
    have h': "h' = h2" and bs: "bs = (if p = 0 then bs1 else (p, sz) # bs1)"
      using Cons.prems(2) k r by auto
    note IH = Cons.IH [OF ok1 r [folded h']]
    show ?case
    proof (cases "p = 0")
      case True
      then have "h1 = h" using kmalloc_fail k Cons.prems(1) by blast
      with IH True bs show ?thesis by simp
    next
      case False
      note s = kmalloc_success [OF Cons.prems(1) k False]
      have "unat (heap_start h) \<le> unat (heap_current h)"
        using Cons.prems(1) by (simp add: heap_ok_def)
      with s have "block_in h (p, sz)" by (simp add: block_in_def)
      moreover have "block_in h b \<longleftrightarrow> block_in h1 b" for b using s by (simp add: block_in_def)
      ultimately show ?thesis
        using IH False bs s by (auto dest: order_trans [rotated]) 
    qed
  qed simp
  then show "heap_ok h'" and "heap_start h' = heap_start h" and "heap_end h' = heap_end h"
    and "\<forall>b \<in> set bs. block_in h b \<and> unat (heap_current h) \<le> unat (fst b)"
    and "sorted_wrt (\<lambda>b c. unat (fst b) + unat (snd b) \<le> unat (fst c)) bs"
    by blast+
qed

section \<open>Properties\<close>

text \<open>C8. Whatever sequence of requests the kernel makes after \<open>kheap_init\<close>, the blocks
  \<open>kmalloc\<close> hands out are 16-byte aligned, lie inside the 1 MiB arena above
  \<open>__kernel_end\<close>, and no two of them share a byte.\<close>

theorem kmalloc_blocks_disjoint:
  assumes "0 < kernel_end" and "unat kernel_end + 1060864 \<le> 2 ^ 64"
    and "kmalloc_run szs (kheap_init kernel_end) = (bs, h)"
  shows "(\<forall>b \<in> set bs. 16 dvd unat (fst b) \<and> unat kernel_end \<le> unat (fst b) \<and>
            unat (fst b) + unat (snd b) \<le> unat (heap_start h) + 1048576) \<and>
         (\<forall>i < length bs. \<forall>j < length bs. i \<noteq> j \<longrightarrow>
            {unat (fst (bs ! i)) ..< unat (fst (bs ! i)) + unat (snd (bs ! i))} \<inter>
            {unat (fst (bs ! j)) ..< unat (fst (bs ! j)) + unat (snd (bs ! j))} = {})"
proof -
  let ?h0 = "kheap_init kernel_end"
  have ok: "heap_ok ?h0" using assms(1,2) by (rule heap_ok_kheap_init)
  note run = kmalloc_run_blocks [OF ok assms(3)]
  have start: "unat kernel_end \<le> unat (heap_start ?h0)"
    using unat_align_up [OF alignment_mask(2), of kernel_end] assms(2)
      round_up_bounds [of 4096 "unat kernel_end"]
    by (simp add: kheap_init_def Let_def)
  have "unat (heap_end ?h0) = unat (heap_start ?h0) + 1048576" using ok by (simp add: heap_ok_def)
  then have 1: "\<forall>b \<in> set bs. 16 dvd unat (fst b) \<and> unat kernel_end \<le> unat (fst b) \<and>
            unat (fst b) + unat (snd b) \<le> unat (heap_start h) + 1048576"
    using run start by (fastforce simp: block_in_def)
  have before: "unat (fst (bs ! i)) + unat (snd (bs ! i)) \<le> unat (fst (bs ! j))"
    if "i < j" "j < length bs" for i j
    using run(5) that by (simp add: sorted_wrt_iff_nth_less)
  have "{unat (fst (bs ! i)) ..< unat (fst (bs ! i)) + unat (snd (bs ! i))} \<inter>
        {unat (fst (bs ! j)) ..< unat (fst (bs ! j)) + unat (snd (bs ! j))} = {}"
    if "i < length bs" "j < length bs" "i \<noteq> j" for i j
    using before [of i j] before [of j i] that by (cases "i < j") auto
  with 1 show ?thesis by blast
qed

theorem kmalloc_blocks_disjoint_witness:
  "kmalloc_run [100, 0, 32] (kheap_init 0x200000) =
     ([(0x200000, 100), (0x200070, 32)],
      \<lparr>heap_start = 0x200000, heap_current = 0x200090, heap_end = 0x300000,
       allocation_count = 2\<rparr>) \<and>
   {unat (0x200000 :: u64) ..< unat (0x200000 :: u64) + unat (100 :: u64)} \<inter>
   {unat (0x200070 :: u64) ..< unat (0x200070 :: u64) + unat (32 :: u64)} = {}"
proof -
  have run: "kmalloc_run [100, 0, 32] (kheap_init 0x200000) =
     ([(0x200000, 100), (0x200070, 32)],
      \<lparr>heap_start = 0x200000, heap_current = 0x200090, heap_end = 0x300000,
       allocation_count = 2\<rparr>)"
    by code_simp
  have "(0 :: u64) < 0x200000" and "unat (0x200000 :: u64) + 1060864 \<le> 2 ^ 64" by simp_all
  from kmalloc_blocks_disjoint [OF this run]
  have "{unat (fst (bs ! 0)) ..< unat (fst (bs ! 0)) + unat (snd (bs ! 0))} \<inter>
        {unat (fst (bs ! 1)) ..< unat (fst (bs ! 1)) + unat (snd (bs ! 1))} = {}"
    if "bs = [(0x200000, 100), (0x200070, 32)]" for bs :: "(u64 \<times> u64) list"
    using that by (metis One_nat_def Suc_1 length_Cons lessI list.size(3) zero_less_Suc zero_neq_one)
  from this [OF refl] run show ?thesis by simp
qed

text \<open>From a sound heap \<open>kmalloc\<close> refuses a request exactly when it is for 0 bytes or the
  aligned cursor plus the size, as natural numbers and hence without wrap-around, passes the
  end of the arena; a refused request leaves the heap as it was.\<close>

theorem kmalloc_refuses_exactly:
  assumes "heap_ok h"
  shows "(fst (kmalloc sz h) = 0 \<longleftrightarrow>
            unat sz = 0 \<or>
            (unat (heap_current h) + 15) div 16 * 16 + unat sz > unat (heap_end h)) \<and>
         (fst (kmalloc sz h) = 0 \<longrightarrow> snd (kmalloc sz h) = h)"
proof -
  let ?a = "align_up (heap_current h) KHEAP_ALIGNMENT"
  have fits: "unat (heap_current h) + 16 \<le> 2 ^ 64" using assms by (simp add: heap_ok_def)
  have a: "unat ?a = (unat (heap_current h) + 15) div 16 * 16"
    using unat_align_up [OF alignment_mask(1), of "heap_current h"] fits by simp
  have nz: "?a \<noteq> 0"
    using unat_align_16 [OF fits] assms by (auto simp: heap_ok_def)
  have "(?a + sz < ?a \<or> ?a + sz > heap_end h) \<longleftrightarrow> unat ?a + unat sz > unat (heap_end h)"
  proof (cases "unat ?a + unat sz < 2 ^ 64")
    case True
    then show ?thesis
      using unat_add_nowrap [of ?a sz] word_add_less_iff [of ?a sz]
      by (simp add: word_less_nat_alt)
  next
    case False
    then show ?thesis
      using word_add_less_iff [of ?a sz] assms by (auto simp: heap_ok_def)
  qed
  then have 1: "fst (kmalloc sz h) = 0 \<longleftrightarrow>
      unat sz = 0 \<or> (unat (heap_current h) + 15) div 16 * 16 + unat sz > unat (heap_end h)"
    using nz a by (auto simp: kmalloc_def Let_def unat_0_iff)
  have "fst (kmalloc sz h) = 0 \<longrightarrow> snd (kmalloc sz h) = h"
    using kmalloc_fail [OF _ assms] by (metis prod.collapse)
  with 1 show ?thesis by blast
qed

theorem kmalloc_refuses_exactly_witness:
  "heap_ok (kheap_init 0x200000) \<and> fst (kmalloc 0x100001 (kheap_init 0x200000)) = 0"
proof -
  have ok: "heap_ok (kheap_init 0x200000)" by (rule heap_ok_kheap_init) simp_all
  have "heap_current (kheap_init 0x200000) = 0x200000" "heap_end (kheap_init 0x200000) = 0x300000"
    by code_simp+
  with ok kmalloc_refuses_exactly [OF ok, of "0x100001"] show ?thesis by simp
qed

text \<open>The boot-time self test passes on every freshly initialised heap, whatever the memory
  held before: both blocks are aligned, ordered, the zeroed one reads as zero and the written
  one reads back.\<close>

theorem kheap_self_test_passes:
  assumes "0 < kernel_end" and "unat kernel_end + 1060864 \<le> 2 ^ 64"
  shows "fst (kheap_self_test (kheap_init kernel_end) m) = 1"
proof -
  let ?h0 = "kheap_init kernel_end"
  let ?s = "heap_start ?h0"
  have ok: "heap_ok ?h0" using assms by (rule heap_ok_kheap_init)
  have cur: "heap_current ?h0 = ?s" by (simp add: kheap_init_def Let_def)
  have us: "unat ?s = (unat kernel_end + 4095) div 4096 * 4096"
    using unat_align_up [OF alignment_mask(2), of kernel_end] assms
    by (simp add: kheap_init_def Let_def)
  have lim: "0 < unat ?s" "unat (heap_end ?h0) = unat ?s + 1048576"
    "unat (heap_end ?h0) + 4096 \<le> 2 ^ 64"
    using ok by (auto simp: heap_ok_def)
  have d: "16 dvd unat ?s" unfolding us by (rule dvd_mult) simp
  have al: "align_up ?s KHEAP_ALIGNMENT = ?s" using d lim by (intro align_16_id) simp_all
  have nz: "?s \<noteq> 0" using lim by auto
  have s32: "unat (?s + 32) = unat ?s + 32" using lim by (subst unat_add_nowrap) simp_all
  have s96: "unat (?s + 32 + 64) = unat ?s + 96"
    using lim s32 by (subst unat_add_nowrap) simp_all
  have k1: "kmalloc 32 ?h0 = (?s, ?h0\<lparr>heap_current := ?s + 32,
      allocation_count := allocation_count ?h0 + 1\<rparr>)"
    using cur al lim s32 by (simp add: kmalloc_def Let_def word_less_nat_alt)
  have al2: "align_up (?s + 32) KHEAP_ALIGNMENT = ?s + 32"
    using d lim s32 by (intro align_16_id) simp_all
  have nz2: "?s + 32 \<noteq> 0" using s32 by (metis add_is_0 unat_0 zero_neq_numeral)
  let ?h1 = "?h0\<lparr>heap_current := ?s + 32, allocation_count := allocation_count ?h0 + 1\<rparr>"
  have k2: "fst (kmalloc 64 ?h1) = ?s + 32"
    using al2 lim s32 s96 by (simp add: kmalloc_def Let_def word_less_nat_alt)
  obtain h2 where k2': "kmalloc 64 ?h1 = (?s + 32, h2)" using k2 by (metis prod.collapse)
  have mods: "?s mod KHEAP_ALIGNMENT = 0" "(?s + 32) mod KHEAP_ALIGNMENT = 0"
    using d s32 by (simp_all add: KHEAP_ALIGNMENT_def word_arith_nat_mod)
  have lt: "\<not> ?s + 32 \<le> ?s" using s32 by (simp add: word_le_nat_alt)
  have "(of_nat i :: u64) < 64" if "i < 64" for i :: nat
    using that by (simp add: word_less_nat_alt unat_of_nat take_bit_nat_eq_self)
  then have zero: "\<not> list_ex (\<lambda>i. mem_clear (?s + 32) 64 m (?s + 32 + of_nat i) \<noteq> 0) [0..<64]"
    by (simp add: list_ex_iff mem_clear_def)
  have z: "kzalloc 64 ?h1 m = (?s + 32, h2, mem_clear (?s + 32) 64 m)"
    using k2' nz2 by (simp add: kzalloc_def)
  show ?thesis
    unfolding kheap_self_test_def k1 prod.case Let_def z
    using nz nz2 mods lt zero by simp
qed

theorem kheap_self_test_passes_witness:
  "fst (kheap_self_test (kheap_init 0x345678) (\<lambda>_. 7)) = 1"
  by (rule kheap_self_test_passes) simp_all

end
