(* ===== verification/Calc.thy ===== *)
theory Calc
  imports Prelude "HOL-Library.Signed_Division"
begin

text \<open>
  The integer expression evaluator of \<open>kernel/calc/calc.c\<close>: a recursive
  descent parser that evaluates while it reads.  Pointers into the expression
  are suffixes of the character list.  A call ends in a value with the advanced
  pointer (\<open>return 0\<close>), in \<open>Fail\<close> (\<open>return -1\<close>) or in \<open>Undef\<close>, where the C code
  runs into undefined behaviour of 64-bit signed arithmetic (overflow, or
  dividing the smallest value by -1).  The mutual recursion carries fuel;
  \<open>calc_fuel_enough\<close> shows that the fuel \<open>calc_evaluate\<close> passes is never
  exhausted.
\<close>

datatype 'a cres = Val 'a | Fail | Undef | NoFuel

fun cbind :: "'a cres \<Rightarrow> ('a \<Rightarrow> 'b cres) \<Rightarrow> 'b cres" where
  "cbind (Val a) f = f a"
| "cbind Fail f = Fail"
| "cbind Undef f = Undef"
| "cbind NoFuel f = NoFuel"

definition int64 :: "int \<Rightarrow> int cres" where
  "int64 v = (if - (2 ^ 63) \<le> v \<and> v < 2 ^ 63 then Val v else Undef)"

section \<open>The parser\<close>

fun calc_skip_spaces :: "char list \<Rightarrow> char list" where
  "calc_skip_spaces [] = []"
| "calc_skip_spaces (c # s) = (if c = CHR '' '' then calc_skip_spaces s else c # s)"

definition is_digit :: "char \<Rightarrow> bool" where
  "is_digit c \<longleftrightarrow> uchar (CHR ''0'') \<le> uchar c \<and> uchar c \<le> uchar (CHR ''9'')"

fun calc_number_loop :: "int \<Rightarrow> nat \<Rightarrow> char list \<Rightarrow> (int \<times> nat \<times> char list) cres" where
  "calc_number_loop value digit_count [] = Val (value, digit_count, [])"
| "calc_number_loop value digit_count (c # p) =
     (if is_digit c then
        cbind (int64 (value * 10)) (\<lambda>t.
        cbind (int64 (t + (uchar c - uchar (CHR ''0'')))) (\<lambda>value'.
        calc_number_loop value' (digit_count + 1) p))
      else Val (value, digit_count, c # p))"

definition calc_parse_number :: "char list \<Rightarrow> (int \<times> char list) cres" where
  "calc_parse_number s =
     (let p = calc_skip_spaces s in
      if \<not> is_digit (cget p 0) then Fail
      else cbind (calc_number_loop 0 0 p) (\<lambda>(value, digit_count, q).
        if digit_count = 0 then Fail else Val (value, q)))"

definition calc_apply_op :: "int \<Rightarrow> int \<Rightarrow> char \<Rightarrow> int cres" where
  "calc_apply_op left right opc =
     (if opc = CHR ''+'' then int64 (left + right)
      else if opc = CHR ''-'' then int64 (left - right)
      else if opc = CHR ''*'' then int64 (left * right)
      else if opc = CHR ''/'' then
        if right = 0 then Fail else int64 (left sdiv right)
      else if opc = CHR ''%'' then
        if right = 0 then Fail
        else cbind (int64 (left sdiv right)) (\<lambda>_. Val (left smod right))
      else Fail)"

function calc_parse_factor :: "nat \<Rightarrow> char list \<Rightarrow> (int \<times> char list) cres"
  and calc_parse_term :: "nat \<Rightarrow> char list \<Rightarrow> (int \<times> char list) cres"
  and calc_term_loop :: "nat \<Rightarrow> int \<Rightarrow> char list \<Rightarrow> (int \<times> char list) cres"
  and calc_parse_expr :: "nat \<Rightarrow> char list \<Rightarrow> (int \<times> char list) cres"
  and calc_expr_loop :: "nat \<Rightarrow> int \<Rightarrow> char list \<Rightarrow> (int \<times> char list) cres"
where
  "calc_parse_factor 0 s = NoFuel"
| "calc_parse_factor (Suc n) s =
     (let p = calc_skip_spaces s in
      if cget p 0 = CHR ''('' then
        cbind (calc_parse_expr n (tl p)) (\<lambda>(inner, q).
          let q' = calc_skip_spaces q in
          if cget q' 0 \<noteq> CHR '')'' then Fail else Val (inner, tl q'))
      else if cget p 0 = CHR ''+'' \<or> cget p 0 = CHR ''-'' then
        cbind (calc_parse_factor n (tl p)) (\<lambda>(v, q).
          if cget p 0 = CHR ''-'' then cbind (int64 (- v)) (\<lambda>v'. Val (v', q))
          else Val (v, q))
      else calc_parse_number p)"
| "calc_parse_term 0 s = NoFuel"
| "calc_parse_term (Suc n) s =
     cbind (calc_parse_factor n s) (\<lambda>(left, p). calc_term_loop n left p)"
| "calc_term_loop 0 left p = NoFuel"
| "calc_term_loop (Suc n) left p =
     (let q = calc_skip_spaces p; opc = cget q 0 in
      if opc \<noteq> CHR ''*'' \<and> opc \<noteq> CHR ''/'' \<and> opc \<noteq> CHR ''%'' then Val (left, q)
      else cbind (calc_parse_factor n (tl q)) (\<lambda>(right, r).
        cbind (calc_apply_op left right opc) (\<lambda>left'. calc_term_loop n left' r)))"
| "calc_parse_expr 0 s = NoFuel"
| "calc_parse_expr (Suc n) s =
     cbind (calc_parse_term n s) (\<lambda>(left, p). calc_expr_loop n left p)"
| "calc_expr_loop 0 left p = NoFuel"
| "calc_expr_loop (Suc n) left p =
     (let q = calc_skip_spaces p; opc = cget q 0 in
      if opc \<noteq> CHR ''+'' \<and> opc \<noteq> CHR ''-'' then Val (left, q)
      else cbind (calc_parse_term n (tl q)) (\<lambda>(right, r).
        cbind (calc_apply_op left right opc) (\<lambda>left'. calc_expr_loop n left' r)))"
  by pat_completeness simp_all
termination
  by (relation "measure (\<lambda>x. case x of
      Inl (Inl (n, _)) \<Rightarrow> n | Inl (Inr (n, _)) \<Rightarrow> n
    | Inr (Inl (n, _)) \<Rightarrow> n | Inr (Inr (Inl (n, _))) \<Rightarrow> n | Inr (Inr (Inr (n, _))) \<Rightarrow> n)")
    simp_all

definition calc_fuel :: "char list \<Rightarrow> nat" where
  "calc_fuel s = 3 * length s + 3"

text \<open>\<open>None\<close> is the null pointer the function rejects.\<close>

definition calc_evaluate :: "char list option \<Rightarrow> int cres" where
  "calc_evaluate expression =
     (case expression of
        None \<Rightarrow> Fail
      | Some s \<Rightarrow>
          cbind (calc_parse_expr (calc_fuel s) s) (\<lambda>(v, p).
            if cget (calc_skip_spaces p) 0 \<noteq> NUL then Fail else Val v))"

section \<open>Fuel\<close>

lemma cbind_eq_Val: "cbind m f = Val b \<longleftrightarrow> (\<exists>a. m = Val a \<and> f a = Val b)"
  by (cases m) auto

lemma cbind_eq_NoFuel: "cbind m f = NoFuel \<longleftrightarrow> m = NoFuel \<or> (\<exists>a. m = Val a \<and> f a = NoFuel)"
  by (cases m) auto

lemma cbind_assoc: "cbind (cbind m f) g = cbind m (\<lambda>a. cbind (f a) g)"
  by (cases m) auto

lemma int64_not_NoFuel [simp]: "int64 v \<noteq> NoFuel"
  by (simp add: int64_def)

lemma apply_op_not_NoFuel [simp]: "calc_apply_op l r c \<noteq> NoFuel"
  by (auto simp: calc_apply_op_def cbind_eq_NoFuel)

lemma number_loop_not_NoFuel [simp]: "calc_number_loop v d p \<noteq> NoFuel"
  by (induction v d p rule: calc_number_loop.induct) (auto simp: cbind_eq_NoFuel)

lemma parse_number_not_NoFuel [simp]: "calc_parse_number s \<noteq> NoFuel"
  by (auto simp: calc_parse_number_def Let_def cbind_eq_NoFuel split: if_splits)

lemma length_skip_spaces: "length (calc_skip_spaces s) \<le> length s"
  by (induction s) auto

lemma number_loop_length: "calc_number_loop v d p = Val (v', d', q) \<Longrightarrow> length q \<le> length p"
  by (induction v d p arbitrary: v' d' q rule: calc_number_loop.induct)
    (auto simp: cbind_eq_Val split: if_splits intro: le_SucI)

lemma parse_number_length: "calc_parse_number s = Val (v, q) \<Longrightarrow> length q < length s"
proof -
  assume a: "calc_parse_number s = Val (v, q)"
  let ?p = "calc_skip_spaces s"
  from a obtain d where d: "is_digit (cget ?p 0)" and l: "calc_number_loop 0 0 ?p = Val (v, d, q)"
    by (auto simp: calc_parse_number_def Let_def cbind_eq_Val split: if_splits)
  from d obtain c p where p: "?p = c # p" by (cases ?p) (auto simp: is_digit_def uchar_def)
  with l d have "length q \<le> length p"
    by (auto simp: cbind_eq_Val dest!: number_loop_length)
  with p length_skip_spaces [of s] show ?thesis by simp
qed

lemma tl_shorter: "cget p 0 \<noteq> NUL \<Longrightarrow> length (tl p) < length p"
  by (cases p) auto

lemma tl_skip_shorter: "cget (calc_skip_spaces s) 0 \<noteq> NUL \<Longrightarrow> length (tl (calc_skip_spaces s)) < length s"
  using tl_shorter length_skip_spaces [of s] by (metis order.strict_trans2)

lemmas calc_unfold =
  calc_parse_factor.simps calc_parse_term.simps calc_term_loop.simps
  calc_parse_expr.simps calc_expr_loop.simps

lemmas calc_induct =
  calc_parse_factor_calc_parse_term_calc_term_loop_calc_parse_expr_calc_expr_loop.induct

declare calc_unfold [simp del]

lemma cbind_mono:
  assumes "cbind m f \<noteq> NoFuel" and "m \<noteq> NoFuel \<Longrightarrow> m' = m"
    and "\<And>a. m = Val a \<Longrightarrow> f a \<noteq> NoFuel \<Longrightarrow> f' a = f a"
  shows "cbind m' f' = cbind m f"
  using assms by (cases m) auto

lemma fuel_step:
  shows "calc_parse_factor n s \<noteq> NoFuel \<Longrightarrow> calc_parse_factor (Suc n) s = calc_parse_factor n s"
    and "calc_parse_term n s \<noteq> NoFuel \<Longrightarrow> calc_parse_term (Suc n) s = calc_parse_term n s"
    and "calc_term_loop n l s \<noteq> NoFuel \<Longrightarrow> calc_term_loop (Suc n) l s = calc_term_loop n l s"
    and "calc_parse_expr n s \<noteq> NoFuel \<Longrightarrow> calc_parse_expr (Suc n) s = calc_parse_expr n s"
    and "calc_expr_loop n l s \<noteq> NoFuel \<Longrightarrow> calc_expr_loop (Suc n) l s = calc_expr_loop n l s"
proof (induction n s and n s and n l s and n s and n l s rule: calc_induct)
  case (2 n s)
  show ?case
    using "2.prems" "2.IH" [OF refl]
    unfolding calc_parse_factor.simps(2) [of "Suc n"] calc_parse_factor.simps(2) [of n] Let_def
    by (auto intro!: cbind_mono split: if_splits)
next
  case (4 n s)
  show ?case
    using "4.prems" "4.IH"
    unfolding calc_parse_term.simps(2) [of "Suc n"] calc_parse_term.simps(2) [of n]
    by (auto intro!: cbind_mono)
next
  case (6 n l s)
  show ?case
    using "6.prems" "6.IH" [OF refl refl]
    unfolding calc_term_loop.simps(2) [of "Suc n"] calc_term_loop.simps(2) [of n] Let_def
    by (auto intro!: cbind_mono split: if_splits)
next
  case (8 n s)
  show ?case
    using "8.prems" "8.IH"
    unfolding calc_parse_expr.simps(2) [of "Suc n"] calc_parse_expr.simps(2) [of n]
    by (auto intro!: cbind_mono)
next
  case (10 n l s)
  show ?case
    using "10.prems" "10.IH" [OF refl refl]
    unfolding calc_expr_loop.simps(2) [of "Suc n"] calc_expr_loop.simps(2) [of n] Let_def
    by (auto intro!: cbind_mono split: if_splits)
qed (simp_all add: calc_unfold)

lemma expr_fuel_mono:
  "calc_parse_expr n s \<noteq> NoFuel \<Longrightarrow> n \<le> m \<Longrightarrow> calc_parse_expr m s = calc_parse_expr n s"
proof (induction m)
  case (Suc m)
  then show ?case using fuel_step(4) [of m s] by (cases "n = Suc m") (auto simp: le_Suc_eq)
qed simp

text \<open>The pointer only moves forward, past at least one character of a parsed construct.\<close>

lemma parse_shortens:
  shows "calc_parse_factor n s = Val (v, q) \<Longrightarrow> length q < length s"
    and "calc_parse_term n s = Val (v, q) \<Longrightarrow> length q < length s"
    and "calc_term_loop n l s = Val (v, q) \<Longrightarrow> length q \<le> length s"
    and "calc_parse_expr n s = Val (v, q) \<Longrightarrow> length q < length s"
    and "calc_expr_loop n l s = Val (v, q) \<Longrightarrow> length q \<le> length s"
proof (induction n s and n s and n l s and n s and n l s arbitrary: v q and v q and v q and v q and v q
    rule: calc_induct)
  case (2 n s)
  let ?p = "calc_skip_spaces s"
  have tl: "cget ?p 0 \<noteq> NUL \<Longrightarrow> length (tl ?p) < length s" by (rule tl_skip_shorter)
  consider (paren) "cget ?p 0 = CHR ''(''" | (sign) "cget ?p 0 = CHR ''+'' \<or> cget ?p 0 = CHR ''-''"
    | (num) "cget ?p 0 \<noteq> CHR ''(''" "\<not> (cget ?p 0 = CHR ''+'' \<or> cget ?p 0 = CHR ''-'')"
    by blast
  then show ?case
  proof cases
    case paren
    with "2.prems" obtain i q0 where e: "calc_parse_expr n (tl ?p) = Val (i, q0)"
      and q: "cget (calc_skip_spaces q0) 0 = CHR '')''" "q = tl (calc_skip_spaces q0)"
      by (auto simp: calc_unfold Let_def cbind_eq_Val split: if_splits)
    have "length q0 < length (tl ?p)" using "2.IH"(1) [OF refl paren] e by blast
    moreover have "length q < length q0" using q tl_skip_shorter [of q0] by simp
    ultimately show ?thesis using tl paren by simp
  next
    case sign
    with "2.prems" obtain v0 where e: "calc_parse_factor n (tl ?p) = Val (v0, q)"
      by (auto simp: calc_unfold Let_def cbind_eq_Val split: if_splits)
    have "length q < length (tl ?p)" using "2.IH"(2) [OF refl _ sign] e sign by auto
    then show ?thesis using tl sign by auto
  next
    case num
    with "2.prems" have "calc_parse_number ?p = Val (v, q)" by (simp add: calc_unfold Let_def)
    with length_skip_spaces [of s] show ?thesis using parse_number_length by fastforce
  qed
next
  case (4 n s)
  then show ?case by (fastforce simp: calc_unfold cbind_eq_Val)
next
  case (6 n l s)
  let ?q = "calc_skip_spaces s"
  show ?case
  proof (cases "cget ?q 0 = CHR ''*'' \<or> cget ?q 0 = CHR ''/'' \<or> cget ?q 0 = CHR ''%''")
    case True
    with "6.prems" obtain r rr l' where f: "calc_parse_factor n (tl ?q) = Val (r, rr)"
      and t: "calc_term_loop n l' rr = Val (v, q)"
      by (auto simp: calc_unfold Let_def cbind_eq_Val split: if_splits)
    have "length rr < length (tl ?q)" using "6.IH"(1) [OF refl refl] f True by auto
    moreover have "length q \<le> length rr" using "6.IH"(2) [OF refl refl] t True by auto
    moreover have "length (tl ?q) < length s" using True by (intro tl_skip_shorter) auto
    ultimately show ?thesis by simp
  next
    case False
    with "6.prems" show ?thesis using length_skip_spaces [of s] by (simp add: calc_unfold Let_def)
  qed
next
  case (8 n s)
  then show ?case by (fastforce simp: calc_unfold cbind_eq_Val)
next
  case (10 n l s)
  let ?q = "calc_skip_spaces s"
  show ?case
  proof (cases "cget ?q 0 = CHR ''+'' \<or> cget ?q 0 = CHR ''-''")
    case True
    with "10.prems" obtain r rr l' where f: "calc_parse_term n (tl ?q) = Val (r, rr)"
      and t: "calc_expr_loop n l' rr = Val (v, q)"
      by (auto simp: calc_unfold Let_def cbind_eq_Val split: if_splits)
    have "length rr < length (tl ?q)" using "10.IH"(1) [OF refl refl] f True by auto
    moreover have "length q \<le> length rr" using "10.IH"(2) [OF refl refl] t True by auto
    moreover have "length (tl ?q) < length s" using True by (intro tl_skip_shorter) auto
    ultimately show ?thesis by simp
  next
    case False
    with "10.prems" show ?thesis using length_skip_spaces [of s] by (simp add: calc_unfold Let_def)
  qed
qed (simp_all add: calc_unfold)

lemma enough_fuel:
  shows "3 * length s + 1 \<le> n \<Longrightarrow> calc_parse_factor n s \<noteq> NoFuel"
    and "3 * length s + 2 \<le> n \<Longrightarrow> calc_parse_term n s \<noteq> NoFuel"
    and "3 * length s + 1 \<le> n \<Longrightarrow> calc_term_loop n l s \<noteq> NoFuel"
    and "3 * length s + 3 \<le> n \<Longrightarrow> calc_parse_expr n s \<noteq> NoFuel"
    and "3 * length s + 1 \<le> n \<Longrightarrow> calc_expr_loop n l s \<noteq> NoFuel"
proof (induction n s and n s and n l s and n s and n l s rule: calc_induct)
  case (2 n s)
  let ?p = "calc_skip_spaces s"
  have "cget ?p 0 = CHR ''('' \<Longrightarrow> calc_parse_expr n (tl ?p) \<noteq> NoFuel"
    using "2.IH"(1) [OF refl] "2.prems" tl_skip_shorter [of s] by simp
  moreover have "cget ?p 0 = CHR ''+'' \<or> cget ?p 0 = CHR ''-'' \<Longrightarrow>
      calc_parse_factor n (tl ?p) \<noteq> NoFuel"
    using "2.IH"(2) [OF refl] "2.prems" tl_skip_shorter [of s] by auto
  ultimately show ?case
    by (auto simp: calc_unfold Let_def cbind_eq_NoFuel split: if_splits)
next
  case (4 n s)
  have "calc_parse_factor n s \<noteq> NoFuel" using "4.IH"(1) "4.prems" by simp
  moreover have "calc_term_loop n v q \<noteq> NoFuel" if "calc_parse_factor n s = Val (v, q)" for v q
    using "4.IH"(2) "4.prems" parse_shortens(1) [OF that] by simp
  ultimately show ?case by (auto simp: calc_unfold cbind_eq_NoFuel)
next
  case (6 n l s)
  let ?q = "calc_skip_spaces s"
  show ?case
  proof (cases "cget ?q 0 = CHR ''*'' \<or> cget ?q 0 = CHR ''/'' \<or> cget ?q 0 = CHR ''%''")
    case True
    then have short: "length (tl ?q) < length s" by (intro tl_skip_shorter) auto
    have "calc_parse_factor n (tl ?q) \<noteq> NoFuel"
      using "6.IH"(1) [OF refl refl] True "6.prems" short by auto
    moreover have "calc_term_loop n l' r \<noteq> NoFuel"
      if "calc_parse_factor n (tl ?q) = Val (v, r)" for v r l'
      using "6.IH"(2) [OF refl refl] True "6.prems" short parse_shortens(1) [OF that]
      by auto
    ultimately show ?thesis by (auto simp: calc_unfold Let_def cbind_eq_NoFuel split: if_splits)
  qed (simp add: calc_unfold Let_def)
next
  case (8 n s)
  have "calc_parse_term n s \<noteq> NoFuel" using "8.IH"(1) "8.prems" by simp
  moreover have "calc_expr_loop n v q \<noteq> NoFuel" if "calc_parse_term n s = Val (v, q)" for v q
    using "8.IH"(2) "8.prems" parse_shortens(2) [OF that] by simp
  ultimately show ?case by (auto simp: calc_unfold cbind_eq_NoFuel)
next
  case (10 n l s)
  let ?q = "calc_skip_spaces s"
  show ?case
  proof (cases "cget ?q 0 = CHR ''+'' \<or> cget ?q 0 = CHR ''-''")
    case True
    then have short: "length (tl ?q) < length s" by (intro tl_skip_shorter) auto
    have "calc_parse_term n (tl ?q) \<noteq> NoFuel"
      using "10.IH"(1) [OF refl refl] True "10.prems" short by auto
    moreover have "calc_expr_loop n l' r \<noteq> NoFuel"
      if "calc_parse_term n (tl ?q) = Val (v, r)" for v r l'
      using "10.IH"(2) [OF refl refl] True "10.prems" short parse_shortens(2) [OF that]
      by auto
    ultimately show ?thesis by (auto simp: calc_unfold Let_def cbind_eq_NoFuel split: if_splits)
  qed (simp add: calc_unfold Let_def)
qed (simp_all add: calc_unfold)

lemma calc_fuel_enough: "calc_parse_expr (calc_fuel s) s \<noteq> NoFuel"
  by (rule enough_fuel(4)) (simp add: calc_fuel_def)

lemma parse_expr_at_fuel:
  assumes "\<forall>n \<ge> N. calc_parse_expr n s = r"
  shows "calc_parse_expr (calc_fuel s) s = r"
  using expr_fuel_mono [OF calc_fuel_enough, of s "max N (calc_fuel s)"] assms by simp

section \<open>The language of expressions\<close>

text \<open>
  The reference: expressions as trees, with the precedence and the left
  associativity of the usual grammar, and their value over the integers,
  computed from left to right and undefined where a result leaves 64 bits.
\<close>

datatype mulop = Times | Divide | Modulo
datatype addop = Plus | Minus

datatype cfactor = Num "nat list" | Paren cexpr | Pos cfactor | Neg cfactor
  and cterm = TermF cfactor | TermM cterm mulop cfactor
  and cexpr = ExprT cterm | ExprA cexpr addop cterm

definition digits_value :: "nat list \<Rightarrow> int" where
  "digits_value ds = foldl (\<lambda>v d. v * 10 + int d) 0 ds"

fun mulop_char :: "mulop \<Rightarrow> char" where
  "mulop_char Times = CHR ''*''"
| "mulop_char Divide = CHR ''/''"
| "mulop_char Modulo = CHR ''%''"

fun addop_char :: "addop \<Rightarrow> char" where
  "addop_char Plus = CHR ''+''"
| "addop_char Minus = CHR ''-''"

fun mul_value :: "mulop \<Rightarrow> int \<Rightarrow> int \<Rightarrow> int cres" where
  "mul_value Times a b = int64 (a * b)"
| "mul_value Divide a b = (if b = 0 then Fail else int64 (a sdiv b))"
| "mul_value Modulo a b =
     (if b = 0 then Fail else cbind (int64 (a sdiv b)) (\<lambda>_. Val (a smod b)))"

fun add_value :: "addop \<Rightarrow> int \<Rightarrow> int \<Rightarrow> int cres" where
  "add_value Plus a b = int64 (a + b)"
| "add_value Minus a b = int64 (a - b)"

primrec factor_value :: "cfactor \<Rightarrow> int cres"
  and term_value :: "cterm \<Rightarrow> int cres"
  and expr_value :: "cexpr \<Rightarrow> int cres"
where
  "factor_value (Num ds) = int64 (digits_value ds)"
| "factor_value (Paren e) = expr_value e"
| "factor_value (Pos f) = factor_value f"
| "factor_value (Neg f) = cbind (factor_value f) (\<lambda>v. int64 (- v))"
| "term_value (TermF f) = factor_value f"
| "term_value (TermM t opr f) =
     cbind (term_value t) (\<lambda>a. cbind (factor_value f) (mul_value opr a))"
| "expr_value (ExprT t) = term_value t"
| "expr_value (ExprA e opr t) =
     cbind (expr_value e) (\<lambda>a. cbind (term_value t) (add_value opr a))"

text \<open>How a tree may be written: any number of spaces before each token.\<close>

definition spaces :: "nat \<Rightarrow> string" where
  "spaces k = replicate k CHR '' ''"

definition digit_char :: "nat \<Rightarrow> char" where
  "digit_char d = char_of (48 + d)"

inductive spells_factor :: "cfactor \<Rightarrow> string \<Rightarrow> bool"
  and spells_term :: "cterm \<Rightarrow> string \<Rightarrow> bool"
  and spells_expr :: "cexpr \<Rightarrow> string \<Rightarrow> bool"
where
  num: "ds \<noteq> [] \<Longrightarrow> \<forall>d \<in> set ds. d < 10 \<Longrightarrow>
     spells_factor (Num ds) (spaces k @ map digit_char ds)"
| paren: "spells_expr e s \<Longrightarrow>
     spells_factor (Paren e) (spaces k @ ''('' @ s @ spaces j @ '')'')"
| pos: "spells_factor f s \<Longrightarrow> spells_factor (Pos f) (spaces k @ ''+'' @ s)"
| neg: "spells_factor f s \<Longrightarrow> spells_factor (Neg f) (spaces k @ ''-'' @ s)"
| term_factor: "spells_factor f s \<Longrightarrow> spells_term (TermF f) s"
| term_mul: "spells_term t s \<Longrightarrow> spells_factor f u \<Longrightarrow>
     spells_term (TermM t opr f) (s @ spaces k @ [mulop_char opr] @ u)"
| expr_term: "spells_term t s \<Longrightarrow> spells_expr (ExprT t) s"
| expr_add: "spells_expr e s \<Longrightarrow> spells_term t u \<Longrightarrow>
     spells_expr (ExprA e opr t) (s @ spaces k @ [addop_char opr] @ u)"

lemmas spells_intros = spells_factor_spells_term_spells_expr.intros

section \<open>Tokens\<close>

lemma skip_spaces_split: "\<exists>k. s = spaces k @ calc_skip_spaces s"
proof (induction s)
  case (Cons c s)
  then obtain k where k: "s = spaces k @ calc_skip_spaces s" by blast
  show ?case
  proof (cases "c = CHR '' ''")
    case True
    with k have "c # s = spaces (Suc k) @ calc_skip_spaces (c # s)" by (simp add: spaces_def)
    then show ?thesis by blast
  next
    case False
    then have "c # s = spaces 0 @ calc_skip_spaces (c # s)" by (simp add: spaces_def)
    then show ?thesis by blast
  qed
qed (auto simp: spaces_def)

lemma skip_spaces_idem [simp]: "calc_skip_spaces (calc_skip_spaces s) = calc_skip_spaces s"
  by (induction s) auto

lemma skip_spaces_prefix [simp]: "calc_skip_spaces (spaces k @ s) = calc_skip_spaces s"
  by (induction k) (auto simp: spaces_def)

lemma skip_spaces_stop: "c \<noteq> CHR '' '' \<Longrightarrow> calc_skip_spaces (c # s) = c # s"
  by simp

lemma spaces_add: "spaces a @ spaces b @ s = spaces (a + b) @ s"
  by (simp add: spaces_def replicate_add)

lemma loops_skip:
  "calc_term_loop n v (calc_skip_spaces r) = calc_term_loop n v r"
  "calc_expr_loop n v (calc_skip_spaces r) = calc_expr_loop n v r"
  by (cases n; simp add: calc_unfold)+

lemma uchar_digit_char: "d < 10 \<Longrightarrow> uchar (digit_char d) = 48 + int d"
  by (simp add: uchar_def digit_char_def)

lemma uchar_zero_nine: "uchar (CHR ''0'') = 48" "uchar (CHR ''9'') = 57"
  by (simp_all add: uchar_def)

lemma is_digit_digit_char: "d < 10 \<Longrightarrow> is_digit (digit_char d)"
  by (simp add: is_digit_def uchar_digit_char uchar_zero_nine)

lemma is_digitE:
  assumes "is_digit c"
  obtains d where "d < 10" "c = digit_char d" "uchar c - uchar (CHR ''0'') = int d"
proof -
  let ?d = "nat (uchar c - 48)"
  have r: "48 \<le> uchar c" "uchar c \<le> 57" using assms by (auto simp: is_digit_def uchar_zero_nine)
  then have "uchar (digit_char ?d) = uchar c" by (subst uchar_digit_char) auto
  then have "c = digit_char ?d" by (simp add: uchar_eq_iff)
  with r that [of ?d] show thesis by (simp add: uchar_zero_nine)
qed

lemma is_digit_chars [simp]:
  "\<not> is_digit NUL" "\<not> is_digit (CHR '' '')" "\<not> is_digit (CHR ''('')" "\<not> is_digit (CHR '')'')"
  "\<not> is_digit (CHR ''+'')" "\<not> is_digit (CHR ''-'')" "\<not> is_digit (CHR ''*'')"
  "\<not> is_digit (CHR ''/'')" "\<not> is_digit (CHR ''%'')"
  by (simp_all add: is_digit_def uchar_def)

lemma digits_grow: "0 \<le> v \<Longrightarrow> v \<le> foldl (\<lambda>v d. v * 10 + int d) v ds"
proof (induction ds arbitrary: v)
  case (Cons d ds)
  then have "v \<le> v * 10 + int d" by simp
  also have "\<dots> \<le> foldl (\<lambda>v d. v * 10 + int d) (v * 10 + int d) ds" using Cons by simp
  finally show ?case by simp
qed simp

lemma number_loop_digits:
  assumes "\<not> is_digit (cget r 0)" and "\<forall>d \<in> set ds. d < 10" and "0 \<le> v" and "v < 2 ^ 63"
  shows "calc_number_loop v c (map digit_char ds @ r) =
    cbind (int64 (foldl (\<lambda>v d. v * 10 + int d) v ds)) (\<lambda>w. Val (w, c + length ds, r))"
  using assms
proof (induction ds arbitrary: v c)
  case Nil
  then show ?case by (cases r) (auto simp: int64_def)
next
  case (Cons d ds)
  let ?w = "foldl (\<lambda>v d. v * 10 + int d) (v * 10 + int d) ds"
  have d: "d < 10" using Cons.prems by simp
  have grow: "v * 10 + int d \<le> ?w" using Cons.prems by (intro digits_grow) simp
  have sub: "uchar (digit_char d) - uchar (CHR ''0'') = int d"
    using d by (simp add: uchar_digit_char uchar_zero_nine)
  show ?case
  proof (cases "v * 10 + int d < 2 ^ 63")
    case True
    then have "v * 10 < 2 ^ 63" by simp
    with True Cons d sub show ?thesis by (simp add: is_digit_digit_char int64_def)
  next
    case False
    with grow have "\<not> ?w < 2 ^ 63" by linarith
    with False Cons.prems d sub show ?thesis
      by (simp add: is_digit_digit_char int64_def)
  qed
qed

lemma number_loop_sound:
  assumes "calc_number_loop v c p = Val (w, c', q)"
  shows "\<exists>ds. p = map digit_char ds @ q \<and> (\<forall>d \<in> set ds. d < 10) \<and>
           w = foldl (\<lambda>v d. v * 10 + int d) v ds \<and> c' = c + length ds \<and>
           (int64 v = Val v \<longrightarrow> int64 w = Val w)"
  using assms
proof (induction v c p arbitrary: w c' q rule: calc_number_loop.induct)
  case (1 v c)
  then show ?case by (intro exI [of _ "[]"]) simp
next
  case (2 v c x p)
  show ?case
  proof (cases "is_digit x")
    case True
    then obtain d where d: "d < 10" "x = digit_char d" "uchar x - uchar (CHR ''0'') = int d"
      by (rule is_digitE)
    with True "2.prems" have o: "int64 (v * 10) = Val (v * 10)" "int64 (v * 10 + int d) = Val (v * 10 + int d)"
      and l: "calc_number_loop (v * 10 + int d) (c + 1) p = Val (w, c', q)"
      by (auto simp: cbind_eq_Val int64_def split: if_splits)
    from "2.IH" [OF True l] o(2)
    obtain ds where "p = map digit_char ds @ q" "\<forall>d \<in> set ds. d < 10"
      "w = foldl (\<lambda>v d. v * 10 + int d) (v * 10 + int d) ds" "c' = c + 1 + length ds"
      "int64 w = Val w"
      by auto
    with d show ?thesis by (intro exI [of _ "d # ds"]) simp
  next
    case False
    with "2.prems" show ?thesis by (intro exI [of _ "[]"]) simp
  qed
qed

lemma parse_number_digits:
  assumes "\<not> is_digit (cget r 0)" and "\<forall>d \<in> set ds. d < 10" and "ds \<noteq> []"
  shows "calc_parse_number (spaces k @ map digit_char ds @ r) =
    cbind (int64 (digits_value ds)) (\<lambda>v. Val (v, r))"
proof -
  obtain d es where ds: "ds = d # es" using assms(3) by (cases ds) auto
  have d: "is_digit (digit_char d)" using assms(2) ds by (simp add: is_digit_digit_char)
  then have ns: "digit_char d \<noteq> CHR '' ''" by auto
  let ?p = "map digit_char ds @ r"
  have "calc_skip_spaces (spaces k @ ?p) = ?p" using ns ds by simp
  moreover have "is_digit (cget ?p 0)" using d ds by simp
  moreover have "calc_number_loop 0 0 ?p =
      cbind (int64 (digits_value ds)) (\<lambda>w. Val (w, length ds, r))"
    using number_loop_digits [OF assms(1,2), of 0 0] by (simp add: digits_value_def)
  ultimately show ?thesis
    using ds by (simp add: calc_parse_number_def Let_def cbind_assoc)
qed

lemma parse_number_sound:
  assumes "calc_parse_number s = Val (v, q)"
  shows "\<exists>ds k. s = spaces k @ map digit_char ds @ q \<and> ds \<noteq> [] \<and> (\<forall>d \<in> set ds. d < 10) \<and>
           int64 (digits_value ds) = Val v"
proof -
  let ?p = "calc_skip_spaces s"
  from assms obtain c where l: "calc_number_loop 0 0 ?p = Val (v, c, q)" and c: "c \<noteq> 0"
    by (auto simp: calc_parse_number_def Let_def cbind_eq_Val split: if_splits)
  from number_loop_sound [OF l] obtain ds where
    "?p = map digit_char ds @ q" "\<forall>d \<in> set ds. d < 10" "v = digits_value ds" "c = length ds"
    "int64 v = Val v"
    by (auto simp: digits_value_def int64_def)
  with c skip_spaces_split [of s] show ?thesis by (metis length_0_conv)
qed

section \<open>What the parser accepts is an expression, with its value\<close>

lemma apply_op_mul: "calc_apply_op a b (mulop_char opr) = mul_value opr a b"
  by (cases opr) (simp_all add: calc_apply_op_def)

lemma apply_op_add: "calc_apply_op a b (addop_char opr) = add_value opr a b"
  by (cases opr) (simp_all add: calc_apply_op_def)

lemma mulop_charE:
  "c = CHR ''*'' \<or> c = CHR ''/'' \<or> c = CHR ''%'' \<Longrightarrow> \<exists>opr. c = mulop_char opr"
  by (metis mulop_char.simps)

lemma addop_charE: "c = CHR ''+'' \<or> c = CHR ''-'' \<Longrightarrow> \<exists>opr. c = addop_char opr"
  by (metis addop_char.simps)

lemma hd_tl_nonNUL: "cget p 0 = c \<Longrightarrow> c \<noteq> NUL \<Longrightarrow> p = c # tl p"
  by (cases p) auto

lemma parse_sound:
  shows "calc_parse_factor n s = Val (v, q) \<Longrightarrow>
      \<exists>f u. s = u @ q \<and> spells_factor f u \<and> factor_value f = Val v"
    and "calc_parse_term n s = Val (v, q) \<Longrightarrow>
      \<exists>t u k. s = u @ spaces k @ q \<and> spells_term t u \<and> term_value t = Val v"
    and "calc_term_loop n l s = Val (v, q) \<Longrightarrow>
      \<forall>t u. spells_term t u \<longrightarrow> term_value t = Val l \<longrightarrow>
        (\<exists>t' u' k. u @ s = u' @ spaces k @ q \<and> spells_term t' u' \<and> term_value t' = Val v)"
    and "calc_parse_expr n s = Val (v, q) \<Longrightarrow>
      \<exists>e u k. s = u @ spaces k @ q \<and> spells_expr e u \<and> expr_value e = Val v"
    and "calc_expr_loop n l s = Val (v, q) \<Longrightarrow>
      \<forall>e u j. spells_expr e u \<longrightarrow> expr_value e = Val l \<longrightarrow>
        (\<exists>e' u' k. u @ spaces j @ s = u' @ spaces k @ q \<and> spells_expr e' u' \<and> expr_value e' = Val v)"
proof (induction n s and n s and n l s and n s and n l s arbitrary: v q and v q and v q and v q and v q
    rule: calc_induct)
  case (2 n s)
  let ?p = "calc_skip_spaces s"
  obtain k where k: "s = spaces k @ ?p" using skip_spaces_split by blast
  consider (paren) "cget ?p 0 = CHR ''(''" | (sign) "cget ?p 0 = CHR ''+'' \<or> cget ?p 0 = CHR ''-''"
    | (num) "cget ?p 0 \<noteq> CHR ''(''" "\<not> (cget ?p 0 = CHR ''+'' \<or> cget ?p 0 = CHR ''-'')"
    by blast
  then show ?case
  proof cases
    case paren
    with "2.prems" obtain q0 where e: "calc_parse_expr n (tl ?p) = Val (v, q0)"
      and q: "cget (calc_skip_spaces q0) 0 = CHR '')''" "q = tl (calc_skip_spaces q0)"
      by (auto simp: calc_unfold Let_def cbind_eq_Val split: if_splits)
    obtain e u j where eu: "tl ?p = u @ spaces j @ q0" "spells_expr e u" "expr_value e = Val v"
      using "2.IH"(1) [OF refl paren e] by blast
    obtain i where i: "q0 = spaces i @ calc_skip_spaces q0" using skip_spaces_split by blast
    have p: "?p = CHR ''('' # tl ?p" using hd_tl_nonNUL [OF paren] by simp
    have "calc_skip_spaces q0 = CHR '')'' # q" using hd_tl_nonNUL [OF q(1)] q(2) by simp
    with i have "q0 = spaces i @ '')'' @ q" by simp
    with eu(1) have "tl ?p = u @ spaces (j + i) @ '')'' @ q" by (simp only: spaces_add)
    with p k have "s = spaces k @ CHR ''('' # u @ spaces (j + i) @ '')'' @ q" by metis
    then have "s = (spaces k @ ''('' @ u @ spaces (j + i) @ '')'') @ q" by simp
    moreover have "spells_factor (Paren e) (spaces k @ ''('' @ u @ spaces (j + i) @ '')'')"
      using eu(2) by (rule spells_intros)
    moreover have "factor_value (Paren e) = Val v" using eu(3) by simp
    ultimately show ?thesis by blast
  next
    case sign
    show ?thesis
    proof (cases "cget ?p 0 = CHR ''-''")
      case True
      with "2.prems" obtain v0 where f: "calc_parse_factor n (tl ?p) = Val (v0, q)"
        and v: "int64 (- v0) = Val v"
        by (auto simp: calc_unfold Let_def cbind_eq_Val split: if_splits)
      obtain f u where fu: "tl ?p = u @ q" "spells_factor f u" "factor_value f = Val v0"
        using "2.IH"(2) [OF refl _ sign f] True by auto
      have "?p = CHR ''-'' # u @ q" using hd_tl_nonNUL [OF True] fu(1) by simp
      with k have "s = spaces k @ CHR ''-'' # u @ q" by metis
      then have "s = (spaces k @ ''-'' @ u) @ q" by simp
      moreover have "spells_factor (Neg f) (spaces k @ ''-'' @ u)"
        using fu(2) by (rule spells_intros)
      moreover have "factor_value (Neg f) = Val v" using fu(3) v by simp
      ultimately show ?thesis by blast
    next
      case False
      with sign "2.prems" have f: "calc_parse_factor n (tl ?p) = Val (v, q)"
        by (auto simp: calc_unfold Let_def cbind_eq_Val split: if_splits)
      obtain f u where fu: "tl ?p = u @ q" "spells_factor f u" "factor_value f = Val v"
        using "2.IH"(2) [OF refl _ sign f] sign by auto
      from sign False have "cget ?p 0 = CHR ''+''" by simp
      from hd_tl_nonNUL [OF this] fu(1) have "?p = CHR ''+'' # u @ q" by simp
      with k have "s = spaces k @ CHR ''+'' # u @ q" by metis
      then have "s = (spaces k @ ''+'' @ u) @ q" by simp
      moreover have "spells_factor (Pos f) (spaces k @ ''+'' @ u)"
        using fu(2) by (rule spells_intros)
      moreover have "factor_value (Pos f) = Val v" using fu(3) by simp
      ultimately show ?thesis by blast
    qed
  next
    case num
    with "2.prems" have "calc_parse_number ?p = Val (v, q)" by (simp add: calc_unfold Let_def)
    from parse_number_sound [OF this] k obtain ds j where
      "s = spaces k @ spaces j @ map digit_char ds @ q" "ds \<noteq> []" "\<forall>d \<in> set ds. d < 10"
      "int64 (digits_value ds) = Val v"
      by metis
    then show ?thesis
      by (intro exI [of _ "Num ds"] exI [of _ "spaces (k + j) @ map digit_char ds"])
        (simp add: spaces_add spells_intros)
  qed
next
  case (4 n s)
  from "4.prems" obtain l p where f: "calc_parse_factor n s = Val (l, p)"
    and t: "calc_term_loop n l p = Val (v, q)"
    by (auto simp: calc_unfold cbind_eq_Val)
  obtain f u where "s = u @ p" "spells_factor f u" "factor_value f = Val l"
    using "4.IH"(1) [OF f] by blast
  then show ?case
    using "4.IH"(2) [OF t] by (metis spells_intros(5) term_value.simps(1))
next
  case (6 n l s)
  let ?q = "calc_skip_spaces s"
  obtain k where k: "s = spaces k @ ?q" using skip_spaces_split by blast
  show ?case
  proof (cases "cget ?q 0 = CHR ''*'' \<or> cget ?q 0 = CHR ''/'' \<or> cget ?q 0 = CHR ''%''")
    case True
    then obtain opr where opr: "cget ?q 0 = mulop_char opr" using mulop_charE by blast
    from True "6.prems" obtain r rr l' where f: "calc_parse_factor n (tl ?q) = Val (r, rr)"
      and a: "calc_apply_op l r (cget ?q 0) = Val l'" and t: "calc_term_loop n l' rr = Val (v, q)"
      by (auto simp: calc_unfold Let_def cbind_eq_Val split: if_splits)
    obtain f u2 where fu: "tl ?q = u2 @ rr" "spells_factor f u2" "factor_value f = Val r"
      using "6.IH"(1) [OF refl refl _ f] True by auto
    have s: "s = spaces k @ [mulop_char opr] @ u2 @ rr"
    proof -
      have "?q = mulop_char opr # u2 @ rr" using hd_tl_nonNUL [OF opr] fu(1) by (cases opr) simp_all
      with k have "s = spaces k @ mulop_char opr # u2 @ rr" by metis
      then show ?thesis by simp
    qed
    show ?thesis
    proof (intro allI impI)
      fix t u
      assume tu: "spells_term t u" "term_value t = Val l"
      have "spells_term (TermM t opr f) (u @ spaces k @ [mulop_char opr] @ u2)"
        using tu fu by (intro spells_intros)
      moreover have "term_value (TermM t opr f) = Val l'"
        using tu fu a opr by (simp add: apply_op_mul)
      ultimately show "\<exists>t' u' k. u @ s = u' @ spaces k @ q \<and> spells_term t' u' \<and> term_value t' = Val v"
        using "6.IH"(2) [OF refl refl _ t] True s by (metis append.assoc)
    qed
  next
    case False
    with "6.prems" have "v = l" "q = ?q" by (auto simp: calc_unfold Let_def)
    with k show ?thesis by metis
  qed
next
  case (8 n s)
  from "8.prems" obtain l p where f: "calc_parse_term n s = Val (l, p)"
    and t: "calc_expr_loop n l p = Val (v, q)"
    by (auto simp: calc_unfold cbind_eq_Val)
  obtain tt u k where "s = u @ spaces k @ p" "spells_term tt u" "term_value tt = Val l"
    using "8.IH"(1) [OF f] by blast
  then show ?case
    using "8.IH"(2) [OF t] by (metis spells_intros(7) expr_value.simps(1))
next
  case (10 n l s)
  let ?q = "calc_skip_spaces s"
  obtain k where k: "s = spaces k @ ?q" using skip_spaces_split by blast
  show ?case
  proof (cases "cget ?q 0 = CHR ''+'' \<or> cget ?q 0 = CHR ''-''")
    case True
    then obtain opr where opr: "cget ?q 0 = addop_char opr" using addop_charE by blast
    from True "10.prems" obtain r rr l' where f: "calc_parse_term n (tl ?q) = Val (r, rr)"
      and a: "calc_apply_op l r (cget ?q 0) = Val l'" and t: "calc_expr_loop n l' rr = Val (v, q)"
      by (auto simp: calc_unfold Let_def cbind_eq_Val split: if_splits)
    obtain tt u2 i where fu: "tl ?q = u2 @ spaces i @ rr" "spells_term tt u2" "term_value tt = Val r"
      using "10.IH"(1) [OF refl refl _ f] True by auto
    have s: "s = spaces k @ [addop_char opr] @ u2 @ spaces i @ rr"
    proof -
      have "?q = addop_char opr # u2 @ spaces i @ rr" using hd_tl_nonNUL [OF opr] fu(1) by (cases opr) simp_all
      with k have "s = spaces k @ addop_char opr # u2 @ spaces i @ rr" by metis
      then show ?thesis by simp
    qed
    show ?thesis
    proof (intro allI impI)
      fix e u j
      assume tu: "spells_expr e u" "expr_value e = Val l"
      have sp: "spells_expr (ExprA e opr tt) (u @ spaces (j + k) @ [addop_char opr] @ u2)"
        using tu fu by (intro spells_intros)
      have ev: "expr_value (ExprA e opr tt) = Val l'"
        using tu fu a opr by (simp add: apply_op_add)
      have "u @ spaces j @ s = (u @ spaces (j + k) @ [addop_char opr] @ u2) @ spaces i @ rr"
        using s by (simp add: spaces_add)
      then show "\<exists>e' u' k. u @ spaces j @ s = u' @ spaces k @ q \<and> spells_expr e' u' \<and>
          expr_value e' = Val v"
        using "10.IH"(2) [OF refl refl _ t] True sp ev by metis
    qed
  next
    case False
    with "10.prems" have "v = l" "q = ?q" by (auto simp: calc_unfold Let_def)
    with k show ?thesis by (metis spaces_add)
  qed
qed (simp_all add: calc_unfold)

section \<open>Every expression is accepted, with its value\<close>

lemma term_loop_stop:
  assumes "cget (calc_skip_spaces r) 0 \<notin> {CHR ''*'', CHR ''/'', CHR ''%''}"
  shows "calc_term_loop (Suc n) v r = Val (v, calc_skip_spaces r)"
  using assms by (simp add: calc_unfold Let_def)

lemma term_closed:
  assumes "\<forall>n \<ge> N. calc_parse_term (n + k) s = cbind (term_value t) (\<lambda>v. calc_term_loop n v r)"
    and "cget (calc_skip_spaces r) 0 \<notin> {CHR ''*'', CHR ''/'', CHR ''%''}"
    and "n \<ge> N + k + 1"
  shows "calc_parse_term n s = cbind (term_value t) (\<lambda>v. Val (v, calc_skip_spaces r))"
proof -
  from assms(3) obtain m where m: "n = Suc m + k" "Suc m \<ge> N"
  proof -
    have "n = Suc (n - k - 1) + k" "Suc (n - k - 1) \<ge> N" using assms(3) by arith+
    then show thesis using that by blast
  qed
  with assms(1) have "calc_parse_term (Suc m + k) s =
      cbind (term_value t) (\<lambda>v. calc_term_loop (Suc m) v r)" by blast
  then show ?thesis unfolding m(1) term_loop_stop [OF assms(2)] .
qed

lemma addop_char_facts [simp]:
  "\<not> is_digit (addop_char opr)" "addop_char opr \<noteq> CHR '' ''"
  "addop_char opr \<noteq> CHR ''*''" "addop_char opr \<noteq> CHR ''/''" "addop_char opr \<noteq> CHR ''%''"
  "(addop_char opr \<noteq> CHR ''+'' \<and> addop_char opr \<noteq> CHR ''-'') = False"
  by (cases opr; simp)+

lemma mulop_char_facts [simp]:
  "\<not> is_digit (mulop_char opr)" "mulop_char opr \<noteq> CHR '' ''"
  "(mulop_char opr \<noteq> CHR ''*'' \<and> mulop_char opr \<noteq> CHR ''/'' \<and> mulop_char opr \<noteq> CHR ''%'') = False"
  by (cases opr; simp)+

lemma cget_spaces_digit [simp]:
  "\<not> is_digit c \<Longrightarrow> \<not> is_digit (cget (spaces k @ c # r) 0)"
  by (cases k) (auto simp: spaces_def)

lemma cbind_cong: "m = m' \<Longrightarrow> (\<And>a. m' = Val a \<Longrightarrow> f a = g a) \<Longrightarrow> cbind m f = cbind m' g"
  by (cases m') auto

lemma parse_complete:
  shows "spells_factor f s \<Longrightarrow> \<forall>r. \<not> is_digit (cget r 0) \<longrightarrow>
      (\<exists>N. \<forall>n \<ge> N. calc_parse_factor n (s @ r) = cbind (factor_value f) (\<lambda>v. Val (v, r)))"
    and "spells_term t s \<Longrightarrow> \<forall>r. \<not> is_digit (cget r 0) \<longrightarrow>
      (\<exists>N k. \<forall>n \<ge> N. calc_parse_term (n + k) (s @ r) =
         cbind (term_value t) (\<lambda>v. calc_term_loop n v r))"
    and "spells_expr e s \<Longrightarrow> \<forall>r. \<not> is_digit (cget r 0) \<longrightarrow>
      cget (calc_skip_spaces r) 0 \<notin> {CHR ''*'', CHR ''/'', CHR ''%''} \<longrightarrow>
      (\<exists>N k. \<forall>n \<ge> N. calc_parse_expr (n + k) (s @ r) =
         cbind (expr_value e) (\<lambda>v. calc_expr_loop n v r))"
proof (induction rule: spells_factor_spells_term_spells_expr.inducts)
  case (num ds k)
  show ?case
  proof (intro allI impI)
    fix r
    assume r: "\<not> is_digit (cget r 0)"
    obtain d es where ds: "ds = d # es" using num by (cases ds) auto
    then have dg: "is_digit (digit_char d)" using num by (simp add: is_digit_digit_char)
    then have ne: "digit_char d \<noteq> CHR '' ''" "digit_char d \<noteq> CHR ''(''"
      "digit_char d \<noteq> CHR ''+''" "digit_char d \<noteq> CHR ''-''" by auto
    have "calc_parse_factor (Suc m) ((spaces k @ map digit_char ds) @ r) =
        calc_parse_number (map digit_char ds @ r)" for m
      using ne ds by (simp add: calc_unfold Let_def)
    moreover have "calc_parse_number (map digit_char ds @ r) =
        cbind (int64 (digits_value ds)) (\<lambda>v. Val (v, r))"
      using parse_number_digits [of r ds 0] r num by (simp add: spaces_def)
    ultimately have "calc_parse_factor n ((spaces k @ map digit_char ds) @ r) =
        cbind (int64 (digits_value ds)) (\<lambda>v. Val (v, r))" if "n \<ge> 1" for n
      using that by (metis One_nat_def Suc_le_D)
    then show "\<exists>N. \<forall>n \<ge> N. calc_parse_factor n ((spaces k @ map digit_char ds) @ r) =
        cbind (factor_value (Num ds)) (\<lambda>v. Val (v, r))"
      by auto
  qed
next
  case (paren e s k j)
  show ?case
  proof (intro allI impI)
    fix r
    let ?r = "spaces j @ CHR '')'' # r"
    have "\<not> is_digit (cget ?r 0)" "cget (calc_skip_spaces ?r) 0 \<notin> {CHR ''*'', CHR ''/'', CHR ''%''}"
      by simp_all
    with paren.IH obtain N i where N: "calc_parse_expr (n + i) (s @ ?r) =
        cbind (expr_value e) (\<lambda>v. calc_expr_loop n v ?r)" if "n \<ge> N" for n
      by blast
    have "calc_parse_factor n ((spaces k @ ''('' @ s @ spaces j @ '')'') @ r) =
        cbind (expr_value e) (\<lambda>v. Val (v, r))" if n: "n \<ge> N + i + 2" for n
    proof -
      from n obtain m where m: "n = Suc (Suc m + i)" "Suc m \<ge> N"
      proof -
        have "n = Suc (Suc (n - i - 2) + i)" "Suc (n - i - 2) \<ge> N" using n by arith+
        then show thesis using that by blast
      qed
      have "calc_expr_loop (Suc m) v ?r = Val (v, CHR '')'' # r)" for v
        by (simp add: calc_unfold Let_def)
      with N [OF m(2)] m(1) show ?thesis
        by (simp add: calc_parse_factor.simps Let_def cbind_assoc)
    qed
    then show "\<exists>N. \<forall>n \<ge> N. calc_parse_factor n ((spaces k @ ''('' @ s @ spaces j @ '')'') @ r) =
        cbind (factor_value (Paren e)) (\<lambda>v. Val (v, r))"
      by auto
  qed
next
  case (pos f s k)
  show ?case
  proof (intro allI impI)
    fix r
    assume "\<not> is_digit (cget r 0)"
    with pos.IH obtain N where N: "\<forall>n \<ge> N. calc_parse_factor n (s @ r) =
        cbind (factor_value f) (\<lambda>v. Val (v, r))" by blast
    have "calc_parse_factor (Suc n) ((spaces k @ ''+'' @ s) @ r) =
        cbind (factor_value f) (\<lambda>v. Val (v, r))" if "n \<ge> N" for n
      using N that by (simp add: calc_parse_factor.simps Let_def cbind_assoc)
    then show "\<exists>N. \<forall>n \<ge> N. calc_parse_factor n ((spaces k @ ''+'' @ s) @ r) =
        cbind (factor_value (Pos f)) (\<lambda>v. Val (v, r))"
      by (intro exI [of _ "Suc N"]) (auto dest: Suc_le_D)
  qed
next
  case (neg f s k)
  show ?case
  proof (intro allI impI)
    fix r
    assume "\<not> is_digit (cget r 0)"
    with neg.IH obtain N where N: "\<forall>n \<ge> N. calc_parse_factor n (s @ r) =
        cbind (factor_value f) (\<lambda>v. Val (v, r))" by blast
    have "calc_parse_factor (Suc n) ((spaces k @ ''-'' @ s) @ r) =
        cbind (factor_value (Neg f)) (\<lambda>v. Val (v, r))" if "n \<ge> N" for n
      using N that by (simp add: calc_parse_factor.simps Let_def cbind_assoc)
    then show "\<exists>N. \<forall>n \<ge> N. calc_parse_factor n ((spaces k @ ''-'' @ s) @ r) =
        cbind (factor_value (Neg f)) (\<lambda>v. Val (v, r))"
      by (intro exI [of _ "Suc N"]) (auto dest: Suc_le_D)
  qed
next
  case (term_factor f s)
  show ?case
  proof (intro allI impI)
    fix r
    assume "\<not> is_digit (cget r 0)"
    with term_factor.IH obtain N where "\<forall>n \<ge> N. calc_parse_factor n (s @ r) =
        cbind (factor_value f) (\<lambda>v. Val (v, r))" by blast
    then have "calc_parse_term (n + 1) (s @ r) =
        cbind (term_value (TermF f)) (\<lambda>v. calc_term_loop n v r)" if "n \<ge> N" for n
      using that by (simp add: calc_parse_term.simps cbind_assoc)
    then show "\<exists>N k. \<forall>n \<ge> N. calc_parse_term (n + k) (s @ r) =
        cbind (term_value (TermF f)) (\<lambda>v. calc_term_loop n v r)"
      by blast
  qed
next
  case (term_mul t s f u opr j)
  show ?case
  proof (intro allI impI)
    fix r
    assume r: "\<not> is_digit (cget r 0)"
    let ?r = "spaces j @ mulop_char opr # u @ r"
    from term_mul.IH(1) obtain N k where N: "calc_parse_term (n + k) (s @ ?r) =
        cbind (term_value t) (\<lambda>v. calc_term_loop n v ?r)" if "n \<ge> N" for n
      by (metis cget_spaces_digit mulop_char_facts(1))
    from term_mul.IH(2) r obtain M where M: "\<forall>n \<ge> M. calc_parse_factor n (u @ r) =
        cbind (factor_value f) (\<lambda>v. Val (v, r))" by blast
    have loop: "calc_term_loop (Suc n) v ?r =
        cbind (factor_value f) (\<lambda>b. cbind (mul_value opr v b) (\<lambda>l. calc_term_loop n l r))"
      if "n \<ge> M" for n v
      using M that by (simp add: calc_term_loop.simps Let_def cbind_assoc apply_op_mul)
    have "calc_parse_term (n + Suc k) ((s @ spaces j @ [mulop_char opr] @ u) @ r) =
        cbind (term_value (TermM t opr f)) (\<lambda>v. calc_term_loop n v r)"
      if "n \<ge> N + M" for n
      using N [of "Suc n"] loop [of n] that by (simp add: cbind_assoc)
    then show "\<exists>N k. \<forall>n \<ge> N.
        calc_parse_term (n + k) ((s @ spaces j @ [mulop_char opr] @ u) @ r) =
        cbind (term_value (TermM t opr f)) (\<lambda>v. calc_term_loop n v r)"
      by blast
  qed
next
  case (expr_term t s)
  show ?case
  proof (intro allI impI)
    fix r
    assume r: "\<not> is_digit (cget r 0)"
      and op: "cget (calc_skip_spaces r) 0 \<notin> {CHR ''*'', CHR ''/'', CHR ''%''}"
    from expr_term.IH r obtain N k where N: "\<forall>n \<ge> N. calc_parse_term (n + k) (s @ r) =
        cbind (term_value t) (\<lambda>v. calc_term_loop n v r)" by blast
    have "calc_parse_expr (n + 1) (s @ r) =
        cbind (expr_value (ExprT t)) (\<lambda>v. calc_expr_loop n v r)" if "n \<ge> N + k + 1" for n
      using term_closed [OF N op that] by (simp add: calc_parse_expr.simps cbind_assoc loops_skip)
    then show "\<exists>N k. \<forall>n \<ge> N. calc_parse_expr (n + k) (s @ r) =
        cbind (expr_value (ExprT t)) (\<lambda>v. calc_expr_loop n v r)"
      by blast
  qed
next
  case (expr_add e s t u opr j)
  show ?case
  proof (intro allI impI)
    fix r
    assume r: "\<not> is_digit (cget r 0)"
      and op: "cget (calc_skip_spaces r) 0 \<notin> {CHR ''*'', CHR ''/'', CHR ''%''}"
    let ?r = "spaces j @ addop_char opr # u @ r"
    have "\<not> is_digit (cget ?r 0)" "cget (calc_skip_spaces ?r) 0 \<notin> {CHR ''*'', CHR ''/'', CHR ''%''}"
      by simp_all
    with expr_add.IH(1) obtain N k where N: "calc_parse_expr (n + k) (s @ ?r) =
        cbind (expr_value e) (\<lambda>v. calc_expr_loop n v ?r)" if "n \<ge> N" for n
      by blast
    from expr_add.IH(2) r obtain M i where M: "\<forall>n \<ge> M. calc_parse_term (n + i) (u @ r) =
        cbind (term_value t) (\<lambda>v. calc_term_loop n v r)" by blast
    have loop: "calc_expr_loop (Suc n) v ?r =
        cbind (term_value t) (\<lambda>b. cbind (add_value opr v b) (\<lambda>l. calc_expr_loop n l r))"
      if "n \<ge> M + i + 1" for n v
      using term_closed [OF M op that]
      by (simp add: calc_expr_loop.simps Let_def cbind_assoc apply_op_add loops_skip)
    have "calc_parse_expr (n + Suc k) ((s @ spaces j @ [addop_char opr] @ u) @ r) =
        cbind (expr_value (ExprA e opr t)) (\<lambda>v. calc_expr_loop n v r)"
      if "n \<ge> N + M + i + 1" for n
      using N [of "Suc n"] loop [of n] that by (simp add: cbind_assoc)
    then show "\<exists>N k. \<forall>n \<ge> N.
        calc_parse_expr (n + k) ((s @ spaces j @ [addop_char opr] @ u) @ r) =
        cbind (expr_value (ExprA e opr t)) (\<lambda>v. calc_expr_loop n v r)"
      by blast
  qed
qed

section \<open>Properties\<close>

lemma expr_loop_end: "calc_expr_loop (Suc n) v (spaces k) = Val (v, [])"
  using skip_spaces_prefix [of k "[]"] by (simp add: calc_unfold Let_def)

lemma evaluate_spelled:
  assumes "spells_expr e u"
  shows "calc_parse_expr (calc_fuel (u @ spaces k)) (u @ spaces k) =
    cbind (expr_value e) (\<lambda>v. Val (v, []))"
proof -
  have fin: "\<not> is_digit (cget (spaces k) 0)"
    "cget (calc_skip_spaces (spaces k)) 0 \<notin> {CHR ''*'', CHR ''/'', CHR ''%''}"
    using skip_spaces_prefix [of k "[]"] by (cases k; simp add: spaces_def)+
  from parse_complete(3) [OF assms] fin obtain N i where
    N: "calc_parse_expr (n + i) (u @ spaces k) =
      cbind (expr_value e) (\<lambda>v. calc_expr_loop n v (spaces k))" if "n \<ge> N" for n
    by blast
  have "calc_parse_expr n (u @ spaces k) = cbind (expr_value e) (\<lambda>v. Val (v, []))"
    if "n \<ge> N + i + 1" for n
  proof -
    have n: "n = Suc (n - i - 1) + i" "Suc (n - i - 1) \<ge> N" using that by arith+
    show ?thesis using N [OF n(2)] unfolding n(1) [symmetric] expr_loop_end .
  qed
  then show ?thesis by (intro parse_expr_at_fuel) blast
qed

text \<open>C4. Every expression of the calculator's grammar (numbers, unary and binary signs,
  \<open>* / %\<close> before \<open>+ -\<close>, left associative, parentheses, any spacing) is evaluated to exactly
  its mathematical value; division by zero is reported as an error, and undefined behaviour
  arises exactly where an intermediate result does not fit in 64 bits.\<close>

theorem calc_evaluate_complete:
  assumes "spells_expr e u"
  shows "calc_evaluate (Some (u @ spaces k)) = expr_value e"
  using evaluate_spelled [OF assms, of k] by (cases "expr_value e") (simp_all add: calc_evaluate_def)

theorem calc_evaluate_complete_witness:
  "calc_evaluate (Some ''1+2*3 '') = Val 7"
proof -
  have d: "digit_char 1 = CHR ''1''" "digit_char 2 = CHR ''2''" "digit_char 3 = CHR ''3''"
    by code_simp+
  have n: "spells_factor (Num [1]) ''1''" "spells_factor (Num [2]) ''2''" "spells_factor (Num [3]) ''3''"
    using num [of "[1]" 0] num [of "[2]" 0] num [of "[3]" 0]
    using d by (simp_all add: spaces_def)
  have "spells_expr (ExprA (ExprT (TermF (Num [1]))) Plus (TermM (TermF (Num [2])) Times (Num [3])))
      (''1'' @ spaces 0 @ [addop_char Plus] @ (''2'' @ spaces 0 @ [mulop_char Times] @ ''3''))"
    by (intro spells_intros n)
  from calc_evaluate_complete [OF this, of 1] show ?thesis
    by (simp add: spaces_def digits_value_def int64_def)
qed

text \<open>C15. Whatever string the calculator accepts is an expression of the grammar, written with
  arbitrary spacing, and the result is that expression's value: nothing malformed is given a
  value.\<close>

theorem calc_evaluate_sound:
  assumes "calc_evaluate (Some s) = Val v" and "NUL \<notin> set s"
  shows "\<exists>e u k. s = u @ spaces k \<and> spells_expr e u \<and> expr_value e = Val v"
proof -
  from assms(1) obtain q where p: "calc_parse_expr (calc_fuel s) s = Val (v, q)"
    and e: "cget (calc_skip_spaces q) 0 = NUL"
    by (auto simp: calc_evaluate_def cbind_eq_Val split: if_splits)
  from parse_sound(4) [OF p] obtain e u k where
    s: "s = u @ spaces k @ q" "spells_expr e u" "expr_value e = Val v" by blast
  obtain j where j: "q = spaces j @ calc_skip_spaces q" using skip_spaces_split by blast
  have "calc_skip_spaces q = []"
  proof (cases "calc_skip_spaces q")
    case (Cons c r)
    then have "c = NUL" using e by simp
    with Cons j have "NUL \<in> set q" by (metis in_set_conv_decomp)
    with assms(2) s(1) show ?thesis by simp
  qed
  with j have "q = spaces j" by simp
  then have "s = u @ spaces (k + j)" using s(1) spaces_add [of k j "[]"] by simp
  with s show ?thesis by blast
qed

theorem calc_evaluate_sound_witness:
  "\<exists>e u k. ''(7-9)/2'' = u @ spaces k \<and> spells_expr e u \<and> expr_value e = Val (-1)"
proof (rule calc_evaluate_sound)
  show "calc_evaluate (Some ''(7-9)/2'') = Val (-1)" by code_simp
qed simp

text \<open>C40. The evaluator always returns: the recursion of the parser is bounded by the length of
  the input, so the fuel it is given is never exhausted.\<close>

theorem calc_evaluate_terminates: "calc_evaluate expression \<noteq> NoFuel"
  using calc_fuel_enough by (auto simp: calc_evaluate_def cbind_eq_NoFuel split: option.splits)

end
