(* ===== verification/Scheduler.thy ===== *)
theory Scheduler
  imports WordLib
begin

text \<open>
  The round-robin accounting of \<open>scheduler/scheduler.c\<close>: the static task
  array and counters as a record, one definition per function.  A task's
  \<open>name\<close> is the pointer the caller passed (\<open>None\<close> is the null pointer).
  The invariant holds after every sequence of registrations and timer ticks,
  and the turn lemmas add up to fairness: one round of ticks gives every task
  exactly its time slice.
\<close>

datatype sched_task_state = SCHED_TASK_UNUSED | SCHED_TASK_RUNNABLE | SCHED_TASK_BLOCKED

record sched_task_info =
  task_id :: u32
  task_name :: "string option"
  task_state :: sched_task_state
  ticks_seen :: u64
  time_slice_ticks :: u32

record sched =
  tasks :: "sched_task_info list"
  task_count :: nat
  current_index :: nat
  total_ticks :: u64
  next_task_id :: u32
  slice_progress :: u32

record sched_stats =
  ss_total_ticks :: u64
  ss_current_task_id :: u32
  ss_task_count :: nat
  ss_runnable_count :: nat

definition SCHED_MAX_TASKS :: nat where "SCHED_MAX_TASKS = 8"

definition unused_task :: sched_task_info where
  "unused_task = \<lparr>task_id = 0, task_name = None, task_state = SCHED_TASK_UNUSED,
     ticks_seen = 0, time_slice_ticks = 0\<rparr>"

definition runnable_at :: "sched \<Rightarrow> nat \<Rightarrow> bool" where
  "runnable_at s i \<longleftrightarrow> task_state (tasks s ! i) = SCHED_TASK_RUNNABLE"

definition runnable_count_now :: "sched \<Rightarrow> nat" where
  "runnable_count_now s = length (filter (runnable_at s) [0..<task_count s])"

fun advance_loop :: "nat \<Rightarrow> sched \<Rightarrow> sched" where
  "advance_loop 0 s = s"
| "advance_loop (Suc steps) s =
     (let i = (current_index s + 1) mod task_count s; s' = s\<lparr>current_index := i\<rparr> in
      if runnable_at s' i then s'\<lparr>slice_progress := 0\<rparr> else advance_loop steps s')"

definition advance_to_next_runnable :: "sched \<Rightarrow> sched" where
  "advance_to_next_runnable s =
     (if task_count s = 0 then s else advance_loop (task_count s) s)"

definition scheduler_init :: sched where
  "scheduler_init =
     \<lparr>tasks = replicate SCHED_MAX_TASKS unused_task, task_count = 0, current_index = 0,
      total_ticks = 0, next_task_id = 1, slice_progress = 0\<rparr>"

definition scheduler_register_task :: "string option \<Rightarrow> u32 \<Rightarrow> sched \<Rightarrow> int \<times> sched" where
  "scheduler_register_task name tslice s =
     (if task_count s \<ge> SCHED_MAX_TASKS then (-1, s)
      else
        let slice' = (if tslice = 0 then 1 else tslice);
            task = \<lparr>task_id = next_task_id s, task_name = name,
              task_state = SCHED_TASK_RUNNABLE, ticks_seen = 0, time_slice_ticks = slice'\<rparr>
        in (sint (next_task_id s),
            s\<lparr>tasks := (tasks s)[task_count s := task],
              next_task_id := next_task_id s + 1,
              task_count := task_count s + 1\<rparr>))"

definition charge_current :: "sched \<Rightarrow> sched" where
  "charge_current s =
     (let i = current_index s; t = tasks s ! i in
      s\<lparr>tasks := (tasks s)[i := t\<lparr>ticks_seen := ticks_seen t + 1\<rparr>],
        slice_progress := slice_progress s + 1\<rparr>)"

definition scheduler_on_timer_tick :: "sched \<Rightarrow> sched" where
  "scheduler_on_timer_tick s =
     (let s0 = s\<lparr>total_ticks := total_ticks s + 1\<rparr> in
      if task_count s0 = 0 \<or> runnable_count_now s0 = 0 then s0
      else
        let s1 = (if \<not> runnable_at s0 (current_index s0) then advance_to_next_runnable s0 else s0);
            s2 = charge_current s1
        in if slice_progress s2 \<ge> time_slice_ticks (tasks s2 ! current_index s2)
           then advance_to_next_runnable s2 else s2)"

definition scheduler_get_stats :: "sched \<Rightarrow> sched_stats" where
  "scheduler_get_stats s =
     \<lparr>ss_total_ticks = total_ticks s,
      ss_current_task_id = (if task_count s > 0 then task_id (tasks s ! current_index s) else 0),
      ss_task_count = task_count s, ss_runnable_count = runnable_count_now s\<rparr>"

definition scheduler_copy_tasks :: "sched \<Rightarrow> nat \<Rightarrow> sched_task_info list" where
  "scheduler_copy_tasks s max_tasks =
     (let count = (if task_count s < max_tasks then task_count s else max_tasks)
      in take count (tasks s))"

section \<open>The invariant\<close>

text \<open>
  Registered tasks fill a prefix of the table in order of their ids, are all
  runnable with a non-zero slice, and the running task's slice is not used up.
\<close>

definition sched_inv :: "sched \<Rightarrow> bool" where
  "sched_inv s \<longleftrightarrow>
     length (tasks s) = SCHED_MAX_TASKS \<and> task_count s \<le> SCHED_MAX_TASKS \<and>
     next_task_id s = of_nat (task_count s) + 1 \<and>
     (\<forall>i < task_count s. runnable_at s i \<and> time_slice_ticks (tasks s ! i) \<noteq> 0 \<and>
        task_id (tasks s ! i) = of_nat i + 1) \<and>
     (if task_count s = 0 then current_index s = 0 \<and> slice_progress s = 0
      else current_index s < task_count s \<and>
        slice_progress s < time_slice_ticks (tasks s ! current_index s))"

lemma sched_inv_init: "sched_inv scheduler_init"
  by (simp add: sched_inv_def scheduler_init_def)

lemma sched_invD:
  assumes "sched_inv s"
  shows "length (tasks s) = 8" and "task_count s \<le> 8"
    and "next_task_id s = of_nat (task_count s) + 1"
    and "i < task_count s \<Longrightarrow> runnable_at s i"
    and "i < task_count s \<Longrightarrow> time_slice_ticks (tasks s ! i) \<noteq> 0"
    and "i < task_count s \<Longrightarrow> task_id (tasks s ! i) = of_nat i + 1"
    and "0 < task_count s \<Longrightarrow> current_index s < task_count s"
    and "0 < task_count s \<Longrightarrow> slice_progress s < time_slice_ticks (tasks s ! current_index s)"
  using assms by (auto simp: sched_inv_def SCHED_MAX_TASKS_def split: if_splits)

lemma runnable_at_simps [simp]:
  "runnable_at (s\<lparr>current_index := c\<rparr>) i = runnable_at s i"
  "runnable_at (s\<lparr>total_ticks := t\<rparr>) i = runnable_at s i"
  "runnable_at (s\<lparr>slice_progress := p\<rparr>) i = runnable_at s i"
  by (simp_all add: runnable_at_def)

lemma runnable_count_pos:
  "sched_inv s \<Longrightarrow> 0 < task_count s \<Longrightarrow> runnable_count_now s = task_count s"
  using sched_invD(4) [of s] by (simp add: runnable_count_now_def filter_id_conv)

lemma advance_first:
  "0 < task_count s \<Longrightarrow> runnable_at s ((current_index s + 1) mod task_count s) \<Longrightarrow>
   advance_to_next_runnable s =
     s\<lparr>current_index := (current_index s + 1) mod task_count s, slice_progress := 0\<rparr>"
  by (cases "task_count s") (simp_all add: advance_to_next_runnable_def Let_def)

text \<open>
  Under the invariant one tick charges the running task and, when its slice is
  used up, hands over to the next index modulo the number of tasks.
\<close>

definition bump_task :: "nat \<Rightarrow> sched \<Rightarrow> sched" where
  "bump_task i s =
     s\<lparr>tasks := (tasks s)[i := (tasks s ! i)\<lparr>ticks_seen := ticks_seen (tasks s ! i) + 1\<rparr>],
       total_ticks := total_ticks s + 1\<rparr>"

lemma tick_cases:
  assumes inv: "sched_inv s" and n: "0 < task_count s"
  shows "scheduler_on_timer_tick s =
    (let c = current_index s; s' = bump_task c s in
     if slice_progress s + 1 < time_slice_ticks (tasks s ! c)
     then s'\<lparr>slice_progress := slice_progress s + 1\<rparr>
     else s'\<lparr>current_index := (c + 1) mod task_count s, slice_progress := 0\<rparr>)"
proof -
  let ?c = "current_index s"
  let ?s0 = "s\<lparr>total_ticks := total_ticks s + 1\<rparr>"
  have c: "?c < task_count s" "?c < length (tasks s)"
    using sched_invD(1,2,7) [OF inv] n by auto
  have run: "runnable_at s ?c" using sched_invD(4) [OF inv c(1)] .
  have "runnable_at ?s0 = runnable_at s" by (simp add: fun_eq_iff)
  then have "runnable_count_now ?s0 = runnable_count_now s"
    by (simp add: runnable_count_now_def)
  then have cnt: "runnable_count_now ?s0 \<noteq> 0"
    using runnable_count_pos [OF inv n] n by simp
  let ?s2 = "charge_current ?s0"
  have nx: "(?c + 1) mod task_count s < task_count s" using n by simp
  have run2: "runnable_at ?s2 ((current_index ?s2 + 1) mod task_count ?s2)"
    using sched_invD(4) [OF inv nx] c
    by (auto simp: charge_current_def Let_def runnable_at_def nth_list_update)
  have adv: "advance_to_next_runnable ?s2 =
      ?s2\<lparr>current_index := (current_index ?s2 + 1) mod task_count ?s2, slice_progress := 0\<rparr>"
    using n run2 by (intro advance_first) (simp_all add: charge_current_def Let_def)
  have "scheduler_on_timer_tick s =
      (if slice_progress ?s2 \<ge> time_slice_ticks (tasks ?s2 ! current_index ?s2)
       then advance_to_next_runnable ?s2 else ?s2)"
    using n run cnt by (simp only: scheduler_on_timer_tick_def Let_def) simp
  then show ?thesis
    unfolding adv using c
    by (simp add: Let_def charge_current_def bump_task_def not_le [symmetric])
qed

lemma bump_task_simps [simp]:
  "task_count (bump_task i s) = task_count s"
  "current_index (bump_task i s) = current_index s"
  "slice_progress (bump_task i s) = slice_progress s"
  "next_task_id (bump_task i s) = next_task_id s"
  "total_ticks (bump_task i s) = total_ticks s + 1"
  "length (tasks (bump_task i s)) = length (tasks s)"
  by (simp_all add: bump_task_def)

lemma bump_task_task [simp]:
  "j < length (tasks s) \<Longrightarrow>
   time_slice_ticks (tasks (bump_task i s) ! j) = time_slice_ticks (tasks s ! j)"
  "j < length (tasks s) \<Longrightarrow> task_id (tasks (bump_task i s) ! j) = task_id (tasks s ! j)"
  "j < length (tasks s) \<Longrightarrow> task_name (tasks (bump_task i s) ! j) = task_name (tasks s ! j)"
  "j < length (tasks s) \<Longrightarrow> runnable_at (bump_task i s) j = runnable_at s j"
  "j < length (tasks s) \<Longrightarrow> ticks_seen (tasks (bump_task i s) ! j) =
     ticks_seen (tasks s ! j) + (if j = i then 1 else 0)"
  by (cases "i = j"; simp add: bump_task_def runnable_at_def)+

section \<open>Preservation\<close>

lemma tick_preserves:
  assumes inv: "sched_inv s"
  shows "sched_inv (scheduler_on_timer_tick s)"
proof (cases "task_count s = 0")
  case True
  with inv show ?thesis
    by (simp add: scheduler_on_timer_tick_def sched_inv_def)
next
  case False
  then have n: "0 < task_count s" by simp
  let ?c = "current_index s" and ?p = "slice_progress s"
  have c: "?c < task_count s" "?c < length (tasks s)" and le: "task_count s \<le> length (tasks s)"
    using sched_invD(1,2,7) [OF inv] n by auto
  have nx: "(?c + 1) mod task_count s < length (tasks s)"
    using n le by (meson mod_less_divisor order_less_le_trans)
  have pos: "0 < time_slice_ticks (tasks s ! ((?c + 1) mod task_count s))"
    using sched_invD(5) [OF inv, of "(?c + 1) mod task_count s"] n
    by (simp add: word_neq_0_conv)
  note D = sched_invD [OF inv]
  show ?thesis
    unfolding tick_cases [OF inv n] Let_def
    using D(1-6) n c nx le pos
    by (auto simp: sched_inv_def SCHED_MAX_TASKS_def)
qed

lemma register_preserves:
  assumes inv: "sched_inv s"
  shows "sched_inv (snd (scheduler_register_task name tslice s))"
proof (cases "task_count s \<ge> SCHED_MAX_TASKS")
  case True
  with inv show ?thesis by (simp add: scheduler_register_task_def)
next
  case False
  then have n: "task_count s < 8" "task_count s < length (tasks s)"
    using sched_invD(1) [OF inv] by (auto simp: SCHED_MAX_TASKS_def)
  note D = sched_invD [OF inv]
  show ?thesis
  proof (cases "task_count s = 0")
    case True
    with inv False D(1,3) n show ?thesis
      by (auto simp: scheduler_register_task_def sched_inv_def Let_def runnable_at_def
          SCHED_MAX_TASKS_def word_gt_0 split: if_splits)
  next
    case nz: False
    with inv False D n show ?thesis
      by (auto simp: scheduler_register_task_def sched_inv_def Let_def runnable_at_def
          SCHED_MAX_TASKS_def nth_list_update less_Suc_eq)
  qed
qed

lemma sint_task_id: "k < 8 \<Longrightarrow> sint (of_nat k + 1 :: u32) = int k + 1"
proof -
  assume "k < 8"
  then have "k \<in> set [0..<8]" by simp
  then show ?thesis by (auto simp: upt_rec numeral_eq_Suc)
qed

lemma register_cases:
  assumes "sched_inv s"
  shows "scheduler_register_task nm sl s =
    (if task_count s < 8
     then (int (task_count s) + 1,
           s\<lparr>tasks := (tasks s)[task_count s := \<lparr>task_id = next_task_id s, task_name = nm,
               task_state = SCHED_TASK_RUNNABLE, ticks_seen = 0,
               time_slice_ticks = (if sl = 0 then 1 else sl)\<rparr>],
             next_task_id := next_task_id s + 1, task_count := task_count s + 1\<rparr>)
     else (-1, s))"
  using sched_invD(3) [OF assms] sint_task_id [of "task_count s"]
  by (simp add: scheduler_register_task_def SCHED_MAX_TASKS_def Let_def)

datatype sched_op = Register "string option" u32 | Tick

fun sched_step :: "sched_op \<Rightarrow> sched \<Rightarrow> sched" where
  "sched_step (Register name tslice) s = snd (scheduler_register_task name tslice s)"
| "sched_step Tick s = scheduler_on_timer_tick s"

definition sched_run :: "sched_op list \<Rightarrow> sched" where
  "sched_run ops = fold sched_step ops scheduler_init"

lemma sched_run_snoc: "sched_run (ops @ [x]) = sched_step x (sched_run ops)"
  by (simp add: sched_run_def)

lemma sched_run_inv: "sched_inv (sched_run ops)"
proof (induction ops rule: rev_induct)
  case Nil
  show ?case by (simp add: sched_run_def sched_inv_init)
next
  case (snoc x ops)
  then show ?case
    by (cases x) (simp_all add: sched_run_snoc register_preserves tick_preserves)
qed

section \<open>One turn\<close>

text \<open>Charging \<open>k\<close> ticks to task \<open>i\<close>.\<close>

definition charge_task :: "nat \<Rightarrow> nat \<Rightarrow> sched \<Rightarrow> sched" where
  "charge_task i k s =
     s\<lparr>tasks := (tasks s)[i := (tasks s ! i)\<lparr>ticks_seen := ticks_seen (tasks s ! i) + of_nat k\<rparr>],
       total_ticks := total_ticks s + of_nat k\<rparr>"

lemma charge_task_0: "charge_task i 0 s = s"
  by (simp add: charge_task_def)

lemma bump_charge:
  "i < length (tasks s) \<Longrightarrow>
   bump_task i ((charge_task i k s)\<lparr>slice_progress := p\<rparr>) =
   (charge_task i (Suc k) s)\<lparr>slice_progress := p\<rparr>"
  by (simp add: bump_task_def charge_task_def algebra_simps)

lemma ticks_preserve: "sched_inv s \<Longrightarrow> sched_inv ((scheduler_on_timer_tick ^^ k) s)"
  by (induction k) (simp_all add: tick_preserves)

lemma turn_prefix:
  assumes inv: "sched_inv s" and n: "0 < task_count s"
    and k: "unat (slice_progress s) + k < unat (time_slice_ticks (tasks s ! current_index s))"
  shows "(scheduler_on_timer_tick ^^ k) s =
    (charge_task (current_index s) k s)\<lparr>slice_progress := slice_progress s + of_nat k\<rparr>"
  using k
proof (induction k)
  case 0
  show ?case by (simp add: charge_task_0)
next
  case (Suc k)
  let ?c = "current_index s" and ?sl = "time_slice_ticks (tasks s ! current_index s)"
  let ?s' = "(charge_task ?c k s)\<lparr>slice_progress := slice_progress s + of_nat k\<rparr>"
  have c: "?c < length (tasks s)" using sched_invD(1,2,7) [OF inv] n by auto
  have eq: "(scheduler_on_timer_tick ^^ k) s = ?s'" using Suc by simp
  have inv': "sched_inv ?s'" using ticks_preserve [OF inv, of k] eq by simp
  have un: "unat (slice_progress s + of_nat k + 1) = unat (slice_progress s) + k + 1"
    using unat_add_of_nat [of "slice_progress s" "Suc k" ?sl] Suc.prems
    by (simp add: algebra_simps)
  then have lt: "slice_progress s + of_nat k + 1 < ?sl"
    using Suc.prems by (simp add: word_less_nat_alt)
  have "scheduler_on_timer_tick ?s' =
      (bump_task ?c ?s')\<lparr>slice_progress := slice_progress s + of_nat k + 1\<rparr>"
    using tick_cases [OF inv'] n lt c by (simp add: charge_task_def Let_def)
  also have "\<dots> = (charge_task ?c (Suc k) s)\<lparr>slice_progress := slice_progress s + of_nat (Suc k)\<rparr>"
    using bump_charge [OF c] by (simp add: add.assoc add.commute)
  finally show ?case using eq by simp
qed

text \<open>
  A whole turn: after the rest of its slice the running task has been charged
  for it and the next task starts with an unused slice.
\<close>

lemma turn_complete:
  assumes inv: "sched_inv s" and n: "0 < task_count s"
    and k: "unat (slice_progress s) + k = unat (time_slice_ticks (tasks s ! current_index s))"
  shows "(scheduler_on_timer_tick ^^ k) s =
    (charge_task (current_index s) k s)
      \<lparr>current_index := (current_index s + 1) mod task_count s, slice_progress := 0\<rparr>"
proof -
  let ?c = "current_index s" and ?sl = "time_slice_ticks (tasks s ! current_index s)"
  have "0 < k" using sched_invD(8) [OF inv n] k by (simp add: word_less_nat_alt)
  then obtain m where m: "k = Suc m" by (cases k) auto
  let ?s' = "(charge_task ?c m s)\<lparr>slice_progress := slice_progress s + of_nat m\<rparr>"
  have c: "?c < length (tasks s)" using sched_invD(1,2,7) [OF inv] n by auto
  have eq: "(scheduler_on_timer_tick ^^ m) s = ?s'" using turn_prefix [OF inv n] k m by simp
  have inv': "sched_inv ?s'" using ticks_preserve [OF inv, of m] eq by simp
  have un: "unat (slice_progress s + of_nat m + 1) = unat ?sl"
    using unat_add_of_nat [of "slice_progress s" "Suc m" ?sl] k m
    by (simp add: algebra_simps)
  then have nlt: "\<not> slice_progress s + of_nat m + 1 < ?sl"
    by (simp add: word_less_nat_alt)
  have "scheduler_on_timer_tick ?s' =
      (bump_task ?c ?s')\<lparr>current_index := (?c + 1) mod task_count s, slice_progress := 0\<rparr>"
    using tick_cases [OF inv'] n nlt c by (simp add: charge_task_def Let_def)
  also have "\<dots> = (charge_task ?c (Suc m) s)
      \<lparr>current_index := (?c + 1) mod task_count s, slice_progress := 0\<rparr>"
    using bump_charge [OF c] by simp
  finally show ?thesis using eq m by simp
qed

section \<open>A round\<close>

definition slice_at :: "sched \<Rightarrow> nat \<Rightarrow> nat" where
  "slice_at s i = unat (time_slice_ticks (tasks s ! i))"

definition round_ticks :: "sched \<Rightarrow> nat" where
  "round_ticks s = (\<Sum>i < task_count s. slice_at s i)"

text \<open>What ticks never change: the tasks' identities and slices.\<close>

definition same_tasks :: "sched \<Rightarrow> sched \<Rightarrow> bool" where
  "same_tasks s s' \<longleftrightarrow>
     task_count s' = task_count s \<and> length (tasks s') = length (tasks s) \<and>
     (\<forall>i < length (tasks s). task_id (tasks s' ! i) = task_id (tasks s ! i) \<and>
        task_name (tasks s' ! i) = task_name (tasks s ! i) \<and>
        time_slice_ticks (tasks s' ! i) = time_slice_ticks (tasks s ! i))"

lemma same_tasks_refl: "same_tasks s s"
  by (simp add: same_tasks_def)

lemma same_tasks_trans: "same_tasks s t \<Longrightarrow> same_tasks t u \<Longrightarrow> same_tasks s u"
  by (simp add: same_tasks_def)

lemma charge_task_at:
  "i < length (tasks s) \<Longrightarrow> j < length (tasks s) \<Longrightarrow>
   tasks (charge_task i k s) ! j =
     (if i = j then (tasks s ! j)\<lparr>ticks_seen := ticks_seen (tasks s ! j) + of_nat k\<rparr>
      else tasks s ! j)"
  by (simp add: charge_task_def)

lemma same_tasks_charge:
  "i < length (tasks s) \<Longrightarrow>
   same_tasks s ((charge_task i k s)\<lparr>current_index := c, slice_progress := p\<rparr>)"
  by (auto simp: same_tasks_def charge_task_def nth_list_update)

lemma mod_succ_add: "((c + 1) mod n + t) mod n = (c + Suc t) mod (n :: nat)"
  by (simp add: mod_simps)

lemma turns:
  assumes "sched_inv s" and "0 < task_count s" and "slice_progress s = 0"
    and "j \<le> task_count s"
  shows "let c = current_index s; n = task_count s; pos = (\<lambda>t. (c + t) mod n);
             k = (\<Sum>t < j. slice_at s (pos t)); s' = (scheduler_on_timer_tick ^^ k) s
         in same_tasks s s' \<and> current_index s' = (c + j) mod n \<and> slice_progress s' = 0 \<and>
            total_ticks s' = total_ticks s + of_nat k \<and>
            (\<forall>i < n. ticks_seen (tasks s' ! i) =
               ticks_seen (tasks s ! i) + (if i \<in> pos ` {..<j} then of_nat (slice_at s i) else 0))"
  using assms(4)
proof (induction j)
  case 0
  show ?case
    using sched_invD(7) [OF assms(1,2)] assms(3) by (simp add: same_tasks_refl)
next
  case (Suc j)
  let ?c = "current_index s" and ?n = "task_count s"
  let ?pos = "\<lambda>t. (?c + t) mod ?n"
  let ?k = "\<Sum>t < j. slice_at s (?pos t)"
  let ?s = "(scheduler_on_timer_tick ^^ ?k) s"
  let ?m = "slice_at s (?pos j)"
  have IH: "same_tasks s ?s" "current_index ?s = ?pos j" "slice_progress ?s = 0"
      "total_ticks ?s = total_ticks s + of_nat ?k"
      "\<forall>i < ?n. ticks_seen (tasks ?s ! i) =
         ticks_seen (tasks s ! i) + (if i \<in> ?pos ` {..<j} then of_nat (slice_at s i) else 0)"
    using Suc by (simp_all add: Let_def)
  have len: "?n \<le> length (tasks s)" using sched_invD(1,2) [OF assms(1)] by simp
  have pj: "?pos j < ?n" using assms(2) by simp
  then have pj': "?pos j < length (tasks s)" "?pos j < length (tasks ?s)"
    using len IH(1) by (auto simp: same_tasks_def)
  have n': "task_count ?s = ?n" "0 < task_count ?s"
    using IH(1) assms(2) by (simp_all add: same_tasks_def)
  have m: "?m = unat (time_slice_ticks (tasks ?s ! current_index ?s))"
    using IH(1,2) pj' by (simp add: slice_at_def same_tasks_def)
  let ?s' = "(charge_task (?pos j) ?m ?s)\<lparr>current_index := (?pos j + 1) mod ?n, slice_progress := 0\<rparr>"
  have step: "(scheduler_on_timer_tick ^^ ?m) ?s = ?s'"
    using turn_complete [OF ticks_preserve [OF assms(1)] n'(2), of ?m] m IH(2,3) n'(1)
    by simp
  have "(scheduler_on_timer_tick ^^ (?m + ?k)) s = ?s'"
    using step by (simp only: funpow_add comp_apply)
  then have run: "(scheduler_on_timer_tick ^^ (\<Sum>t < Suc j. slice_at s (?pos t))) s = ?s'"
    by (simp only: sum.lessThan_Suc add.commute)
  have same: "same_tasks s ?s'"
    using IH(1) same_tasks_charge [OF pj'(2)] by (rule same_tasks_trans)
  have fresh: "?pos j \<notin> ?pos ` {..<j}"
  proof
    assume "?pos j \<in> ?pos ` {..<j}"
    then obtain t where t: "t < j" "?pos j = ?pos t" by auto
    then have "?n dvd (?c + j) - (?c + t)"
      by (metis mod_eq_dvd_iff_nat add_le_cancel_left less_imp_le)
    then have "?n dvd j - t" by simp
    then have "?n \<le> j - t" using t(1) by (intro dvd_imp_le) simp_all
    with Suc.prems show False by simp
  qed
  have seen: "ticks_seen (tasks ?s' ! i) = ticks_seen (tasks s ! i) +
      (if i \<in> ?pos ` {..<Suc j} then of_nat (slice_at s i) else 0)" if i: "i < ?n" for i
  proof -
    have "i < length (tasks ?s)" using i len IH(1) by (simp add: same_tasks_def)
    then have "ticks_seen (tasks ?s' ! i) =
        ticks_seen (tasks ?s ! i) + (if ?pos j = i then of_nat ?m else 0)"
      using pj'(2) by (simp add: charge_task_at)
    moreover have "ticks_seen (tasks ?s ! i) =
        ticks_seen (tasks s ! i) + (if i \<in> ?pos ` {..<j} then of_nat (slice_at s i) else 0)"
      using IH(5) i by blast
    ultimately show ?thesis
      using fresh by (cases "?pos j = i") (simp_all add: lessThan_Suc)
  qed
  have tot: "total_ticks ?s' = total_ticks s + of_nat (\<Sum>t < Suc j. slice_at s (?pos t))"
    using IH(4) by (simp add: charge_task_def)
  have ci: "current_index ?s' = (?c + Suc j) mod ?n" by (simp add: mod_simps)
  show ?case
    unfolding Let_def run using same ci tot seen by simp
qed

lemma rotation_inj:
  fixes n :: nat
  assumes "m \<le> n"
  shows "inj_on (\<lambda>t. (c + t) mod n) {..<m}"
proof (rule linorder_inj_onI)
  fix t u assume "t < u" "t \<in> {..<m}" "u \<in> {..<m}"
  moreover have "n \<le> u - t" if "(c + t) mod n = (c + u) mod n"
  proof (rule dvd_imp_le)
    show "n dvd u - t"
      using that \<open>t < u\<close> mod_eq_dvd_iff_nat [of "c + t" "c + u" n] by simp
  qed (use \<open>t < u\<close> in simp)
  ultimately show "(c + t) mod n \<noteq> (c + u) mod n" using assms by fastforce
qed auto

lemma rotation_image:
  fixes n :: nat
  assumes c: "c < n"
  shows "(\<lambda>t. (c + 1 + t) mod n) ` {..<n - 1} = {..<n} - {c}"
proof (rule card_subset_eq)
  have inj: "inj_on (\<lambda>t. (c + t) mod n) {..<n}" by (rule rotation_inj) simp
  have "(c + 1 + t) mod n \<noteq> c" if "t < n - 1" for t
  proof
    assume "(c + 1 + t) mod n = c"
    then have "(c + Suc t) mod n = (c + 0) mod n" using c by simp
    then show False using inj_onD [OF inj, of "Suc t" 0] that less_diff_conv [of t n 1] by simp
  qed
  then show "(\<lambda>t. (c + 1 + t) mod n) ` {..<n - 1} \<subseteq> {..<n} - {c}" using c by auto
  have "card ((\<lambda>t. (c + 1 + t) mod n) ` {..<n - 1}) = n - 1"
    using rotation_inj [of "n - 1" n "c + 1"] by (simp add: card_image)
  then show "card ((\<lambda>t. (c + 1 + t) mod n) ` {..<n - 1}) = card ({..<n} - {c})"
    using c by simp
qed simp

lemma rest_of_round:
  fixes f :: "nat \<Rightarrow> nat"
  assumes c: "c < n"
  shows "(\<Sum>t < n - 1. f ((c + 1 + t) mod n)) + f c = (\<Sum>i < n. f i)"
proof -
  have "(\<Sum>t < n - 1. f ((c + 1 + t) mod n)) = (\<Sum>i \<in> {..<n} - {c}. f i)"
    using rotation_inj [of "n - 1" n "c + 1"]
    by (subst rotation_image [OF c, symmetric]) (simp add: sum.reindex)
  then show ?thesis using c by (simp add: sum.remove [of "{..<n}" c f])
qed

lemma round_robin:
  assumes inv: "sched_inv s" and n: "0 < task_count s"
  shows "let s' = (scheduler_on_timer_tick ^^ round_ticks s) s
         in same_tasks s s' \<and> current_index s' = current_index s \<and>
            slice_progress s' = slice_progress s \<and>
            total_ticks s' = total_ticks s + of_nat (round_ticks s) \<and>
            (\<forall>i < task_count s. ticks_seen (tasks s' ! i) =
               ticks_seen (tasks s ! i) + of_nat (slice_at s i))"
proof -
  let ?c = "current_index s" and ?n = "task_count s" and ?p = "unat (slice_progress s)"
  let ?tick = scheduler_on_timer_tick
  have c: "?c < ?n" and p: "?p < slice_at s ?c"
    using sched_invD(7,8) [OF inv n] by (simp_all add: slice_at_def word_less_nat_alt)
  have len: "?n \<le> length (tasks s)" using sched_invD(1,2) [OF inv] by simp
  define k where "k = slice_at s ?c - ?p"
  define s1 where "s1 = (charge_task ?c k s)\<lparr>current_index := (?c + 1) mod ?n, slice_progress := 0\<rparr>"
  have s1: "(?tick ^^ k) s = s1"
    using turn_complete [OF inv n, of k] p by (simp add: k_def s1_def slice_at_def)
  have inv1: "sched_inv s1" using ticks_preserve [OF inv, of k] s1 by simp
  have same1: "same_tasks s s1"
    unfolding s1_def using c len by (intro same_tasks_charge) simp
  have n1: "task_count s1 = ?n" "current_index s1 = (?c + 1) mod ?n" "slice_progress s1 = 0"
    by (simp_all add: s1_def charge_task_def)
  have sl1: "slice_at s1 i = slice_at s i" if "i < ?n" for i
    using same1 that len by (simp add: same_tasks_def slice_at_def)
  have pos: "((?c + 1) mod ?n + t) mod ?n = (?c + 1 + t) mod ?n" for t by (simp add: mod_simps)
  define m where "m = (\<Sum>t < ?n - 1. slice_at s ((?c + 1 + t) mod ?n))"
  define s2 where "s2 = (?tick ^^ m) s1"
  have m1: "(\<Sum>t < ?n - 1. slice_at s1 ((?c + 1 + t) mod ?n)) = m"
    unfolding m_def using n by (intro sum.cong) (simp_all add: sl1)
  have c_back: "((?c + 1) mod ?n + (?n - 1)) mod ?n = ?c"
  proof -
    have "((?c + 1) mod ?n + (?n - 1)) mod ?n = (?c + 1 + (?n - 1)) mod ?n"
      by (simp only: mod_simps)
    also have "?c + 1 + (?n - 1) = ?c + ?n" using n by simp
    finally show ?thesis using c by simp
  qed
  have s2: "same_tasks s1 s2" "current_index s2 = ?c" "slice_progress s2 = 0"
      "total_ticks s2 = total_ticks s1 + of_nat m"
      "\<forall>i < ?n. ticks_seen (tasks s2 ! i) =
         ticks_seen (tasks s1 ! i) + (if i \<in> {..<?n} - {?c} then of_nat (slice_at s1 i) else 0)"
    using turns [OF inv1, of "?n - 1"] n c_back
    unfolding Let_def n1 pos m1 rotation_image [OF c] s2_def by simp_all
  have inv2: "sched_inv s2" using ticks_preserve [OF inv1] by (simp add: s2_def)
  have same2: "same_tasks s s2" using same1 s2(1) by (rule same_tasks_trans)
  have n2: "0 < task_count s2" "?c < length (tasks s2)"
    using same2 n c len by (simp_all add: same_tasks_def)
  have "?p < unat (time_slice_ticks (tasks s2 ! ?c))"
    using p same2 c len by (simp add: same_tasks_def slice_at_def)
  then have s3: "(?tick ^^ ?p) s2 = (charge_task ?c ?p s2)\<lparr>slice_progress := slice_progress s\<rparr>"
    using turn_prefix [OF inv2 n2(1), of ?p] s2(2,3) by simp
  have split: "round_ticks s = ?p + (m + k)"
    using rest_of_round [OF c, of "slice_at s"] p by (simp add: round_ticks_def m_def k_def)
  have run: "(?tick ^^ round_ticks s) s = (charge_task ?c ?p s2)\<lparr>slice_progress := slice_progress s\<rparr>"
    unfolding split funpow_add comp_apply s1 s2_def [symmetric] s3 ..
  have same3: "same_tasks s2 ((charge_task ?c ?p s2)\<lparr>slice_progress := slice_progress s\<rparr>)"
    using same_tasks_charge [OF n2(2), where k = ?p and c = "current_index s2" and p = "slice_progress s"]
    by (simp add: charge_task_def)
  have kp: "k + ?p = slice_at s ?c" using p by (simp add: k_def)
  have seen: "ticks_seen (tasks (charge_task ?c ?p s2) ! i) =
      ticks_seen (tasks s ! i) + of_nat (slice_at s i)" if i: "i < ?n" for i
  proof -
    have "i < length (tasks s)" "i < length (tasks s2)"
      using i len same2 by (simp_all add: same_tasks_def)
    moreover have "ticks_seen (tasks s1 ! i) =
        ticks_seen (tasks s ! i) + (if i = ?c then of_nat k else 0)"
      using i len c by (simp add: s1_def charge_task_at)
    ultimately show ?thesis
      using s2(5) i c n2(2) kp [symmetric] sl1 by (auto simp: charge_task_at)
  qed
  have "total_ticks (charge_task ?c ?p s2) = total_ticks s + of_nat (?p + (m + k))"
    using s2(4) by (simp add: s1_def charge_task_def)
  then show ?thesis
    unfolding Let_def run using seen same_tasks_trans [OF same2 same3] s2(2) split
    by (simp add: charge_task_def)
qed

section \<open>Accounting over a run\<close>

definition is_register :: "sched_op \<Rightarrow> bool" where
  "is_register x \<longleftrightarrow> x \<noteq> Tick"

definition tick_count :: "sched_op list \<Rightarrow> nat" where
  "tick_count ops = length (filter (\<lambda>x. \<not> is_register x) ops)"

definition register_count :: "sched_op list \<Rightarrow> nat" where
  "register_count ops = length (filter is_register ops)"

lemma count_simps [simp]:
  "tick_count [] = 0" "register_count [] = 0" "tick_count [Register nm sl] = 0"
  "tick_count (ops @ [Tick]) = Suc (tick_count ops)"
  "tick_count (ops @ [Register nm sl]) = tick_count ops"
  "register_count (ops @ [Tick]) = register_count ops"
  "register_count (ops @ [Register nm sl]) = Suc (register_count ops)"
  by (simp_all add: tick_count_def register_count_def is_register_def)

abbreviation charged_ticks :: "sched_op list \<Rightarrow> nat" where
  "charged_ticks ops \<equiv> tick_count (dropWhile (\<lambda>x. \<not> is_register x) ops)"

lemma charged_ticks_none: "register_count ops = 0 \<Longrightarrow> charged_ticks ops = 0"
proof -
  assume "register_count ops = 0"
  then have "dropWhile (\<lambda>x. \<not> is_register x) ops = []"
    by (simp add: register_count_def filter_empty_conv)
  then show ?thesis by (simp only: count_simps(1))
qed

lemma charged_ticks_snoc:
  "charged_ticks (ops @ [Tick]) = (if register_count ops = 0 then 0 else Suc (charged_ticks ops))"
  "charged_ticks (ops @ [Register nm sl]) = charged_ticks ops"
proof -
  have reg: "register_count ops = 0 \<longleftrightarrow> (\<forall>x \<in> set ops. \<not> is_register x)"
    by (simp add: register_count_def filter_empty_conv)
  have T: "\<not> is_register Tick" and R: "is_register (Register nm sl)"
    by (simp_all add: is_register_def)
  show "charged_ticks (ops @ [Tick]) = (if register_count ops = 0 then 0 else Suc (charged_ticks ops))"
    unfolding reg dropWhile_append using T by simp
  show "charged_ticks (ops @ [Register nm sl]) = charged_ticks ops"
    using R charged_ticks_none [of ops] reg by (simp add: dropWhile_append)
qed

definition ticks_sum :: "sched \<Rightarrow> u64" where
  "ticks_sum s = (\<Sum>i < task_count s. ticks_seen (tasks s ! i))"

lemma ticks_sum_bump:
  "i < task_count s \<Longrightarrow> task_count s \<le> length (tasks s) \<Longrightarrow>
   ticks_sum (bump_task i s) = ticks_sum s + 1"
  by (simp add: ticks_sum_def sum.distrib)

lemma ticks_sum_fields [simp]:
  "ticks_sum (s\<lparr>current_index := c\<rparr>) = ticks_sum s"
  "ticks_sum (s\<lparr>slice_progress := p\<rparr>) = ticks_sum s"
  "ticks_sum (s\<lparr>total_ticks := t\<rparr>) = ticks_sum s"
  by (simp_all add: ticks_sum_def)

lemma tick_sums:
  assumes inv: "sched_inv s"
  shows "total_ticks (scheduler_on_timer_tick s) = total_ticks s + 1"
    and "task_count (scheduler_on_timer_tick s) = task_count s"
    and "ticks_sum (scheduler_on_timer_tick s) =
           ticks_sum s + (if task_count s = 0 then 0 else 1)"
proof -
  have "total_ticks (scheduler_on_timer_tick s) = total_ticks s + 1 \<and>
    task_count (scheduler_on_timer_tick s) = task_count s \<and>
    ticks_sum (scheduler_on_timer_tick s) = ticks_sum s + (if task_count s = 0 then 0 else 1)"
  proof (cases "task_count s = 0")
    case True
    then show ?thesis by (simp add: scheduler_on_timer_tick_def)
  next
    case False
    then have n: "0 < task_count s" by simp
    show ?thesis
      using sched_invD(1,2,7) [OF inv] n
      by (simp add: tick_cases [OF inv n] Let_def ticks_sum_bump)
  qed
  then show "total_ticks (scheduler_on_timer_tick s) = total_ticks s + 1"
    and "task_count (scheduler_on_timer_tick s) = task_count s"
    and "ticks_sum (scheduler_on_timer_tick s) =
           ticks_sum s + (if task_count s = 0 then 0 else 1)" by auto
qed

lemma register_sums:
  assumes inv: "sched_inv s"
  shows "total_ticks (snd (scheduler_register_task nm sl s)) = total_ticks s"
    and "task_count (snd (scheduler_register_task nm sl s)) = min 8 (Suc (task_count s))"
    and "ticks_sum (snd (scheduler_register_task nm sl s)) = ticks_sum s"
  using sched_invD(1,2) [OF inv]
  by (auto simp: scheduler_register_task_def Let_def SCHED_MAX_TASKS_def ticks_sum_def)

lemma run_counts:
  "task_count (sched_run ops) = min 8 (register_count ops)"
  "total_ticks (sched_run ops) = of_nat (tick_count ops)"
  "ticks_sum (sched_run ops) = of_nat (tick_count (dropWhile (\<lambda>x. \<not> is_register x) ops))"
proof -
  have *: "task_count (sched_run ops) = min 8 (register_count ops) \<and>
    total_ticks (sched_run ops) = of_nat (tick_count ops) \<and>
    ticks_sum (sched_run ops) = of_nat (tick_count (dropWhile (\<lambda>x. \<not> is_register x) ops))"
  proof (induction ops rule: rev_induct)
    case Nil
    show ?case by (simp add: sched_run_def scheduler_init_def ticks_sum_def)
  next
    case (snoc x ops)
    note inv = sched_run_inv [of ops]
    show ?case
    proof (cases x)
      case (Register nm sl)
      with snoc.IH register_sums [OF inv, of nm sl] show ?thesis
        by (simp add: sched_run_snoc charged_ticks_snoc)
    next
      case Tick
      have "min 8 (register_count ops) = 0 \<longleftrightarrow> register_count ops = 0" by auto
      with Tick snoc.IH tick_sums [OF inv] charged_ticks_none [of ops] show ?thesis
        by (simp add: sched_run_snoc charged_ticks_snoc)
    qed
  qed
  then show "task_count (sched_run ops) = min 8 (register_count ops)"
    and "total_ticks (sched_run ops) = of_nat (tick_count ops)"
    and "ticks_sum (sched_run ops) = of_nat (tick_count (dropWhile (\<lambda>x. \<not> is_register x) ops))"
    by auto
qed

section \<open>Properties\<close>

text \<open>C1. Round-robin fairness.  Take any state the scheduler reaches by
registrations and timer ticks with at least one task, at any point of a time
slice.  After one round, that is as many further ticks as the slices of all
registered tasks add up to, every task has been charged exactly its own time
slice, the same task is running at the same point of its slice, the tick total
has advanced by the length of the round and no task changed identity.\<close>

theorem scheduler_round_robin_fair:
  assumes "s = sched_run ops" and "0 < task_count s"
    and "s' = (scheduler_on_timer_tick ^^ round_ticks s) s"
  shows "(\<forall>i < task_count s. ticks_seen (tasks s' ! i) =
            ticks_seen (tasks s ! i) + of_nat (slice_at s i)) \<and>
         current_index s' = current_index s \<and> slice_progress s' = slice_progress s \<and>
         total_ticks s' = total_ticks s + of_nat (round_ticks s) \<and> same_tasks s s'"
  using round_robin [of s] sched_run_inv [of ops] assms by (simp add: Let_def)

definition demo_ops :: "sched_op list" where
  "demo_ops = [Register (Some ''idle'') 2, Register (Some ''shell'') 0, Register None 3, Tick]"

lemma scheduler_round_robin_fair_witness:
  "let s = sched_run demo_ops; s' = (scheduler_on_timer_tick ^^ round_ticks s) s
   in round_ticks s = 6 \<and> current_index s' = 0 \<and> slice_progress s' = 1 \<and>
      total_ticks s' = 7 \<and> map ticks_seen (take 3 (tasks s')) = [3, 1, 3]"
proof -
  let ?s = "sched_run demo_ops"
  have a: "round_ticks ?s = 6" "task_count ?s = 3" "current_index ?s = 0" "slice_progress ?s = 1"
      "total_ticks ?s = 1" "map ticks_seen (take 3 (tasks ?s)) = [1, 0, 0]"
      "length (tasks ?s) = 8" "slice_at ?s 0 = 2" "slice_at ?s 1 = 1" "slice_at ?s 2 = 3"
    by code_simp+
  let ?s' = "(scheduler_on_timer_tick ^^ round_ticks ?s) ?s"
  note f = scheduler_round_robin_fair [OF refl, of demo_ops ?s']
  have "map ticks_seen (take 3 (tasks ?s')) =
      [ticks_seen (tasks ?s' ! 0), ticks_seen (tasks ?s' ! 1), ticks_seen (tasks ?s' ! 2)]"
    using f a by (simp add: same_tasks_def list_eq_iff_nth_eq nth_Cons' numeral_eq_Suc less_Suc_eq)
  moreover have "ticks_seen (tasks ?s ! 0) = 1" "ticks_seen (tasks ?s ! 1) = 0"
      "ticks_seen (tasks ?s ! 2) = 0" by code_simp+
  ultimately show ?thesis
    using f a by (simp add: Let_def)
qed

text \<open>C18. What the scheduler's state looks like after any sequence of
registrations and ticks: the first tasks of the table, as many as were
registered but at most eight, carry the ids 1, 2, \<dots> in order, are runnable and
have a non-zero slice; the running index is one of them and its progress is
below its slice; the tick total is the number of ticks, and the tasks' own
tick counts add up to the ticks since the first registration, so no tick is
lost or charged twice.\<close>

theorem scheduler_run_accounting:
  "let s = sched_run ops; n = min 8 (register_count ops)
   in task_count s = n \<and>
      (\<forall>t \<in> set (take n (tasks s)).
         task_state t = SCHED_TASK_RUNNABLE \<and> time_slice_ticks t \<noteq> 0) \<and>
      map task_id (take n (tasks s)) = map (\<lambda>i. of_nat i + 1) [0..<n] \<and>
      (n = 0 \<or> current_index s < n \<and>
         slice_progress s < time_slice_ticks (tasks s ! current_index s)) \<and>
      total_ticks s = of_nat (tick_count ops) \<and>
      (\<Sum>i < n. ticks_seen (tasks s ! i)) =
        of_nat (tick_count (dropWhile (\<lambda>x. \<not> is_register x) ops))"
proof -
  let ?s = "sched_run ops"
  note D = sched_invD [OF sched_run_inv [of ops]]
  have "\<forall>t \<in> set (take (task_count ?s) (tasks ?s)).
      task_state t = SCHED_TASK_RUNNABLE \<and> time_slice_ticks t \<noteq> 0"
    using D(1,2,4,5) by (auto simp: in_set_conv_nth runnable_at_def)
  moreover have "map task_id (take (task_count ?s) (tasks ?s)) =
      map (\<lambda>i. of_nat i + 1) [0..<task_count ?s]"
    using D(1,2,6) by (auto simp: list_eq_iff_nth_eq)
  ultimately show ?thesis
    using D(7,8) run_counts [of ops] by (auto simp: Let_def ticks_sum_def)
qed

lemma scheduler_run_accounting_witness:
  "task_count (sched_run demo_ops) = 3 \<and> total_ticks (sched_run demo_ops) = 1 \<and>
   (\<Sum>i < 3. ticks_seen (tasks (sched_run demo_ops) ! i)) = 1"
proof -
  have "min 8 (register_count demo_ops) = 3" "tick_count demo_ops = 1"
    "tick_count (dropWhile (\<lambda>x. \<not> is_register x) demo_ops) = 1" by code_simp+
  then show ?thesis using scheduler_run_accounting [of demo_ops] by (simp add: Let_def)
qed

text \<open>Registration: on any reachable state a registration returns the next
id, one more than the number of registered tasks, and puts the task with its
name, no ticks and a slice of at least one tick behind the registered ones; once
eight tasks are registered it returns -1 and changes nothing.\<close>

theorem scheduler_register_task_result:
  "let s = sched_run ops; k = register_count ops; (r, s') = scheduler_register_task nm sl s
   in if k < 8
      then r = int k + 1 \<and> task_count s' = Suc k \<and>
           take k (tasks s') = take k (tasks s) \<and>
           tasks s' ! k = \<lparr>task_id = of_nat k + 1, task_name = nm,
             task_state = SCHED_TASK_RUNNABLE, ticks_seen = 0, time_slice_ticks = max 1 sl\<rparr>
      else r = -1 \<and> s' = s"
proof -
  let ?k = "register_count ops"
  note D = sched_invD [OF sched_run_inv [of ops]]
  have "max 1 sl = (if sl = 0 then 1 else sl)"
    by (simp add: max_def word_le_nat_alt unat_eq_zero) (metis Suc_leI unat_gt_0)
  then show ?thesis
    using D(1,3) run_counts(1) [of ops]
    by (simp add: register_cases [OF sched_run_inv] Let_def)
qed

end
