(* ===== verification/PortIo.thy ===== *)
theory PortIo
  imports Prelude
begin

text \<open>
  The x86 port space.  \<open>inb\<close>, \<open>outb\<close> (\<open>kernel/lib/port_io.c\<close>) and the string
  forms of the disk driver are processor instructions: the device behind them
  is a parameter of the model, a record of access functions on an unknown
  device state \<open>'d\<close>.  Drivers are functions that thread that state.  What a
  driver relies on of its device is a named hypothesis of the lemmas about it.
\<close>

record 'd port_bus =
  inb :: "u16 \<Rightarrow> 'd \<Rightarrow> u8 \<times> 'd"
  outb :: "u16 \<Rightarrow> u8 \<Rightarrow> 'd \<Rightarrow> 'd"
  insw :: "u16 \<Rightarrow> 'd \<Rightarrow> u16 \<times> 'd"
  outsw :: "u16 \<Rightarrow> u16 \<Rightarrow> 'd \<Rightarrow> 'd"

text \<open>A sequence of port writes.\<close>

definition outbs :: "'d port_bus \<Rightarrow> (u16 \<times> u8) list \<Rightarrow> 'd \<Rightarrow> 'd" where
  "outbs bus ws d = fold (\<lambda>(p, v). outb bus p v) ws d"

lemma outbs_simps [simp]:
  "outbs bus [] d = d"
  "outbs bus ((p, v) # ws) d = outbs bus ws (outb bus p v d)"
  by (simp_all add: outbs_def)

lemma outbs_append: "outbs bus (ws @ vs) d = outbs bus vs (outbs bus ws d)"
  by (simp add: outbs_def)

text \<open>
  A concrete bus for evaluation: every port reads a fixed value and every
  write is recorded, oldest first.
\<close>

record bus_log =
  reads :: "(u16 \<times> u8) list"
  writes :: "(u16 \<times> u8) list"

definition log_bus :: "bus_log port_bus" where
  "log_bus =
     \<lparr>inb = (\<lambda>p d. (case map_of (reads d) p of None \<Rightarrow> 0 | Some v \<Rightarrow> v, d)),
      outb = (\<lambda>p v d. d\<lparr>writes := writes d @ [(p, v)]\<rparr>),
      insw = (\<lambda>p d. (0, d)),
      outsw = (\<lambda>p v d. d)\<rparr>"

lemma log_bus_simps [simp]:
  "writes (outb log_bus p v d) = writes d @ [(p, v)]"
  "reads (outb log_bus p v d) = reads d"
  "snd (inb log_bus p d) = d"
  by (simp_all add: log_bus_def)

lemma log_bus_outbs: "writes (outbs log_bus ws d) = writes d @ ws"
  by (induction ws arbitrary: d) (auto simp: log_bus_def outbs_def)

end
