(* ===== verification/Pic.thy ===== *)
theory Pic
  imports PortIo
begin

text \<open>
  The 8259 interrupt controller pair of \<open>drivers/pic/pic.c\<close>: its
  initialisation sequence, unmasking one line and acknowledging an interrupt.
  The controller itself is hardware; \<open>pic_device\<close> states its documented
  register protocol (initialisation words, mask register, end of interrupt) as
  a hypothesis on the bus.
\<close>

definition PIC1_COMMAND_PORT :: u16 where "PIC1_COMMAND_PORT = 0x20"
definition PIC1_DATA_PORT :: u16 where "PIC1_DATA_PORT = 0x21"
definition PIC2_COMMAND_PORT :: u16 where "PIC2_COMMAND_PORT = 0xA0"
definition PIC2_DATA_PORT :: u16 where "PIC2_DATA_PORT = 0xA1"
definition PIC_EOI_COMMAND :: u8 where "PIC_EOI_COMMAND = 0x20"
definition PIC_IRQ_BASE :: u8 where "PIC_IRQ_BASE = 32"

lemmas pic_ports = PIC1_COMMAND_PORT_def PIC1_DATA_PORT_def PIC2_COMMAND_PORT_def
  PIC2_DATA_PORT_def PIC_EOI_COMMAND_def PIC_IRQ_BASE_def

definition pic_init :: "'d port_bus \<Rightarrow> 'd \<Rightarrow> 'd" where
  "pic_init bus d0 =
     (let (_, d1) = inb bus PIC1_DATA_PORT d0;
          (_, d2) = inb bus PIC2_DATA_PORT d1
      in outbs bus
          [(PIC1_COMMAND_PORT, 0x11), (PIC2_COMMAND_PORT, 0x11),
           (PIC1_DATA_PORT, PIC_IRQ_BASE), (PIC2_DATA_PORT, PIC_IRQ_BASE + 8),
           (PIC1_DATA_PORT, 0x04), (PIC2_DATA_PORT, 0x02),
           (PIC1_DATA_PORT, 0x01), (PIC2_DATA_PORT, 0x01),
           (PIC1_DATA_PORT, 0xFF), (PIC2_DATA_PORT, 0xFF)] d2)"

definition pic_unmask_irq :: "'d port_bus \<Rightarrow> u8 \<Rightarrow> 'd \<Rightarrow> 'd" where
  "pic_unmask_irq bus irq d =
     (let (port, irq') = (if irq < 8 then (PIC1_DATA_PORT, irq) else (PIC2_DATA_PORT, irq - 8));
          (mask', d') = inb bus port d
      in outb bus port (ucast (ucast mask' AND NOT (push_bit (unat irq') (1 :: u32)))) d')"

definition pic_send_eoi :: "'d port_bus \<Rightarrow> u8 \<Rightarrow> 'd \<Rightarrow> 'd" where
  "pic_send_eoi bus irq d =
     outb bus PIC1_COMMAND_PORT PIC_EOI_COMMAND
       (if irq \<ge> 8 then outb bus PIC2_COMMAND_PORT PIC_EOI_COMMAND d else d)"

section \<open>The documented device\<close>

text \<open>
  Each controller expects, after the command \<open>0x11\<close>, three initialisation words
  on its data port, the first of which is the vector base; otherwise a write
  to the data port sets, and a read returns, the interrupt mask.
\<close>

record chip =
  icws_left :: nat
  irq_mask :: u8
  vector_base :: u8

definition chip_command :: "u8 \<Rightarrow> chip \<Rightarrow> chip" where
  "chip_command v c = (if v = 0x11 then c\<lparr>icws_left := 3\<rparr> else c)"

definition chip_data :: "u8 \<Rightarrow> chip \<Rightarrow> chip" where
  "chip_data v c =
     (if icws_left c = 0 then c\<lparr>irq_mask := v\<rparr>
      else if icws_left c = 3 then c\<lparr>icws_left := 2, vector_base := v\<rparr>
      else c\<lparr>icws_left := icws_left c - 1\<rparr>)"

definition pic_device :: "'d port_bus \<Rightarrow> ('d \<Rightarrow> chip) \<Rightarrow> ('d \<Rightarrow> chip) \<Rightarrow> bool" where
  "pic_device bus chip1 chip2 \<longleftrightarrow>
     (\<forall>p d. chip1 (snd (inb bus p d)) = chip1 d \<and> chip2 (snd (inb bus p d)) = chip2 d) \<and>
     (\<forall>d. fst (inb bus 0x21 d) = irq_mask (chip1 d)) \<and>
     (\<forall>d. fst (inb bus 0xA1 d) = irq_mask (chip2 d)) \<and>
     (\<forall>p v d. chip1 (outb bus p v d) =
        (if p = 0x20 then chip_command v (chip1 d)
         else if p = 0x21 then chip_data v (chip1 d) else chip1 d)) \<and>
     (\<forall>p v d. chip2 (outb bus p v d) =
        (if p = 0xA0 then chip_command v (chip2 d)
         else if p = 0xA1 then chip_data v (chip2 d) else chip2 d))"

lemma pic_deviceD:
  assumes "pic_device bus chip1 chip2"
  shows "chip1 (snd (inb bus p d)) = chip1 d" "chip2 (snd (inb bus p d)) = chip2 d"
    "fst (inb bus 0x21 d) = irq_mask (chip1 d)" "fst (inb bus 0xA1 d) = irq_mask (chip2 d)"
    "chip1 (outb bus p v d) =
       (if p = 0x20 then chip_command v (chip1 d)
        else if p = 0x21 then chip_data v (chip1 d) else chip1 d)"
    "chip2 (outb bus p v d) =
       (if p = 0xA0 then chip_command v (chip2 d)
        else if p = 0xA1 then chip_data v (chip2 d) else chip2 d)"
  using assms unfolding pic_device_def by blast+

lemma pic_init_chips:
  assumes "pic_device bus chip1 chip2"
  shows "chip1 (pic_init bus d) = \<lparr>icws_left = 0, irq_mask = 0xFF, vector_base = 32\<rparr>"
    and "chip2 (pic_init bus d) = \<lparr>icws_left = 0, irq_mask = 0xFF, vector_base = 40\<rparr>"
  by (simp_all add: pic_init_def pic_ports Let_def split_beta pic_deviceD [OF assms]
      chip_command_def chip_data_def)

text \<open>Unmasking clears exactly the line's bit in its own controller.\<close>

definition clear_line :: "u8 \<Rightarrow> u8 \<Rightarrow> u8" where
  "clear_line n m = m AND NOT (push_bit (unat n) 1)"

lemma bit_clear_line: "bit (clear_line n m) i \<longleftrightarrow> bit m i \<and> i \<noteq> unat n"
  by (auto simp: clear_line_def bit_simps dest: bit_imp_le_length)

lemma clear_line_eq:
  "ucast (ucast m AND NOT (2 ^ unat n :: u32)) = clear_line n m"
  unfolding push_bit_of_1 [symmetric]
  by (rule bit_word_eqI) (auto simp: clear_line_def bit_simps)

lemma pic_unmask_chips:
  assumes dev: "pic_device bus chip1 chip2"
    and "icws_left (chip1 d) = 0" "icws_left (chip2 d) = 0"
  shows "chip1 (pic_unmask_irq bus irq d) =
      (if irq < 8 then (chip1 d)\<lparr>irq_mask := clear_line irq (irq_mask (chip1 d))\<rparr> else chip1 d)"
    and "chip2 (pic_unmask_irq bus irq d) =
      (if irq < 8 then chip2 d
       else (chip2 d)\<lparr>irq_mask := clear_line (irq - 8) (irq_mask (chip2 d))\<rparr>)"
  using assms(2,3)
  by (simp_all add: pic_unmask_irq_def pic_ports Let_def split_beta pic_deviceD [OF dev]
      chip_command_def chip_data_def clear_line_eq)

lemma pic_send_eoi_chips:
  assumes "pic_device bus chip1 chip2"
  shows "chip1 (pic_send_eoi bus irq d) = chip1 d" "chip2 (pic_send_eoi bus irq d) = chip2 d"
  by (simp_all add: pic_send_eoi_def pic_ports pic_deviceD [OF assms] chip_command_def)

end
