(* ===== verification/Kio.thy ===== *)
theory Kio
  imports WordLib
begin

text \<open>
  Formatted output (\<open>kernel/lib/kio.c\<close>).  Every character the kernel prints
  goes through \<open>kputchar\<close>, which sends it to the text display and to the serial
  port; the functions here compute the sequence of characters they pass to it.
  Variadic arguments are a list of values; reading an argument that is missing
  or of the wrong kind is undefined in C and is the result \<open>None\<close>.
\<close>

datatype karg = KStr "char list" | KInt u32

definition kputs :: "char list \<Rightarrow> string" where
  "kputs str = cstr str"

text \<open>
  The digit loop of \<open>kprint_uint\<close>.  Its first argument is the room left in the
  32-byte digit buffer; \<open>None\<close> is a write past it or a division by zero.
\<close>

definition digit_char :: "u32 \<Rightarrow> bool \<Rightarrow> char" where
  "digit_char digit uppercase =
     (if digit < 10 then char_of (48 + unat digit)
      else char_of ((if uppercase then 65 else 97) + (unat digit - 10)))"

fun digit_loop :: "nat \<Rightarrow> u32 \<Rightarrow> u32 \<Rightarrow> bool \<Rightarrow> string \<Rightarrow> string option" where
  "digit_loop 0 val base uppercase buffer = (if val > 0 then None else Some buffer)"
| "digit_loop (Suc room) val base uppercase buffer =
     (if val > 0
      then if base = 0 then None
           else digit_loop room (val div base) base uppercase
                  (buffer @ [digit_char (val mod base) uppercase])
      else Some buffer)"

definition kprint_uint :: "u32 \<Rightarrow> u32 \<Rightarrow> bool \<Rightarrow> string option" where
  "kprint_uint val base uppercase =
     (if val = 0 then Some ''0''
      else map_option rev (digit_loop 32 val base uppercase []))"

definition kprint_int :: "u32 \<Rightarrow> string option" where
  "kprint_int val =
     (if sint val < 0
      then map_option (\<lambda>s. CHR ''-'' # s) (kprint_uint (word_of_int (- sint val)) 10 False)
      else kprint_uint val 10 False)"

fun kprintf :: "char list \<Rightarrow> karg list \<Rightarrow> string option" where
  "kprintf [] args = Some []"
| "kprintf (c # fmt) args =
     (if c = NUL then Some []
      else if c \<noteq> CHR ''%'' then map_option (Cons c) (kprintf fmt args)
      else case fmt of [] \<Rightarrow> Some ''%''
        | s # fmt' \<Rightarrow>
            if s = CHR ''s'' then
              (case args of KStr str # args' \<Rightarrow> map_option (\<lambda>r. kputs str @ r) (kprintf fmt' args')
               | _ \<Rightarrow> None)
            else if s = CHR ''d'' then
              (case args of KInt v # args' \<Rightarrow>
                 (case kprint_int v of None \<Rightarrow> None
                  | Some d \<Rightarrow> map_option (\<lambda>r. d @ r) (kprintf fmt' args'))
               | _ \<Rightarrow> None)
            else if s = CHR ''x'' then
              (case args of KInt v # args' \<Rightarrow>
                 (case kprint_uint v 16 False of None \<Rightarrow> None
                  | Some d \<Rightarrow> map_option (\<lambda>r. d @ r) (kprintf fmt' args'))
               | _ \<Rightarrow> None)
            else if s = CHR ''c'' then
              (case args of KInt v # args' \<Rightarrow> map_option (Cons (char_of (unat v))) (kprintf fmt' args')
               | _ \<Rightarrow> None)
            else if s = CHR ''%'' then map_option (Cons CHR ''%'') (kprintf fmt' args)
            else if s = NUL then Some ''%''
            else map_option (\<lambda>r. CHR ''%'' # s # r) (kprintf fmt' args))"

section \<open>Reading numerals back\<close>

definition digit_value :: "char \<Rightarrow> nat" where
  "digit_value c =
     (let n = of_char c in
      if 48 \<le> n \<and> n \<le> 57 then n - 48 else if 97 \<le> n then n - 87 else n - 55)"

definition numeral_value :: "nat \<Rightarrow> string \<Rightarrow> nat" where
  "numeral_value b s = foldl (\<lambda>acc c. acc * b + digit_value c) 0 s"

lemma digit_value_char:
  "d < 16 \<Longrightarrow> digit_value (digit_char d up) = unat d"
proof -
  assume "d < 16"
  then have "unat d < 16" by (simp add: word_less_nat_alt)
  moreover have "of_char (digit_char d up) =
      (if unat d < 10 then 48 + unat d else (if up then 65 else 97) + (unat d - 10))"
    using \<open>unat d < 16\<close> by (auto simp: digit_char_def word_less_nat_alt)
  ultimately show ?thesis by (auto simp: digit_value_def Let_def)
qed

lemma numeral_value_snoc: "numeral_value b (s @ [c]) = numeral_value b s * b + digit_value c"
  by (simp add: numeral_value_def)

lemma numeral_value_Nil: "numeral_value b [] = 0"
  by (simp add: numeral_value_def)

definition fold_digits :: "nat \<Rightarrow> string \<Rightarrow> nat" where
  "fold_digits b s = foldr (\<lambda>c acc. digit_value c + b * acc) s 0"

lemma numeral_value_rev: "numeral_value b (rev s) = fold_digits b s"
  by (induction s) (simp_all add: numeral_value_snoc numeral_value_Nil fold_digits_def algebra_simps)

text \<open>
  The loop stops within the buffer, and the digits it appends are those of the
  value, least significant first, without a leading zero.
\<close>

lemma digit_loop_spec:
  assumes "2 \<le> base" "base \<le> 16" "unat val < unat base ^ room"
  shows "\<exists>ds. digit_loop room val base up buffer = Some (buffer @ ds) \<and>
      fold_digits (unat base) ds = unat val \<and>
      (ds = [] \<longleftrightarrow> val = 0) \<and> (ds \<noteq> [] \<longrightarrow> digit_value (last ds) \<noteq> 0) \<and>
      (\<forall>c \<in> set ds. \<exists>d < base. c = digit_char d up)"
  using assms(3)
proof (induction room arbitrary: val buffer)
  case 0
  then have "val = 0" by (simp add: unat_eq_zero)
  then show ?case by (simp add: fold_digits_def)
next
  case (Suc room)
  show ?case
  proof (cases "val = 0")
    case True
    then show ?thesis by (simp add: fold_digits_def)
  next
    case False
    let ?b = "unat base"
    have b: "2 \<le> ?b" "?b \<le> 16" using assms(1,2) by (simp_all add: word_le_nat_alt)
    have base0: "base \<noteq> 0" using b by auto
    have "unat val div ?b < ?b ^ room"
      using Suc.prems b by (simp add: less_mult_imp_div_less mult.commute)
    then have "unat (val div base) < ?b ^ room" by (simp add: unat_div)
    from Suc.IH [OF this, of "buffer @ [digit_char (val mod base) up]"]
    obtain ds where ds: "digit_loop room (val div base) base up
          (buffer @ [digit_char (val mod base) up]) =
          Some ((buffer @ [digit_char (val mod base) up]) @ ds)"
        "fold_digits ?b ds = unat (val div base)" "ds = [] \<longleftrightarrow> val div base = 0"
        "ds \<noteq> [] \<longrightarrow> digit_value (last ds) \<noteq> 0"
        "\<forall>c \<in> set ds. \<exists>d < base. c = digit_char d up"
      by blast
    have m: "val mod base < base" using base0 by (simp add: word_mod_less_divisor word_gt_0)
    then have m16: "val mod base < 16"
      using assms(2) b by (simp add: word_less_nat_alt word_le_nat_alt)
    have v: "unat val = unat (val mod base) + ?b * unat (val div base)"
      by (simp add: unat_div unat_mod)
    let ?ds = "digit_char (val mod base) up # ds"
    have "digit_value (last ?ds) \<noteq> 0"
    proof (cases "ds = []")
      case True
      then have "unat (val div base) = 0" using ds(3) by simp
      then have "unat (val mod base) = unat val" using v by simp
      moreover have "unat val \<noteq> 0" using False by (simp add: unat_eq_zero)
      ultimately have "unat (val mod base) \<noteq> 0" by simp
      with True show ?thesis by (simp add: digit_value_char [OF m16])
    qed (use ds(4) in simp)
    moreover have "fold_digits ?b ?ds = unat val"
      using ds(2) v by (simp add: fold_digits_def digit_value_char [OF m16])
    moreover have "digit_loop (Suc room) val base up buffer = Some (buffer @ ?ds)"
      using False base0 ds(1) by (simp add: word_neq_0_conv)
    ultimately show ?thesis using False m ds(5) by (intro exI [of _ ?ds]) auto
  qed
qed

lemma kprint_uint_spec:
  assumes "2 \<le> base" "base \<le> 16"
  shows "\<exists>s. kprint_uint val base up = Some s \<and> s \<noteq> [] \<and>
      numeral_value (unat base) s = unat val \<and>
      (val \<noteq> 0 \<longrightarrow> digit_value (hd s) \<noteq> 0) \<and> (\<forall>c \<in> set s. \<exists>d < base. c = digit_char d up)"
proof (cases "val = 0")
  case True
  have "digit_char 0 up = CHR ''0''" by (simp add: digit_char_def) code_simp
  moreover have "0 < base" using assms(1) by (simp add: word_le_nat_alt word_less_nat_alt)
  moreover have "numeral_value (unat base) ''0'' = 0" by (simp add: numeral_value_def) code_simp
  ultimately show ?thesis using True by (simp add: kprint_uint_def) metis
next
  case False
  have "unat val < 2 ^ 32" by (rule order_less_le_trans [OF unsigned_less]) simp
  also have "(2 :: nat) ^ 32 \<le> unat base ^ 32"
    using assms(1) by (intro power_mono) (simp_all add: word_le_nat_alt)
  finally obtain ds where ds: "digit_loop 32 val base up [] = Some ds"
      "fold_digits (unat base) ds = unat val" "ds \<noteq> []" "digit_value (last ds) \<noteq> 0"
      "\<forall>c \<in> set ds. \<exists>d < base. c = digit_char d up"
    using digit_loop_spec [OF assms, of val 32 up "[]"] False by auto
  then show ?thesis
    using False by (intro exI [of _ "rev ds"]) (simp add: kprint_uint_def numeral_value_rev hd_rev)
qed

section \<open>Signed values and format strings\<close>

definition signed_value :: "string \<Rightarrow> int" where
  "signed_value s =
     (case s of [] \<Rightarrow> 0
      | c # t \<Rightarrow> if c = CHR ''-'' then - int (numeral_value 10 t) else int (numeral_value 10 s))"

definition decimal_numeral :: "string \<Rightarrow> bool" where
  "decimal_numeral s \<longleftrightarrow>
     s \<noteq> [] \<and> set s \<subseteq> set ''0123456789'' \<and> (1 < length s \<longrightarrow> hd s \<noteq> CHR ''0'')"

lemma decimal_digit: "d < 10 \<Longrightarrow> digit_char d up \<in> set ''0123456789''"
proof -
  assume "d < 10"
  then have "unat d \<in> set [0..<10]" "digit_char d up = char_of (48 + unat d)"
    by (simp_all add: digit_char_def word_less_nat_alt)
  moreover have "\<forall>n \<in> set [0..<10]. char_of (48 + n :: nat) \<in> set ''0123456789''" by code_simp
  ultimately show ?thesis by auto
qed

lemma kprint_uint_decimal:
  "\<exists>s. kprint_uint val 10 up = Some s \<and> decimal_numeral s \<and> numeral_value 10 s = unat val"
proof -
  obtain s where s: "kprint_uint val 10 up = Some s" "s \<noteq> []" "numeral_value 10 s = unat val"
      "val \<noteq> 0 \<longrightarrow> digit_value (hd s) \<noteq> 0" "\<forall>c \<in> set s. \<exists>d < 10. c = digit_char d up"
    using kprint_uint_spec [of 10 val up] by auto
  have "set s \<subseteq> set ''0123456789''"
  proof
    fix c assume "c \<in> set s"
    with s(5) obtain d where "d < 10" "c = digit_char d up" by blast
    then show "c \<in> set ''0123456789''" using decimal_digit [of d up] by simp
  qed
  moreover have "hd s \<noteq> CHR ''0''" if "1 < length s"
  proof -
    have "val \<noteq> 0" using that s(1) by (auto simp: kprint_uint_def)
    moreover have "digit_value CHR ''0'' = 0" by code_simp
    ultimately show ?thesis using s(4) by auto
  qed
  ultimately show ?thesis using s by (auto simp: decimal_numeral_def)
qed

lemma kprint_int_spec:
  "\<exists>s. kprint_int val = Some s \<and> signed_value s = sint val \<and>
     decimal_numeral (if sint val < 0 then tl s else s) \<and>
     (sint val < 0 \<longrightarrow> hd s = CHR ''-'')"
proof (cases "sint val < 0")
  case True
  let ?w = "word_of_int (- sint val) :: u32"
  obtain s where s: "kprint_uint ?w 10 False = Some s" "decimal_numeral s"
      "numeral_value 10 s = unat ?w"
    using kprint_uint_decimal by blast
  have "- sint val \<le> 2 ^ 31" using sint_greater_eq [of val] by simp
  then have "int (unat ?w) = - sint val"
  proof -
    have "uint ?w = (- sint val) mod 2 ^ 32" by (simp only: uint_word_of_int) simp
    then show ?thesis using True \<open>- sint val \<le> 2 ^ 31\<close> by (simp add: mod_pos_pos_trivial)
  qed
  with True s show ?thesis by (simp add: kprint_int_def signed_value_def)
next
  case False
  obtain s where s: "kprint_uint val 10 False = Some s" "decimal_numeral s"
      "numeral_value 10 s = unat val"
    using kprint_uint_decimal by blast
  have "sint val = uint val" using False by (simp add: uint_eq_sint)
  moreover have "hd s \<noteq> CHR ''-''"
    using s(2) by (cases s) (auto simp: decimal_numeral_def)
  ultimately have "signed_value s = sint val"
    using s by (cases s) (auto simp: signed_value_def decimal_numeral_def)
  with False s show ?thesis by (simp add: kprint_int_def)
qed

lemma kprintf_plain:
  "NUL \<notin> set pre \<Longrightarrow> CHR ''%'' \<notin> set pre \<Longrightarrow>
   kprintf (pre @ fmt) args = map_option (\<lambda>r. pre @ r) (kprintf fmt args)"
  by (cases "kprintf fmt args") (induction pre; auto)+

text \<open>
  \<open>%u\<close> and zero-padded forms are not recognised: the specifier is printed
  literally and its argument stays in the list, so the next conversion reads it.
\<close>

lemma kprintf_unknown_literal:
  "s \<notin> set ''sdxc%'' \<Longrightarrow> s \<noteq> NUL \<Longrightarrow>
   kprintf (CHR ''%'' # s # fmt) args = map_option (\<lambda>r. CHR ''%'' # s # r) (kprintf fmt args)"
  by simp

lemma kprintf_u_shifts_args:
  "kprintf ''%u %d'' [KInt 1, KInt 2] = Some ''%u 1''"
  by code_simp

text \<open>Integer output.  A \<open>%d\<close> in a format string, after any plain text, prints
a canonical signed decimal numeral (digits without a leading zero, a minus sign
exactly for negative values, the most negative value included) whose value is
the argument, and \<open>%x\<close> prints a numeral in base 16 of the unsigned value; the
rest of the format goes on with the remaining arguments, and the 32-byte digit
buffer is never overrun.\<close>

theorem kprintf_integers:
  assumes "NUL \<notin> set pre" and "CHR ''%'' \<notin> set pre"
  shows "(\<exists>s. kprintf (pre @ ''%d'' @ post) (KInt v # args) =
             map_option (\<lambda>r. pre @ s @ r) (kprintf post args) \<and>
           signed_value s = sint v \<and>
           decimal_numeral (if sint v < 0 then tl s else s) \<and> (sint v < 0 \<longrightarrow> hd s = CHR ''-'')) \<and>
         (\<exists>s. kprintf (pre @ ''%x'' @ post) (KInt v # args) =
             map_option (\<lambda>r. pre @ s @ r) (kprintf post args) \<and>
           s \<noteq> [] \<and> numeral_value 16 s = unat v \<and> (v \<noteq> 0 \<longrightarrow> digit_value (hd s) \<noteq> 0))"
proof -
  obtain s where s: "kprint_int v = Some s" "signed_value s = sint v"
      "decimal_numeral (if sint v < 0 then tl s else s)" "sint v < 0 \<longrightarrow> hd s = CHR ''-''"
    using kprint_int_spec by blast
  have d: "kprintf (pre @ ''%d'' @ post) (KInt v # args) =
      map_option (\<lambda>r. pre @ s @ r) (kprintf post args)"
    using kprintf_plain [OF assms, of "''%d'' @ post"] s(1)
    by (simp add: option.map_comp o_def)
  obtain t where t: "kprint_uint v 16 False = Some t" "t \<noteq> []"
      "numeral_value 16 t = unat v" "v \<noteq> 0 \<longrightarrow> digit_value (hd t) \<noteq> 0"
    using kprint_uint_spec [of 16 v False] by auto
  have x: "kprintf (pre @ ''%x'' @ post) (KInt v # args) =
      map_option (\<lambda>r. pre @ t @ r) (kprintf post args)"
    using kprintf_plain [OF assms, of "''%x'' @ post"] t(1)
    by (simp add: option.map_comp o_def)
  show ?thesis using d x s(2-4) t(2-4) by blast
qed

lemma kprintf_integers_witness:
  "\<exists>s. kprintf ''ticks %d'' [KInt (- 2147483648)] = Some (''ticks '' @ s) \<and>
       signed_value s = - 2147483648"
proof -
  have p: "NUL \<notin> set ''ticks ''" "CHR ''%'' \<notin> set ''ticks ''" by simp_all
  have v: "sint (- 2147483648 :: u32) = - 2147483648" by code_simp
  show ?thesis
    using kprintf_integers [OF p, of "[]" "- 2147483648" "[]"] unfolding v by auto
qed

end
