(* ===== verification/Vga.thy ===== *)
theory Vga
  imports PortIo WordLib
begin

text \<open>
  The text display driver \<open>drivers/vga/vga.c\<close>: the 80 by 25 cell buffer, the
  software cursor and colour, and the hardware cursor written through the bus.
  The memory-mapped buffer is a list of 2000 cells.  The invariant keeps the
  cursor on the screen, so that no cell access leaves the buffer, and the
  output lemmas describe the screen as rows of cells.
\<close>

definition VGA_COLS :: int where "VGA_COLS = 80"
definition VGA_ROWS :: int where "VGA_ROWS = 25"
definition VGA_CTRL_PORT :: u16 where "VGA_CTRL_PORT = 0x3D4"
definition VGA_DATA_PORT :: u16 where "VGA_DATA_PORT = 0x3D5"

lemmas vga_consts = VGA_COLS_def VGA_ROWS_def VGA_CTRL_PORT_def VGA_DATA_PORT_def

record vga =
  vga_buffer :: "u16 list"
  vga_cursor_row :: int
  vga_cursor_col :: int
  vga_current_color :: u8

definition vga_make_cell :: "char \<Rightarrow> u8 \<Rightarrow> u16" where
  "vga_make_cell c color = of_char c OR push_bit 8 (ucast color)"

definition vga_hw_set_cursor :: "'d port_bus \<Rightarrow> int \<Rightarrow> int \<Rightarrow> 'd \<Rightarrow> 'd" where
  "vga_hw_set_cursor bus row col d =
     (let position = word_of_int (row * VGA_COLS + col) :: u16 in
      outbs bus [(VGA_CTRL_PORT, 0x0E), (VGA_DATA_PORT, ucast (drop_bit 8 position AND 0xFF)),
                 (VGA_CTRL_PORT, 0x0F), (VGA_DATA_PORT, ucast (position AND 0xFF))] d)"

text \<open>Rows 1 to 24 move up one row, cell by cell, and the last row is blanked.\<close>

definition scroll_row :: "nat \<Rightarrow> u16 list \<Rightarrow> u16 list" where
  "scroll_row row buf =
     fold (\<lambda>col b. b[(row - 1) * 80 + col := b ! (row * 80 + col)]) [0..<80] buf"

definition vga_scroll :: "vga \<Rightarrow> vga" where
  "vga_scroll v =
     (let moved = fold scroll_row [1..<25] (vga_buffer v);
          blank = vga_make_cell CHR '' '' (vga_current_color v)
      in v\<lparr>vga_buffer := fold (\<lambda>col b. b[24 * 80 + col := blank]) [0..<80] moved,
           vga_cursor_row := VGA_ROWS - 1\<rparr>)"

definition vga_set_color :: "nat \<Rightarrow> nat \<Rightarrow> vga \<Rightarrow> vga" where
  "vga_set_color foreground background v =
     v\<lparr>vga_current_color :=
         ucast (push_bit 4 (of_nat background :: u32) OR (of_nat foreground AND 0x0F))\<rparr>"

definition vga_clear :: "'d port_bus \<Rightarrow> vga \<times> 'd \<Rightarrow> vga \<times> 'd" where
  "vga_clear bus = (\<lambda>(v, d).
     let blank = vga_make_cell CHR '' '' (vga_current_color v)
     in (v\<lparr>vga_buffer := fold (\<lambda>i b. b[i := blank]) [0..<nat (VGA_COLS * VGA_ROWS)] (vga_buffer v),
           vga_cursor_row := 0, vga_cursor_col := 0\<rparr>,
         vga_hw_set_cursor bus 0 0 d))"

definition vga_init :: "'d port_bus \<Rightarrow> vga \<times> 'd \<Rightarrow> vga \<times> 'd" where
  "vga_init bus = (\<lambda>(v, d). vga_clear bus (vga_set_color 7 0 v, d))"

definition vga_cell_index :: "vga \<Rightarrow> nat" where
  "vga_cell_index v = nat (vga_cursor_row v * VGA_COLS + vga_cursor_col v)"

definition vga_advance :: "char \<Rightarrow> vga \<Rightarrow> vga" where
  "vga_advance c v =
     (if c = CHR 0x0A then v\<lparr>vga_cursor_col := 0, vga_cursor_row := vga_cursor_row v + 1\<rparr>
      else if c = CHR 0x0D then v\<lparr>vga_cursor_col := 0\<rparr>
      else if c = CHR 0x08 then
        (if vga_cursor_col v > 0
         then let v' = v\<lparr>vga_cursor_col := vga_cursor_col v - 1\<rparr>
              in v'\<lparr>vga_buffer := (vga_buffer v')[vga_cell_index v' :=
                      vga_make_cell CHR '' '' (vga_current_color v')]\<rparr>
         else v)
      else
        let v1 = v\<lparr>vga_buffer := (vga_buffer v)[vga_cell_index v :=
                     vga_make_cell c (vga_current_color v)],
                   vga_cursor_col := vga_cursor_col v + 1\<rparr>
        in if vga_cursor_col v1 \<ge> VGA_COLS
           then v1\<lparr>vga_cursor_col := 0, vga_cursor_row := vga_cursor_row v1 + 1\<rparr> else v1)"

definition vga_putchar :: "'d port_bus \<Rightarrow> char \<Rightarrow> vga \<times> 'd \<Rightarrow> vga \<times> 'd" where
  "vga_putchar bus c = (\<lambda>(v, d).
     let v1 = vga_advance c v;
         v2 = (if vga_cursor_row v1 \<ge> VGA_ROWS then vga_scroll v1 else v1)
     in (v2, vga_hw_set_cursor bus (vga_cursor_row v2) (vga_cursor_col v2) d))"

definition vga_set_cursor :: "'d port_bus \<Rightarrow> int \<Rightarrow> int \<Rightarrow> vga \<times> 'd \<Rightarrow> vga \<times> 'd" where
  "vga_set_cursor bus row col = (\<lambda>(v, d).
     let row1 = (if row < 0 then 0 else row);
         row2 = (if row1 \<ge> VGA_ROWS then VGA_ROWS - 1 else row1);
         col1 = (if col < 0 then 0 else col);
         col2 = (if col1 \<ge> VGA_COLS then VGA_COLS - 1 else col1)
     in (v\<lparr>vga_cursor_row := row2, vga_cursor_col := col2\<rparr>, vga_hw_set_cursor bus row2 col2 d))"

section \<open>Scrolling\<close>

lemma fold_update_const:
  "m \<le> length b \<Longrightarrow>
   fold (\<lambda>i b. b[i := x]) [0..<m] b = replicate m x @ drop m b"
proof (induction m)
  case (Suc m)
  then have "drop m b = b ! m # drop (Suc m) b" by (simp add: Cons_nth_drop_Suc)
  with Suc show ?case by (simp add: list_update_append replicate_append_same flip: replicate_Suc)
qed simp

lemma fold_update_offset:
  "k + m \<le> length b \<Longrightarrow>
   fold (\<lambda>i b. b[k + i := x]) [0..<m] b = take k b @ replicate m x @ drop (k + m) b"
proof (induction m)
  case (Suc m)
  then have "drop (k + m) b = b ! (k + m) # drop (Suc (k + m)) b" by (simp add: Cons_nth_drop_Suc)
  with Suc show ?case by (simp add: list_update_append replicate_append_same min_def flip: replicate_Suc)
qed simp

lemma copy_up:
  "k + m \<le> j \<Longrightarrow> j + m \<le> length b \<Longrightarrow>
   fold (\<lambda>i b. b[k + i := b ! (j + i)]) [0..<m] b = take k b @ take m (drop j b) @ drop (k + m) b"
proof (induction m)
  case (Suc m)
  then have d: "drop (k + m) b = b ! (k + m) # drop (Suc (k + m)) b" by (simp add: Cons_nth_drop_Suc)
  from Suc have IH: "fold (\<lambda>i b. b[k + i := b ! (j + i)]) [0..<m] b =
      take k b @ take m (drop j b) @ drop (k + m) b" by simp
  have "\<not> j + m - k < m" using Suc.prems by linarith
  then have "(take k b @ take m (drop j b) @ drop (k + m) b) ! (j + m) = b ! (j + m)"
    using Suc.prems by (simp add: nth_append) (simp add: add.commute)
  moreover have "take (Suc m) (drop j b) = take m (drop j b) @ [b ! (j + m)]"
    using Suc.prems by (simp add: take_Suc_conv_app_nth)
  ultimately show ?case
    using Suc.prems by (simp add: IH list_update_append d)
qed simp

lemma scroll_row_eq:
  assumes "0 < r" "(r + 1) * 80 \<le> length b"
  shows "scroll_row r b = take ((r - 1) * 80) b @ take 80 (drop (r * 80) b) @ drop (r * 80) b"
  using copy_up [of "(r - 1) * 80" 80 "r * 80" b] assms
  by (cases r) (simp_all add: scroll_row_def algebra_simps)

lemma scroll_rows_eq:
  assumes "length b = 2000" "n \<le> 24"
  shows "fold scroll_row [1..<Suc n] b = take (n * 80) (drop 80 b) @ drop (n * 80) b"
  using assms(2)
proof (induction n)
  case (Suc n)
  let ?b = "take (n * 80) (drop 80 b) @ drop (n * 80) b"
  have "fold scroll_row [1..<Suc n] b = ?b" using Suc by simp
  moreover have "scroll_row (Suc n) ?b =
      take (n * 80) ?b @ take 80 (drop (Suc n * 80) ?b) @ drop (Suc n * 80) ?b"
    using scroll_row_eq [of "Suc n" ?b] assms(1) Suc.prems by simp
  moreover have "drop (Suc n * 80) ?b = drop (Suc n * 80) b"
    using assms(1) Suc.prems by (simp add: drop_drop add.commute)
  moreover have "take (n * 80) ?b = take (n * 80) (drop 80 b)"
    using assms(1) Suc.prems by simp
  moreover have "take (Suc n * 80) (drop 80 b) =
      take (n * 80) (drop 80 b) @ take 80 (drop (Suc n * 80) b)"
    using take_add [of "n * 80" 80 "drop 80 b"] by (simp add: add.commute)
  ultimately show ?case by simp
qed simp

lemma vga_scroll_buffer:
  assumes "length (vga_buffer v) = 2000"
  shows "vga_buffer (vga_scroll v) =
    drop 80 (vga_buffer v) @ replicate 80 (vga_make_cell CHR '' '' (vga_current_color v))"
proof -
  let ?b = "vga_buffer v"
  have m: "fold scroll_row [1..<25] ?b = drop 80 ?b @ drop 1920 ?b"
    using scroll_rows_eq [of ?b 24] assms by simp
  show ?thesis
    unfolding vga_scroll_def Let_def m
    using fold_update_offset [of 1920 80 "drop 80 ?b @ drop 1920 ?b"] assms by simp
qed

section \<open>The cursor stays on the screen\<close>

definition vga_inv :: "vga \<Rightarrow> bool" where
  "vga_inv v \<longleftrightarrow> length (vga_buffer v) = 2000 \<and>
     0 \<le> vga_cursor_row v \<and> vga_cursor_row v < VGA_ROWS \<and>
     0 \<le> vga_cursor_col v \<and> vga_cursor_col v < VGA_COLS"

lemma vga_cell_in_buffer:
  "vga_inv v \<Longrightarrow> vga_cell_index v < length (vga_buffer v)"
proof -
  assume v: "vga_inv v"
  then have "vga_cursor_row v * 80 \<le> 24 * 80" "vga_cursor_col v < 80" "length (vga_buffer v) = 2000"
    by (auto simp: vga_inv_def vga_consts)
  then show ?thesis by (simp add: vga_cell_index_def vga_consts nat_less_iff)
qed

lemma vga_clear_inv:
  "length (vga_buffer v) = 2000 \<Longrightarrow> vga_inv (fst (vga_clear bus (v, d)))"
  by (simp add: vga_clear_def vga_inv_def vga_consts Let_def fold_update_const)

lemma vga_set_cursor_inv: "vga_inv v \<Longrightarrow> vga_inv (fst (vga_set_cursor bus r c (v, d)))"
  by (simp add: vga_set_cursor_def vga_inv_def vga_consts Let_def)

lemma vga_advance_inv:
  "vga_inv v \<Longrightarrow> vga_cursor_row (vga_advance c v) < VGA_ROWS \<Longrightarrow> vga_inv (vga_advance c v)"
  by (auto simp: vga_advance_def vga_inv_def vga_consts Let_def split: if_splits)

lemma vga_advance_rows:
  "vga_inv v \<Longrightarrow>
   length (vga_buffer (vga_advance c v)) = 2000 \<and>
   vga_cursor_row (vga_advance c v) \<le> VGA_ROWS \<and>
   0 \<le> vga_cursor_col (vga_advance c v) \<and> vga_cursor_col (vga_advance c v) < VGA_COLS"
  by (auto simp: vga_advance_def vga_inv_def vga_consts Let_def)

lemma vga_putchar_inv: "vga_inv v \<Longrightarrow> vga_inv (fst (vga_putchar bus c (v, d)))"
proof -
  assume v: "vga_inv v"
  note r = vga_advance_rows [OF v, of c]
  show ?thesis
  proof (cases "vga_cursor_row (vga_advance c v) \<ge> VGA_ROWS")
    case True
    have "length (vga_buffer (vga_scroll (vga_advance c v))) = 2000"
      using r by (simp add: vga_scroll_buffer)
    then show ?thesis
      using True r by (simp add: vga_putchar_def vga_inv_def vga_scroll_def Let_def vga_consts)
  next
    case False
    with vga_advance_inv [OF v] show ?thesis by (simp add: vga_putchar_def Let_def)
  qed
qed

datatype vga_op = VClear | VColor nat nat | VCursor int int | VPut char

fun vga_step :: "'d port_bus \<Rightarrow> vga_op \<Rightarrow> vga \<times> 'd \<Rightarrow> vga \<times> 'd" where
  "vga_step bus VClear s = vga_clear bus s"
| "vga_step bus (VColor fg bg) s = (vga_set_color fg bg (fst s), snd s)"
| "vga_step bus (VCursor r c) s = vga_set_cursor bus r c s"
| "vga_step bus (VPut c) s = vga_putchar bus c s"

lemma vga_step_inv: "vga_inv (fst s) \<Longrightarrow> vga_inv (fst (vga_step bus x s))"
proof (cases x)
  case VClear
  moreover assume "vga_inv (fst s)"
  ultimately show ?thesis
    using vga_clear_inv [of "fst s" bus "snd s"] by (simp add: vga_inv_def)
next
  case (VColor fg bg)
  moreover assume "vga_inv (fst s)"
  ultimately show ?thesis by (simp add: vga_inv_def vga_set_color_def)
next
  case (VCursor r c)
  moreover assume "vga_inv (fst s)"
  ultimately show ?thesis using vga_set_cursor_inv [of "fst s" bus r c "snd s"] by simp
next
  case (VPut c)
  moreover assume "vga_inv (fst s)"
  ultimately show ?thesis using vga_putchar_inv [of "fst s" bus c "snd s"] by simp
qed

section \<open>Properties\<close>

definition vga_run :: "'d port_bus \<Rightarrow> vga_op list \<Rightarrow> vga \<times> 'd \<Rightarrow> vga \<times> 'd" where
  "vga_run bus ops s = fold (vga_step bus) ops s"

lemma vga_run_inv: "vga_inv (fst s) \<Longrightarrow> vga_inv (fst (vga_run bus ops s))"
  unfolding vga_run_def by (induction ops arbitrary: s) (simp_all add: vga_step_inv)

lemma vga_init_inv: "length (vga_buffer v) = 2000 \<Longrightarrow> vga_inv (fst (vga_init bus (v, d)))"
  using vga_clear_inv [of "vga_set_color 7 0 v"] by (simp add: vga_init_def vga_set_color_def)

text \<open>The hardware cursor a list of port writes leaves.\<close>

definition hw_cursor :: "(u16 \<times> u8) list \<Rightarrow> u16" where
  "hw_cursor ws = (case rev ws of lo # _ # hi # _ \<Rightarrow> word16_of (snd hi) (snd lo) | _ \<Rightarrow> 0)"

lemma hw_set_cursor_log:
  "hw_cursor (writes (vga_hw_set_cursor log_bus row col d)) = word_of_int (row * 80 + col)"
  by (simp add: vga_hw_set_cursor_def Let_def hw_cursor_def vga_consts word16_of_bytes)

text \<open>The cursor stays on the screen.  After initialisation, whatever is
printed, cleared, coloured or positioned, with any arguments, the buffer keeps
its 2000 cells and the cursor is inside the 25 by 80 grid, so the cell that the
next character is written to lies in the buffer; and after every character and
cursor move the two cursor registers hold the cell's linear position.\<close>

theorem vga_cursor_on_screen:
  assumes "length (vga_buffer v0) = 2000"
    and "s = vga_run log_bus ops (vga_init log_bus (v0, d0))"
  shows "vga_inv (fst s) \<and> vga_cell_index (fst s) < length (vga_buffer (fst s)) \<and>
    (let (v, d) = vga_putchar log_bus c s in unat (hw_cursor (writes d)) = vga_cell_index v) \<and>
    (let (v, d) = vga_set_cursor log_bus row col s in unat (hw_cursor (writes d)) = vga_cell_index v)"
proof -
  have inv: "vga_inv (fst s)"
    using vga_run_inv [OF vga_init_inv [OF assms(1)]] assms(2) by simp
  have pos: "unat (word_of_int (vga_cursor_row v * 80 + vga_cursor_col v) :: u16) = vga_cell_index v"
    if "vga_inv v" for v
  proof -
    have "vga_cell_index v < 2000" using vga_cell_in_buffer [OF that] that by (simp add: vga_inv_def)
    then have "vga_cursor_row v * 80 + vga_cursor_col v < 2000"
        "0 \<le> vga_cursor_row v * 80 + vga_cursor_col v"
      using that by (auto simp: vga_cell_index_def vga_consts vga_inv_def nat_less_iff)
    then show ?thesis
      unfolding vga_cell_index_def vga_consts by (intro unat_word_of_int) simp_all
  qed
  obtain v d where s: "s = (v, d)" by (cases s)
  have v: "vga_inv v" using inv s by simp
  have hw: "hw_cursor (writes (snd (vga_putchar log_bus c (v, d)))) =
      (let w = fst (vga_putchar log_bus c (v, d))
       in word_of_int (vga_cursor_row w * 80 + vga_cursor_col w))"
    by (simp only: vga_putchar_def Let_def split_conv fst_conv snd_conv hw_set_cursor_log)
  have hs: "hw_cursor (writes (snd (vga_set_cursor log_bus row col (v, d)))) =
      (let w = fst (vga_set_cursor log_bus row col (v, d))
       in word_of_int (vga_cursor_row w * 80 + vga_cursor_col w))"
    by (simp add: vga_set_cursor_def Let_def hw_set_cursor_log)
  show ?thesis
    unfolding s Let_def split_beta hw hs
    using v vga_cell_in_buffer [OF v] pos [OF vga_putchar_inv [OF v, where bus = log_bus]]
      pos [OF vga_set_cursor_inv [OF v, where bus = log_bus]]
    by (simp only: fst_conv)
qed

lemma vga_cursor_on_screen_witness:
  "let v0 = \<lparr>vga_buffer = replicate 2000 0, vga_cursor_row = 7, vga_cursor_col = 7, vga_current_color = 0\<rparr>;
       s = vga_run log_bus [VCursor 999 999] (vga_init log_bus (v0, \<lparr>reads = [], writes = []\<rparr>))
   in vga_inv (fst s)"
proof -
  let ?v0 = "\<lparr>vga_buffer = replicate 2000 0, vga_cursor_row = 7, vga_cursor_col = 7, vga_current_color = 0\<rparr>"
  have "length (vga_buffer ?v0) = 2000" by simp
  from vga_cursor_on_screen [OF this refl] show ?thesis by (simp add: Let_def)
qed

text \<open>Printing at the bottom.  A newline on the last row drops the first row
of the screen, moves the other rows up unchanged and leaves a blank last row
with the cursor at its start; a character printed in the last cell of the
screen is scrolled up with its row.\<close>

theorem vga_scrolls_one_row:
  assumes "vga_inv v" and "vga_cursor_row v = 24"
  shows "(let (v', d') = vga_putchar bus (CHR 0x0A) (v, d);
              blank = vga_make_cell CHR '' '' (vga_current_color v)
          in vga_buffer v' = drop 80 (vga_buffer v) @ replicate 80 blank \<and>
             vga_cursor_row v' = 24 \<and> vga_cursor_col v' = 0) \<and>
         (c \<notin> {CHR 0x0A, CHR 0x0D, CHR 0x08} \<and> vga_cursor_col v = 79 \<longrightarrow>
          (let (v', d') = vga_putchar bus c (v, d);
               blank = vga_make_cell CHR '' '' (vga_current_color v)
           in vga_buffer v' =
                drop 80 (take 1999 (vga_buffer v)) @ vga_make_cell c (vga_current_color v) #
                replicate 80 blank \<and>
              vga_cursor_row v' = 24 \<and> vga_cursor_col v' = 0))"
proof (intro conjI impI)
  have len: "length (vga_buffer v) = 2000" using assms(1) by (simp add: vga_inv_def)
  show "let (v', d') = vga_putchar bus (CHR 0x0A) (v, d);
             blank = vga_make_cell CHR '' '' (vga_current_color v)
         in vga_buffer v' = drop 80 (vga_buffer v) @ replicate 80 blank \<and>
            vga_cursor_row v' = 24 \<and> vga_cursor_col v' = 0"
    using assms(2) len
    by (simp add: vga_putchar_def vga_advance_def Let_def vga_consts vga_scroll_buffer)
      (simp add: vga_scroll_def Let_def vga_consts)
  assume c: "c \<notin> {CHR 0x0A, CHR 0x0D, CHR 0x08} \<and> vga_cursor_col v = 79"
  have "(vga_buffer v)[1999 := x] = take 1999 (vga_buffer v) @ [x]" for x
    using len by (simp add: upd_conv_take_nth_drop)
  then show "let (v', d') = vga_putchar bus c (v, d);
             blank = vga_make_cell CHR '' '' (vga_current_color v)
         in vga_buffer v' =
              drop 80 (take 1999 (vga_buffer v)) @ vga_make_cell c (vga_current_color v) #
              replicate 80 blank \<and>
            vga_cursor_row v' = 24 \<and> vga_cursor_col v' = 0"
    using assms(2) len c
    by (simp add: vga_putchar_def vga_advance_def Let_def vga_consts vga_scroll_buffer vga_cell_index_def)
      (simp add: vga_scroll_def Let_def vga_consts)
qed

lemma vga_scrolls_one_row_witness:
  "let v = \<lparr>vga_buffer = replicate 1920 1 @ replicate 80 2, vga_cursor_row = 24,
             vga_cursor_col = 79, vga_current_color = 7\<rparr>
   in vga_buffer (fst (vga_putchar log_bus CHR ''x'' (v, \<lparr>reads = [], writes = []\<rparr>))) =
        replicate 1840 1 @ replicate 79 2 @ vga_make_cell CHR ''x'' 7 #
        replicate 80 (vga_make_cell CHR '' '' 7)"
proof -
  let ?v = "\<lparr>vga_buffer = replicate 1920 1 @ replicate 80 2, vga_cursor_row = 24,
             vga_cursor_col = 79, vga_current_color = 7\<rparr>"
  have "vga_inv ?v" "vga_cursor_row ?v = 24" by (simp_all add: vga_inv_def vga_consts)
  from vga_scrolls_one_row [OF this, of log_bus "\<lparr>reads = [], writes = []\<rparr>" "CHR ''x''"]
  show ?thesis by (simp add: Let_def split_beta)
qed

end
