(* ===== verification/Timer.thy ===== *)
theory Timer
  imports Pic Scheduler
begin

text \<open>
  The PIT driver \<open>drivers/timer/timer.c\<close>: the divisor computation with its
  clamps, the programming sequence, and the interrupt handler that counts a
  tick, runs the scheduler and acknowledges the interrupt, in this order.
\<close>

definition PIT_INPUT_HZ :: u32 where "PIT_INPUT_HZ = 1193182"
definition PIT_COMMAND_PORT :: u16 where "PIT_COMMAND_PORT = 0x43"
definition PIT_CHANNEL0_PORT :: u16 where "PIT_CHANNEL0_PORT = 0x40"
definition TIMER_IRQ :: u8 where "TIMER_IRQ = 0"
definition TIMER_VECTOR :: u8 where "TIMER_VECTOR = PIC_IRQ_BASE + TIMER_IRQ"

lemmas timer_consts = PIT_INPUT_HZ_def PIT_COMMAND_PORT_def PIT_CHANNEL0_PORT_def
  TIMER_IRQ_def TIMER_VECTOR_def PIC_IRQ_BASE_def

record timer =
  ticks :: u64
  configured_frequency :: u32

definition timer_divisor :: "u32 \<Rightarrow> u32" where
  "timer_divisor frequency_hz =
     (let f = (if frequency_hz = 0 then 100 else frequency_hz);
          divisor = PIT_INPUT_HZ div f;
          divisor' = (if divisor = 0 then 1 else divisor)
      in if divisor' > 0xFFFF then 0xFFFF else divisor')"

text \<open>
  The registration of the handler in between is the caller's state
  (\<open>idt_register_handler\<close>); it touches no port.
\<close>

definition timer_init :: "'d port_bus \<Rightarrow> u32 \<Rightarrow> 'd \<Rightarrow> timer \<times> 'd" where
  "timer_init bus frequency_hz d =
     (let divisor = timer_divisor frequency_hz;
          t = \<lparr>ticks = 0, configured_frequency = PIT_INPUT_HZ div divisor\<rparr>;
          d' = outbs bus [(PIT_COMMAND_PORT, 0x36),
                 (PIT_CHANNEL0_PORT, ucast (divisor AND 0xFF)),
                 (PIT_CHANNEL0_PORT, ucast (drop_bit 8 divisor AND 0xFF))] d
      in (t, pic_unmask_irq bus TIMER_IRQ d'))"

definition timer_get_ticks :: "timer \<Rightarrow> u64" where
  "timer_get_ticks t = ticks t"

definition timer_get_frequency :: "timer \<Rightarrow> u32" where
  "timer_get_frequency t = configured_frequency t"

definition timer_interrupt_handler ::
    "'d port_bus \<Rightarrow> timer \<times> sched \<times> 'd \<Rightarrow> timer \<times> sched \<times> 'd" where
  "timer_interrupt_handler bus = (\<lambda>(t, s, d).
     (t\<lparr>ticks := ticks t + 1\<rparr>, scheduler_on_timer_tick s, pic_send_eoi bus TIMER_IRQ d))"

section \<open>The divisor\<close>

lemma timer_divisor_range: "1 \<le> unat (timer_divisor f) \<and> unat (timer_divisor f) \<le> 65535"
proof -
  have "x \<noteq> 0 \<Longrightarrow> 1 \<le> unat x" for x :: u32
    by (metis One_nat_def Suc_leI unat_eq_zero bot_nat_0.not_eq_extremum)
  then show ?thesis
    by (auto simp: timer_divisor_def Let_def word_less_nat_alt not_less)
qed

text \<open>Between the clamps the divisor is the exact quotient.\<close>

lemma timer_divisor_exact:
  assumes "19 \<le> f" "f \<le> 1193182"
  shows "unat (timer_divisor f) = 1193182 div unat f"
proof -
  have f: "19 \<le> unat f" "unat f \<le> 1193182" using assms by (simp_all add: word_le_nat_alt)
  then have "f \<noteq> 0" by auto
  have "1193182 div unat f \<le> 1193182 div 19" using f by (intro div_le_mono2) simp_all
  then have q: "1193182 div unat f \<le> 65535" by simp
  have "0 < 1193182 div unat f" using f by (simp add: div_greater_zero_iff)
  moreover have "unat (1193182 div f) = 1193182 div unat f" by (simp add: unat_div)
  ultimately show ?thesis
    using \<open>f \<noteq> 0\<close> q
    by (auto simp: timer_divisor_def Let_def timer_consts word_less_nat_alt)
qed

text \<open>The two bytes sent to channel 0 are the divisor, low byte first.\<close>

lemma low_16_bits:
  fixes x :: u32
  assumes "unat x \<le> 65535"
  shows "unat (word16_of (ucast (drop_bit 8 x)) (ucast x)) = unat x"
proof -
  have "word16_of (ucast (drop_bit 8 x)) (ucast x) = (ucast x :: u16)"
    unfolding word16_of_def
  proof (rule bit_word_eqI, goal_cases)
    case (1 n)
    then show ?case by (cases "n < 8") (auto simp: bit_simps)
  qed
  then show ?thesis using assms by (simp add: unsigned_ucast_eq take_bit_nat_eq_self)
qed

section \<open>Properties\<close>

text \<open>Programming the timer.  For every requested frequency \<open>timer_init\<close> sends
mode 3 and then, low byte first, a 16-bit divisor between 1 and 65535, resets
the tick count and unmasks line 0; within the range the hardware can produce
the divisor is the exact quotient of the input clock, and the frequency it
reports is the clock divided by the divisor, which is at least the requested
one.\<close>

theorem timer_init_programs_divisor:
  "\<exists>lo hi. let (t, d') = timer_init bus f d; dv = unat (word16_of hi lo) in
     d' = pic_unmask_irq bus 0 (outbs bus [(0x43, 0x36), (0x40, lo), (0x40, hi)] d) \<and>
     ticks t = 0 \<and> 1 \<le> dv \<and> dv \<le> 65535 \<and>
     unat (timer_get_frequency t) = 1193182 div dv \<and>
     (19 \<le> f \<and> f \<le> 1193182 \<longrightarrow> dv = 1193182 div unat f \<and> f \<le> timer_get_frequency t)"
proof -
  let ?D = "timer_divisor f"
  let ?lo = "ucast ?D :: u8" and ?hi = "ucast (drop_bit 8 ?D) :: u8"
  have dv: "unat (word16_of ?hi ?lo) = unat ?D"
    using timer_divisor_range [of f] by (intro low_16_bits) simp
  have freq: "unat (1193182 div ?D) = 1193182 div unat ?D" by (simp add: unat_div)
  have "f \<le> 1193182 div ?D" if "19 \<le> f" "f \<le> 1193182"
  proof -
    have "1193182 div unat f * unat f \<le> 1193182" by simp
    then have "unat ?D * unat f \<le> 1193182" by (simp only: timer_divisor_exact [OF that])
    then have "unat f \<le> 1193182 div unat ?D"
      using timer_divisor_range [of f] by (simp add: less_eq_div_iff_mult_less_eq mult.commute)
    then show ?thesis using freq by (simp add: word_le_nat_alt)
  qed
  then show ?thesis
    using dv timer_divisor_range [of f] timer_divisor_exact [of f] freq
    by (intro exI [of _ ?lo] exI [of _ ?hi])
      (simp add: timer_init_def Let_def timer_consts timer_get_frequency_def)
qed

lemma timer_init_programs_divisor_witness:
  "\<exists>lo hi. unat (word16_of hi lo) = 11931 \<and>
     unat (timer_get_frequency (fst (timer_init log_bus 100 \<lparr>reads = [], writes = []\<rparr>))) = 100"
  using timer_init_programs_divisor [of log_bus 100 "\<lparr>reads = [], writes = []\<rparr>"]
  by (auto simp: Let_def split_beta)

end
