(* ===== verification/Process.thy ===== *)
theory Process
  imports Scheduler
begin

text \<open>
  The process table \<open>process/process.c\<close> and its binding to the scheduler: a
  process is created by registering a task and recording its id.  The tick
  count read from the timer is an argument.  The invariant ties each process to
  its task; it holds after boot and any sequence of creations and ticks.
\<close>

datatype process_state =
  PROCESS_UNUSED | PROCESS_READY | PROCESS_RUNNING | PROCESS_BLOCKED | PROCESS_ZOMBIE

record process_info =
  pid :: u32
  scheduler_task_id :: u32
  process_name :: "string option"
  process_state :: process_state
  created_at_tick :: u64

record procs =
  processes :: "process_info list"
  process_count :: nat
  next_pid :: u32
  current_pid :: u32

record process_stats =
  ps_process_count :: nat
  ps_ready_count :: nat
  ps_next_pid :: u32

definition PROCESS_MAX :: nat where "PROCESS_MAX = 16"

definition unused_process :: process_info where
  "unused_process = \<lparr>pid = 0, scheduler_task_id = 0, process_name = None,
     process_state = PROCESS_UNUSED, created_at_tick = 0\<rparr>"

definition ready_count_now :: "procs \<Rightarrow> nat" where
  "ready_count_now p =
     length (filter (\<lambda>i. process_state (processes p ! i) = PROCESS_READY \<or>
                         process_state (processes p ! i) = PROCESS_RUNNING) [0..<process_count p])"

definition process_create_kernel ::
    "string option \<Rightarrow> u32 \<Rightarrow> u64 \<Rightarrow> procs \<times> sched \<Rightarrow> int \<times> procs \<times> sched" where
  "process_create_kernel name tslice now = (\<lambda>(p, s).
     if process_count p \<ge> PROCESS_MAX then (-1, p, s)
     else case scheduler_register_task name tslice s of (tid, s') \<Rightarrow>
       if tid < 0 then (-1, p, s')
       else
         let process = \<lparr>pid = next_pid p, scheduler_task_id = word_of_int tid,
               process_name = name,
               process_state = (if process_count p = 0 then PROCESS_RUNNING else PROCESS_READY),
               created_at_tick = now\<rparr>
         in (sint (next_pid p),
             p\<lparr>processes := (processes p)[process_count p := process],
               next_pid := next_pid p + 1,
               process_count := process_count p + 1\<rparr>, s'))"

definition empty_procs :: procs where
  "empty_procs = \<lparr>processes = replicate PROCESS_MAX unused_process, process_count = 0,
     next_pid = 1, current_pid = 0\<rparr>"

definition process_init :: "u64 \<Rightarrow> sched \<Rightarrow> procs \<times> sched" where
  "process_init now s =
     (let (_, p1, s1) = process_create_kernel (Some ''kernel-shell'') 5 now (empty_procs, s);
          (_, p2, s2) = process_create_kernel (Some ''idle'') 5 now (p1, s1)
      in (p2\<lparr>current_pid := 1\<rparr>, s2))"

definition process_get_stats :: "procs \<Rightarrow> process_stats" where
  "process_get_stats p = \<lparr>ps_process_count = process_count p,
     ps_ready_count = ready_count_now p, ps_next_pid = next_pid p\<rparr>"

definition process_current_pid :: "procs \<Rightarrow> u32" where
  "process_current_pid p = current_pid p"

definition process_get_count :: "procs \<Rightarrow> nat" where
  "process_get_count p = process_count p"

definition process_copy_table :: "procs \<Rightarrow> nat \<Rightarrow> process_info list" where
  "process_copy_table p max_processes =
     (let count = (if process_count p < max_processes then process_count p else max_processes)
      in take count (processes p))"

fun process_state_name :: "process_state \<Rightarrow> string" where
  "process_state_name PROCESS_UNUSED = ''unused''"
| "process_state_name PROCESS_READY = ''ready''"
| "process_state_name PROCESS_RUNNING = ''running''"
| "process_state_name PROCESS_BLOCKED = ''blocked''"
| "process_state_name PROCESS_ZOMBIE = ''zombie''"

section \<open>Processes and tasks in lockstep\<close>

definition bound_to :: "process_info \<Rightarrow> sched_task_info \<Rightarrow> bool" where
  "bound_to p t \<longleftrightarrow> pid p = task_id t \<and> scheduler_task_id p = task_id t \<and>
     process_name p = task_name t"

definition proc_inv :: "procs \<times> sched \<Rightarrow> bool" where
  "proc_inv ps \<longleftrightarrow> (case ps of (p, s) \<Rightarrow>
     sched_inv s \<and> length (processes p) = PROCESS_MAX \<and>
     process_count p = task_count s \<and> next_pid p = next_task_id s \<and>
     (\<forall>i < process_count p. bound_to (processes p ! i) (tasks s ! i) \<and>
        process_state (processes p ! i) = (if i = 0 then PROCESS_RUNNING else PROCESS_READY)))"

lemma proc_inv_empty: "proc_inv (empty_procs, scheduler_init)"
  by (simp add: proc_inv_def sched_inv_init) (simp add: empty_procs_def scheduler_init_def)

lemma create_cases:
  assumes inv: "proc_inv (p, s)"
  shows "process_create_kernel nm sl now (p, s) =
    (if process_count p < 8
     then (int (process_count p) + 1,
           p\<lparr>processes := (processes p)[process_count p :=
               \<lparr>pid = next_pid p, scheduler_task_id = next_pid p, process_name = nm,
                process_state = (if process_count p = 0 then PROCESS_RUNNING else PROCESS_READY),
                created_at_tick = now\<rparr>],
             next_pid := next_pid p + 1, process_count := process_count p + 1\<rparr>,
           snd (scheduler_register_task nm sl s))
     else (-1, p, s))"
proof -
  have s: "sched_inv s" "process_count p = task_count s" "next_pid p = next_task_id s"
    using inv by (auto simp: proc_inv_def)
  have id: "next_task_id s = of_nat (task_count s) + 1" using sched_invD(3) [OF s(1)] .
  show ?thesis
    using s id sint_task_id [of "task_count s"] sched_invD(2) [OF s(1)]
    by (auto simp: process_create_kernel_def register_cases [OF s(1)] PROCESS_MAX_def Let_def)
qed

lemma create_preserves:
  assumes inv: "proc_inv (p, s)"
  shows "proc_inv (snd (process_create_kernel nm sl now (p, s)))"
proof (cases "process_count p < 8")
  case True
  have s: "sched_inv s" "process_count p = task_count s" "next_pid p = next_task_id s"
      "length (processes p) = 16"
    using inv by (auto simp: proc_inv_def PROCESS_MAX_def)
  have len: "length (tasks s) = 8" using sched_invD(1) [OF s(1)] .
  have "sched_inv (snd (scheduler_register_task nm sl s))" using register_preserves [OF s(1)] .
  then show ?thesis
    unfolding create_cases [OF inv]
    using True inv s len
    by (auto simp: proc_inv_def register_cases [OF s(1)] bound_to_def nth_list_update less_Suc_eq)
next
  case False
  with inv show ?thesis by (simp add: create_cases [OF inv])
qed

lemma tick_same_identity:
  assumes inv: "sched_inv s" and i: "i < task_count s"
  shows "task_id (tasks (scheduler_on_timer_tick s) ! i) = task_id (tasks s ! i) \<and>
         task_name (tasks (scheduler_on_timer_tick s) ! i) = task_name (tasks s ! i)"
proof -
  have "i < length (tasks s)" "0 < task_count s" using sched_invD(1,2) [OF inv] i by auto
  then show ?thesis by (simp add: tick_cases [OF inv] Let_def)
qed

lemma tick_next_id: "sched_inv s \<Longrightarrow> next_task_id (scheduler_on_timer_tick s) = next_task_id s"
  using sched_invD(3) [OF tick_preserves, of s] sched_invD(3) [of s] tick_sums(2) [of s] by simp

lemma proc_tick_preserves:
  "proc_inv (p, s) \<Longrightarrow> proc_inv (p, scheduler_on_timer_tick s)"
  using tick_same_identity [of s] tick_next_id [of s]
  by (auto simp: proc_inv_def tick_preserves tick_sums bound_to_def)

lemma process_init_inv:
  "proc_inv (process_init now scheduler_init)"
proof -
  obtain r1 p1 s1 where 1: "process_create_kernel (Some ''kernel-shell'') 5 now
      (empty_procs, scheduler_init) = (r1, p1, s1)" by (metis prod_cases3)
  then have i1: "proc_inv (p1, s1)"
    using create_preserves [OF proc_inv_empty, of "Some ''kernel-shell''" 5 now] by simp
  obtain r2 p2 s2 where 2: "process_create_kernel (Some ''idle'') 5 now (p1, s1) = (r2, p2, s2)"
    by (metis prod_cases3)
  then have "proc_inv (p2, s2)"
    using create_preserves [OF i1, of "Some ''idle''" 5 now] by simp
  then show ?thesis using 1 2 by (simp add: process_init_def proc_inv_def)
qed

lemma process_init_count: "process_count (fst (process_init now scheduler_init)) = 2"
  and process_init_current: "current_pid (fst (process_init now scheduler_init)) = 1"
  by (simp_all add: process_init_def process_create_kernel_def empty_procs_def scheduler_init_def
      scheduler_register_task_def PROCESS_MAX_def SCHED_MAX_TASKS_def Let_def)

datatype proc_op = Create "string option" u32 u64 | TimerTick

fun proc_step :: "proc_op \<Rightarrow> procs \<times> sched \<Rightarrow> procs \<times> sched" where
  "proc_step (Create nm sl now) ps = snd (process_create_kernel nm sl now ps)"
| "proc_step TimerTick ps = (fst ps, scheduler_on_timer_tick (snd ps))"

definition proc_run :: "u64 \<Rightarrow> proc_op list \<Rightarrow> procs \<times> sched" where
  "proc_run now ops = fold proc_step ops (process_init now scheduler_init)"

lemma proc_step_inv: "proc_inv ps \<Longrightarrow> proc_inv (proc_step x ps)"
  by (cases ps; cases x) (simp_all add: create_preserves proc_tick_preserves)

lemma proc_step_count:
  "proc_inv ps \<Longrightarrow> process_count (fst ps) \<le> process_count (fst (proc_step x ps)) \<and>
     current_pid (fst (proc_step x ps)) = current_pid (fst ps)"
  by (cases ps; cases x) (simp_all add: create_cases)

lemma proc_run_inv:
  "proc_inv (proc_run now ops) \<and> 2 \<le> process_count (fst (proc_run now ops)) \<and>
   current_pid (fst (proc_run now ops)) = 1"
proof (induction ops rule: rev_induct)
  case Nil
  show ?case
    by (simp add: proc_run_def process_init_inv process_init_count process_init_current)
next
  case (snoc x ops)
  then show ?case
    using proc_step_inv [of "proc_run now ops" x] proc_step_count [of "proc_run now ops" x]
    by (simp add: proc_run_def)
qed

section \<open>Properties\<close>

text \<open>C17. The process table mirrors the scheduler.  After boot and any sequence of
process creations and timer ticks there are between 2 and 8 processes, as many
as scheduler tasks; process number i has pid i+1 and is bound to the task of
the same id and name; the first process, whose pid is the current one, is the
only running one and all others are ready, so every process counts as ready.\<close>

theorem process_table_mirrors_scheduler:
  "let (p, s) = proc_run now ops; n = process_count p in
     2 \<le> n \<and> n \<le> 8 \<and> task_count s = n \<and> process_current_pid p = 1 \<and>
     map pid (process_copy_table p n) = map (\<lambda>i. of_nat i + 1) [0..<n] \<and>
     list_all2 bound_to (process_copy_table p n) (scheduler_copy_tasks s n) \<and>
     map process_state (process_copy_table p n) = PROCESS_RUNNING # replicate (n - 1) PROCESS_READY \<and>
     ps_ready_count (process_get_stats p) = n"
proof -
  obtain p s where ps: "proc_run now ops = (p, s)" by force
  have inv: "proc_inv (p, s)" and n2: "2 \<le> process_count p" and c: "current_pid p = 1"
    using proc_run_inv [of now ops] ps by auto
  have si: "sched_inv s" and n: "process_count p = task_count s" and len: "length (processes p) = 16"
    using inv by (auto simp: proc_inv_def PROCESS_MAX_def)
  note D = sched_invD [OF si]
  have bd: "bound_to (processes p ! i) (tasks s ! i)"
      "process_state (processes p ! i) = (if i = 0 then PROCESS_RUNNING else PROCESS_READY)"
    if "i < task_count s" for i
    using inv that n by (auto simp: proc_inv_def)
  have "map pid (take (task_count s) (processes p)) = map (\<lambda>i. of_nat i + 1) [0..<task_count s]"
    using bd(1) D(2,6) len by (auto simp: list_eq_iff_nth_eq bound_to_def)
  moreover have "list_all2 bound_to (take (task_count s) (processes p)) (take (task_count s) (tasks s))"
    using bd(1) D(1,2) len by (auto simp: list_all2_conv_all_nth)
  moreover have "map process_state (take (task_count s) (processes p)) =
      PROCESS_RUNNING # replicate (task_count s - 1) PROCESS_READY"
    using bd(2) D(2) len n n2
    by (auto simp: list_eq_iff_nth_eq nth_Cons' intro!: nth_equalityI)
  moreover have "ready_count_now p = task_count s"
    using bd(2) n by (simp add: ready_count_now_def filter_id_conv)
  ultimately show ?thesis
    using ps n n2 c D(2)
    by (simp add: Let_def process_copy_table_def scheduler_copy_tasks_def process_current_pid_def
        process_get_stats_def)
qed

text \<open>The capacity of the process table.  In every reachable state a creation
succeeds exactly when fewer than eight processes exist, the scheduler's limit
and not the sixteen slots of the table; success returns the next pid and adds
one ready process bound to a new task, failure returns -1 and leaves processes
and tasks as they are.\<close>

theorem process_create_capacity:
  "let (p, s) = proc_run now ops; (r, p', s') = process_create_kernel nm sl t (p, s);
       n = process_count p in
     if n < 8
     then r = int n + 1 \<and> process_count p' = n + 1 \<and> take n (processes p') = take n (processes p) \<and>
          processes p' ! n = \<lparr>pid = of_nat n + 1, scheduler_task_id = of_nat n + 1,
            process_name = nm, process_state = PROCESS_READY, created_at_tick = t\<rparr> \<and>
          task_count s' = n + 1
     else r = -1 \<and> p' = p \<and> s' = s"
proof -
  obtain p s where ps: "proc_run now ops = (p, s)" by force
  have inv: "proc_inv (p, s)" and n2: "2 \<le> process_count p"
    using proc_run_inv [of now ops] ps by auto
  have si: "sched_inv s" and n: "process_count p = task_count s" and len: "length (processes p) = 16"
      and np: "next_pid p = next_task_id s"
    using inv by (auto simp: proc_inv_def PROCESS_MAX_def)
  show ?thesis
    using ps n2 len n np sched_invD(3) [OF si] sched_invD(2) [OF si]
    by (simp add: Let_def create_cases [OF inv] register_cases [OF si])
qed

end
