(* ===== verification/Ring.thy ===== *)
theory Ring
  imports Prelude
begin

text \<open>
  The two ring-buffer disciplines of the kernel as interfaces.  The keyboard
  drops the newest character when its buffer is full; the log and the command
  history overwrite the oldest entry.  Each locale is stated over an abstract
  state with an invariant and the list of its contents, oldest first, and
  proves what a whole run of operations does to the contents.
\<close>

definition last_n :: "nat \<Rightarrow> 'a list \<Rightarrow> 'a list" where
  "last_n n xs = drop (length xs - n) xs"

lemma length_last_n [simp]: "length (last_n n xs) = min n (length xs)"
  by (simp add: last_n_def)

lemma last_n_all: "length xs \<le> n \<Longrightarrow> last_n n xs = xs"
  by (simp add: last_n_def)

lemma last_n_snoc: "last_n n (last_n n xs @ [x]) = last_n n (xs @ [x])"
proof (cases "n = 0")
  case False
  then have "length xs - (length xs - n) + 1 - n + (length xs - n) = length xs + 1 - n"
    by linarith
  with False show ?thesis by (simp add: last_n_def)
qed (simp add: last_n_def)

section \<open>A ring of slots\<close>

text \<open>
  Both rings keep the index of the next slot and a count; the contents are the
  last \<open>count\<close> slots before the next one, going round.
\<close>

definition ring_list :: "'a list \<Rightarrow> nat \<Rightarrow> nat \<Rightarrow> 'a list" where
  "ring_list buf nxt cnt =
     map (\<lambda>k. buf ! ((nxt + length buf - cnt + k) mod length buf)) [0..<cnt]"

lemma length_ring_list [simp]: "length (ring_list buf nxt cnt) = cnt"
  by (simp add: ring_list_def)

lemma ring_list_nth:
  "k < cnt \<Longrightarrow> ring_list buf nxt cnt ! k = buf ! ((nxt + length buf - cnt + k) mod length buf)"
  by (simp add: ring_list_def)

lemma ring_slot_ne:
  fixes n nxt k cnt :: nat
  assumes "nxt < n" "k < cnt" "cnt \<le> n" "cnt < n \<or> 0 < k"
  shows "(nxt + n - cnt + k) mod n \<noteq> nxt"
proof
  assume eq: "(nxt + n - cnt + k) mod n = nxt"
  have "nxt + n - cnt + k < 2 * n" using assms by linarith
  then have "(nxt + n - cnt + k) mod n =
      (if nxt + n - cnt + k < n then nxt + n - cnt + k else nxt + n - cnt + k - n)"
    by (simp add: mod_if)
  then show False using eq assms by (auto split: if_splits)
qed

lemma ring_list_push:
  assumes n: "n = length buf" and nx: "nxt < n" and cnt: "cnt \<le> n"
  shows "ring_list (buf[nxt := x]) ((nxt + 1) mod n) (if cnt < n then cnt + 1 else cnt) =
    last_n n (ring_list buf nxt cnt @ [x])"
proof (cases "cnt < n")
  case True
  have slot: "((nxt + 1) mod n + n - (cnt + 1) + k) mod n = (nxt + n - cnt + k) mod n" for k
  proof (cases "nxt + 1 = n")
    case wrap: True
    then have "nxt + n - cnt + k = (n - (cnt + 1) + k) + n" using True by linarith
    then have "(nxt + n - cnt + k) mod n = (n - (cnt + 1) + k) mod n" by (simp only: mod_add_self2)
    then show ?thesis using wrap by simp
  next
    case False
    then have "(nxt + 1) mod n = nxt + 1" using nx by simp
    then show ?thesis using True by (intro arg_cong [where f = "\<lambda>i. i mod n"]) linarith
  qed
  have "ring_list (buf[nxt := x]) ((nxt + 1) mod n) (cnt + 1) = ring_list buf nxt cnt @ [x]"
  proof (rule nth_equalityI)
    fix k assume "k < length (ring_list (buf[nxt := x]) ((nxt + 1) mod n) (cnt + 1))"
    then have k: "k < cnt \<or> k = cnt" by auto
    have at: "ring_list (buf[nxt := x]) ((nxt + 1) mod n) (cnt + 1) ! k =
        buf[nxt := x] ! ((nxt + n - cnt + k) mod n)"
      using k slot [of k] ring_list_nth [of k "cnt + 1" "buf[nxt := x]"] by (auto simp: n [symmetric])
    show "ring_list (buf[nxt := x]) ((nxt + 1) mod n) (cnt + 1) ! k = (ring_list buf nxt cnt @ [x]) ! k"
      using k
    proof
      assume k: "k < cnt"
      then show ?thesis using at ring_slot_ne [OF nx k cnt] True
        by (simp add: nth_append ring_list_nth n)
    next
      assume k: "k = cnt"
      have "(nxt + n - cnt + cnt) mod n = nxt" using nx cnt by simp
      then show ?thesis using at k nx n by (simp add: nth_append)
    qed
  qed simp
  then show ?thesis using True by (simp add: last_n_all)
next
  case False
  then have full: "cnt = n" using cnt by simp
  have "ring_list (buf[nxt := x]) ((nxt + 1) mod n) n = tl (ring_list buf nxt n) @ [x]"
  proof (rule nth_equalityI)
    show "length (ring_list (buf[nxt := x]) ((nxt + 1) mod n) n) = length (tl (ring_list buf nxt n) @ [x])"
      using nx by simp
    fix k assume "k < length (ring_list (buf[nxt := x]) ((nxt + 1) mod n) n)"
    then have k: "k < n" by simp
    have "((nxt + 1) mod n + k) mod n = (nxt + 1 + k) mod n" by (simp add: mod_add_left_eq)
    then have at: "ring_list (buf[nxt := x]) ((nxt + 1) mod n) n ! k = buf[nxt := x] ! ((nxt + 1 + k) mod n)"
      using k ring_list_nth [of k n "buf[nxt := x]"] by (simp add: n [symmetric])
    show "ring_list (buf[nxt := x]) ((nxt + 1) mod n) n ! k = (tl (ring_list buf nxt n) @ [x]) ! k"
    proof (cases "k + 1 = n")
      case True
      then have "nxt + 1 + k = nxt + n" by simp
      then have "(nxt + 1 + k) mod n = nxt" using nx by (simp only: mod_add_self2 mod_less)
      moreover have "\<not> k < length buf - Suc 0" using True n by linarith
      ultimately show ?thesis using at True nx n by (simp add: nth_append)
    next
      case k1: False
      then have "k + 1 < n" using k by simp
      then have "(nxt + 1 + k) mod n \<noteq> nxt"
        using ring_slot_ne [OF nx, of "k + 1" n] by (simp add: add.assoc)
      then have "ring_list (buf[nxt := x]) ((nxt + 1) mod n) n ! k = buf ! ((nxt + 1 + k) mod n)"
        using at by (metis nth_list_update_neq)
      moreover have "ring_list buf nxt n ! Suc k = buf ! ((nxt + 1 + k) mod n)"
        using ring_list_nth [of "Suc k" n buf nxt] \<open>k + 1 < n\<close> n by simp
      moreover have "(tl (ring_list buf nxt n) @ [x]) ! k = ring_list buf nxt n ! Suc k"
      proof -
        have "k < length (tl (ring_list buf nxt n))" using \<open>k + 1 < n\<close> by simp
        then show ?thesis by (simp add: nth_append nth_tl)
      qed
      ultimately show ?thesis by simp
    qed
  qed
  moreover have "last_n n (ring_list buf nxt n @ [x]) = tl (ring_list buf nxt n) @ [x]"
    using nx by (simp add: last_n_def) (metis drop_Suc drop_0 length_ring_list not_less_zero)
  ultimately show ?thesis using full by simp
qed

section \<open>Overwriting the oldest\<close>

locale overwriting_ring =
  fixes capacity :: nat
    and inv :: "'s \<Rightarrow> bool"
    and contents :: "'s \<Rightarrow> 'a list"
    and view :: "'x \<Rightarrow> 'a"
    and push :: "'x \<Rightarrow> 's \<Rightarrow> 's"
  assumes push_inv: "inv s \<Longrightarrow> inv (push x s)"
    and push_contents: "inv s \<Longrightarrow> contents (push x s) = last_n capacity (contents s @ [view x])"
    and contents_bound: "inv s \<Longrightarrow> length (contents s) \<le> capacity"
begin

lemma fold_push_inv: "inv s \<Longrightarrow> inv (fold push xs s)"
  by (induction xs arbitrary: s) (simp_all add: push_inv)

lemma fold_push_contents:
  "inv s \<Longrightarrow> contents (fold push xs s) = last_n capacity (contents s @ map view xs)"
proof (induction xs rule: rev_induct)
  case Nil
  then show ?case using contents_bound by (simp add: last_n_all)
next
  case (snoc x xs)
  have "contents (fold push (xs @ [x]) s) = last_n capacity (contents (fold push xs s) @ [view x])"
    using push_contents [OF fold_push_inv [OF snoc.prems]] by simp
  then show ?case using snoc last_n_snoc [of capacity "contents s @ map view xs" "view x"] by simp
qed

end

section \<open>Refusing the newest\<close>

locale bounded_fifo =
  fixes capacity :: nat
    and inv :: "'s \<Rightarrow> bool"
    and contents :: "'s \<Rightarrow> 'a list"
    and push :: "'a \<Rightarrow> 's \<Rightarrow> 's"
    and pop :: "'s \<Rightarrow> 'a option \<times> 's"
  assumes push_inv: "inv s \<Longrightarrow> inv (push x s)"
    and pop_inv: "inv s \<Longrightarrow> inv (snd (pop s))"
    and push_contents: "inv s \<Longrightarrow> contents (push x s) =
          (if length (contents s) < capacity then contents s @ [x] else contents s)"
    and pop_empty: "inv s \<Longrightarrow> contents s = [] \<Longrightarrow> pop s = (None, s)"
    and pop_head: "inv s \<Longrightarrow> contents s = x # xs \<Longrightarrow> fst (pop s) = Some x \<and> contents (snd (pop s)) = xs"
begin

lemma pop_split:
  assumes "inv s"
  shows "contents s = (case fst (pop s) of None \<Rightarrow> [] | Some x \<Rightarrow> [x]) @ contents (snd (pop s))"
  using pop_empty [OF assms] pop_head [OF assms] by (cases "contents s") auto

lemma pop_None_iff: "inv s \<Longrightarrow> fst (pop s) = None \<longleftrightarrow> contents s = []"
  using pop_empty [of s] pop_head [of s] by (cases "contents s") auto

lemma push_room: "inv s \<Longrightarrow> length (contents s) < capacity \<Longrightarrow> contents (push x s) = contents s @ [x]"
  by (simp add: push_contents)

lemma push_full: "inv s \<Longrightarrow> capacity \<le> length (contents s) \<Longrightarrow> contents (push x s) = contents s"
  by (simp add: push_contents)

end

end
