(* ===== verification/Keyboard.thy ===== *)
theory Keyboard
  imports Ring Pic Kio
begin

text \<open>
  The PS/2 keyboard driver \<open>drivers/keyboard/keyboard.c\<close>: scan code tables, the
  128-slot ring buffer of which 127 are usable, and the interrupt handler,
  which reads one scan code from the bus, tracks the shift keys, buffers and
  echoes the character and acknowledges the interrupt.  The handler's output is
  the list of characters it prints.
\<close>

definition KEYBOARD_DATA_PORT :: u16 where "KEYBOARD_DATA_PORT = 0x60"
definition KEYBOARD_IRQ :: u8 where "KEYBOARD_IRQ = 1"
definition KEY_RELEASED :: u8 where "KEY_RELEASED = 0x80"
definition KEYBUF_SIZE :: nat where "KEYBUF_SIZE = 128"

lemmas keyboard_consts = KEYBOARD_DATA_PORT_def KEYBOARD_IRQ_def KEY_RELEASED_def KEYBUF_SIZE_def

record keyboard =
  keybuf :: "char list"
  keybuf_head :: nat
  keybuf_tail :: nat
  shift_down :: bool

definition scancode_ascii :: "char list" where
  "scancode_ascii =
     [NUL, CHR 0x1B] @ ''1234567890-='' @ [CHR 0x08] @
     [CHR 0x09] @ ''qwertyuiop[]'' @ [CHR 0x0A, NUL] @
     ''asdfghjkl;'' @ [CHR 0x27] @ ''`'' @ [NUL, CHR 0x5C] @
     ''zxcvbnm,./'' @ [NUL, CHR ''*'', NUL, CHR '' ''] @ zbuf 70"

definition scancode_ascii_shift :: "char list" where
  "scancode_ascii_shift =
     [NUL, CHR 0x1B] @ ''!@#$%^&*()_+'' @ [CHR 0x08] @
     [CHR 0x09] @ ''QWERTYUIOP{}'' @ [CHR 0x0A, NUL] @
     ''ASDFGHJKL:'' @ [CHR 0x22] @ ''~'' @ [NUL, CHR ''|''] @
     ''ZXCVBNM<>?'' @ [NUL, CHR ''*'', NUL, CHR '' ''] @ zbuf 70"

definition keyboard_buffer_push :: "char \<Rightarrow> keyboard \<Rightarrow> keyboard" where
  "keyboard_buffer_push c k =
     (let next_head = (keybuf_head k + 1) mod KEYBUF_SIZE in
      if next_head = keybuf_tail k then k
      else k\<lparr>keybuf := (keybuf k)[keybuf_head k := c], keybuf_head := next_head\<rparr>)"

definition keyboard_key :: "u8 \<Rightarrow> keyboard \<Rightarrow> string \<times> keyboard" where
  "keyboard_key scancode k =
     (let key = scancode AND NOT KEY_RELEASED;
          released = (scancode AND KEY_RELEASED \<noteq> 0)
      in if key = 0x2A \<or> key = 0x36 then ([], k\<lparr>shift_down := \<not> released\<rparr>)
         else if \<not> released then
           let c = (if shift_down k then scancode_ascii_shift ! unat key
                    else scancode_ascii ! unat key)
           in if c \<noteq> NUL then (''[kbd]'' @ [c], keyboard_buffer_push c k) else ([], k)
         else ([], k))"

definition keyboard_interrupt_handler ::
    "'d port_bus \<Rightarrow> keyboard \<times> 'd \<Rightarrow> string \<times> keyboard \<times> 'd" where
  "keyboard_interrupt_handler bus = (\<lambda>(k, d).
     let (scancode, d1) = inb bus KEYBOARD_DATA_PORT d;
         (out, k') = keyboard_key scancode k
     in (out, k', pic_send_eoi bus KEYBOARD_IRQ d1))"

text \<open>Registering the handler (\<open>idt_register_handler\<close>) is the caller's state.\<close>

definition keyboard_init :: "'d port_bus \<Rightarrow> 'd \<Rightarrow> 'd" where
  "keyboard_init bus d = pic_unmask_irq bus KEYBOARD_IRQ d"

text \<open>The initial static data.\<close>

definition keyboard_zero :: keyboard where
  "keyboard_zero = \<lparr>keybuf = zbuf KEYBUF_SIZE, keybuf_head = 0, keybuf_tail = 0, shift_down = False\<rparr>"

definition keyboard_getchar :: "keyboard \<Rightarrow> int \<times> keyboard" where
  "keyboard_getchar k =
     (if keybuf_head k = keybuf_tail k then (-1, k)
      else (schar (keybuf k ! keybuf_tail k),
            k\<lparr>keybuf_tail := (keybuf_tail k + 1) mod KEYBUF_SIZE\<rparr>))"

section \<open>The buffer is a bounded queue\<close>

definition kbd_inv :: "keyboard \<Rightarrow> bool" where
  "kbd_inv k \<longleftrightarrow> length (keybuf k) = 128 \<and> keybuf_head k < 128 \<and> keybuf_tail k < 128"

definition kbd_pending :: "keyboard \<Rightarrow> nat" where
  "kbd_pending k = (keybuf_head k + 128 - keybuf_tail k) mod 128"

definition kbd_contents :: "keyboard \<Rightarrow> char list" where
  "kbd_contents k = map (\<lambda>i. keybuf k ! ((keybuf_tail k + i) mod 128)) [0..<kbd_pending k]"

definition kbd_pop :: "keyboard \<Rightarrow> char option \<times> keyboard" where
  "kbd_pop k =
     (if keybuf_head k = keybuf_tail k then (None, k)
      else (Some (keybuf k ! keybuf_tail k), k\<lparr>keybuf_tail := (keybuf_tail k + 1) mod 128\<rparr>))"

lemma getchar_pop:
  "keyboard_getchar k = (case kbd_pop k of (None, k') \<Rightarrow> (-1, k') | (Some c, k') \<Rightarrow> (schar c, k'))"
  by (simp add: keyboard_getchar_def kbd_pop_def KEYBUF_SIZE_def)

lemma mod128_cases: "Suc x mod 128 = (if x = 127 then 0 else Suc x)" if "x < 128" for x :: nat
  using that by auto

lemma pending_cases:
  "kbd_inv k \<Longrightarrow> kbd_pending k =
     (if keybuf_tail k \<le> keybuf_head k then keybuf_head k - keybuf_tail k
      else keybuf_head k + 128 - keybuf_tail k)"
proof -
  assume k: "kbd_inv k"
  have "(keybuf_head k + 128 - keybuf_tail k) mod 128 = keybuf_head k - keybuf_tail k"
    if "keybuf_tail k \<le> keybuf_head k"
  proof -
    have eq: "keybuf_head k + 128 - keybuf_tail k = (keybuf_head k - keybuf_tail k) + 128"
      using that by simp
    moreover have "keybuf_head k - keybuf_tail k < 128" using k unfolding kbd_inv_def by linarith
    ultimately show ?thesis unfolding eq by simp
  qed
  with k show ?thesis unfolding kbd_pending_def kbd_inv_def by auto
qed

lemma push_pending:
  assumes k: "kbd_inv k"
  shows "(keybuf_head k + 1) mod 128 = keybuf_tail k \<longleftrightarrow> kbd_pending k = 127"
    and "(keybuf_head k + 1) mod 128 \<noteq> keybuf_tail k \<Longrightarrow>
      kbd_pending (keyboard_buffer_push c k) = kbd_pending k + 1"
proof -
  have h: "keybuf_head k < 128" "keybuf_tail k < 128" using k by (auto simp: kbd_inv_def)
  show "(keybuf_head k + 1) mod 128 = keybuf_tail k \<longleftrightarrow> kbd_pending k = 127"
    using h mod128_cases [OF h(1)] by (auto simp: pending_cases [OF k])
  assume ne: "(keybuf_head k + 1) mod 128 \<noteq> keybuf_tail k"
  then have k': "kbd_inv (keyboard_buffer_push c k)"
    using k by (auto simp: keyboard_buffer_push_def kbd_inv_def KEYBUF_SIZE_def Let_def)
  show "kbd_pending (keyboard_buffer_push c k) = kbd_pending k + 1"
    unfolding pending_cases [OF k] pending_cases [OF k'] using h ne mod128_cases [OF h(1)]
    by (simp add: keyboard_buffer_push_def KEYBUF_SIZE_def Let_def) (auto split: if_splits)
qed

lemma pending_head: "kbd_inv k \<Longrightarrow> (keybuf_tail k + kbd_pending k) mod 128 = keybuf_head k"
  by (auto simp: pending_cases kbd_inv_def)

lemma pending_lt: "kbd_pending k < 128"
  by (simp add: kbd_pending_def)

lemma slot_inj:
  "i < 128 \<Longrightarrow> j < 128 \<Longrightarrow> (t + i) mod 128 = (t + j) mod 128 \<Longrightarrow> i = (j :: nat)"
proof -
  have *: "i = j" if "i \<le> j" "j < 128" "(t + i) mod 128 = (t + j) mod 128" for i j :: nat
  proof -
    have "128 dvd (t + j) - (t + i)"
      using that mod_eq_dvd_iff_nat [of "t + i" "t + j" 128] by simp
    then have "128 dvd j - i" by simp
    then show ?thesis using that by (auto dest: dvd_imp_le)
  qed
  assume "i < 128" "j < 128" "(t + i) mod 128 = (t + j) mod 128"
  then show ?thesis using * [of i j] * [of j i] by (cases "i \<le> j") auto
qed

interpretation kbq: bounded_fifo 127 kbd_inv kbd_contents keyboard_buffer_push kbd_pop
proof
  fix k c
  assume k: "kbd_inv k"
  show "kbd_inv (keyboard_buffer_push c k)"
    using k by (auto simp: keyboard_buffer_push_def kbd_inv_def KEYBUF_SIZE_def Let_def)
  show "kbd_inv (snd (kbd_pop k))" using k by (auto simp: kbd_pop_def kbd_inv_def)
  show "kbd_contents (keyboard_buffer_push c k) =
      (if length (kbd_contents k) < 127 then kbd_contents k @ [c] else kbd_contents k)"
  proof (cases "(keybuf_head k + 1) mod 128 = keybuf_tail k")
    case True
    then have "keyboard_buffer_push c k = k"
      by (simp add: keyboard_buffer_push_def KEYBUF_SIZE_def)
    with True push_pending(1) [OF k] show ?thesis by (simp add: kbd_contents_def)
  next
    case False
    then have p: "kbd_pending (keyboard_buffer_push c k) = Suc (kbd_pending k)"
        "kbd_pending k < 127"
      using push_pending [OF k] pending_lt [of k] by auto
    have b: "keybuf (keyboard_buffer_push c k) = (keybuf k)[keybuf_head k := c]"
        "keybuf_tail (keyboard_buffer_push c k) = keybuf_tail k"
      using False by (simp_all add: keyboard_buffer_push_def KEYBUF_SIZE_def Let_def)
    have "keybuf_head k \<noteq> (keybuf_tail k + i) mod 128" if "i < kbd_pending k" for i
      using slot_inj [of i "kbd_pending k" "keybuf_tail k"] that p(2) pending_head [OF k] by auto
    then have "(keybuf k)[keybuf_head k := c] ! ((keybuf_tail k + i) mod 128) =
        keybuf k ! ((keybuf_tail k + i) mod 128)" if "i < kbd_pending k" for i
      using that by simp
    then have "map (\<lambda>i. (keybuf k)[keybuf_head k := c] ! ((keybuf_tail k + i) mod 128)) [0..<kbd_pending k] =
        kbd_contents k"
      by (simp add: kbd_contents_def)
    moreover have "keybuf_head k < length (keybuf k)" using k by (simp add: kbd_inv_def)
    ultimately show ?thesis
      unfolding kbd_contents_def [of "keyboard_buffer_push c k"] p(1) b
      using p(2) pending_head [OF k] by (simp add: kbd_contents_def)
  qed
next
  fix k
  assume "kbd_inv k" "kbd_contents k = []"
  then have "keybuf_head k = keybuf_tail k"
    by (auto simp: kbd_contents_def pending_cases kbd_inv_def split: if_splits)
  then show "kbd_pop k = (None, k)" by (simp add: kbd_pop_def)
next
  fix k c cs
  assume k: "kbd_inv k" and c: "kbd_contents k = c # cs"
  have ne: "keybuf_head k \<noteq> keybuf_tail k"
    using c by (auto simp: kbd_contents_def pending_cases [OF k])
  let ?k = "k\<lparr>keybuf_tail := (keybuf_tail k + 1) mod 128\<rparr>"
  have k': "kbd_inv ?k" using k by (simp add: kbd_inv_def)
  have t: "keybuf_tail k < 128" "keybuf_head k < 128" using k by (auto simp: kbd_inv_def)
  have "kbd_pending k = Suc (kbd_pending ?k)"
    unfolding pending_cases [OF k] pending_cases [OF k'] using t ne mod128_cases [OF t(1)]
    by simp (auto split: if_splits)
  then have "kbd_contents k = keybuf k ! keybuf_tail k # kbd_contents ?k"
    using t(1) by (simp add: kbd_contents_def upt_conv_Cons map_Suc_upt [symmetric] mod_simps
        del: upt_Suc)
  with c ne show "fst (kbd_pop k) = Some c \<and> kbd_contents (snd (kbd_pop k)) = cs"
    by (simp add: kbd_pop_def)
qed

section \<open>Typing and reading\<close>

datatype kbd_op = KeyIrq u8 | GetChar

text \<open>A session: the values \<open>keyboard_getchar\<close> returned and the final state.\<close>

fun kbd_session :: "kbd_op list \<Rightarrow> keyboard \<Rightarrow> int list \<times> keyboard" where
  "kbd_session [] k = ([], k)"
| "kbd_session (KeyIrq sc # ops) k = kbd_session ops (snd (keyboard_key sc k))"
| "kbd_session (GetChar # ops) k =
     (let (r, k1) = keyboard_getchar k; (rs, k') = kbd_session ops k1 in (r # rs, k'))"

text \<open>What a scan code sequence types: releases type nothing, the shift keys switch the table.\<close>

fun typed :: "bool \<Rightarrow> kbd_op list \<Rightarrow> char list" where
  "typed sh [] = []"
| "typed sh (GetChar # ops) = typed sh ops"
| "typed sh (KeyIrq sc # ops) =
     (let key = sc AND 0x7F; released = (0x80 \<le> sc) in
      if key = 0x2A \<or> key = 0x36 then typed (\<not> released) ops
      else if released then typed sh ops
      else let c = (if sh then scancode_ascii_shift ! unat key else scancode_ascii ! unat key)
           in if c = NUL then typed sh ops else c # typed sh ops)"

definition irq_count :: "kbd_op list \<Rightarrow> nat" where
  "irq_count ops = length (filter (\<lambda>x. x \<noteq> GetChar) ops)"

lemma key_bits: "sc AND NOT 0x80 = sc AND (0x7F :: u8)" "sc AND 0x80 \<noteq> 0 \<longleftrightarrow> 0x80 \<le> (sc :: u8)"
proof -
  have "(NOT 0x80 :: u8) = 0x7F" by code_simp
  then show "sc AND NOT 0x80 = sc AND (0x7F :: u8)" by (simp only:)
  have "sc AND 0x80 \<noteq> 0 \<longleftrightarrow> bit sc 7"
    using and_exp_eq_0_iff_not_bit [of sc 7] by simp
  moreover have "bit sc 7 \<longleftrightarrow> 0x80 \<le> sc"
  proof -
    have "unat sc < 256" using unsigned_less [of sc] by simp
    moreover have "bit sc 7 \<longleftrightarrow> odd (unat sc div 128)"
      using bit_iff_odd [of "unat sc" 7] by (simp add: bit_unsigned_iff)
    moreover have "odd (x div 128) \<longleftrightarrow> 128 \<le> x" if "x < 256" for x :: nat
    proof (cases "128 \<le> x")
      case True
      then have "x div 128 = 1" using that by (intro div_nat_eqI) simp_all
      with True show ?thesis by simp
    qed simp
    ultimately show ?thesis by (simp add: word_le_nat_alt)
  qed
  ultimately show "sc AND 0x80 \<noteq> 0 \<longleftrightarrow> 0x80 \<le> sc" by simp
qed

lemma push_shift [simp]: "shift_down (keyboard_buffer_push c k) = shift_down k"
  by (simp add: keyboard_buffer_push_def Let_def)

lemma kbd_shift_irrelevant [simp]:
  "kbd_inv (k\<lparr>shift_down := b\<rparr>) = kbd_inv k" "kbd_contents (k\<lparr>shift_down := b\<rparr>) = kbd_contents k"
  by (simp_all add: kbd_inv_def kbd_contents_def kbd_pending_def)

lemma keyboard_key_cases:
  "snd (keyboard_key sc k) =
     (let key = sc AND 0x7F; released = (0x80 \<le> sc);
          c = (if shift_down k then scancode_ascii_shift ! unat key else scancode_ascii ! unat key)
      in if key = 0x2A \<or> key = 0x36 then k\<lparr>shift_down := \<not> released\<rparr>
         else if released \<or> c = NUL then k else keyboard_buffer_push c k)"
  unfolding keyboard_key_def KEY_RELEASED_def key_bits Let_def by auto

lemma table_chars:
  assumes "n < 128"
  shows "uchar (scancode_ascii ! n) < 128 \<and> uchar (scancode_ascii_shift ! n) < 128"
proof -
  have "list_all (\<lambda>c. uchar c < 128) scancode_ascii"
    "list_all (\<lambda>c. uchar c < 128) scancode_ascii_shift" by code_simp+
  moreover have "length scancode_ascii = 128" "length scancode_ascii_shift = 128" by code_simp+
  ultimately show ?thesis using assms by (simp add: list_all_length)
qed

lemma schar_ne: "uchar c < 128 \<Longrightarrow> schar c \<noteq> -1"
  by (simp add: schar_def uchar_def)

text \<open>Everything a session returns came from the buffer or was typed during it.\<close>

lemma session_fifo:
  "kbd_inv k \<Longrightarrow> length (kbd_contents k) + irq_count ops \<le> 127 \<Longrightarrow>
   (\<forall>c \<in> set (kbd_contents k). uchar c < 128) \<Longrightarrow>
   kbd_session ops k = (rs, k') \<Longrightarrow>
   kbd_inv k' \<and> map schar (kbd_contents k @ typed (shift_down k) ops) =
     filter (\<lambda>r. r \<noteq> -1) rs @ map schar (kbd_contents k')"
proof (induction ops arbitrary: k rs)
  case (Cons x ops)
  show ?case
  proof (cases x)
    case GetChar
    obtain r k1 where p: "kbd_pop k = (r, k1)" by force
    let ?v = "case r of None \<Rightarrow> -1 | Some c \<Rightarrow> schar c"
    obtain rs' where rs: "kbd_session ops k1 = (rs', k')" "rs = ?v # rs'"
      using Cons.prems(4) p GetChar
      by (auto simp: getchar_pop Let_def split: prod.splits option.splits)
    have k1: "kbd_inv k1" using kbq.pop_inv [OF Cons.prems(1)] p by simp
    have c: "kbd_contents k = (case r of None \<Rightarrow> [] | Some c \<Rightarrow> [c]) @ kbd_contents k1"
      using kbq.pop_split [OF Cons.prems(1)] p by simp
    have sh: "shift_down k1 = shift_down k" using p by (auto simp: kbd_pop_def split: if_splits)
    have "filter (\<lambda>r. r \<noteq> -1) rs = map schar (case r of None \<Rightarrow> [] | Some c \<Rightarrow> [c]) @
        filter (\<lambda>r. r \<noteq> -1) rs'"
      using rs(2) c Cons.prems(3) by (auto simp: schar_ne split: option.splits)
    moreover have "length (kbd_contents k1) + irq_count ops \<le> 127"
      using Cons.prems(2) c GetChar by (auto simp: irq_count_def split: option.splits)
    ultimately show ?thesis
      using Cons.IH [OF k1 _ _ rs(1)] Cons.prems(3) c sh GetChar by simp
  next
    case (KeyIrq sc)
    let ?key = "sc AND 0x7F" and ?rel = "0x80 \<le> sc"
    let ?c = "if shift_down k then scancode_ascii_shift ! unat ?key else scancode_ascii ! unat ?key"
    let ?k1 = "snd (keyboard_key sc k)"
    have rs: "kbd_session ops ?k1 = (rs, k')" using Cons.prems(4) KeyIrq by simp
    have len: "length (kbd_contents k) < 127" "length (kbd_contents k) + irq_count ops < 127"
      using Cons.prems(2) KeyIrq by (auto simp: irq_count_def)
    have "unat ?key \<le> unat (0x7F :: u8)" by (simp only: word_le_nat_alt [symmetric] word_and_le1)
    then have small: "uchar ?c < 128" using table_chars [of "unat ?key"] by simp
    note push = kbq.push_room [OF Cons.prems(1) len(1)]
    have tp: "typed (shift_down k) (KeyIrq sc # ops) =
        (if ?key = 0x2A \<or> ?key = 0x36 then typed (\<not> ?rel) ops
         else if ?rel \<or> ?c = NUL then typed (shift_down k) ops
         else ?c # typed (shift_down k) ops)"
      by (auto simp: Let_def)
    show ?thesis
    proof (cases "?key = 0x2A \<or> ?key = 0x36")
      case True
      then have "?k1 = k\<lparr>shift_down := \<not> ?rel\<rparr>" by (simp add: keyboard_key_cases)
      then show ?thesis
        using Cons.IH [OF _ _ _ rs] Cons.prems(1,3) len(2) True tp KeyIrq by simp
    next
      case False
      show ?thesis
      proof (cases "?rel \<or> ?c = NUL")
        case True
        then have "?k1 = k" using False by (simp add: keyboard_key_cases Let_def)
        then show ?thesis
          using Cons.IH [OF _ _ _ rs] Cons.prems(1,3) len(2) True False tp KeyIrq by simp
      next
        case nr: False
        then have k1: "?k1 = keyboard_buffer_push ?c k"
          using False by (simp add: keyboard_key_cases Let_def)
        then have "kbd_contents ?k1 = kbd_contents k @ [?c]" "kbd_inv ?k1"
            "shift_down ?k1 = shift_down k"
          using push kbq.push_inv [OF Cons.prems(1)] by simp_all
        then show ?thesis
          using Cons.IH [OF _ _ _ rs] Cons.prems(3) len(2) small nr False tp KeyIrq by simp
      qed
    qed
  qed
qed simp

lemma keyboard_zero_facts:
  "kbd_inv keyboard_zero" "kbd_contents keyboard_zero = []" "shift_down keyboard_zero = False"
  by (simp_all add: keyboard_zero_def kbd_inv_def kbd_contents_def kbd_pending_def KEYBUF_SIZE_def)

section \<open>Properties\<close>

text \<open>C14. The keyboard delivers what is typed, in order.  From boot, for any
interleaving of keyboard interrupts and reads with at most 127 interrupts, the
characters the reads returned (apart from the -1 of an empty buffer) followed by
those still buffered are exactly the characters the scan codes type: letters
by the table the last shift event selects, nothing for releases and dead keys.\<close>

theorem keyboard_delivers_typed:
  assumes "irq_count ops \<le> 127" and "kbd_session ops keyboard_zero = (rs, k)"
  shows "filter (\<lambda>r. r \<noteq> -1) rs @ map schar (kbd_contents k) = map schar (typed False ops)"
  using session_fifo [OF keyboard_zero_facts(1) _ _ assms(2)] assms(1) keyboard_zero_facts by simp

lemma keyboard_delivers_typed_witness:
  "let ops = [KeyIrq 0x2A, GetChar, KeyIrq 0x23, KeyIrq 0xAA, KeyIrq 0x17, KeyIrq 0x97, GetChar];
       (rs, k) = kbd_session ops keyboard_zero
   in rs = [-1, 72] \<and> filter (\<lambda>r. r \<noteq> -1) rs @ map schar (kbd_contents k) = map schar ''Hi''"
proof -
  let ?ops = "[KeyIrq 0x2A, GetChar, KeyIrq 0x23, KeyIrq 0xAA, KeyIrq 0x17, KeyIrq 0x97, GetChar]"
  have "irq_count ?ops \<le> 127" by code_simp
  moreover have "fst (kbd_session ?ops keyboard_zero) = [-1, 72]" by code_simp
  moreover have "typed False ?ops = ''Hi''" by code_simp
  ultimately show ?thesis
    using keyboard_delivers_typed [OF _ prod.collapse [symmetric], where ops = ?ops]
    by (simp only: Let_def split_beta simp_thms)
qed

text \<open>A full buffer loses the newest key only.  Once 127 characters wait, a
keyboard interrupt changes neither the buffered characters nor their order, and
the next read still returns the oldest one.\<close>

theorem keyboard_full_drops_newest:
  assumes "kbd_inv k" and "length (kbd_contents k) = 127"
  shows "kbd_contents (snd (keyboard_key sc k)) = kbd_contents k \<and>
    fst (keyboard_getchar (snd (keyboard_key sc k))) = schar (hd (kbd_contents k))"
proof -
  let ?k = "snd (keyboard_key sc k)"
  have c: "kbd_contents ?k = kbd_contents k" "kbd_inv ?k"
    using kbq.push_full [OF assms(1)] kbq.push_inv [OF assms(1)] assms
    by (simp_all add: keyboard_key_cases Let_def)
  obtain x xs where "kbd_contents ?k = x # xs"
    using assms(2) unfolding c(1) by (cases "kbd_contents k") simp_all
  then have "fst (kbd_pop ?k) = Some x" "hd (kbd_contents k) = x"
    using kbq.pop_head [OF c(2)] c(1) by simp_all
  then show ?thesis
    using c(1) by (cases "kbd_pop ?k") (simp add: getchar_pop)
qed

lemma keyboard_full_drops_newest_witness:
  "let k = \<lparr>keybuf = replicate 128 CHR ''a'', keybuf_head = 4, keybuf_tail = 5, shift_down = False\<rparr>
   in kbd_contents (snd (keyboard_key 0x30 k)) = replicate 127 CHR ''a''"
proof -
  let ?k = "\<lparr>keybuf = replicate 128 CHR ''a'', keybuf_head = 4, keybuf_tail = 5, shift_down = False\<rparr>"
  have "kbd_inv ?k" by (simp add: kbd_inv_def)
  moreover have c: "kbd_contents ?k = replicate 127 CHR ''a''"
    by (simp add: kbd_contents_def kbd_pending_def list_eq_iff_nth_eq)
  ultimately show ?thesis using keyboard_full_drops_newest [of ?k "0x30"] by simp
qed

end
