(* ===== verification/Mouse.thy ===== *)
theory Mouse
  imports Pic
begin

text \<open>
  The PS/2 mouse driver \<open>drivers/mouse/mouse.c\<close>: the controller programming
  sequence with its two polling loops, and the interrupt handler that collects
  three-byte packets and decodes them.  The polling loops end only when the
  device changes its status, so they are partial: \<open>None\<close> is an endless wait.
\<close>

definition PS2_STATUS_PORT :: u16 where "PS2_STATUS_PORT = 0x64"
definition PS2_DATA_PORT :: u16 where "PS2_DATA_PORT = 0x60"
definition PS2_CMD_WRITE :: u8 where "PS2_CMD_WRITE = 0xD4"
definition PS2_CMD_ENABLE_AUX :: u8 where "PS2_CMD_ENABLE_AUX = 0xA8"
definition PS2_CMD_SET_DEFAULTS :: u8 where "PS2_CMD_SET_DEFAULTS = 0xF6"
definition PS2_CMD_ENABLE_DATA :: u8 where "PS2_CMD_ENABLE_DATA = 0xF4"
definition MOUSE_IRQ :: u8 where "MOUSE_IRQ = 12"

lemmas mouse_consts = PS2_STATUS_PORT_def PS2_DATA_PORT_def PS2_CMD_WRITE_def
  PS2_CMD_ENABLE_AUX_def PS2_CMD_SET_DEFAULTS_def PS2_CMD_ENABLE_DATA_def MOUSE_IRQ_def

record mouse_state =
  m_ready :: bool
  m_packet_ready :: bool
  m_x :: u32
  m_y :: u32
  m_dx :: u8
  m_dy :: u8
  m_buttons :: u8
  m_packet_count :: u32

record mouse =
  mouse_state :: mouse_state
  mouse_packet :: "u8 list"
  mouse_index :: nat
  mouse_has_packet :: bool

partial_function (option) mouse_wait_input :: "'d port_bus \<Rightarrow> 'd \<Rightarrow> 'd option" where
  "mouse_wait_input bus d =
     (let (v, d') = inb bus PS2_STATUS_PORT d in
      if v AND 0x02 \<noteq> 0 then mouse_wait_input bus d' else Some d')"

partial_function (option) mouse_wait_output :: "'d port_bus \<Rightarrow> 'd \<Rightarrow> 'd option" where
  "mouse_wait_output bus d =
     (let (v, d') = inb bus PS2_STATUS_PORT d in
      if v AND 0x01 = 0 then mouse_wait_output bus d' else Some d')"

definition mouse_write :: "'d port_bus \<Rightarrow> u8 \<Rightarrow> 'd \<Rightarrow> 'd option" where
  "mouse_write bus val d =
     Option.bind (mouse_wait_input bus d) (\<lambda>d1.
     Option.bind (mouse_wait_input bus (outb bus PS2_STATUS_PORT PS2_CMD_WRITE d1)) (\<lambda>d2.
     Some (outb bus PS2_DATA_PORT val d2)))"

text \<open>
  The coordinates are 32-bit integers held as words; the movements are signed
  bytes.  The sum is taken modulo 2 to the 32, which is the C value whenever
  the signed addition does not overflow.
\<close>

definition mouse_byte :: "u8 \<Rightarrow> mouse \<Rightarrow> mouse" where
  "mouse_byte data m =
     (if mouse_index m = 0 \<and> data AND 0x08 = 0 then m
      else
        let pkt = (mouse_packet m)[mouse_index m := data];
            m1 = m\<lparr>mouse_packet := pkt, mouse_index := mouse_index m + 1\<rparr>
        in if mouse_index m1 \<ge> 3 then
             let st = mouse_state m; dx = pkt ! 1; dy = pkt ! 2 in
             m1\<lparr>mouse_index := 0,
                mouse_state := st\<lparr>m_buttons := pkt ! 0 AND 0x07, m_dx := dx, m_dy := dy,
                  m_x := m_x st + scast dx, m_y := m_y st - scast dy,
                  m_packet_count := m_packet_count st + 1, m_packet_ready := True\<rparr>,
                mouse_has_packet := True\<rparr>
           else m1)"

definition mouse_interrupt_handler :: "'d port_bus \<Rightarrow> mouse \<times> 'd \<Rightarrow> mouse \<times> 'd" where
  "mouse_interrupt_handler bus = (\<lambda>(m, d).
     let (data, d') = inb bus PS2_DATA_PORT d
     in (mouse_byte data m, pic_send_eoi bus MOUSE_IRQ d'))"

definition mouse_state_zero :: mouse_state where
  "mouse_state_zero = \<lparr>m_ready = False, m_packet_ready = False, m_x = 0, m_y = 0, m_dx = 0,
     m_dy = 0, m_buttons = 0, m_packet_count = 0\<rparr>"

definition mouse_init :: "'d port_bus \<Rightarrow> mouse \<times> 'd \<Rightarrow> (mouse \<times> 'd) option" where
  "mouse_init bus = (\<lambda>(m, d).
     Option.bind (mouse_wait_input bus d) (\<lambda>d1.
     Option.bind (mouse_wait_input bus (outb bus PS2_STATUS_PORT PS2_CMD_ENABLE_AUX d1)) (\<lambda>d2.
     Option.bind (mouse_wait_output bus (outb bus PS2_STATUS_PORT 0x20 d2)) (\<lambda>d3.
     Option.bind (mouse_wait_input bus (snd (inb bus PS2_DATA_PORT d3))) (\<lambda>d4.
     Option.bind (mouse_wait_input bus (outb bus PS2_STATUS_PORT 0x60 d4)) (\<lambda>d5.
     Option.bind (mouse_write bus PS2_CMD_SET_DEFAULTS (outb bus PS2_DATA_PORT 0x47 d5)) (\<lambda>d6.
     Option.bind (mouse_write bus PS2_CMD_ENABLE_DATA d6) (\<lambda>d7.
     Some (m\<lparr>mouse_state := mouse_state_zero\<lparr>m_ready := True\<rparr>, mouse_index := 0,
             mouse_has_packet := False\<rparr>,
           pic_unmask_irq bus MOUSE_IRQ d7)))))))))"

definition mouse_get_state :: "mouse \<Rightarrow> mouse_state" where
  "mouse_get_state m = mouse_state m"

definition mouse_ready :: "mouse \<Rightarrow> bool" where
  "mouse_ready m = m_ready (mouse_state m)"

definition mouse_poll_packet :: "mouse \<Rightarrow> (u8 \<times> u8 \<times> u8) option \<times> mouse" where
  "mouse_poll_packet m =
     (if \<not> mouse_has_packet m then (None, m)
      else (Some (mouse_packet m ! 0, mouse_packet m ! 1, mouse_packet m ! 2),
            m\<lparr>mouse_has_packet := False,
              mouse_state := (mouse_state m)\<lparr>m_packet_ready := False\<rparr>\<rparr>))"

section \<open>Packets\<close>

definition mouse_inv :: "mouse \<Rightarrow> bool" where
  "mouse_inv m \<longleftrightarrow> length (mouse_packet m) = 3 \<and> mouse_index m < 3"

lemma mouse_byte_inv: "mouse_inv m \<Longrightarrow> mouse_inv (mouse_byte data m)"
  by (simp add: mouse_byte_def mouse_inv_def Let_def)

text \<open>
  The specification: bytes are read as packets of three; a byte without bit 3
  where a packet should start is skipped.
\<close>

fun packets :: "u8 list \<Rightarrow> (u8 \<times> u8 \<times> u8) list" where
  "packets [] = []"
| "packets (a # bs) =
     (if a AND 0x08 = 0 then packets bs
      else case bs of b # c # cs \<Rightarrow> (a, b, c) # packets cs | _ \<Rightarrow> [])"

lemma packet_complete:
  assumes "mouse_inv m" "mouse_index m = 0" "a AND 0x08 \<noteq> 0"
  shows "mouse_byte c (mouse_byte b (mouse_byte a m)) =
    m\<lparr>mouse_packet := [a, b, c], mouse_index := 0, mouse_has_packet := True,
      mouse_state := (mouse_state m)\<lparr>m_buttons := a AND 0x07, m_dx := b, m_dy := c,
        m_x := m_x (mouse_state m) + scast b, m_y := m_y (mouse_state m) - scast c,
        m_packet_count := m_packet_count (mouse_state m) + 1, m_packet_ready := True\<rparr>\<rparr>"
proof -
  obtain p q r where "mouse_packet m = [p, q, r]"
    using assms(1) by (auto simp: mouse_inv_def numeral_3_eq_3 length_Suc_conv)
  then show ?thesis using assms by (simp add: mouse_byte_def Let_def)
qed

lemma partial_packet:
  assumes "mouse_inv m" "mouse_index m = 0" "a AND 0x08 \<noteq> 0" "length bs < 2"
  shows "mouse_state (fold mouse_byte bs (mouse_byte a m)) = mouse_state m"
  using assms by (cases bs) (auto simp: mouse_byte_def Let_def mouse_inv_def)

lemma bytes_run:
  "mouse_inv m \<Longrightarrow> mouse_index m = 0 \<Longrightarrow>
   let st = mouse_state (fold mouse_byte bs m); ps = packets bs in
     m_x st = m_x (mouse_state m) + sum_list (map (\<lambda>(a, b, c). scast b) ps) \<and>
     m_y st = m_y (mouse_state m) - sum_list (map (\<lambda>(a, b, c). scast c) ps) \<and>
     m_packet_count st = m_packet_count (mouse_state m) + of_nat (length ps) \<and>
     m_buttons st = (if ps = [] then m_buttons (mouse_state m) else fst (last ps) AND 0x07)"
proof (induction bs arbitrary: m rule: packets.induct)
  case 1
  then show ?case by simp
next
  case (2 a bs)
  show ?case
  proof (cases "a AND 0x08 = 0")
    case True
    then have "mouse_byte a m = m" using 2(4) by (simp add: mouse_byte_def)
    then show ?thesis using 2(1) [OF True 2(3,4)] True by simp
  next
    case False
    show ?thesis
    proof (cases "length bs < 2")
      case True
      then have "packets (a # bs) = []"
        using False by (cases bs; cases "tl bs") auto
      then show ?thesis using partial_packet [OF 2(3,4) False True] by simp
    next
      case long: False
      then obtain b c cs where bs: "bs = b # c # cs" by (cases bs; cases "tl bs") auto
      let ?m = "mouse_byte c (mouse_byte b (mouse_byte a m))"
      have m: "mouse_inv ?m" "mouse_index ?m = 0"
        using packet_complete [OF 2(3,4) False, of c b] 2(3)
        by (simp_all add: mouse_inv_def)
      note IH = 2(2) [OF False bs refl m]
      show ?thesis
        using IH False bs packet_complete [OF 2(3,4) False, of c b]
        by (auto simp: Let_def algebra_simps)
    qed
  qed
qed

section \<open>Properties\<close>

text \<open>Mouse decoding.  Starting between packets, the handler turns any byte stream
into the packets of the PS/2 protocol: bytes that cannot start a packet (bit 3
clear) are skipped, every further three bytes form one, and an incomplete one
counts for nothing.  The position is the start position plus the sum of the
signed x movements and minus the sum of the y movements, the packet count
advances by the number of packets and the buttons are those of the last.\<close>

theorem mouse_decodes_packets:
  assumes "mouse_inv m" and "mouse_index m = 0"
  shows "let st = mouse_get_state (fold mouse_byte bs m); ps = packets bs in
     m_x st = m_x (mouse_state m) + sum_list (map (\<lambda>(a, b, c). scast b) ps) \<and>
     m_y st = m_y (mouse_state m) - sum_list (map (\<lambda>(a, b, c). scast c) ps) \<and>
     m_packet_count st = m_packet_count (mouse_state m) + of_nat (length ps) \<and>
     m_buttons st = (if ps = [] then m_buttons (mouse_state m) else fst (last ps) AND 0x07)"
  using bytes_run [OF assms] by (simp add: mouse_get_state_def)

definition mouse_zero :: mouse where
  "mouse_zero = \<lparr>mouse_state = mouse_state_zero, mouse_packet = [0, 0, 0], mouse_index = 0,
     mouse_has_packet = False\<rparr>"

lemma mouse_decodes_packets_witness:
  "let st = mouse_state (fold mouse_byte [0x00, 0x09, 0xFE, 0x05, 0x08, 0x03, 0x00, 0x08] mouse_zero)
   in m_x st = 1 \<and> m_y st = - 5 \<and> m_packet_count st = 2 \<and> m_buttons st = 0"
proof -
  have "mouse_inv mouse_zero" "mouse_index mouse_zero = 0" by code_simp+
  note d = mouse_decodes_packets [OF this, of "[0x00, 0x09, 0xFE, 0x05, 0x08, 0x03, 0x00, 0x08]"]
  have "packets [0x00, 0x09, 0xFE, 0x05, 0x08, 0x03, 0x00, 0x08] =
      [(0x09, 0xFE, 0x05), (0x08, 0x03, 0x00)]" by code_simp
  moreover have "mouse_state mouse_zero = mouse_state_zero" by (simp add: mouse_zero_def)
  moreover have "(scast (0xFE :: u8) :: u32) = - 2" "(scast (5 :: u8) :: u32) = 5"
      "(scast (3 :: u8) :: u32) = 3" by code_simp+
  ultimately show ?thesis
    using d by (simp add: mouse_get_state_def mouse_state_zero_def Let_def)
qed

end
