(* ===== verification/Interrupts.thy ===== *)
theory Interrupts
  imports Timer Keyboard Mouse Process
begin

text \<open>
  Interrupt descriptors and dispatch (\<open>kernel/arch/x86_64/idt.c\<close>), the system
  call handler (\<open>syscall/syscall.c\<close>) and the state the handlers share.  The
  handler table holds names of the four handlers the kernel registers; the
  addresses of the assembly stubs are a parameter.  User memory is a map from
  addresses to characters; a string without end is an endless print, \<open>None\<close>.
\<close>

section \<open>The descriptor table\<close>

record idt_entry =
  offset_low :: u16
  selector :: u16
  ist :: u8
  type_attr :: u8
  offset_mid :: u16
  offset_high :: u32
  zero_field :: u32

definition IDT_ENTRY_COUNT :: nat where "IDT_ENTRY_COUNT = 256"
definition IDT_PRESENT :: u8 where "IDT_PRESENT = 0x80"
definition IDT_GATE_INT64 :: u8 where "IDT_GATE_INT64 = 0x0E"
definition KERNEL_CS :: u16 where "KERNEL_CS = 0x08"
definition IDT_IRQ_BASE :: u64 where "IDT_IRQ_BASE = 32"
definition SYSCALL_VECTOR :: u8 where "SYSCALL_VECTOR = 128"
definition SYSCALL_GATE_ATTR :: u8 where "SYSCALL_GATE_ATTR = 0xEE"

lemmas idt_consts = IDT_ENTRY_COUNT_def IDT_PRESENT_def IDT_GATE_INT64_def KERNEL_CS_def
  IDT_IRQ_BASE_def SYSCALL_VECTOR_def SYSCALL_GATE_ATTR_def

definition empty_gate :: idt_entry where
  "empty_gate = \<lparr>offset_low = 0, selector = 0, ist = 0, type_attr = 0, offset_mid = 0,
     offset_high = 0, zero_field = 0\<rparr>"

definition idt_install_gate :: "u8 \<Rightarrow> u64 \<Rightarrow> u8 \<Rightarrow> idt_entry list \<Rightarrow> idt_entry list" where
  "idt_install_gate vector handler_address attr idt =
     idt[unat vector :=
       \<lparr>offset_low = ucast (handler_address AND 0xFFFF), selector = KERNEL_CS, ist = 0,
        type_attr = attr, offset_mid = ucast (drop_bit 16 handler_address AND 0xFFFF),
        offset_high = ucast (drop_bit 32 handler_address AND 0xFFFFFFFF), zero_field = 0\<rparr>]"

definition idt_install_default_gates :: "(u8 \<Rightarrow> u64) \<Rightarrow> idt_entry list \<Rightarrow> idt_entry list" where
  "idt_install_default_gates stubs idt =
     idt_install_gate 128 (stubs 128) (IDT_PRESENT OR IDT_GATE_INT64)
       (fold (\<lambda>v. idt_install_gate (of_nat v) (stubs (of_nat v)) (IDT_PRESENT OR IDT_GATE_INT64))
         [0..<48] idt)"

text \<open>The address the processor takes from a gate, and its privilege level.\<close>

definition gate_address :: "idt_entry \<Rightarrow> u64" where
  "gate_address e = push_bit 32 (ucast (offset_high e)) OR push_bit 16 (ucast (offset_mid e)) OR
     ucast (offset_low e)"

definition gate_present :: "idt_entry \<Rightarrow> bool" where
  "gate_present e \<longleftrightarrow> bit (type_attr e) 7"

definition gate_dpl :: "idt_entry \<Rightarrow> u8" where
  "gate_dpl e = drop_bit 5 (type_attr e) AND 3"

lemma ucast_and_ones:
  "(ucast ((x :: u64) AND 0xFFFF) :: u16) = ucast x"
  "(ucast ((x :: u64) AND 0xFFFFFFFF) :: u32) = ucast x"
proof -
  have m: "0xFFFF = (mask 16 :: u64)" "0xFFFFFFFF = (mask 32 :: u64)"
    by (simp_all add: mask_eq_exp_minus_1)
  show "(ucast (x AND 0xFFFF) :: u16) = ucast x" "(ucast (x AND 0xFFFFFFFF) :: u32) = ucast x"
    unfolding m by (rule bit_word_eqI; auto simp: bit_simps)+
qed

lemma address_parts:
  "push_bit 32 (ucast (ucast (drop_bit 32 a) :: u32)) OR
   push_bit 16 (ucast (ucast (drop_bit 16 a) :: u16)) OR ucast (ucast a :: u16) = (a :: u64)"
proof (rule bit_word_eqI, goal_cases)
  case (1 n)
  then consider "n < 16" | "16 \<le> n" "n < 32" | "32 \<le> n" by linarith
  then show ?case using 1 by cases (auto simp: bit_simps)
qed

lemma installed_gate:
  assumes "unat vector < length idt"
  shows "gate_address (idt_install_gate vector a attr idt ! unat vector) = a"
    and "type_attr (idt_install_gate vector a attr idt ! unat vector) = attr"
    and "selector (idt_install_gate vector a attr idt ! unat vector) = KERNEL_CS"
  using assms
  by (simp_all add: idt_install_gate_def gate_address_def ucast_and_ones address_parts)

lemma install_other:
  "i \<noteq> unat vector \<Longrightarrow> idt_install_gate vector a attr idt ! i = idt ! i"
  "length (idt_install_gate vector a attr idt) = length idt"
  by (simp_all add: idt_install_gate_def)

section \<open>The machine state the handlers share\<close>

record frame =
  f_rax :: u64
  f_rdi :: u64
  f_vector :: u64
  f_error_code :: u64

datatype handler = TIMER_HANDLER | KEYBOARD_HANDLER | MOUSE_HANDLER | SYSCALL_HANDLER

record 'd kernel =
  k_device :: 'd
  k_idt :: "idt_entry list"
  k_handlers :: "handler option list"
  k_timer :: timer
  k_sched :: sched
  k_procs :: procs
  k_keyboard :: keyboard
  k_mouse :: mouse
  k_console :: string
  k_memory :: "u64 \<Rightarrow> char"

definition idt_register_handler :: "u8 \<Rightarrow> handler \<Rightarrow> 'd kernel \<Rightarrow> 'd kernel" where
  "idt_register_handler vector h k = k\<lparr>k_handlers := (k_handlers k)[unat vector := Some h]\<rparr>"

definition idt_init :: "(u8 \<Rightarrow> u64) \<Rightarrow> 'd kernel \<Rightarrow> 'd kernel" where
  "idt_init stubs k =
     k\<lparr>k_idt := idt_install_default_gates stubs (replicate IDT_ENTRY_COUNT empty_gate),
       k_handlers := replicate IDT_ENTRY_COUNT None\<rparr>"

definition syscall_init :: "(u8 \<Rightarrow> u64) \<Rightarrow> 'd kernel \<Rightarrow> 'd kernel" where
  "syscall_init stubs k =
     idt_register_handler SYSCALL_VECTOR SYSCALL_HANDLER
       (k\<lparr>k_idt := idt_install_gate SYSCALL_VECTOR (stubs 128) SYSCALL_GATE_ATTR (k_idt k)\<rparr>)"

section \<open>System calls\<close>

partial_function (option) read_cstring :: "(u64 \<Rightarrow> char) \<Rightarrow> u64 \<Rightarrow> string option" where
  "read_cstring mem p =
     (if mem p = NUL then Some []
      else Option.bind (read_cstring mem (p + 1)) (\<lambda>s. Some (mem p # s)))"

definition syscall_dispatch :: "frame \<Rightarrow> 'd kernel \<Rightarrow> (frame \<times> 'd kernel) option" where
  "syscall_dispatch f k =
     (if f_rax f = 0 then
        (case read_cstring (k_memory k) (f_rdi f) of None \<Rightarrow> None
         | Some s \<Rightarrow> Some (f\<lparr>f_rax := 0\<rparr>, k\<lparr>k_console := k_console k @ kputs s\<rparr>))
      else if f_rax f = 1 then Some (f\<lparr>f_rax := timer_get_ticks (k_timer k)\<rparr>, k)
      else if f_rax f = 2 then Some (f\<lparr>f_rax := ucast (process_current_pid (k_procs k))\<rparr>, k)
      else if f_rax f = 3 then Some (f\<lparr>f_rax := of_nat (process_get_count (k_procs k))\<rparr>, k)
      else if f_rax f = 4 then Some (f\<lparr>f_rax := 0\<rparr>, k)
      else Some (f\<lparr>f_rax := - 1\<rparr>, k))"

section \<open>Dispatch\<close>

definition run_handler ::
    "'d port_bus \<Rightarrow> handler \<Rightarrow> frame \<Rightarrow> 'd kernel \<Rightarrow> (frame \<times> 'd kernel) option" where
  "run_handler bus h f k =
     (case h of
        TIMER_HANDLER \<Rightarrow>
          (case timer_interrupt_handler bus (k_timer k, k_sched k, k_device k) of (t, s, d) \<Rightarrow>
             Some (f, k\<lparr>k_timer := t, k_sched := s, k_device := d\<rparr>))
      | KEYBOARD_HANDLER \<Rightarrow>
          (case keyboard_interrupt_handler bus (k_keyboard k, k_device k) of (out, kb, d) \<Rightarrow>
             Some (f, k\<lparr>k_keyboard := kb, k_device := d, k_console := k_console k @ out\<rparr>))
      | MOUSE_HANDLER \<Rightarrow>
          (case mouse_interrupt_handler bus (k_mouse k, k_device k) of (m, d) \<Rightarrow>
             Some (f, k\<lparr>k_mouse := m, k_device := d\<rparr>))
      | SYSCALL_HANDLER \<Rightarrow> syscall_dispatch f k)"

text \<open>
  The outcome of an interrupt: the handler ran, or an exception without handler
  stopped the machine, or an interrupt without handler was reported; an index
  beyond the table, which the stubs never push, is undefined.
\<close>

datatype 'd dispatch = Returned frame "'d kernel" | Panicked string | Hangs | Undefined

definition idt_dispatch :: "'d port_bus \<Rightarrow> frame \<Rightarrow> 'd kernel \<Rightarrow> 'd dispatch" where
  "idt_dispatch bus f k =
     (if \<not> f_vector f < 256 then Undefined
      else case k_handlers k ! unat (f_vector f) of
        Some h \<Rightarrow> (case run_handler bus h f k of None \<Rightarrow> Hangs | Some (f', k') \<Rightarrow> Returned f' k')
      | None \<Rightarrow>
          if f_vector f < IDT_IRQ_BASE
          then (case kprintf ''\<newline>[PANIC] Unhandled CPU exception vector %d, error %x\<newline>''
                  [KInt (ucast (f_vector f)), KInt (ucast (f_error_code f))]
                of Some s \<Rightarrow> Panicked (k_console k @ s) | None \<Rightarrow> Undefined)
          else (case kprintf ''[warn] Unhandled IRQ vector %d\<newline>'' [KInt (ucast (f_vector f))]
                of Some s \<Rightarrow> Returned f (k\<lparr>k_console := k_console k @ s\<rparr>) | None \<Rightarrow> Undefined))"

section \<open>Bringing the interrupts up\<close>

text \<open>
  The part of \<open>kmain\<close> that concerns interrupts, in its order: controller,
  descriptor table, keyboard, mouse, timer, scheduler, processes, system calls.
\<close>

definition boot_interrupts :: "'d port_bus \<Rightarrow> (u8 \<Rightarrow> u64) \<Rightarrow> 'd kernel \<Rightarrow> 'd kernel option" where
  "boot_interrupts bus stubs k =
     (let k1 = idt_init stubs (k\<lparr>k_device := pic_init bus (k_device k)\<rparr>);
          k2 = idt_register_handler 33 KEYBOARD_HANDLER k1;
          k3 = k2\<lparr>k_device := keyboard_init bus (k_device k2)\<rparr>
      in case mouse_init bus (k_mouse k3, k_device k3) of None \<Rightarrow> None
         | Some (m, d) \<Rightarrow>
           let k4 = idt_register_handler 44 MOUSE_HANDLER (k3\<lparr>k_mouse := m, k_device := d\<rparr>);
               (t, d') = timer_init bus 100 (k_device k4);
               k5 = idt_register_handler TIMER_VECTOR TIMER_HANDLER (k4\<lparr>k_timer := t, k_device := d'\<rparr>);
               (p, s) = process_init (timer_get_ticks t) scheduler_init
           in Some (syscall_init stubs (k5\<lparr>k_procs := p, k_sched := s\<rparr>)))"

lemma handler_table:
  "k_handlers (idt_register_handler v h k) = (k_handlers k)[unat v := Some h]"
  by (simp add: idt_register_handler_def)

lemma boot_handlers:
  assumes "boot_interrupts bus stubs k = Some k'"
  shows "length (k_handlers k') = 256"
    and "k_handlers k' ! 32 = Some TIMER_HANDLER" "k_handlers k' ! 33 = Some KEYBOARD_HANDLER"
    and "k_handlers k' ! 44 = Some MOUSE_HANDLER" "k_handlers k' ! 128 = Some SYSCALL_HANDLER"
    and "i < 256 \<Longrightarrow> i \<notin> {32, 33, 44, 128} \<Longrightarrow> k_handlers k' ! i = None"
  using assms
  by (auto simp: boot_interrupts_def Let_def syscall_init_def handler_table idt_init_def
      idt_consts timer_consts nth_list_update split: option.splits prod.splits)

lemma boot_state:
  assumes "boot_interrupts bus stubs k = Some k'"
  shows "ticks (k_timer k') = 0" and "(k_procs k', k_sched k') = process_init 0 scheduler_init"
    and "k_idt k' = idt_install_gate SYSCALL_VECTOR (stubs 128) SYSCALL_GATE_ATTR
           (idt_install_default_gates stubs (replicate 256 empty_gate))"
    and "k_mouse k' = (k_mouse k)\<lparr>mouse_state := mouse_state_zero\<lparr>m_ready := True\<rparr>, mouse_index := 0,
           mouse_has_packet := False\<rparr>"
  using assms
  by (auto simp: boot_interrupts_def Let_def syscall_init_def idt_register_handler_def idt_init_def
      timer_init_def timer_get_ticks_def mouse_init_def idt_consts Option.bind_eq_Some_conv
      split: option.splits prod.splits)

section \<open>Time\<close>

lemma dispatch_handled:
  assumes "k_handlers k ! unat (f_vector f) = Some h" "f_vector f < 256"
  shows "idt_dispatch bus f k =
    (case run_handler bus h f k of None \<Rightarrow> Hangs | Some (f', k') \<Rightarrow> Returned f' k')"
  using assms by (simp add: idt_dispatch_def)

text \<open>A run of interrupts; it stops at the first that does not return.\<close>

fun interrupts_run :: "'d port_bus \<Rightarrow> frame list \<Rightarrow> 'd kernel \<Rightarrow> 'd kernel option" where
  "interrupts_run bus [] k = Some k"
| "interrupts_run bus (f # fs) k =
     (case idt_dispatch bus f k of Returned f' k' \<Rightarrow> interrupts_run bus fs k' | _ \<Rightarrow> None)"

definition timer_frames :: "frame list \<Rightarrow> nat" where
  "timer_frames fs = length (filter (\<lambda>f. f_vector f = 32) fs)"

definition boot_handler_table :: "handler option list \<Rightarrow> bool" where
  "boot_handler_table hs \<longleftrightarrow> length hs = 256 \<and> (\<forall>i < 256. hs ! i = Some TIMER_HANDLER \<longleftrightarrow> i = 32)"

lemma dispatch_effect:
  assumes ht: "boot_handler_table (k_handlers k)" and inv: "proc_inv (k_procs k, k_sched k)"
    and ret: "idt_dispatch bus f k = Returned f' k'"
  shows "k_handlers k' = k_handlers k \<and> k_procs k' = k_procs k \<and>
    (if f_vector f = 32
     then k_sched k' = scheduler_on_timer_tick (k_sched k) \<and> ticks (k_timer k') = ticks (k_timer k) + 1
     else k_sched k' = k_sched k \<and> k_timer k' = k_timer k)"
proof -
  have v: "f_vector f < 256" using ret by (simp add: idt_dispatch_def split: if_splits)
  then have "unat (f_vector f) < 256" by (simp add: word_less_nat_alt)
  moreover have "unat (f_vector f) = 32 \<longleftrightarrow> f_vector f = 32"
    using word_eq_unatI [of "f_vector f" 32] by auto
  ultimately have t: "k_handlers k ! unat (f_vector f) = Some TIMER_HANDLER \<longleftrightarrow> f_vector f = 32"
    using ht by (simp add: boot_handler_table_def)
  show ?thesis
    using ret t v
    by (auto simp: idt_dispatch_def run_handler_def timer_interrupt_handler_def
        keyboard_interrupt_handler_def mouse_interrupt_handler_def syscall_dispatch_def
        split: option.splits handler.splits if_splits prod.splits)
qed

lemma interrupts_run_time:
  "boot_handler_table (k_handlers k) \<Longrightarrow> proc_inv (k_procs k, k_sched k) \<Longrightarrow>
   interrupts_run bus fs k = Some k' \<Longrightarrow>
   boot_handler_table (k_handlers k') \<and> proc_inv (k_procs k', k_sched k') \<and>
   k_procs k' = k_procs k \<and> k_sched k' = (scheduler_on_timer_tick ^^ timer_frames fs) (k_sched k) \<and>
   ticks (k_timer k') = ticks (k_timer k) + of_nat (timer_frames fs)"
proof (induction fs arbitrary: k)
  case (Cons f fs)
  obtain f' k1 where d: "idt_dispatch bus f k = Returned f' k1"
      and r: "interrupts_run bus fs k1 = Some k'"
    using Cons.prems(3) by (auto split: dispatch.splits)
  note e = dispatch_effect [OF Cons.prems(1,2) d]
  have inv1: "proc_inv (k_procs k1, k_sched k1)"
    using e Cons.prems(2) proc_tick_preserves by (auto split: if_splits)
  have "boot_handler_table (k_handlers k1)" using e Cons.prems(1) by simp
  note IH = Cons.IH [OF this inv1 r]
  show ?case
    using IH e by (auto simp: timer_frames_def funpow_swap1 split: if_splits)
qed (simp add: timer_frames_def)

lemma boot_table:
  assumes "boot_interrupts bus stubs k = Some k'"
  shows "boot_handler_table (k_handlers k')"
proof -
  note h = boot_handlers [OF assms]
  have "k_handlers k' ! i = Some TIMER_HANDLER \<longleftrightarrow> i = 32" if "i < 256" for i
    using h(2-5) h(6) [OF that] by (cases "i \<in> {32, 33, 44, 128}") auto
  then show ?thesis using h(1) by (simp add: boot_handler_table_def)
qed

lemma boot_procs:
  "boot_interrupts bus stubs k = Some k' \<Longrightarrow> proc_inv (k_procs k', k_sched k')"
  using boot_state(2) process_init_inv by metis

lemma ticks_total: "sched_inv s \<Longrightarrow> total_ticks ((scheduler_on_timer_tick ^^ n) s) = total_ticks s + of_nat n"
  by (induction n) (simp_all add: tick_sums(1) [OF ticks_preserve] add.assoc add.commute)

lemma process_init_ticks: "total_ticks (snd (process_init t scheduler_init)) = 0"
  by (simp add: process_init_def process_create_kernel_def empty_procs_def scheduler_init_def
      scheduler_register_task_def PROCESS_MAX_def SCHED_MAX_TASKS_def Let_def)

section \<open>The mask registers after boot\<close>

lemma mouse_wait_input_chips:
  assumes dev: "pic_device bus c1 c2" and ret: "mouse_wait_input bus d = Some d'"
  shows "c1 d' = c1 d \<and> c2 d' = c2 d"
proof -
  have "bus = bus \<longrightarrow> c1 d' = c1 d \<and> c2 d' = c2 d"
  proof (rule mouse_wait_input.raw_induct
      [where P = "\<lambda>b d d'. b = bus \<longrightarrow> c1 d' = c1 d \<and> c2 d' = c2 d", OF _ ret])
  fix wait b d d'
  assume "\<And>b d d'. wait b d = Some d' \<Longrightarrow> b = bus \<longrightarrow> c1 d' = c1 d \<and> c2 d' = c2 d"
    and "(let (v, d') = inb b PS2_STATUS_PORT d in if v AND 2 \<noteq> 0 then wait b d' else Some d') = Some d'"
  then show "b = bus \<longrightarrow> c1 d' = c1 d \<and> c2 d' = c2 d"
    using pic_deviceD(1,2) [OF dev, of PS2_STATUS_PORT d]
    by (auto simp: Let_def split_beta split: if_splits)
  qed
  then show ?thesis by simp
qed

lemma mouse_wait_output_chips:
  assumes dev: "pic_device bus c1 c2" and ret: "mouse_wait_output bus d = Some d'"
  shows "c1 d' = c1 d \<and> c2 d' = c2 d"
proof -
  have "bus = bus \<longrightarrow> c1 d' = c1 d \<and> c2 d' = c2 d"
  proof (rule mouse_wait_output.raw_induct
      [where P = "\<lambda>b d d'. b = bus \<longrightarrow> c1 d' = c1 d \<and> c2 d' = c2 d", OF _ ret])
  fix wait b d d'
  assume "\<And>b d d'. wait b d = Some d' \<Longrightarrow> b = bus \<longrightarrow> c1 d' = c1 d \<and> c2 d' = c2 d"
    and "(let (v, d') = inb b PS2_STATUS_PORT d in if v AND 1 = 0 then wait b d' else Some d') = Some d'"
  then show "b = bus \<longrightarrow> c1 d' = c1 d \<and> c2 d' = c2 d"
    using pic_deviceD(1,2) [OF dev, of PS2_STATUS_PORT d]
    by (auto simp: Let_def split_beta split: if_splits)
  qed
  then show ?thesis by simp
qed

lemma other_port_chips:
  assumes "pic_device bus c1 c2" and "p \<notin> {0x20, 0x21, 0xA0, 0xA1}"
  shows "c1 (outb bus p v d) = c1 d" "c2 (outb bus p v d) = c2 d"
  using assms(2) by (simp_all add: pic_deviceD [OF assms(1)])

lemma mouse_write_chips:
  assumes dev: "pic_device bus c1 c2" and "mouse_write bus v d = Some d'"
  shows "c1 d' = c1 d \<and> c2 d' = c2 d"
  using assms(2)
  by (auto simp: mouse_write_def Option.bind_eq_Some_conv mouse_consts other_port_chips [OF dev]
      dest!: mouse_wait_input_chips [OF dev])

lemma mouse_init_chips:
  assumes dev: "pic_device bus c1 c2" and "mouse_init bus (m, d) = Some (m', d')"
    and "icws_left (c1 d) = 0" "icws_left (c2 d) = 0"
  shows "c1 d' = c1 d \<and> c2 d' = (c2 d)\<lparr>irq_mask := clear_line 4 (irq_mask (c2 d))\<rparr>"
proof -
  obtain d7 where d7: "c1 d7 = c1 d" "c2 d7 = c2 d" "d' = pic_unmask_irq bus 12 d7"
    using assms(2)
    by (auto simp: mouse_init_def Option.bind_eq_Some_conv mouse_consts other_port_chips [OF dev]
        pic_deviceD(1,2) [OF dev]
        dest!: mouse_wait_input_chips [OF dev] mouse_wait_output_chips [OF dev] mouse_write_chips [OF dev])
  show ?thesis
    using pic_unmask_chips [OF dev, of d7 12] d7 assms(3,4) by simp
qed

lemma timer_init_chips:
  assumes dev: "pic_device bus c1 c2" and "icws_left (c1 d) = 0" "icws_left (c2 d) = 0"
  shows "c1 (snd (timer_init bus f d)) = (c1 d)\<lparr>irq_mask := clear_line 0 (irq_mask (c1 d))\<rparr>"
    and "c2 (snd (timer_init bus f d)) = c2 d"
  using assms(2,3)
  by (simp_all add: timer_init_def Let_def timer_consts pic_unmask_chips [OF dev] other_port_chips [OF dev])

lemma boot_chips:
  assumes dev: "pic_device bus c1 c2" and boot: "boot_interrupts bus stubs k = Some k'"
  shows "irq_mask (c1 (k_device k')) = 0xFC" "irq_mask (c2 (k_device k')) = 0xEF"
    "vector_base (c1 (k_device k')) = 32" "vector_base (c2 (k_device k')) = 40"
proof -
  let ?d0 = "pic_init bus (k_device k)"
  let ?d1 = "keyboard_init bus ?d0"
  obtain m d where m: "mouse_init bus (k_mouse k, ?d1) = Some (m, d)"
      and k': "k_device k' = snd (timer_init bus 100 d)"
    using boot by (auto simp: boot_interrupts_def Let_def syscall_init_def idt_register_handler_def
        idt_init_def split: option.splits prod.splits)
  note c0 = pic_init_chips [OF dev, of "k_device k"]
  have c1: "c1 ?d1 = \<lparr>icws_left = 0, irq_mask = clear_line 1 0xFF, vector_base = 32\<rparr>"
      "c2 ?d1 = \<lparr>icws_left = 0, irq_mask = 0xFF, vector_base = 40\<rparr>"
    using pic_unmask_chips [OF dev, of ?d0 1] c0
    by (simp_all add: keyboard_init_def KEYBOARD_IRQ_def)
  have c2: "c1 d = \<lparr>icws_left = 0, irq_mask = clear_line 1 0xFF, vector_base = 32\<rparr>"
      "c2 d = \<lparr>icws_left = 0, irq_mask = clear_line 4 0xFF, vector_base = 40\<rparr>"
    using mouse_init_chips [OF dev m] c1 by simp_all
  have v: "clear_line 0 (clear_line 1 0xFF) = 0xFC" "clear_line 4 0xFF = 0xEF" by code_simp+
  show "irq_mask (c1 (k_device k')) = 0xFC" "irq_mask (c2 (k_device k')) = 0xEF"
    "vector_base (c1 (k_device k')) = 32" "vector_base (c2 (k_device k')) = 40"
    unfolding k' using timer_init_chips [OF dev, of d 100] c2 v by simp_all
qed

text \<open>
  A line of the second controller reaches the processor through line 2 of the
  first one, so both masks must let it pass.
\<close>

definition line_delivered :: "chip \<Rightarrow> chip \<Rightarrow> nat \<Rightarrow> bool" where
  "line_delivered m s irq \<longleftrightarrow>
     (if irq < 8 then \<not> bit (irq_mask m) irq
      else \<not> bit (irq_mask s) (irq - 8) \<and> \<not> bit (irq_mask m) 2)"

section \<open>Properties\<close>

text \<open>A device for evaluation: two interrupt controllers and a ready PS/2 controller.\<close>

record board =
  board1 :: chip
  board2 :: chip

definition board_bus :: "board port_bus" where
  "board_bus =
     \<lparr>inb = (\<lambda>p d. (if p = 0x21 then irq_mask (board1 d) else if p = 0xA1 then irq_mask (board2 d)
                  else if p = 0x64 then 1 else 0, d)),
      outb = (\<lambda>p v d.
        d\<lparr>board1 := (if p = 0x20 then chip_command v (board1 d)
                     else if p = 0x21 then chip_data v (board1 d) else board1 d),
          board2 := (if p = 0xA0 then chip_command v (board2 d)
                     else if p = 0xA1 then chip_data v (board2 d) else board2 d)\<rparr>),
      insw = (\<lambda>p d. (0, d)), outsw = (\<lambda>p v d. d)\<rparr>"

lemma board_device: "pic_device board_bus board1 board2"
  by (simp add: pic_device_def board_bus_def)

definition board_kernel :: "board kernel" where
  "board_kernel =
     \<lparr>k_device = \<lparr>board1 = \<lparr>icws_left = 0, irq_mask = 0, vector_base = 8\<rparr>,
                  board2 = \<lparr>icws_left = 0, irq_mask = 0, vector_base = 0x70\<rparr>\<rparr>,
      k_idt = [], k_handlers = [], k_timer = \<lparr>ticks = 0, configured_frequency = 0\<rparr>,
      k_sched = scheduler_init, k_procs = empty_procs, k_keyboard = keyboard_zero,
      k_mouse = mouse_zero, k_console = [], k_memory = (\<lambda>p. if p = 0x1000 then CHR ''o'' else
        if p = 0x1001 then CHR ''k'' else NUL)\<rparr>"

lemma board_waits:
  "mouse_wait_input board_bus d = Some d" "mouse_wait_output board_bus d = Some d"
  by (subst mouse_wait_input.simps mouse_wait_output.simps, simp add: board_bus_def mouse_consts)+

lemma board_boots: "\<exists>k'. boot_interrupts board_bus stubs board_kernel = Some k'"
  by (simp add: boot_interrupts_def mouse_init_def mouse_write_def board_waits Let_def split_beta)

text \<open>C9. One clock for the whole kernel.  After the interrupts are brought up, any
sequence of interrupts that all return (timer, keyboard, mouse, system calls,
unhandled lines, in any order) leaves the timer's tick count and the
scheduler's tick total both equal to the number of timer interrupts; the
process table is the one of the boot, still in correspondence with the
scheduler's tasks.\<close>

theorem interrupts_keep_one_clock:
  assumes "boot_interrupts bus stubs k = Some k0" and "interrupts_run bus fs k0 = Some k1"
  shows "timer_get_ticks (k_timer k1) = of_nat (timer_frames fs) \<and>
    total_ticks (k_sched k1) = timer_get_ticks (k_timer k1) \<and>
    k_procs k1 = fst (process_init 0 scheduler_init) \<and> proc_inv (k_procs k1, k_sched k1)"
proof -
  note r = interrupts_run_time [OF boot_table [OF assms(1)] boot_procs [OF assms(1)] assms(2)]
  have p: "k_procs k0 = fst (process_init 0 scheduler_init)"
      "k_sched k0 = snd (process_init 0 scheduler_init)"
    using boot_state(2) [OF assms(1)] by (metis fst_conv, metis snd_conv)
  have "sched_inv (k_sched k0)" using boot_procs [OF assms(1)] by (simp add: proc_inv_def)
  from ticks_total [OF this, of "timer_frames fs"] show ?thesis
    using r p boot_state(1) [OF assms(1)] process_init_ticks [of 0]
    by (auto simp: timer_get_ticks_def)
qed

lemma interrupts_keep_one_clock_witness:
  "\<exists>k0 k1. boot_interrupts board_bus (\<lambda>v. 0) board_kernel = Some k0 \<and>
     interrupts_run board_bus (replicate 3 \<lparr>f_rax = 0, f_rdi = 0, f_vector = 32, f_error_code = 0\<rparr>) k0 = Some k1 \<and>
     total_ticks (k_sched k1) = 3"
proof -
  let ?f = "\<lparr>f_rax = 0, f_rdi = 0, f_vector = 32, f_error_code = 0\<rparr>"
  obtain k0 where b: "boot_interrupts board_bus (\<lambda>v. 0) board_kernel = Some k0"
    using board_boots by blast
  have step: "\<exists>k'. idt_dispatch board_bus ?f k = Returned ?f k' \<and> boot_handler_table (k_handlers k')"
    if "boot_handler_table (k_handlers k)" for k :: "board kernel"
  proof -
    have "k_handlers k ! 32 = Some TIMER_HANDLER" using that by (simp add: boot_handler_table_def)
    then show ?thesis
      using that by (simp add: idt_dispatch_def run_handler_def timer_interrupt_handler_def)
  qed
  have run: "\<exists>k1. interrupts_run board_bus (replicate n ?f) k = Some k1"
    if "boot_handler_table (k_handlers k)" for n k
    using that
  proof (induction n arbitrary: k)
    case (Suc n)
    from step [OF Suc.prems] obtain k' where
      "idt_dispatch board_bus ?f k = Returned ?f k'" "boot_handler_table (k_handlers k')" by blast
    with Suc.IH [of k'] show ?case by simp
  qed simp
  obtain k1 where r: "interrupts_run board_bus (replicate 3 ?f) k0 = Some k1"
    using run [OF boot_table [OF b], of 3] by blast
  have "timer_frames (replicate 3 ?f) = 3" by (simp add: timer_frames_def)
  with interrupts_keep_one_clock [OF b r] b r show ?thesis by auto
qed

text \<open>C19. Which interrupt lines are open after boot.  With the documented register
protocol of the two interrupt controllers, the boot sequence leaves the vectors
at 32 and 40 and delivers exactly lines 0 and 1.  The mouse's line 12 is
unmasked at the second controller, but line 2, through which that controller is
connected, stays masked, so no mouse interrupt reaches the processor although
the driver reports itself ready.\<close>

theorem boot_delivers_only_timer_and_keyboard:
  assumes "pic_device bus c1 c2" and "boot_interrupts bus stubs k = Some k'"
    and "m = c1 (k_device k')" and "s = c2 (k_device k')"
  shows "{irq. irq < 16 \<and> line_delivered m s irq} = {0, 1} \<and>
    \<not> bit (irq_mask s) 4 \<and> bit (irq_mask m) 2 \<and> mouse_ready (k_mouse k') \<and>
    vector_base m = PIC_IRQ_BASE \<and> vector_base s = PIC_IRQ_BASE + 8"
proof -
  note c = boot_chips [OF assms(1,2)]
  have m: "irq_mask m = 0xFC" "irq_mask s = 0xEF" "vector_base m = 32" "vector_base s = 40"
    using c assms(3,4) by simp_all
  have b: "\<forall>i \<in> set [0..<8]. bit (0xFC :: u8) i = (i \<noteq> 0 \<and> i \<noteq> 1)" "bit (0xFC :: u8) 2"
    "\<not> bit (0xEF :: u8) 4"
    by code_simp+
  have "line_delivered m s irq \<longleftrightarrow> irq = 0 \<or> irq = 1" if "irq < 16" for irq
    using b by (auto simp: line_delivered_def m)
  moreover have "mouse_ready (k_mouse k')"
    using boot_state(4) [OF assms(2)] by (simp add: mouse_ready_def)
  ultimately show ?thesis using m b by (auto simp: PIC_IRQ_BASE_def)
qed

lemma boot_delivers_only_timer_and_keyboard_witness:
  "\<exists>k'. boot_interrupts board_bus (\<lambda>v. 0) board_kernel = Some k' \<and>
     \<not> line_delivered (board1 (k_device k')) (board2 (k_device k')) 12"
proof -
  obtain k' where b: "boot_interrupts board_bus (\<lambda>v. 0) board_kernel = Some k'"
    using board_boots by blast
  have "12 \<notin> {irq. irq < 16 \<and> line_delivered (board1 (k_device k')) (board2 (k_device k')) irq}"
    using boot_delivers_only_timer_and_keyboard [OF board_device b refl refl] by simp
  with b show ?thesis by auto
qed

lemma default_gates:
  assumes "length idt = 256"
  shows "n \<le> 48 \<Longrightarrow>
    let idt' = fold (\<lambda>v. idt_install_gate (of_nat v) (stubs (of_nat v)) attr) [0..<n] idt
    in length idt' = 256 \<and>
       (\<forall>i < 256. if i < n then gate_address (idt' ! i) = stubs (of_nat i) \<and> type_attr (idt' ! i) = attr
                  else idt' ! i = idt ! i)"
proof (induction n)
  case 0
  then show ?case using assms by simp
next
  case (Suc n)
  let ?idt = "fold (\<lambda>v. idt_install_gate (of_nat v) (stubs (of_nat v)) attr) [0..<n] idt"
  have IH: "length ?idt = 256"
      "\<forall>i < 256. if i < n then gate_address (?idt ! i) = stubs (of_nat i) \<and> type_attr (?idt ! i) = attr
                else ?idt ! i = idt ! i"
    using Suc by (simp_all add: Let_def)
  have un: "unat (of_nat n :: u8) = n" using Suc.prems by (simp add: unat_of_nat)
  have "n < length ?idt" using IH(1) Suc.prems by simp
  note g = installed_gate [of "of_nat n" ?idt "stubs (of_nat n)" attr, unfolded un, OF this]
  show ?case
    using IH g install_other(1) [of _ "of_nat n" "stubs (of_nat n)" attr ?idt] install_other(2) un
    by (auto simp: Let_def less_Suc_eq)
qed

lemma boot_gate_at:
  assumes boot: "boot_interrupts bus stubs k = Some k'" and i: "i < 256"
  shows "i = 128 \<Longrightarrow> gate_address (k_idt k' ! i) = stubs 128 \<and> type_attr (k_idt k' ! i) = 0xEE"
    and "i < 48 \<Longrightarrow> gate_address (k_idt k' ! i) = stubs (of_nat i) \<and> type_attr (k_idt k' ! i) = 0x8E"
    and "48 \<le> i \<Longrightarrow> i \<noteq> 128 \<Longrightarrow> type_attr (k_idt k' ! i) = 0"
proof -
  have at: "IDT_PRESENT OR IDT_GATE_INT64 = 0x8E" by code_simp
  let ?D = "fold (\<lambda>v. idt_install_gate (of_nat v) (stubs (of_nat v)) 0x8E) [0..<48]
      (replicate 256 empty_gate)"
  have D: "length ?D = 256"
      "\<forall>i < 256. if i < 48 then gate_address (?D ! i) = stubs (of_nat i) \<and> type_attr (?D ! i) = 0x8E
                else ?D ! i = replicate 256 empty_gate ! i"
    using default_gates [of "replicate 256 empty_gate" 48, where stubs = stubs and attr = "0x8E"] by (simp_all add: Let_def)
  let ?E = "idt_install_gate 128 (stubs 128) 0x8E ?D"
  have idt: "k_idt k' = idt_install_gate 128 (stubs 128) 0xEE ?E"
    using boot_state(3) [OF boot] at by (simp add: idt_install_default_gates_def idt_consts)
  have u: "unat (128 :: u8) = 128" by simp
  have len: "length ?E = 256" using D(1) install_other(2) by metis
  have other: "k_idt k' ! i = ?D ! i" if "i \<noteq> 128" for i
    unfolding idt using that by (simp add: install_other)
  show "i = 128 \<Longrightarrow> gate_address (k_idt k' ! i) = stubs 128 \<and> type_attr (k_idt k' ! i) = 0xEE"
    using installed_gate [where vector = 128 and idt = ?E and a = "stubs 128" and attr = "0xEE"]
      len u idt by simp
  show "i < 48 \<Longrightarrow> gate_address (k_idt k' ! i) = stubs (of_nat i) \<and> type_attr (k_idt k' ! i) = 0x8E"
    using D(2) i other [of i] by auto
  show "48 \<le> i \<Longrightarrow> i \<noteq> 128 \<Longrightarrow> type_attr (k_idt k' ! i) = 0"
    using D(2) i other [of i] by (auto simp: empty_gate_def)
qed

text \<open>The descriptor table after boot.  Exactly the vectors 0 to 47 and 128 have a
present gate; the processor reads from each the full 64-bit address of that
vector's stub, reassembled from its three parts; and the system call vector is
the only one a ring 3 program may raise.\<close>

theorem boot_idt_gates:
  assumes "boot_interrupts bus stubs k = Some k'" and "i < 256"
  shows "(gate_present (k_idt k' ! i) \<longleftrightarrow> i < 48 \<or> i = 128) \<and>
    (gate_present (k_idt k' ! i) \<longrightarrow> gate_address (k_idt k' ! i) = stubs (of_nat i)) \<and>
    (gate_present (k_idt k' ! i) \<and> gate_dpl (k_idt k' ! i) = 3 \<longleftrightarrow> i = 128)"
proof -
  have a: "bit (0xEE :: u8) 7" "bit (0x8E :: u8) 7" "drop_bit 5 (0xEE :: u8) AND 3 = 3"
      "drop_bit 5 (0x8E :: u8) AND 3 = 0" by code_simp+
  have "(of_nat 128 :: u8) = 128" by simp
  then show ?thesis
    using boot_gate_at [OF assms] a unfolding gate_present_def gate_dpl_def
    by (cases "i = 128"; cases "i < 48") auto
qed

lemma boot_idt_gates_witness:
  "\<exists>k'. boot_interrupts board_bus (\<lambda>v. 0x100000 + 16 * ucast v) board_kernel = Some k' \<and>
     gate_present (k_idt k' ! 33) \<and> gate_address (k_idt k' ! 33) = 0x100210 \<and>
     \<not> gate_present (k_idt k' ! 48)"
proof -
  obtain k' where b: "boot_interrupts board_bus (\<lambda>v. 0x100000 + 16 * ucast v) board_kernel = Some k'"
    using board_boots by blast
  have "gate_present (k_idt k' ! 33)" "\<not> gate_present (k_idt k' ! 48)"
      "gate_address (k_idt k' ! 33) = 0x100210"
    using boot_idt_gates [OF b, of 33] boot_idt_gates [OF b, of 48] by auto
  with b show ?thesis by blast
qed

lemma read_cstring_eq:
  "(\<forall>i < length s. mem (p + of_nat i) = s ! i \<and> s ! i \<noteq> NUL) \<Longrightarrow>
   mem (p + of_nat (length s)) = NUL \<Longrightarrow> read_cstring mem p = Some s"
proof (induction s arbitrary: p)
  case Nil
  then show ?case by (simp add: read_cstring.simps)
next
  case (Cons c s)
  have "mem (p + 1 + of_nat i) = s ! i \<and> s ! i \<noteq> NUL" if "i < length s" for i
    using Cons.prems(1) [rule_format, of "Suc i"] that by (simp add: algebra_simps)
  moreover have "mem (p + 1 + of_nat (length s)) = NUL"
    using Cons.prems(2) by (simp add: algebra_simps)
  ultimately have "read_cstring mem (p + 1) = Some s" using Cons.IH [of "p + 1"] by simp
  moreover have "mem p = c" "c \<noteq> NUL" using Cons.prems(1) [rule_format, of 0] by simp_all
  ultimately show ?case by (subst read_cstring.simps) simp
qed

text \<open>C20. The system call contract.  Through vector 128 of the booted kernel, a call
with number 0 prints the terminated string its argument points to and returns
0, 1 returns the tick count, 2 the current pid, which is 1, 3 the number of
processes, which is 2, 4 returns 0, and any other number returns all ones; apart
from the printed text no call changes the kernel's state or another register.\<close>

theorem syscall_contract:
  assumes "boot_interrupts bus stubs k0 = Some k1" and "interrupts_run bus fs k1 = Some k"
    and "f_vector f = 128"
    and "f_rax f = 0 \<Longrightarrow> (\<forall>i < length str. k_memory k (f_rdi f + of_nat i) = str ! i \<and> str ! i \<noteq> NUL) \<and>
           k_memory k (f_rdi f + of_nat (length str)) = NUL"
  shows "idt_dispatch bus f k =
    (if f_rax f = 0 then Returned (f\<lparr>f_rax := 0\<rparr>) (k\<lparr>k_console := k_console k @ str\<rparr>)
     else Returned (f\<lparr>f_rax :=
       (if f_rax f = 1 then of_nat (timer_frames fs) else if f_rax f = 2 then 1
        else if f_rax f = 3 then 2 else if f_rax f = 4 then 0 else - 1)\<rparr>) k)"
proof -
  note r = interrupts_run_time [OF boot_table [OF assms(1)] boot_procs [OF assms(1)] assms(2)]
  have h1: "k_handlers k1 ! 128 = Some SYSCALL_HANDLER" using boot_handlers(5) [OF assms(1)] .
  have keep: "k_handlers k' = k_handlers k" if "idt_dispatch bus g k = Returned g' k'" for g g' k k'
    using that
    by (auto simp: idt_dispatch_def run_handler_def timer_interrupt_handler_def
        keyboard_interrupt_handler_def mouse_interrupt_handler_def syscall_dispatch_def
        split: option.splits handler.splits if_splits prod.splits)
  have "interrupts_run bus fs k1 = Some k \<Longrightarrow> k_handlers k = k_handlers k1" for k1
  proof (induction fs arbitrary: k1)
    case (Cons g fs)
    then obtain g' k2 where "idt_dispatch bus g k1 = Returned g' k2" "interrupts_run bus fs k2 = Some k"
      by (auto split: dispatch.splits)
    with Cons.IH keep show ?case by metis
  qed simp
  with assms(2) h1 have h: "k_handlers k ! 128 = Some SYSCALL_HANDLER" by simp
  have p: "current_pid (k_procs k) = 1" "process_count (k_procs k) = 2"
    using r boot_state(2) [OF assms(1)] process_init_current [of 0] process_init_count [of 0]
    by (metis fst_conv)+
  have t: "ticks (k_timer k) = of_nat (timer_frames fs)" using r boot_state(1) [OF assms(1)] by simp
  have "\<forall>i < length str. str ! i \<noteq> NUL" if "f_rax f = 0" using assms(4) [OF that] by blast
  then have "NUL \<notin> set str" if "f_rax f = 0" using that by (auto simp: in_set_conv_nth)
  then have "kputs str = str" if "f_rax f = 0" using that by (simp add: kputs_def cstr_id)
  then show ?thesis
    using assms(3) h p t read_cstring_eq [of str "k_memory k" "f_rdi f"] assms(4)
    by (simp add: idt_dispatch_def run_handler_def syscall_dispatch_def timer_get_ticks_def
        process_current_pid_def process_get_count_def)
qed

lemma syscall_contract_witness:
  "\<exists>k1 k'. boot_interrupts board_bus (\<lambda>v. 0) board_kernel = Some k1 \<and>
     idt_dispatch board_bus \<lparr>f_rax = 0, f_rdi = 0x1000, f_vector = 128, f_error_code = 0\<rparr> k1 =
       Returned \<lparr>f_rax = 0, f_rdi = 0x1000, f_vector = 128, f_error_code = 0\<rparr> k' \<and>
     k_console k' = ''ok''"
proof -
  let ?f = "\<lparr>f_rax = 0, f_rdi = 0x1000, f_vector = 128, f_error_code = 0\<rparr>"
  obtain k1 where b: "boot_interrupts board_bus (\<lambda>v. 0) board_kernel = Some k1"
    using board_boots by blast
  have m: "k_memory k1 = k_memory board_kernel" "k_console k1 = []"
    using b by (auto simp: boot_interrupts_def Let_def syscall_init_def idt_register_handler_def
        idt_init_def board_kernel_def split: option.splits prod.splits)
  have "(\<forall>i < length ''ok''. k_memory k1 (f_rdi ?f + of_nat i) = ''ok'' ! i \<and> ''ok'' ! i \<noteq> NUL) \<and>
      k_memory k1 (f_rdi ?f + of_nat (length ''ok'')) = NUL"
    by (auto simp: m(1) board_kernel_def less_Suc_eq numeral_2_eq_2)
  then have "idt_dispatch board_bus ?f k1 = Returned (?f\<lparr>f_rax := 0\<rparr>) (k1\<lparr>k_console := k_console k1 @ ''ok''\<rparr>)"
    using syscall_contract [OF b, of "[]" k1 ?f "''ok''"] by simp
  with b m(2) show ?thesis by auto
qed

end
