(* ===== verification/Vmm.thy ===== *)
theory Vmm
  imports WordLib
begin

text \<open>
  The page tables of \<open>memory/vmm.c\<close>.  The five static tables are lists of 512
  entries; their physical addresses, chosen by the linker, are a parameter with
  the documented alignment.  The specification is the processor's table walk,
  which reads the tables through the addresses stored in the entries.
\<close>

definition PAGE_ENTRIES :: nat where "PAGE_ENTRIES = 512"
definition PAGE_PRESENT :: u64 where "PAGE_PRESENT = 1"
definition PAGE_WRITABLE :: u64 where "PAGE_WRITABLE = 2"
definition PAGE_USER :: u64 where "PAGE_USER = 4"
definition PAGE_HUGE_2M :: u64 where "PAGE_HUGE_2M = 0x80"
definition VMM_PAGE_SIZE_2M :: u64 where "VMM_PAGE_SIZE_2M = 0x200000"
definition VMM_IDENTITY_MAP_SIZE :: u64 where "VMM_IDENTITY_MAP_SIZE = 1024 * 1024 * 1024"

lemmas vmm_consts = PAGE_ENTRIES_def PAGE_PRESENT_def PAGE_WRITABLE_def PAGE_USER_def
  PAGE_HUGE_2M_def VMM_PAGE_SIZE_2M_def VMM_IDENTITY_MAP_SIZE_def

record layout =
  a_kernel_pml4 :: u64
  a_kernel_pdpt :: u64
  a_kernel_pd :: u64
  a_user_pdpt :: u64
  a_user_pd :: u64

record vmm =
  kernel_pml4 :: "u64 list"
  kernel_pdpt :: "u64 list"
  kernel_pd :: "u64 list"
  user_pdpt :: "u64 list"
  user_pd :: "u64 list"
  mapped_pages :: nat
  cr3 :: u64

record vmm_stats =
  pml4_address :: u64
  mapped_start :: u64
  mapped_end :: u64
  mapped_2m_pages :: nat

definition empty_table :: "u64 list" where
  "empty_table = replicate PAGE_ENTRIES 0"

definition vmm_init :: "layout \<Rightarrow> vmm" where
  "vmm_init l =
     (let pml4 = empty_table[0 := a_kernel_pdpt l OR PAGE_PRESENT OR PAGE_WRITABLE];
          pdpt = empty_table[0 := a_kernel_pd l OR PAGE_PRESENT OR PAGE_WRITABLE];
          pml4' = pml4[1 := a_user_pdpt l OR PAGE_PRESENT OR PAGE_WRITABLE OR PAGE_USER];
          pages = unat (VMM_IDENTITY_MAP_SIZE div VMM_PAGE_SIZE_2M);
          pd = fold (\<lambda>i t. t[i := (of_nat i * VMM_PAGE_SIZE_2M) OR PAGE_PRESENT OR
                                  PAGE_WRITABLE OR PAGE_HUGE_2M]) [0..<pages] empty_table
      in \<lparr>kernel_pml4 = pml4', kernel_pdpt = pdpt, kernel_pd = pd, user_pdpt = empty_table,
          user_pd = empty_table, mapped_pages = pages, cr3 = a_kernel_pml4 l\<rparr>)"

definition vmm_map_user_2m :: "layout \<Rightarrow> u64 \<Rightarrow> u64 \<Rightarrow> vmm \<Rightarrow> int \<times> vmm" where
  "vmm_map_user_2m l va pa m =
     (if va mod VMM_PAGE_SIZE_2M \<noteq> 0 \<or> pa mod VMM_PAGE_SIZE_2M \<noteq> 0 then (-1, m)
      else if va < VMM_IDENTITY_MAP_SIZE then (-1, m)
      else
        let pml4_index = drop_bit 39 va AND 0x1FF;
            pdpt_index = drop_bit 30 va AND 0x1FF;
            pd_index = drop_bit 21 va AND 0x1FF
        in if pml4_index \<noteq> 1 then (-1, m)
           else if pdpt_index \<noteq> 0 then (-1, m)
           else
             let m1 = (if kernel_pml4 m ! unat pml4_index AND PAGE_PRESENT = 0
                       then m\<lparr>kernel_pml4 := (kernel_pml4 m)[unat pml4_index :=
                              a_user_pdpt l OR PAGE_PRESENT OR PAGE_WRITABLE OR PAGE_USER]\<rparr> else m);
                 m2 = (if user_pdpt m1 ! unat pdpt_index AND PAGE_PRESENT = 0
                       then m1\<lparr>user_pdpt := (user_pdpt m1)[unat pdpt_index :=
                              a_user_pd l OR PAGE_PRESENT OR PAGE_WRITABLE OR PAGE_USER]\<rparr> else m1)
             in (0, m2\<lparr>user_pd := (user_pd m2)[unat pd_index :=
                      pa OR PAGE_PRESENT OR PAGE_WRITABLE OR PAGE_USER OR PAGE_HUGE_2M]\<rparr>))"

definition vmm_translate_identity :: "u64 \<Rightarrow> vmm \<Rightarrow> u64" where
  "vmm_translate_identity va m =
     (if va \<ge> VMM_IDENTITY_MAP_SIZE then 0
      else
        let entry = kernel_pd m ! unat (drop_bit 21 va AND 0x1FF) in
        if entry AND PAGE_PRESENT = 0 \<or> entry AND PAGE_HUGE_2M = 0 then 0
        else (entry AND 0x000FFFFFFFFFF000) + (va AND (VMM_PAGE_SIZE_2M - 1)))"

definition vmm_get_stats :: "vmm \<Rightarrow> vmm_stats" where
  "vmm_get_stats m = \<lparr>pml4_address = cr3 m, mapped_start = 0, mapped_end = VMM_IDENTITY_MAP_SIZE,
     mapped_2m_pages = mapped_pages m\<rparr>"

definition vmm_self_test :: "layout \<Rightarrow> vmm \<Rightarrow> bool" where
  "vmm_self_test l m =
     (let stats = vmm_get_stats m in
      if pml4_address stats \<noteq> a_kernel_pml4 l then False
      else if vmm_translate_identity 0x100000 m \<noteq> 0x100000 then False
      else if vmm_translate_identity 0xB8000 m \<noteq> 0xB8000 then False
      else if vmm_translate_identity VMM_IDENTITY_MAP_SIZE m \<noteq> 0 then False
      else True)"

section \<open>The processor's walk\<close>

definition frame_mask :: u64 where "frame_mask = 0x000FFFFFFFFFF000"

definition table_at :: "layout \<Rightarrow> vmm \<Rightarrow> u64 \<Rightarrow> u64 list option" where
  "table_at l m a =
     (if a = a_kernel_pml4 l then Some (kernel_pml4 m)
      else if a = a_kernel_pdpt l then Some (kernel_pdpt m)
      else if a = a_kernel_pd l then Some (kernel_pd m)
      else if a = a_user_pdpt l then Some (user_pdpt m)
      else if a = a_user_pd l then Some (user_pd m) else None)"

definition entry_of :: "layout \<Rightarrow> vmm \<Rightarrow> u64 \<Rightarrow> u64 \<Rightarrow> u64 option" where
  "entry_of l m table index =
     (case table_at l m table of None \<Rightarrow> None
      | Some t \<Rightarrow> (let e = t ! unat index in if bit e 0 then Some e else None))"

text \<open>The result is the physical address and whether ring 3 may access the page.\<close>

definition walk :: "layout \<Rightarrow> vmm \<Rightarrow> u64 \<Rightarrow> (u64 \<times> bool) option" where
  "walk l m va =
     Option.bind (entry_of l m (cr3 m) (drop_bit 39 va AND 0x1FF)) (\<lambda>e4.
     Option.bind (entry_of l m (e4 AND frame_mask) (drop_bit 30 va AND 0x1FF)) (\<lambda>e3.
     Option.bind (entry_of l m (e3 AND frame_mask) (drop_bit 21 va AND 0x1FF)) (\<lambda>e2.
     if bit e2 7 then Some ((e2 AND frame_mask) + (va AND 0x1FFFFF), bit e4 2 \<and> bit e3 2 \<and> bit e2 2)
     else None)))"

definition layout_ok :: "layout \<Rightarrow> bool" where
  "layout_ok l \<longleftrightarrow>
     (\<forall>a \<in> {a_kernel_pml4 l, a_kernel_pdpt l, a_kernel_pd l, a_user_pdpt l, a_user_pd l}.
        a AND frame_mask = a) \<and>
     distinct [a_kernel_pml4 l, a_kernel_pdpt l, a_kernel_pd l, a_user_pdpt l, a_user_pd l]"

section \<open>Entries\<close>

lemma entry_parts:
  assumes "a AND frame_mask = a"
  shows "(a OR 3) AND frame_mask = a" "(a OR 7) AND frame_mask = a" "(a OR 0x83) AND frame_mask = a"
    "(a OR 0x87) AND frame_mask = a"
    and "bit (a OR 3) 0" "bit (a OR 7) 0" "bit (a OR 0x83) 0" "bit (a OR 0x87) 0"
    and "\<not> bit (a OR 3) 2" "bit (a OR 7) 2" "\<not> bit (a OR 0x83) 2" "bit (a OR 0x87) 2"
    and "bit (a OR 0x83) 7" "bit (a OR 0x87) 7"
proof -
  have f: "3 AND frame_mask = 0" "7 AND frame_mask = 0" "0x83 AND frame_mask = 0"
      "0x87 AND frame_mask = 0" "\<not> bit frame_mask 2"
    by code_simp+
  have d: "(a OR b) AND frame_mask = (a AND frame_mask) OR (b AND frame_mask)" for b
    by (rule bit_word_eqI) (auto simp: bit_simps)
  show "(a OR 3) AND frame_mask = a" "(a OR 7) AND frame_mask = a" "(a OR 0x83) AND frame_mask = a"
    "(a OR 0x87) AND frame_mask = a"
    unfolding d f assms by simp_all
  have b: "bit (3::u64) 0" "bit (7::u64) 0" "bit (0x83::u64) 0" "bit (0x87::u64) 0"
      "\<not> bit (3::u64) 2" "bit (7::u64) 2" "\<not> bit (0x83::u64) 2" "bit (0x87::u64) 2"
      "bit (0x83::u64) 7" "bit (0x87::u64) 7"
    by code_simp+
  have "\<not> bit a 2" using assms f(5) by (metis bit_and_iff)
  then show "bit (a OR 3) 0" "bit (a OR 7) 0" "bit (a OR 0x83) 0" "bit (a OR 0x87) 0"
    "\<not> bit (a OR 3) 2" "bit (a OR 7) 2" "\<not> bit (a OR 0x83) 2" "bit (a OR 0x87) 2"
    "bit (a OR 0x83) 7" "bit (a OR 0x87) 7"
    using b by (simp_all only: bit_or_iff simp_thms)
qed

lemma flag_sums: "PAGE_PRESENT OR PAGE_WRITABLE = 3" "PAGE_PRESENT OR PAGE_WRITABLE OR PAGE_USER = 7"
  "PAGE_PRESENT OR PAGE_WRITABLE OR PAGE_HUGE_2M = 0x83"
  "PAGE_PRESENT OR PAGE_WRITABLE OR PAGE_USER OR PAGE_HUGE_2M = 0x87"
  by code_simp+

lemma fold_table:
  "n \<le> length t \<Longrightarrow> fold (\<lambda>i t. t[i := f i]) [0..<n] t = map f [0..<n] @ drop n t"
proof (induction n)
  case (Suc n)
  then have "drop n t = t ! n # drop (Suc n) t" by (simp add: Cons_nth_drop_Suc)
  with Suc show ?case by (simp add: list_update_append)
qed simp

lemma vmm_init_tables:
  "kernel_pml4 (vmm_init l) = empty_table[0 := a_kernel_pdpt l OR 3, 1 := a_user_pdpt l OR 7]"
  "kernel_pdpt (vmm_init l) = empty_table[0 := a_kernel_pd l OR 3]"
  "kernel_pd (vmm_init l) = map (\<lambda>i. (of_nat i * 0x200000) OR 0x83) [0..<512]"
  "user_pdpt (vmm_init l) = empty_table" "user_pd (vmm_init l) = empty_table"
  "mapped_pages (vmm_init l) = 512" "cr3 (vmm_init l) = a_kernel_pml4 l"
proof -
  have p: "unat (VMM_IDENTITY_MAP_SIZE div VMM_PAGE_SIZE_2M) = 512" by code_simp
  show "kernel_pd (vmm_init l) = map (\<lambda>i. (of_nat i * 0x200000) OR 0x83) [0..<512]"
    using fold_table [of 512 empty_table "\<lambda>i. (of_nat i * VMM_PAGE_SIZE_2M) OR 0x83"]
    by (simp add: vmm_init_def Let_def p flag_sums)
      (simp add: empty_table_def PAGE_ENTRIES_def VMM_PAGE_SIZE_2M_def)
  show "mapped_pages (vmm_init l) = 512" by (simp add: vmm_init_def Let_def p)
qed (simp_all add: vmm_init_def Let_def flag_sums)

text \<open>Addresses and their page number and offset.\<close>

lemma index9: "unat ((x :: u64) AND 0x1FF) = unat x mod 512"
proof -
  have "(0x1FF :: u64) = mask 9" by (simp add: mask_eq_exp_minus_1)
  then have t: "x AND 0x1FF = take_bit 9 x" by (simp only: take_bit_eq_mask)
  show ?thesis unfolding t by (subst unsigned_take_bit_eq, simp only: take_bit_eq_mod) simp
qed

lemma offset21: "unat ((x :: u64) AND 0x1FFFFF) = unat x mod 0x200000"
proof -
  have "(0x1FFFFF :: u64) = mask 21" by (simp add: mask_eq_exp_minus_1)
  then have t: "x AND 0x1FFFFF = take_bit 21 x" by (simp only: take_bit_eq_mask)
  show ?thesis unfolding t by (subst unsigned_take_bit_eq, simp only: take_bit_eq_mod) simp
qed

lemma unat_drop: "unat (drop_bit n (x :: u64)) = unat x div 2 ^ n"
  by (subst unat_drop_bit_eq, rule drop_bit_eq_div)

lemma bit_frame_mask: "bit frame_mask n \<longleftrightarrow> 12 \<le> n \<and> n < 52"
proof -
  have fm0: "frame_mask = mask 52 AND NOT (mask 12)" by code_simp
  show ?thesis unfolding fm0 bit_and_iff bit_not_iff bit_mask_iff possible_bit_word by auto
qed

lemma page_base_aligned:
  "i < 512 \<Longrightarrow> (of_nat i * 0x200000 :: u64) AND frame_mask = of_nat i * 0x200000"
proof -
  assume i: "i < 512"
  have p: "(of_nat i * 0x200000 :: u64) = push_bit 21 (of_nat i)"
    by (simp add: push_bit_eq_mult)
  have small: "\<not> bit (of_nat i :: u64) n" if "9 \<le> n" for n
  proof -
    have "i < 2 ^ n" using i power_increasing [of 9 n "2 :: nat"] that by simp
    then have "\<not> bit i n" by (simp add: bit_iff_odd)
    then show ?thesis by (auto simp: bit_simps)
  qed
  have "bit frame_mask n" if "bit (push_bit 21 (of_nat i :: u64)) n" for n
  proof -
    have n: "21 \<le> n" "bit (of_nat i :: u64) (n - 21)" using that by (auto simp: bit_push_bit_iff)
    then have "n - 21 < 9" using small [of "n - 21"] not_less by blast
    with n(1) show ?thesis by (simp add: bit_frame_mask)
  qed
  then show ?thesis unfolding p by (intro bit_word_eqI) (auto simp: bit_and_iff)
qed

lemma frame_aligned:
  fixes pa :: u64
  assumes "pa mod 0x200000 = 0" and "pa < 0x10000000000000"
  shows "pa AND frame_mask = pa"
proof -
  have t: "take_bit 21 pa = 0" using assms(1) by (simp add: take_bit_eq_mod)
  have lo: "\<not> bit pa n" if "n < 21" for n
  proof -
    have "bit (take_bit 21 pa) n = bit pa n" using that by (simp add: bit_take_bit_iff)
    then show ?thesis by (simp only: t bit_0_eq bot_apply bot_bool_def simp_thms)
  qed
  have "unat pa < 2 ^ 52" using assms(2) by (simp add: word_less_nat_alt)
  then have "unat (take_bit 52 pa) = unat pa"
    by (subst unsigned_take_bit_eq) (rule take_bit_nat_eq_self)
  then have h: "take_bit 52 pa = pa" by (rule word_eq_unatI)
  have hi: "n < 52" if "bit pa n" for n
    using that by (subst (asm) h [symmetric]) (simp add: bit_take_bit_iff)
  have "bit frame_mask n" if "bit pa n" for n
    using lo [of n] hi [of n] that unfolding bit_frame_mask by linarith
  then show ?thesis by (intro bit_word_eqI) (auto simp: bit_and_iff)
qed

section \<open>Reachable page tables\<close>

definition vmm_inv :: "layout \<Rightarrow> vmm \<Rightarrow> bool" where
  "vmm_inv l m \<longleftrightarrow>
     kernel_pml4 m = kernel_pml4 (vmm_init l) \<and> kernel_pdpt m = kernel_pdpt (vmm_init l) \<and>
     kernel_pd m = kernel_pd (vmm_init l) \<and> cr3 m = a_kernel_pml4 l \<and> length (user_pd m) = 512 \<and>
     (user_pdpt m = empty_table \<and> user_pd m = empty_table \<or>
      user_pdpt m = empty_table[0 := a_user_pd l OR 7])"

lemma vmm_init_inv: "vmm_inv l (vmm_init l)"
  by (simp add: vmm_inv_def vmm_init_tables) (simp add: empty_table_def PAGE_ENTRIES_def)

lemma empty_table_facts: "length empty_table = 512" "i < 512 \<Longrightarrow> empty_table ! i = 0"
  by (simp_all add: empty_table_def PAGE_ENTRIES_def)

lemma bit0_present: "(e :: u64) AND 1 = 0 \<longleftrightarrow> \<not> bit e 0"
  using and_exp_eq_0_iff_not_bit [of e 0] by simp

lemma map_user_cases:
  assumes ok: "layout_ok l" and inv: "vmm_inv l m"
  shows "vmm_map_user_2m l va pa m =
    (if va mod 0x200000 = 0 \<and> pa mod 0x200000 = 0 \<and> VMM_IDENTITY_MAP_SIZE \<le> va \<and>
        drop_bit 39 va AND 0x1FF = 1 \<and> drop_bit 30 va AND 0x1FF = 0
     then (0, m\<lparr>user_pdpt := empty_table[0 := a_user_pd l OR 7],
                user_pd := (user_pd m)[unat (drop_bit 21 va AND 0x1FF) := pa OR 0x87]\<rparr>)
     else (-1, m))"
proof -
  have "bit (a_user_pdpt l OR 7) 0" "bit (a_user_pd l OR 7) 0"
    using ok entry_parts(6) by (auto simp: layout_ok_def)
  moreover have "kernel_pml4 m ! 1 = a_user_pdpt l OR 7"
    using inv by (simp add: vmm_inv_def vmm_init_tables empty_table_facts)
  moreover have "user_pdpt m ! 0 = 0 \<or> user_pdpt m ! 0 = a_user_pd l OR 7 \<and>
      user_pdpt m = empty_table[0 := a_user_pd l OR 7]"
    using inv by (auto simp: vmm_inv_def empty_table_facts)
  moreover have "user_pdpt m ! 0 = 0 \<Longrightarrow> (user_pdpt m)[0 := x] = empty_table[0 := x]" for x
    using inv by (auto simp: vmm_inv_def)
  ultimately show ?thesis
    unfolding vmm_map_user_2m_def Let_def VMM_PAGE_SIZE_2M_def flag_sums
    unfolding PAGE_PRESENT_def bit0_present
    by (auto simp: not_less)
qed

lemma map_user_inv:
  "layout_ok l \<Longrightarrow> vmm_inv l m \<Longrightarrow> vmm_inv l (snd (vmm_map_user_2m l va pa m))"
  by (simp add: map_user_cases) (simp add: vmm_inv_def)

definition vmm_run :: "layout \<Rightarrow> (u64 \<times> u64) list \<Rightarrow> vmm" where
  "vmm_run l ps = fold (\<lambda>(va, pa) m. snd (vmm_map_user_2m l va pa m)) ps (vmm_init l)"

lemma vmm_run_inv: "layout_ok l \<Longrightarrow> vmm_inv l (vmm_run l ps)"
proof (induction ps rule: rev_induct)
  case (snoc p ps)
  then show ?case by (cases p) (simp add: vmm_run_def map_user_inv)
qed (simp add: vmm_run_def vmm_init_inv)

text \<open>The three indices of an address.\<close>

definition page_of :: "u64 \<Rightarrow> nat \<times> nat \<times> nat" where
  "page_of va = (unat (drop_bit 39 va AND 0x1FF), unat (drop_bit 30 va AND 0x1FF),
     unat (drop_bit 21 va AND 0x1FF))"

lemma table_at_simps:
  assumes "layout_ok l"
  shows "table_at l m (a_kernel_pml4 l) = Some (kernel_pml4 m)"
    "table_at l m (a_kernel_pdpt l) = Some (kernel_pdpt m)"
    "table_at l m (a_kernel_pd l) = Some (kernel_pd m)"
    "table_at l m (a_user_pdpt l) = Some (user_pdpt m)"
    "table_at l m (a_user_pd l) = Some (user_pd m)"
  using assms by (auto simp: table_at_def layout_ok_def)

text \<open>The walk of a reachable table, by cases on the top two indices.\<close>

definition walk_spec :: "layout \<Rightarrow> vmm \<Rightarrow> u64 \<Rightarrow> (u64 \<times> bool) option" where
  "walk_spec l m va = (case page_of va of (i4, i3, i2) \<Rightarrow>
     if i4 = 0 \<and> i3 = 0 then Some (of_nat i2 * 0x200000 + (va AND 0x1FFFFF), False)
     else if i4 = 1 \<and> i3 = 0 \<and> bit (user_pd m ! i2) 0 \<and> bit (user_pd m ! i2) 7
     then Some ((user_pd m ! i2 AND frame_mask) + (va AND 0x1FFFFF), bit (user_pd m ! i2) 2)
     else None)"

lemma walk_eq:
  assumes ok: "layout_ok l" and inv: "vmm_inv l m"
  shows "walk l m va = walk_spec l m va"
proof -
  let ?i4 = "unat (drop_bit 39 va AND 0x1FF)" and ?i3 = "unat (drop_bit 30 va AND 0x1FF)"
    and ?i2 = "unat (drop_bit 21 va AND 0x1FF)"
  have idx: "?i4 < 512" "?i3 < 512" "?i2 < 512" by (simp_all add: index9)
  have al: "a AND frame_mask = a"
    if "a \<in> {a_kernel_pml4 l, a_kernel_pdpt l, a_kernel_pd l, a_user_pdpt l, a_user_pd l}" for a
    using ok that unfolding layout_ok_def by blast
  note T = table_at_simps [OF ok]
  note K = vmm_init_tables(1-3) [of l]
  have m: "kernel_pml4 m = empty_table[0 := a_kernel_pdpt l OR 3, 1 := a_user_pdpt l OR 7]"
      "kernel_pdpt m = empty_table[0 := a_kernel_pd l OR 3]"
      "kernel_pd m = map (\<lambda>i. (of_nat i * 0x200000) OR 0x83) [0..<512]" "cr3 m = a_kernel_pml4 l"
    using inv K by (simp_all add: vmm_inv_def)
  have pml4: "kernel_pml4 m ! i = (if i = 0 then a_kernel_pdpt l OR 3 else if i = 1 then a_user_pdpt l OR 7 else 0)"
    if "i < 512" for i
    using that m(1) by (simp add: empty_table_facts nth_list_update)
  have pdpt: "kernel_pdpt m ! i = (if i = 0 then a_kernel_pd l OR 3 else 0)" if "i < 512" for i
    using that m(2) by (simp add: empty_table_facts nth_list_update)
  have pd: "kernel_pd m ! i = (of_nat i * 0x200000) OR 0x83" if "i < 512" for i
    using that m(3) by simp
  have up: "user_pdpt m ! i = (if i = 0 \<and> user_pdpt m \<noteq> empty_table then a_user_pd l OR 7 else 0)"
    if "i < 512" for i
    using that inv by (auto simp: vmm_inv_def empty_table_facts nth_list_update)
  have empty: "user_pdpt m = empty_table \<Longrightarrow> user_pd m ! i = 0" if "i < 512" for i
  proof -
    assume e: "user_pdpt m = empty_table"
    have "bit (a_user_pd l OR 7) 0" using entry_parts(6) al by simp
    then have "a_user_pd l OR 7 \<noteq> 0" by (metis bit_0_eq bot_apply bot_bool_def)
    then have "empty_table[0 := a_user_pd l OR 7] \<noteq> empty_table"
      using empty_table_facts(1) empty_table_facts(2) [of 0]
      by (metis length_greater_0_conv list.size(3) nth_list_update_eq zero_less_numeral)
    then show ?thesis using inv e that by (auto simp: vmm_inv_def empty_table_facts)
  qed
  have e4: "entry_of l m (cr3 m) (drop_bit 39 va AND 0x1FF) =
      (if ?i4 = 0 then Some (a_kernel_pdpt l OR 3) else if ?i4 = 1 then Some (a_user_pdpt l OR 7) else None)"
    using pml4 [OF idx(1)] entry_parts(5,6) al by (auto simp: entry_of_def m(4) T Let_def)
  have ek: "(a_kernel_pdpt l OR 3) AND frame_mask = a_kernel_pdpt l"
      "(a_user_pdpt l OR 7) AND frame_mask = a_user_pdpt l"
      "(a_kernel_pd l OR 3) AND frame_mask = a_kernel_pd l"
      "(a_user_pd l OR 7) AND frame_mask = a_user_pd l"
    using entry_parts(1,2) al by simp_all
  have e3k: "entry_of l m (a_kernel_pdpt l) (drop_bit 30 va AND 0x1FF) =
      (if ?i3 = 0 then Some (a_kernel_pd l OR 3) else None)"
    using pdpt [OF idx(2)] entry_parts(5) al by (auto simp: entry_of_def T Let_def)
  have e3u: "entry_of l m (a_user_pdpt l) (drop_bit 30 va AND 0x1FF) =
      (if ?i3 = 0 \<and> user_pdpt m \<noteq> empty_table then Some (a_user_pd l OR 7) else None)"
    using up [OF idx(2)] entry_parts(6) al by (auto simp: entry_of_def T Let_def)
  have e2k: "entry_of l m (a_kernel_pd l) (drop_bit 21 va AND 0x1FF) =
      Some ((of_nat ?i2 * 0x200000) OR 0x83)"
    using pd [OF idx(3)] entry_parts(7) page_base_aligned [OF idx(3)]
    by (simp add: entry_of_def T Let_def)
  have e2u: "entry_of l m (a_user_pd l) (drop_bit 21 va AND 0x1FF) =
      (if bit (user_pd m ! ?i2) 0 then Some (user_pd m ! ?i2) else None)"
    by (simp add: entry_of_def T Let_def)
  note kb = entry_parts [OF page_base_aligned [OF idx(3)]]
  have u2: "\<not> bit (a_kernel_pdpt l OR 3) 2" "bit (a_user_pdpt l OR 7) 2" "bit (a_user_pd l OR 7) 2"
    using entry_parts(9,10) al by simp_all
  show ?thesis
  proof (cases "?i4 = 0")
    case True
    then show ?thesis
      unfolding walk_def walk_spec_def page_of_def e4
      using kb u2 by (simp add: ek e3k e2k)
  next
    case False
    then show ?thesis
      unfolding walk_def walk_spec_def page_of_def e4
      using u2 empty [OF idx(3)] by (simp add: ek e3u e2u)
  qed
qed

lemma page_split: "va < 0x40000000 \<Longrightarrow>
   page_of va = (0, 0, unat va div 0x200000) \<and>
   of_nat (unat va div 0x200000) * 0x200000 + (va AND 0x1FFFFF) = (va :: u64)"
proof
  assume va: "va < 0x40000000"
  then have u: "unat va < 0x40000000" by (simp add: word_less_nat_alt)
  then have "unat va div 2 ^ 39 = 0" "unat va div 2 ^ 30 = 0" "unat va div 2 ^ 21 < 512" by simp_all
  then show "page_of va = (0, 0, unat va div 0x200000)" by (simp add: page_of_def index9 unat_drop)
  let ?b = "of_nat (unat va div 0x200000) * 0x200000 :: u64"
  have b: "unat ?b = unat va div 0x200000 * 0x200000"
    using u by (simp add: unat_word_ariths unat_of_nat)
  have "unat ?b + unat (va AND 0x1FFFFF) = unat va" by (simp add: b offset21)
  then show "?b + (va AND 0x1FFFFF) = va"
    using unat_add_nowrap [of ?b "va AND 0x1FFFFF"] unsigned_less [of va]
    by (intro word_eq_unatI) simp
qed

lemma translate_identity:
  assumes inv: "vmm_inv l m" and va: "va < VMM_IDENTITY_MAP_SIZE"
  shows "vmm_translate_identity va m = va"
proof -
  have va': "va < 0x40000000" using va by (simp add: VMM_IDENTITY_MAP_SIZE_def)
  let ?i = "unat va div 0x200000"
  have i: "unat (drop_bit 21 va AND 0x1FF) = ?i" "?i < 512"
    using page_split [OF va'] va' by (auto simp: page_of_def word_less_nat_alt)
  have e: "kernel_pd m ! ?i = (of_nat ?i * 0x200000) OR 0x83"
    using inv i(2) by (simp add: vmm_inv_def vmm_init_tables)
  note kb = entry_parts [OF page_base_aligned [OF i(2)]]
  have p: "(kernel_pd m ! ?i) AND PAGE_PRESENT \<noteq> 0" "(kernel_pd m ! ?i) AND PAGE_HUGE_2M \<noteq> 0"
    using kb(7,13) and_exp_eq_0_iff_not_bit [of "kernel_pd m ! ?i" 0]
      and_exp_eq_0_iff_not_bit [of "kernel_pd m ! ?i" 7]
    by (simp_all add: e PAGE_PRESENT_def PAGE_HUGE_2M_def)
  have "(kernel_pd m ! ?i) AND 0x000FFFFFFFFFF000 = of_nat ?i * 0x200000"
    using kb(3) unfolding e frame_mask_def .
  then have "vmm_translate_identity va m = of_nat ?i * 0x200000 + (va AND 0x1FFFFF)"
    using p va i(1) by (auto simp: vmm_translate_identity_def Let_def VMM_PAGE_SIZE_2M_def)
  then show ?thesis using page_split [OF va'] by simp
qed

lemma map_user_walk:
  assumes "layout_ok l" and inv: "vmm_inv l m" and "vmm_map_user_2m l va pa m = (r, m')"
    and "pa < 0x10000000000000"
  shows "(r = 0 \<longleftrightarrow> va mod 0x200000 = 0 \<and> pa mod 0x200000 = 0 \<and> VMM_IDENTITY_MAP_SIZE \<le> va \<and>
            fst (page_of va) = 1 \<and> fst (snd (page_of va)) = 0) \<and>
         (r \<noteq> 0 \<longrightarrow> r = -1 \<and> m' = m) \<and>
         (r = 0 \<longrightarrow> (\<forall>a. walk l m' a =
            (if page_of a = page_of va then Some (pa + (a AND 0x1FFFFF), True) else walk l m a)))"
proof -
  have inv': "vmm_inv l m'" using map_user_inv [OF assms(1) inv, of va pa] assms(3) by simp
  note c = map_user_cases [OF assms(1) inv, of va pa, unfolded assms(3)]
  have u: "unat (x AND 0x1FF) = n \<longleftrightarrow> x AND 0x1FF = (of_nat n :: u64)" if "n < 512" for x n
  proof
    assume "x AND 0x1FF = of_nat n"
    moreover have "unat (of_nat n :: u64) = n" using that by (simp add: unat_of_nat)
    ultimately show "unat (x AND 0x1FF) = n" by simp
  qed auto
  have p: "fst (page_of va) = 1 \<longleftrightarrow> drop_bit 39 va AND 0x1FF = 1"
      "fst (snd (page_of va)) = 0 \<longleftrightarrow> drop_bit 30 va AND 0x1FF = 0"
    using u [of 1] u [of 0] by (simp_all add: page_of_def)
  have "walk l m' a = (if page_of a = page_of va then Some (pa + (a AND 0x1FFFFF), True) else walk l m a)"
    if "r = 0" for a
  proof -
    have g: "pa mod 0x200000 = 0" "fst (page_of va) = 1" "fst (snd (page_of va)) = 0"
      and m': "user_pd m' = (user_pd m)[snd (snd (page_of va)) := pa OR 0x87]"
      using c that p by (auto simp: page_of_def split: if_splits)
    have pa: "pa AND frame_mask = pa" using g(1) assms(4) by (rule frame_aligned)
    note kb = entry_parts [OF pa]
    obtain i4 i3 i2 where a: "page_of a = (i4, i3, i2)" by (metis prod_cases3)
    have "i2 < 512" using a by (auto simp: page_of_def index9)
    then have "i2 < length (user_pd m)" using inv by (simp add: vmm_inv_def)
    obtain v2 where v: "page_of va = (1, 0, v2)" using g(2,3) by (metis prod.collapse)
    show ?thesis
      unfolding walk_eq [OF assms(1) inv] walk_eq [OF assms(1) inv']
      using kb(4,8,12,14) \<open>i2 < length (user_pd m)\<close>
      by (cases "i2 = v2") (auto simp: walk_spec_def a v m')
  qed
  then show ?thesis using c p by (auto split: if_splits)
qed

lemma self_test_passes:
  assumes "vmm_inv l m"
  shows "vmm_self_test l m"
proof -
  have "vmm_translate_identity VMM_IDENTITY_MAP_SIZE m = 0" by (simp add: vmm_translate_identity_def)
  then show ?thesis
    using assms translate_identity [OF assms, of "0x100000"] translate_identity [OF assms, of "0xB8000"]
    by (simp add: vmm_self_test_def vmm_get_stats_def Let_def vmm_inv_def)
      (simp add: VMM_IDENTITY_MAP_SIZE_def)
qed

section \<open>Properties\<close>

text \<open>C11. The kernel half of the address space.  With the page tables at aligned,
distinct addresses, after \<open>vmm_init\<close> and any sequence of user mappings, the
processor's table walk takes every address of the first GiB to itself and denies
it to ring 3; the kernel's own translation agrees with the walk there, it
returns 0 beyond, and the boot self-test passes.\<close>

theorem vmm_identity_map:
  assumes "layout_ok l" and "m = vmm_run l ps"
  shows "(va < VMM_IDENTITY_MAP_SIZE \<longrightarrow>
            walk l m va = Some (va, False) \<and> vmm_translate_identity va m = va) \<and>
         (VMM_IDENTITY_MAP_SIZE \<le> va \<longrightarrow> vmm_translate_identity va m = 0) \<and> vmm_self_test l m"
proof -
  have inv: "vmm_inv l m" using vmm_run_inv [OF assms(1)] assms(2) by simp
  have "walk l m va = Some (va, False)" if "va < VMM_IDENTITY_MAP_SIZE"
    using page_split [of va] that
    by (simp add: walk_eq [OF assms(1) inv] walk_spec_def VMM_IDENTITY_MAP_SIZE_def)
  moreover have beyond: "vmm_translate_identity a m = 0" if "VMM_IDENTITY_MAP_SIZE \<le> a" for a
    using that by (simp add: vmm_translate_identity_def)
  moreover have "vmm_self_test l m" using inv by (rule self_test_passes)
  ultimately show ?thesis using translate_identity [OF inv] by blast
qed

definition demo_layout :: layout where
  "demo_layout = \<lparr>a_kernel_pml4 = 0x10000, a_kernel_pdpt = 0x11000, a_kernel_pd = 0x12000,
     a_user_pdpt = 0x13000, a_user_pd = 0x14000\<rparr>"

lemma demo_layout_ok: "layout_ok demo_layout"
  by code_simp

lemma vmm_identity_map_witness:
  "walk demo_layout (vmm_run demo_layout [(0x8000000000, 0x600000)]) 0xB8123 = Some (0xB8123, False)"
  using vmm_identity_map [OF demo_layout_ok refl, of "0xB8123" "[(0x8000000000, 0x600000)]"]
  by (simp add: VMM_IDENTITY_MAP_SIZE_def)

text \<open>C12. Mapping a user page.  In every reachable state the call succeeds exactly
when both addresses are multiples of 2 MiB and the virtual one selects the
second top-level entry and its first gigabyte.  Success makes every address of
that 2 MiB page translate, for ring 3, to the physical page plus the offset, and
leaves the translation of every other address, the kernel's included, as it was;
failure changes nothing.\<close>

theorem vmm_map_user_page:
  assumes "layout_ok l" and "m = vmm_run l ps" and "vmm_map_user_2m l va pa m = (r, m')"
    and "pa < 0x10000000000000"
  shows "(r = 0 \<longleftrightarrow> va mod 0x200000 = 0 \<and> pa mod 0x200000 = 0 \<and> VMM_IDENTITY_MAP_SIZE \<le> va \<and>
            fst (page_of va) = 1 \<and> fst (snd (page_of va)) = 0) \<and>
         (r \<noteq> 0 \<longrightarrow> r = -1 \<and> m' = m) \<and>
         (r = 0 \<longrightarrow> (\<forall>a. walk l m' a =
            (if page_of a = page_of va then Some (pa + (a AND 0x1FFFFF), True) else walk l m a)))"
proof -
  have "vmm_inv l m" using vmm_run_inv [OF assms(1)] assms(2) by simp
  from map_user_walk [OF assms(1) this assms(3,4)] show ?thesis .
qed

lemma vmm_map_user_page_witness:
  "let (r, m') = vmm_map_user_2m demo_layout 0x8000200000 0x600000 (vmm_run demo_layout [])
   in r = 0 \<and> walk demo_layout m' 0x8000200ABC = Some (0x600ABC, True) \<and>
      walk demo_layout m' 0x8000000000 = None"
proof -
  obtain r m' where c: "vmm_map_user_2m demo_layout 0x8000200000 0x600000 (vmm_run demo_layout []) = (r, m')"
    by force
  have s: "(0x600000 :: u64) < 0x10000000000000" by simp
  have pages: "page_of 0x8000200000 = (1, 0, 1)" "page_of 0x8000200ABC = (1, 0, 1)"
      "page_of 0x8000000000 = (1, 0, 0)" by code_simp+
  have al: "(0x8000200000 :: u64) mod 0x200000 = 0" "(0x600000 :: u64) mod 0x200000 = 0"
      "VMM_IDENTITY_MAP_SIZE \<le> 0x8000200000" "(0x8000200ABC :: u64) AND 0x1FFFFF = 0xABC" by code_simp+
  have none: "walk demo_layout (vmm_run demo_layout []) 0x8000000000 = None"
    unfolding walk_eq [OF demo_layout_ok vmm_run_inv [OF demo_layout_ok]] walk_spec_def pages
    by (simp add: vmm_run_def vmm_init_tables empty_table_facts)
  note f = vmm_map_user_page [OF demo_layout_ok refl c s]
  have "r = 0" using f pages al by simp
  with f have w: "walk demo_layout m' a = (if page_of a = (1, 0, 1) then Some (0x600000 + (a AND 0x1FFFFF), True)
      else walk demo_layout (vmm_run demo_layout []) a)" for a
    unfolding pages by blast
  show ?thesis
    using c \<open>r = 0\<close> w [of "0x8000200ABC"] w [of "0x8000000000"] pages al none by simp
qed

end
