(* ===== verification/Gdt.thy ===== *)
theory Gdt
  imports WordLib
begin

text \<open>
  The segment descriptors of \<open>kernel/arch/x86_64/gdt.c\<close>.  A descriptor is a
  record of its bit fields; the 16-byte TSS descriptor occupies two
  consecutive entries, whose fields its second half is laid over.  The
  addresses of the static TSS, its stack and the table are parameters.
\<close>

record gdt_entry =
  limit_low :: u16
  base_low :: u16
  base_mid :: u8
  access :: u8
  granularity :: u8
  base_high :: u8

record tss =
  rsp0 :: u64
  iomap_base :: u16

record gdt_state =
  gdt_entries :: "gdt_entry list"
  gdt_tss :: tss
  gdt_pointer_limit :: u16
  gdt_pointer_base :: u64

definition GDT_SEGMENT_NULL :: nat where "GDT_SEGMENT_NULL = 0"
definition GDT_SEGMENT_KERNEL_CODE :: nat where "GDT_SEGMENT_KERNEL_CODE = 1"
definition GDT_SEGMENT_KERNEL_DATA :: nat where "GDT_SEGMENT_KERNEL_DATA = 2"
definition GDT_SEGMENT_USER_CODE :: nat where "GDT_SEGMENT_USER_CODE = 3"
definition GDT_SEGMENT_USER_DATA :: nat where "GDT_SEGMENT_USER_DATA = 4"
definition GDT_SEGMENT_TSS_LOW :: nat where "GDT_SEGMENT_TSS_LOW = 5"
definition GDT_SEGMENT_COUNT :: nat where "GDT_SEGMENT_COUNT = 7"

lemmas gdt_segment_defs = GDT_SEGMENT_NULL_def GDT_SEGMENT_KERNEL_CODE_def GDT_SEGMENT_KERNEL_DATA_def
  GDT_SEGMENT_USER_CODE_def GDT_SEGMENT_USER_DATA_def GDT_SEGMENT_TSS_LOW_def GDT_SEGMENT_COUNT_def

definition null_entry :: gdt_entry where
  "null_entry = \<lparr>limit_low = 0, base_low = 0, base_mid = 0, access = 0, granularity = 0, base_high = 0\<rparr>"

definition gdt_set_entry :: "nat \<Rightarrow> u32 \<Rightarrow> u32 \<Rightarrow> u8 \<Rightarrow> u8 \<Rightarrow> gdt_entry list \<Rightarrow> gdt_entry list" where
  "gdt_set_entry index base limit acc gran es =
     es[index := \<lparr>limit_low = ucast (limit AND 0xFFFF), base_low = ucast (base AND 0xFFFF),
       base_mid = ucast (drop_bit 16 base AND 0xFF), access = acc,
       granularity = ucast ((drop_bit 16 limit AND 0x0F) OR (ucast gran AND 0xF0)),
       base_high = ucast (drop_bit 24 base AND 0xFF)\<rparr>]"

definition gdt_set_tss_entry :: "nat \<Rightarrow> u64 \<Rightarrow> u32 \<Rightarrow> gdt_entry list \<Rightarrow> gdt_entry list" where
  "gdt_set_tss_entry index base limit es =
     (let upper = (ucast (drop_bit 32 base AND 0xFFFFFFFF) :: u32) in
      es[index := \<lparr>limit_low = ucast (limit AND 0xFFFF), base_low = ucast (base AND 0xFFFF),
           base_mid = ucast (drop_bit 16 base AND 0xFF), access = 0x89,
           granularity = ucast (drop_bit 16 limit AND 0x0F),
           base_high = ucast (drop_bit 24 base AND 0xFF)\<rparr>,
         index + 1 := \<lparr>limit_low = ucast upper, base_low = ucast (drop_bit 16 upper),
           base_mid = 0, access = 0, granularity = 0, base_high = 0\<rparr>])"

definition TSS_SIZE :: u32 where "TSS_SIZE = 104"

definition gdt_init :: "u64 \<Rightarrow> u64 \<Rightarrow> u64 \<Rightarrow> gdt_state" where
  "gdt_init tss_address tss_stack_address entries_address =
     (let e0 = gdt_set_entry GDT_SEGMENT_NULL 0 0 0 0 (replicate GDT_SEGMENT_COUNT null_entry);
          e1 = gdt_set_entry GDT_SEGMENT_KERNEL_CODE 0 0xFFFFF 0x9A 0xAF e0;
          e2 = gdt_set_entry GDT_SEGMENT_KERNEL_DATA 0 0xFFFFF 0x92 0xCF e1;
          e3 = gdt_set_entry GDT_SEGMENT_USER_CODE 0 0xFFFFF 0xFA 0xAF e2;
          e4 = gdt_set_entry GDT_SEGMENT_USER_DATA 0 0xFFFFF 0xF2 0xCF e3;
          e5 = gdt_set_tss_entry GDT_SEGMENT_TSS_LOW tss_address (TSS_SIZE - 1) e4
      in \<lparr>gdt_entries = e5, gdt_tss = \<lparr>rsp0 = tss_stack_address + 8192, iomap_base = ucast TSS_SIZE\<rparr>,
          gdt_pointer_limit = of_nat (8 * GDT_SEGMENT_COUNT - 1), gdt_pointer_base = entries_address\<rparr>)"

section \<open>Reading descriptors back\<close>

definition desc_base :: "gdt_entry \<Rightarrow> u32" where
  "desc_base e = push_bit 24 (ucast (base_high e)) OR push_bit 16 (ucast (base_mid e)) OR ucast (base_low e)"

definition desc_limit :: "gdt_entry \<Rightarrow> u32" where
  "desc_limit e = push_bit 16 (ucast (granularity e AND 0x0F)) OR ucast (limit_low e)"

definition desc_dpl :: "gdt_entry \<Rightarrow> u8" where
  "desc_dpl e = drop_bit 5 (access e) AND 3"

definition desc_long :: "gdt_entry \<Rightarrow> bool" where
  "desc_long e \<longleftrightarrow> bit (granularity e) 5"

definition desc_code :: "gdt_entry \<Rightarrow> bool" where
  "desc_code e \<longleftrightarrow> bit (access e) 7 \<and> bit (access e) 4 \<and> bit (access e) 3"

definition tss_base :: "gdt_entry \<Rightarrow> gdt_entry \<Rightarrow> u64" where
  "tss_base lo hi = push_bit 32 (push_bit 16 (ucast (base_low hi)) OR ucast (limit_low hi)) OR
     ucast (desc_base lo)"

lemma entry_masks:
  "(0xFFFF :: u32) = mask 16" "(0xFF :: u32) = mask 8" "(0x0F :: u32) = mask 4" "(0x0F :: u8) = mask 4"
  "(0xFFFF :: u64) = mask 16" "(0xFF :: u64) = mask 8" "(0xFFFFFFFF :: u64) = mask 32"
  by (simp_all add: mask_eq_exp_minus_1)

lemma tss_base_parts:
  "push_bit 32 (push_bit 16 (ucast (ucast (drop_bit 16 (ucast (drop_bit 32 b AND mask 32) :: u32)) :: u16)) OR
     ucast (ucast (ucast (drop_bit 32 b AND mask 32) :: u32) :: u16)) OR
   ucast (push_bit 24 (ucast (ucast (drop_bit 24 b AND mask 8) :: u8)) OR
     push_bit 16 (ucast (ucast (drop_bit 16 b AND mask 8) :: u8)) OR
     ucast (ucast (b AND mask 16) :: u16) :: u32) = (b :: u64)"
proof (rule bit_word_eqI, goal_cases)
  case (1 n)
  then consider "n < 16" | "16 \<le> n" "n < 24" | "24 \<le> n" "n < 32" | "32 \<le> n" "n < 48" | "48 \<le> n"
    by linarith
  then show ?case using 1 by cases (auto simp: bit_simps)
qed

lemma base_parts:
  "push_bit 24 (ucast (ucast (drop_bit 24 b AND mask 8) :: u8)) OR
   push_bit 16 (ucast (ucast (drop_bit 16 b AND mask 8) :: u8)) OR
   ucast (ucast (b AND mask 16) :: u16) = (b :: u32)"
proof (rule bit_word_eqI, goal_cases)
  case (1 n)
  then consider "n < 16" | "16 \<le> n" "n < 24" | "24 \<le> n" by linarith
  then show ?case using 1 by cases (auto simp: bit_simps)
qed

lemma set_entry_base:
  "index < length es \<Longrightarrow> desc_base (gdt_set_entry index base limit acc gran es ! index) = base"
  by (simp add: gdt_set_entry_def desc_base_def entry_masks base_parts del: ucast_and_FF)

section \<open>Properties\<close>

text \<open>The descriptor table the kernel loads.  For any addresses of the static data:
the null descriptor is zero; selectors 0x08 and 0x1B (index 1, and 3 with
privilege 3) select 64-bit code segments of privilege 0 and 3, selectors 0x10
and 0x23 data segments of privilege 0 and 3, all with base 0; the TSS descriptor
carries the full 64-bit address of the TSS and its last byte offset; and the
table limit covers exactly the seven entries.\<close>

theorem gdt_init_descriptors:
  "let g = gdt_init t s e; es = gdt_entries g in
     length es = 7 \<and> es ! 0 = null_entry \<and>
     list_all (\<lambda>i. desc_base (es ! i) = 0 \<and> desc_limit (es ! i) = 0xFFFFF \<and>
        desc_code (es ! i) = (i = 1 \<or> i = 3) \<and> desc_long (es ! i) = (i = 1 \<or> i = 3) \<and>
        desc_dpl (es ! i) = (if i \<le> 2 then 0 else 3)) [1, 2, 3, 4] \<and>
     tss_base (es ! 5) (es ! 6) = t \<and> desc_limit (es ! 5) = TSS_SIZE - 1 \<and>
     unat (gdt_pointer_limit g) + 1 = 8 * length es \<and> rsp0 (gdt_tss g) = s + 8192"
proof -
  let ?es = "gdt_entries (gdt_init t s e)"
  have len: "length ?es = 7"
    by (simp add: gdt_init_def Let_def gdt_set_entry_def gdt_set_tss_entry_def gdt_segment_defs)
  have z: "?es ! 0 = null_entry"
    by (simp add: gdt_init_def Let_def gdt_set_entry_def gdt_set_tss_entry_def gdt_segment_defs
        null_entry_def)
  have es: "?es ! 1 = gdt_set_entry 1 0 0xFFFFF 0x9A 0xAF (replicate 7 null_entry) ! 1"
      "?es ! 2 = gdt_set_entry 2 0 0xFFFFF 0x92 0xCF (replicate 7 null_entry) ! 2"
      "?es ! 3 = gdt_set_entry 3 0 0xFFFFF 0xFA 0xAF (replicate 7 null_entry) ! 3"
      "?es ! 4 = gdt_set_entry 4 0 0xFFFFF 0xF2 0xCF (replicate 7 null_entry) ! 4"
    by (simp_all add: gdt_init_def Let_def gdt_set_entry_def gdt_set_tss_entry_def gdt_segment_defs)
  define seg where "seg = (\<lambda>d c dpl. desc_base d = 0 \<and> desc_limit d = 0xFFFFF \<and>
        desc_code d = c \<and> desc_long d = c \<and> desc_dpl d = dpl)"
  have "seg (?es ! 1) True 0" "seg (?es ! 2) False 0" "seg (?es ! 3) True 3" "seg (?es ! 4) False 3"
    unfolding es seg_def by code_simp+
  moreover have tss: "?es ! 5 = gdt_set_tss_entry 5 t (TSS_SIZE - 1) (replicate 7 null_entry) ! 5"
      "?es ! 6 = gdt_set_tss_entry 5 t (TSS_SIZE - 1) (replicate 7 null_entry) ! 6"
    by (simp_all add: gdt_init_def Let_def gdt_set_entry_def gdt_set_tss_entry_def gdt_segment_defs)
  have "tss_base (?es ! 5) (?es ! 6) = t"
    unfolding tss using tss_base_parts [of t]
    by (simp add: tss_base_def desc_base_def gdt_set_tss_entry_def Let_def entry_masks
        del: ucast_and_FF)
  moreover have "desc_limit (?es ! 5) = TSS_SIZE - 1"
    unfolding tss by (simp add: gdt_set_tss_entry_def Let_def desc_limit_def) code_simp
  moreover have "unat (gdt_pointer_limit (gdt_init t s e)) + 1 = 56" "rsp0 (gdt_tss (gdt_init t s e)) = s + 8192"
    by (simp_all add: gdt_init_def Let_def gdt_segment_defs)
  ultimately show ?thesis
    using len z by (simp add: Let_def seg_def)
qed

end
