(* ===== verification/BlockDevice.thy ===== *)
theory BlockDevice
  imports Prelude
begin

text \<open>
  The interface between the file system and the disk: reading sectors, writing
  one sector, and whether a drive is present.  The locale states what a
  provider promises about the sectors it stores and that a write beyond them fails; the disk driver provides it
  for every drive that follows the command protocol and streams, and the file system is
  verified against it.
\<close>

record 's blockdev =
  bd_present :: "'s \<Rightarrow> bool"
  bd_read :: "u32 \<Rightarrow> u8 \<Rightarrow> 's \<Rightarrow> u8 list option \<times> 's"
  bd_write :: "u32 \<Rightarrow> u8 list \<Rightarrow> 's \<Rightarrow> int \<times> 's"

definition sectors_data :: "(nat \<Rightarrow> u8 list) \<Rightarrow> nat \<Rightarrow> nat \<Rightarrow> u8 list" where
  "sectors_data st a n = concat (map st [a..<a + n])"

lemma sectors_data_Suc: "sectors_data st a (Suc n) = sectors_data st a n @ st (a + n)"
  by (simp add: sectors_data_def)

lemma sectors_data_0 [simp]: "sectors_data st a 0 = []"
  by (simp add: sectors_data_def)

lemma sectors_data_cong:
  "(\<And>i. a \<le> i \<Longrightarrow> i < a + n \<Longrightarrow> st i = st' i) \<Longrightarrow> sectors_data st a n = sectors_data st' a n"
  unfolding sectors_data_def by (intro arg_cong [where f = concat] map_cong) auto

lemma length_sectors_data: "(\<And>i. length (st i) = 512) \<Longrightarrow> length (sectors_data st a n) = n * 512"
  by (induction n) (simp_all add: sectors_data_Suc)

locale block_device =
  fixes dev :: "'s blockdev"
    and ok :: "'s \<Rightarrow> bool"
    and store :: "'s \<Rightarrow> nat \<Rightarrow> u8 list"
    and capacity :: nat
  assumes capacity_bound: "ok s \<Longrightarrow> capacity \<le> 2 ^ 28"
    and sector_length: "ok s \<Longrightarrow> length (store s n) = 512"
    and read_state: "ok s \<Longrightarrow> unat lba + unat c \<le> capacity \<Longrightarrow> bd_read dev lba c s = (r, s') \<Longrightarrow>
          ok s' \<and> store s' = store s \<and> bd_present dev s' = bd_present dev s"
    and read_data: "ok s \<Longrightarrow> bd_present dev s \<Longrightarrow> c \<noteq> 0 \<Longrightarrow> unat lba + unat c \<le> capacity \<Longrightarrow>
          fst (bd_read dev lba c s) = Some (sectors_data (store s) (unat lba) (unat c))"
    and read_zero: "bd_read dev lba 0 s = (None, s)"
    and write_state: "ok s \<Longrightarrow> bd_present dev s \<Longrightarrow> length bs = 512 \<Longrightarrow> unat lba < capacity \<Longrightarrow>
          bd_write dev lba bs s = (w, s') \<Longrightarrow>
          w = 0 \<and> ok s' \<and> store s' = (store s)(unat lba := bs) \<and> bd_present dev s'"
    and write_beyond: "ok s \<Longrightarrow> bd_present dev s \<Longrightarrow> length bs = 512 \<Longrightarrow> capacity \<le> unat lba \<Longrightarrow>
          bd_write dev lba bs s = (w, s') \<Longrightarrow> w \<noteq> 0 \<and> store s' = store s"
begin

lemma read_success:
  assumes "ok s" "bd_present dev s" "c \<noteq> 0" "unat lba + unat c \<le> capacity"
  obtains s' where "bd_read dev lba c s = (Some (sectors_data (store s) (unat lba) (unat c)), s')"
    "ok s'" "store s' = store s" "bd_present dev s'"
  using read_data [OF assms] read_state [OF assms(1,4)] assms(2)
  by (cases "bd_read dev lba c s") auto

lemma write_success:
  assumes "ok s" "bd_present dev s" "length bs = 512" "unat lba < capacity"
  obtains s' where "bd_write dev lba bs s = (0, s')" "ok s'" "store s' = (store s)(unat lba := bs)"
    "bd_present dev s'"
  using write_state [OF assms] by (cases "bd_write dev lba bs s") auto

end

end
