(* ===== verification/Ata.thy ===== *)
theory Ata
  imports PortIo WordLib BlockDevice
begin

text \<open>
  The ATA PIO driver \<open>drivers/disk/ata.c\<close>: detection, sector reads and writes
  and the destructive-and-restoring self-test, over the port bus.  Buffers are
  byte lists, transferred as little-endian words.  \<open>drive_bus\<close> states the
  PIO command protocol as a hypothesis on the bus: busy times chosen by the
  drive, a data register that is served only while data is requested, one sector
  at a time.  Under it one sector is read and written right; the driver does not
  wait between the sectors of a longer transfer nor before its flush command, so
  the block device interface of the file system needs a drive that streams.
\<close>

definition ATA_DATA_PORT :: u16 where "ATA_DATA_PORT = 0x1F0"
definition ATA_SECTOR_COUNT :: u16 where "ATA_SECTOR_COUNT = 0x1F2"
definition ATA_LBA_LOW :: u16 where "ATA_LBA_LOW = 0x1F3"
definition ATA_LBA_MID :: u16 where "ATA_LBA_MID = 0x1F4"
definition ATA_LBA_HIGH :: u16 where "ATA_LBA_HIGH = 0x1F5"
definition ATA_DRIVE_HEAD :: u16 where "ATA_DRIVE_HEAD = 0x1F6"
definition ATA_STATUS_PORT :: u16 where "ATA_STATUS_PORT = 0x1F7"
definition ATA_COMMAND_PORT :: u16 where "ATA_COMMAND_PORT = 0x1F7"
definition ATA_CONTROL_PORT :: u16 where "ATA_CONTROL_PORT = 0x3F6"
definition ATA_CMD_IDENTIFY :: u8 where "ATA_CMD_IDENTIFY = 0xEC"
definition ATA_CMD_READ_PIO :: u8 where "ATA_CMD_READ_PIO = 0x20"
definition ATA_CMD_WRITE_PIO :: u8 where "ATA_CMD_WRITE_PIO = 0x30"
definition ATA_STATUS_ERR :: u8 where "ATA_STATUS_ERR = 0x01"
definition ATA_STATUS_DRQ :: u8 where "ATA_STATUS_DRQ = 0x08"
definition ATA_STATUS_DF :: u8 where "ATA_STATUS_DF = 0x20"
definition ATA_STATUS_BSY :: u8 where "ATA_STATUS_BSY = 0x80"
definition ATA_LBA28_MASK :: u32 where "ATA_LBA28_MASK = 0x0FFFFFFF"
definition ATA_SECTOR_SIZE :: nat where "ATA_SECTOR_SIZE = 512"

lemmas ata_consts = ATA_DATA_PORT_def ATA_SECTOR_COUNT_def ATA_LBA_LOW_def ATA_LBA_MID_def
  ATA_LBA_HIGH_def ATA_DRIVE_HEAD_def ATA_STATUS_PORT_def ATA_COMMAND_PORT_def ATA_CONTROL_PORT_def
  ATA_CMD_IDENTIFY_def ATA_CMD_READ_PIO_def ATA_CMD_WRITE_PIO_def ATA_STATUS_ERR_def
  ATA_STATUS_DRQ_def ATA_STATUS_DF_def ATA_STATUS_BSY_def ATA_LBA28_MASK_def ATA_SECTOR_SIZE_def

record ata_device_info =
  ata_present :: bool
  ata_lba48_supported :: bool
  ata_total_sectors :: u32
  ata_model :: "char list"

section \<open>The driver\<close>

definition ata_io_wait :: "'d port_bus \<Rightarrow> 'd \<Rightarrow> 'd" where
  "ata_io_wait bus d = outb bus 0x80 0 d"

fun ata_insw :: "'d port_bus \<Rightarrow> u16 \<Rightarrow> nat \<Rightarrow> 'd \<Rightarrow> u16 list \<times> 'd" where
  "ata_insw bus port 0 d = ([], d)"
| "ata_insw bus port (Suc n) d =
     (let (w, d1) = insw bus port d; (ws, d2) = ata_insw bus port n d1 in (w # ws, d2))"

fun ata_outsw :: "'d port_bus \<Rightarrow> u16 \<Rightarrow> u16 list \<Rightarrow> 'd \<Rightarrow> 'd" where
  "ata_outsw bus port [] d = d"
| "ata_outsw bus port (w # ws) d = ata_outsw bus port ws (outsw bus port w d)"

fun ata_wait_not_busy :: "'d port_bus \<Rightarrow> nat \<Rightarrow> 'd \<Rightarrow> int \<times> 'd" where
  "ata_wait_not_busy bus 0 d = (-1, d)"
| "ata_wait_not_busy bus (Suc timeout) d =
     (let (status, d1) = inb bus ATA_STATUS_PORT d in
      if status AND ATA_STATUS_BSY = 0 then
        (if status AND (ATA_STATUS_ERR OR ATA_STATUS_DF) \<noteq> 0 then (-1, d1) else (0, d1))
      else ata_wait_not_busy bus timeout (ata_io_wait bus d1))"

fun ata_wait_drq :: "'d port_bus \<Rightarrow> nat \<Rightarrow> 'd \<Rightarrow> int \<times> 'd" where
  "ata_wait_drq bus 0 d = (-1, d)"
| "ata_wait_drq bus (Suc timeout) d =
     (let (status, d1) = inb bus ATA_STATUS_PORT d in
      if status AND (ATA_STATUS_ERR OR ATA_STATUS_DF) \<noteq> 0 then (-1, d1)
      else if status AND ATA_STATUS_DRQ \<noteq> 0 then (0, d1)
      else ata_wait_drq bus timeout (ata_io_wait bus d1))"

definition ata_select_lba :: "'d port_bus \<Rightarrow> u32 \<Rightarrow> u8 \<Rightarrow> u8 \<Rightarrow> 'd \<Rightarrow> 'd" where
  "ata_select_lba bus lba count command d =
     outbs bus
       [(ATA_DRIVE_HEAD, ucast (0xE0 OR (drop_bit 24 lba AND 0x0F))),
        (ATA_SECTOR_COUNT, count), (ATA_LBA_LOW, ucast (lba AND 0xFF)),
        (ATA_LBA_MID, ucast (drop_bit 8 lba AND 0xFF)),
        (ATA_LBA_HIGH, ucast (drop_bit 16 lba AND 0xFF)), (ATA_COMMAND_PORT, command)] d"

text \<open>
  The decoded model string: the characters the loop stores, spaces dropped,
  within the room of the destination.  The result is the stored prefix; the
  code puts the terminator behind it.
\<close>

fun ata_decode_string :: "u16 list \<Rightarrow> nat \<Rightarrow> string \<Rightarrow> string" where
  "ata_decode_string [] dest_len out = out"
| "ata_decode_string (w # ws) dest_len out =
     (if length out + 1 < dest_len then
        let first = char_of (unat (drop_bit 8 w)); second = char_of (unat (w AND 0xFF));
            out1 = (if first \<noteq> CHR '' '' \<and> length out + 1 < dest_len then out @ [first] else out);
            out2 = (if second \<noteq> CHR '' '' \<and> length out1 + 1 < dest_len then out1 @ [second] else out1)
        in ata_decode_string ws dest_len out2
      else out)"

definition ata_identify :: "'d port_bus \<Rightarrow> ata_device_info \<times> 'd \<Rightarrow> ata_device_info \<times> 'd" where
  "ata_identify bus = (\<lambda>(info, d).
     let d1 = ata_io_wait bus (outbs bus
           [(ATA_DRIVE_HEAD, 0xE0), (ATA_SECTOR_COUNT, 0), (ATA_LBA_LOW, 0), (ATA_LBA_MID, 0),
            (ATA_LBA_HIGH, 0), (ATA_COMMAND_PORT, ATA_CMD_IDENTIFY)] d);
         (status, d2) = inb bus ATA_STATUS_PORT d1
     in if status = 0 then (info, d2)
        else let (r1, d3) = ata_wait_not_busy bus 100000 d2 in
          if r1 \<noteq> 0 then (info, d3)
          else let (r2, d4) = ata_wait_drq bus 100000 d3 in
            if r2 \<noteq> 0 then (info, d4)
            else let (dat, d5) = ata_insw bus ATA_DATA_PORT 256 d4;
                     name = cstr (ata_decode_string (take 20 (drop 27 dat)) 41 [])
                 in (\<lparr>ata_present = True,
                      ata_lba48_supported = (dat ! 83 AND 0x400 \<noteq> 0),
                      ata_total_sectors = ucast (dat ! 60) OR push_bit 16 (ucast (dat ! 61)),
                      ata_model = (if name = [] then ''ATA device'' else name)\<rparr>, d5))"

definition no_ata :: ata_device_info where
  "no_ata = \<lparr>ata_present = False, ata_lba48_supported = False, ata_total_sectors = 0, ata_model = []\<rparr>"

definition ata_init :: "'d port_bus \<Rightarrow> 'd \<Rightarrow> ata_device_info \<times> 'd" where
  "ata_init bus d = ata_identify bus (no_ata, outb bus ATA_CONTROL_PORT 0x02 d)"

definition ata_get_info :: "ata_device_info \<times> 'd \<Rightarrow> ata_device_info" where
  "ata_get_info s = fst s"

text \<open>Bytes of a transfer.\<close>

fun words_bytes :: "u16 list \<Rightarrow> u8 list" where
  "words_bytes [] = []"
| "words_bytes (w # ws) = ucast w # ucast (drop_bit 8 w) # words_bytes ws"

fun bytes_words :: "u8 list \<Rightarrow> u16 list" where
  "bytes_words (lo # hi # bs) = word16_of hi lo # bytes_words bs"
| "bytes_words bs = []"

text \<open>
  A read returns the bytes it stored into the buffer, \<open>None\<close> for the -1, which
  stores nothing.  A write takes the bytes of the buffer it is given.
\<close>

definition ata_read_sectors ::
    "'d port_bus \<Rightarrow> u32 \<Rightarrow> u8 \<Rightarrow> ata_device_info \<times> 'd \<Rightarrow> u8 list option \<times> ata_device_info \<times> 'd" where
  "ata_read_sectors bus lba count = (\<lambda>(info, d).
     if \<not> ata_present info \<or> count = 0 then (None, info, d)
     else if lba > ATA_LBA28_MASK then (None, info, d)
     else let (r1, d1) = ata_wait_not_busy bus 100000 d in
       if r1 \<noteq> 0 then (None, info, d1)
       else let (r2, d2) = ata_wait_drq bus 100000 (ata_select_lba bus lba count ATA_CMD_READ_PIO d1) in
         if r2 \<noteq> 0 then (None, info, d2)
         else let (ws, d3) = ata_insw bus ATA_DATA_PORT (unat count * (ATA_SECTOR_SIZE div 2)) d2
              in (Some (words_bytes ws), info, d3))"

definition ata_write_sectors ::
    "'d port_bus \<Rightarrow> u32 \<Rightarrow> u8 \<Rightarrow> u8 list \<Rightarrow> ata_device_info \<times> 'd \<Rightarrow> int \<times> ata_device_info \<times> 'd" where
  "ata_write_sectors bus lba count buffer = (\<lambda>(info, d).
     if \<not> ata_present info \<or> count = 0 then (-1, info, d)
     else if lba > ATA_LBA28_MASK then (-1, info, d)
     else let (r1, d1) = ata_wait_not_busy bus 100000 d in
       if r1 \<noteq> 0 then (-1, info, d1)
       else let (r2, d2) = ata_wait_drq bus 100000 (ata_select_lba bus lba count ATA_CMD_WRITE_PIO d1) in
         if r2 \<noteq> 0 then (-1, info, d2)
         else let ws = bytes_words (take (unat count * ATA_SECTOR_SIZE) buffer);
                  d3 = outb bus ATA_COMMAND_PORT 0xE7 (ata_outsw bus ATA_DATA_PORT ws d2);
                  (r3, d4) = ata_wait_not_busy bus 100000 d3
              in (if r3 \<noteq> 0 then -1 else 0, info, d4))"

definition ata_disk_self_test :: "'d port_bus \<Rightarrow> ata_device_info \<times> 'd \<Rightarrow> int \<times> ata_device_info \<times> 'd" where
  "ata_disk_self_test bus s =
     (if \<not> ata_present (fst s) \<or> ata_total_sectors (fst s) \<le> 2048 then (-1, s)
      else case ata_read_sectors bus 2048 1 s of
        (None, s1) \<Rightarrow> (-1, s1)
      | (Some original, s1) \<Rightarrow>
          let pattern = map (\<lambda>i. 0xA5 XOR of_nat i) [0..<ATA_SECTOR_SIZE] in
          case ata_write_sectors bus 2048 1 pattern s1 of (w, s2) \<Rightarrow>
          if w \<noteq> 0 then (-1, s2)
          else case ata_read_sectors bus 2048 1 s2 of
            (None, s3) \<Rightarrow> (-1, snd (ata_write_sectors bus 2048 1 original s3))
          | (Some verify, s3) \<Rightarrow>
              if pattern \<noteq> verify then (-1, snd (ata_write_sectors bus 2048 1 original s3))
              else ata_write_sectors bus 2048 1 original s3)"

section \<open>The documented drive\<close>

text \<open>
  A drive keeps its task file registers, its sectors, and what it is doing: no
  transfer, a read that offers the words of one sector at a time, or a write that
  collects the words of one sector at a time, with the sector it is at and the
  number of sectors that follow.  After a command, between the sectors of a read
  and after each sector of a write it is busy for some number of status reads,
  which its timing chooses from its whole state.  A command beyond the capacity
  or an unknown one sets the error bit, which stays set until the next command.
\<close>

datatype transfer = No_transfer | Reading "u16 list" nat nat | Writing "u16 list" nat nat

record drive =
  dr_head :: u8
  dr_count :: u8
  dr_low :: u8
  dr_mid :: u8
  dr_high :: u8
  dr_error :: bool
  dr_busy :: nat
  dr_transfer :: transfer
  dr_sectors :: "nat \<Rightarrow> u8 list"
  dr_identity :: "u16 list"

record timing =
  t_start :: "drive \<Rightarrow> nat"
  t_sector :: "drive \<Rightarrow> nat"
  t_store :: "drive \<Rightarrow> nat"

definition drive_lba :: "drive \<Rightarrow> nat" where
  "drive_lba r = unat (word32_of (dr_head r AND 0x0F) (dr_high r) (dr_mid r) (dr_low r))"

definition drive_count :: "drive \<Rightarrow> nat" where
  "drive_count r = (if dr_count r = 0 then 256 else unat (dr_count r))"

definition sector_words :: "drive \<Rightarrow> nat \<Rightarrow> u16 list" where
  "sector_words r a = bytes_words (dr_sectors r a)"

text \<open>BSY alone while the drive is busy; otherwise DRDY with ERR or, during a transfer, DRQ.\<close>

definition drive_status :: "drive \<Rightarrow> u8" where
  "drive_status r = (if 0 < dr_busy r then 0x80 else if dr_error r then 0x41
     else if dr_transfer r \<noteq> No_transfer then 0x48 else 0x40)"

definition drive_poll :: "drive \<Rightarrow> drive" where
  "drive_poll r = r\<lparr>dr_busy := dr_busy r - 1\<rparr>"

definition drive_command :: "timing \<Rightarrow> nat \<Rightarrow> u8 \<Rightarrow> drive \<Rightarrow> drive" where
  "drive_command tm cap v r =
     (let fits = drive_lba r + drive_count r \<le> cap;
          start = (\<lambda>x. r\<lparr>dr_error := False, dr_busy := t_start tm r, dr_transfer := x\<rparr>);
          refuse = r\<lparr>dr_error := True, dr_busy := t_start tm r, dr_transfer := No_transfer\<rparr>
      in if v = 0x20 then
           (if fits then start (Reading (sector_words r (drive_lba r)) (drive_lba r + 1) (drive_count r - 1)) else refuse)
         else if v = 0x30 then (if fits then start (Writing [] (drive_lba r) (drive_count r - 1)) else refuse)
         else if v = 0xEC then start (Reading (dr_identity r) 0 0)
         else if v = 0xE7 then start No_transfer
         else refuse)"

definition drive_outb :: "timing \<Rightarrow> nat \<Rightarrow> u16 \<Rightarrow> u8 \<Rightarrow> drive \<Rightarrow> drive" where
  "drive_outb tm cap p v r =
     (if p = 0x1F2 then r\<lparr>dr_count := v\<rparr> else if p = 0x1F3 then r\<lparr>dr_low := v\<rparr>
      else if p = 0x1F4 then r\<lparr>dr_mid := v\<rparr> else if p = 0x1F5 then r\<lparr>dr_high := v\<rparr>
      else if p = 0x1F6 then r\<lparr>dr_head := v\<rparr> else if p = 0x1F7 then drive_command tm cap v r
      else r)"

text \<open>One word of the data register in either direction.\<close>

definition drive_take :: "timing \<Rightarrow> drive \<Rightarrow> drive" where
  "drive_take tm r =
     (case dr_transfer r of
        Reading (w # ws) a k \<Rightarrow>
          if ws \<noteq> [] then r\<lparr>dr_transfer := Reading ws a k\<rparr>
          else if k = 0 then r\<lparr>dr_transfer := No_transfer\<rparr>
          else r\<lparr>dr_transfer := Reading (sector_words r a) (a + 1) (k - 1), dr_busy := t_sector tm r\<rparr>
      | _ \<Rightarrow> r)"

definition drive_put :: "timing \<Rightarrow> u16 \<Rightarrow> drive \<Rightarrow> drive" where
  "drive_put tm w r =
     (case dr_transfer r of
        Writing ws a k \<Rightarrow>
          if length ws < 255 then r\<lparr>dr_transfer := Writing (ws @ [w]) a k\<rparr>
          else r\<lparr>dr_sectors := (dr_sectors r)(a := words_bytes (ws @ [w])), dr_busy := t_store tm r,
                 dr_transfer := (if k = 0 then No_transfer else Writing [] (a + 1) (k - 1))\<rparr>
      | _ \<Rightarrow> r)"

text \<open>
  What the protocol promises of a bus with such a drive.  Every status read lets
  the drive go on.  Registers and commands are taken when it is not busy, the data
  register is served when it is not busy and requests data in that direction.
  Nothing is said of an access at any other time: what the data register then
  returns and what the drive does of it is open.  Port 0x80 is not the drive's.
\<close>

definition drive_bus :: "timing \<Rightarrow> nat \<Rightarrow> 'd port_bus \<Rightarrow> ('d \<Rightarrow> drive) \<Rightarrow> bool" where
  "drive_bus tm cap bus view \<longleftrightarrow>
     (\<forall>d. fst (inb bus 0x1F7 d) = drive_status (view d) \<and> view (snd (inb bus 0x1F7 d)) = drive_poll (view d)) \<and>
     (\<forall>v d. view (outb bus 0x80 v d) = view d) \<and>
     (\<forall>p v d. dr_busy (view d) = 0 \<and> p \<in> {0x1F2..0x1F7} \<longrightarrow> view (outb bus p v d) = drive_outb tm cap p v (view d)) \<and>
     (\<forall>d w ws a k. dr_busy (view d) = 0 \<and> dr_transfer (view d) = Reading (w # ws) a k \<longrightarrow>
        fst (insw bus 0x1F0 d) = w \<and> view (snd (insw bus 0x1F0 d)) = drive_take tm (view d)) \<and>
     (\<forall>d w ws a k. dr_busy (view d) = 0 \<and> dr_transfer (view d) = Writing ws a k \<longrightarrow>
        view (outsw bus 0x1F0 w d) = drive_put tm w (view d))"

text \<open>
  The driver polls at most 100000 times, so the drive has to be done by then.  Its
  flush command is sent without waiting for the written sector to be stored, which
  the protocol leaves open: it needs a drive that is never busy after a write or
  one that ignores a command while it is busy.
\<close>

definition drive_timely :: "timing \<Rightarrow> 'd port_bus \<Rightarrow> ('d \<Rightarrow> drive) \<Rightarrow> bool" where
  "drive_timely tm bus view \<longleftrightarrow> (\<forall>r. t_start tm r < 100000 \<and> t_store tm r < 100000) \<and>
     ((\<forall>r. t_store tm r = 0) \<or> (\<forall>v d. 0 < dr_busy (view d) \<longrightarrow> view (outb bus 0x1F7 v d) = view d))"

lemma drive_busD:
  assumes "drive_bus tm cap bus view"
  shows "fst (inb bus 0x1F7 d) = drive_status (view d)" "view (snd (inb bus 0x1F7 d)) = drive_poll (view d)"
    "view (outb bus 0x80 v d) = view d"
    "dr_busy (view d) = 0 \<Longrightarrow> p \<in> {0x1F2..0x1F7} \<Longrightarrow> view (outb bus p v d) = drive_outb tm cap p v (view d)"
    "dr_busy (view d) = 0 \<Longrightarrow> dr_transfer (view d) = Reading (w # ws) a k \<Longrightarrow>
      fst (insw bus 0x1F0 d) = w \<and> view (snd (insw bus 0x1F0 d)) = drive_take tm (view d)"
    "dr_busy (view d) = 0 \<Longrightarrow> dr_transfer (view d) = Writing ws a k \<Longrightarrow>
      view (outsw bus 0x1F0 w d) = drive_put tm w (view d)"
  using assms unfolding drive_bus_def by blast+

section \<open>The driver on such a drive\<close>

lemma words_bytes_bytes_words: "even (length bs) \<Longrightarrow> words_bytes (bytes_words bs) = bs"
  by (induction bs rule: bytes_words.induct) (simp_all add: word16_of_byte)

lemma length_words_bytes: "length (words_bytes ws) = 2 * length ws"
  by (induction ws) simp_all

lemma length_bytes_words: "length (bytes_words bs) = length bs div 2"
  by (induction bs rule: bytes_words.induct) simp_all

lemma bytes_words_append: "even (length bs) \<Longrightarrow> bytes_words (bs @ cs) = bytes_words bs @ bytes_words cs"
  by (induction bs rule: bytes_words.induct) simp_all

lemma sectors_data_first: "sectors_data st a (Suc n) = st a @ sectors_data st (Suc a) n"
  by (simp add: sectors_data_def upt_conv_Cons del: upt_Suc)

text \<open>Both waits outlast the busy time.\<close>

lemma poll_busy:
  assumes "drive_bus tm cap bus view" "dr_busy (view d) = Suc b"
  shows "fst (inb bus 0x1F7 d) = 0x80"
    "view (ata_io_wait bus (snd (inb bus 0x1F7 d))) = (view d)\<lparr>dr_busy := b\<rparr>"
  using assms(2) by (simp_all add: drive_busD(1-3) [OF assms(1)] drive_status_def drive_poll_def ata_io_wait_def)

lemma poll_ready:
  assumes "drive_bus tm cap bus view" "dr_busy (view d) = 0"
  shows "fst (inb bus 0x1F7 d) =
      (if dr_error (view d) then 0x41 else if dr_transfer (view d) \<noteq> No_transfer then 0x48 else 0x40)"
    "view (snd (inb bus 0x1F7 d)) = (view d)\<lparr>dr_busy := 0\<rparr>"
  using assms(2) by (simp_all add: drive_busD(1,2) [OF assms(1)] drive_status_def drive_poll_def)

lemma wait_not_busy_drive:
  assumes bus: "drive_bus tm cap bus view"
  shows "dr_busy (view d) < n \<Longrightarrow>
    \<exists>d'. ata_wait_not_busy bus n d = (if dr_error (view d) then -1 else 0, d') \<and> view d' = (view d)\<lparr>dr_busy := 0\<rparr>"
proof (induction n arbitrary: d)
  case (Suc n)
  show ?case
  proof (cases "dr_busy (view d)")
    case 0
    then show ?thesis using poll_ready [OF bus 0] by (simp add: ata_consts split_beta Let_def)
  next
    case (Suc b)
    let ?d = "ata_io_wait bus (snd (inb bus 0x1F7 d))"
    have v: "view ?d = (view d)\<lparr>dr_busy := b\<rparr>" by (rule poll_busy(2) [OF bus Suc])
    then obtain d' where "ata_wait_not_busy bus n ?d = (if dr_error (view d) then -1 else 0, d')"
        "view d' = (view d)\<lparr>dr_busy := 0\<rparr>"
      using Suc.IH [of ?d] Suc.prems Suc by auto
    then show ?thesis using poll_busy(1) [OF bus Suc] by (simp add: ata_consts split_beta Let_def)
  qed
qed simp

lemma wait_drq_drive:
  assumes bus: "drive_bus tm cap bus view"
  shows "dr_busy (view d) < n \<Longrightarrow> \<not> dr_error (view d) \<Longrightarrow> dr_transfer (view d) \<noteq> No_transfer \<Longrightarrow>
    \<exists>d'. ata_wait_drq bus n d = (0, d') \<and> view d' = (view d)\<lparr>dr_busy := 0\<rparr>"
proof (induction n arbitrary: d)
  case (Suc n)
  show ?case
  proof (cases "dr_busy (view d)")
    case 0
    then show ?thesis using poll_ready [OF bus 0] Suc.prems by (simp add: ata_consts split_beta Let_def)
  next
    case (Suc b)
    let ?d = "ata_io_wait bus (snd (inb bus 0x1F7 d))"
    have v: "view ?d = (view d)\<lparr>dr_busy := b\<rparr>" by (rule poll_busy(2) [OF bus Suc])
    then obtain d' where "ata_wait_drq bus n ?d = (0, d')" "view d' = (view d)\<lparr>dr_busy := 0\<rparr>"
      using Suc.IH [of ?d] Suc.prems Suc by auto
    then show ?thesis using poll_busy(1) [OF bus Suc] by (simp add: ata_consts split_beta Let_def)
  qed
qed simp

text \<open>
  The transfer of a read: the words of the current sector and of those that follow,
  provided none follow or the drive has the next one at once.
\<close>

lemma insw_drive:
  assumes bus: "drive_bus tm cap bus view"
  shows "dr_busy (view d) = 0 \<Longrightarrow> dr_transfer (view d) = Reading ws a k \<Longrightarrow> ws \<noteq> [] \<Longrightarrow>
    k = 0 \<or> (\<forall>r. t_sector tm r = 0) \<Longrightarrow> (\<And>n. length (dr_sectors (view d) n) = 512) \<Longrightarrow>
    n = length ws + 256 * k \<Longrightarrow>
    fst (ata_insw bus 0x1F0 n d) = ws @ bytes_words (sectors_data (dr_sectors (view d)) a k) \<and>
    view (snd (ata_insw bus 0x1F0 n d)) = (view d)\<lparr>dr_transfer := No_transfer\<rparr>"
proof (induction n arbitrary: d ws a k)
  case (Suc n)
  obtain w ws' where ws: "ws = w # ws'" using Suc.prems(3) by (cases ws) auto
  let ?d = "snd (insw bus 0x1F0 d)"
  have w: "fst (insw bus 0x1F0 d) = w" and v: "view ?d = drive_take tm (view d)"
    using drive_busD(5) [OF bus Suc.prems(1)] Suc.prems(2) ws by auto
  have split: "ata_insw bus 0x1F0 (Suc n) d = (w # fst (ata_insw bus 0x1F0 n ?d), snd (ata_insw bus 0x1F0 n ?d))"
    using w by (simp add: split_beta Let_def)
  consider "ws' \<noteq> []" | "ws' = []" "k = 0" | k' where "ws' = []" "k = Suc k'" by (cases k) auto
  then show ?case
  proof cases
    case 1
    then have v': "view ?d = (view d)\<lparr>dr_transfer := Reading ws' a k\<rparr>"
      using v Suc.prems(2) ws by (simp add: drive_take_def)
    have n': "n = length ws' + 256 * k" using Suc.prems(6) ws by simp
    show ?thesis
      using Suc.IH [of ?d ws' a k] Suc.prems(1,4,5) 1 n' unfolding split by (simp add: v' ws)
  next
    case 2
    then have "view ?d = (view d)\<lparr>dr_transfer := No_transfer\<rparr>" "n = 0"
      using v Suc.prems(2,6) ws by (simp_all add: drive_take_def)
    then show ?thesis using 2 unfolding split by (simp add: ws)
  next
    case 3
    let ?s = "sector_words (view d) a"
    have z: "t_sector tm r = 0" for r using Suc.prems(4) 3 by simp
    have v': "view ?d = (view d)\<lparr>dr_transfer := Reading ?s (a + 1) k'\<rparr>"
      using v Suc.prems(1,2) ws 3 z by (simp add: drive_take_def)
    have ls: "length ?s = 256" using Suc.prems(5) by (simp add: sector_words_def length_bytes_words)
    then have "?s \<noteq> []" by auto
    moreover have "n = length ?s + 256 * k'" using Suc.prems(6) ws 3 ls by simp
    moreover have "bytes_words (sectors_data (dr_sectors (view d)) a k) =
        ?s @ bytes_words (sectors_data (dr_sectors (view d)) (a + 1) k')"
      using Suc.prems(5) [of a] by (simp add: 3 sectors_data_first bytes_words_append sector_words_def)
    ultimately show ?thesis
      using Suc.IH [of ?d ?s "a + 1" k'] Suc.prems(1,5) z unfolding split by (simp add: v' ws 3)
  qed
qed simp

text \<open>The transfer of one written sector.\<close>

lemma outsw_drive:
  assumes bus: "drive_bus tm cap bus view"
  shows "dr_busy (view d) = 0 \<Longrightarrow> dr_transfer (view d) = Writing vs a 0 \<Longrightarrow> length vs + length ws = 256 \<Longrightarrow>
    ws \<noteq> [] \<Longrightarrow>
    \<exists>b. view (ata_outsw bus 0x1F0 ws d) =
      (view d)\<lparr>dr_sectors := (dr_sectors (view d))(a := words_bytes (vs @ ws)), dr_busy := b, dr_transfer := No_transfer\<rparr> \<and>
      b \<in> range (t_store tm)"
proof (induction ws arbitrary: d vs)
  case (Cons w ws)
  let ?d = "outsw bus 0x1F0 w d"
  have v: "view ?d = drive_put tm w (view d)" by (rule drive_busD(6) [OF bus Cons.prems(1,2)])
  show ?case
  proof (cases "ws = []")
    case True
    then have "view ?d = (view d)\<lparr>dr_sectors := (dr_sectors (view d))(a := words_bytes (vs @ [w])),
        dr_busy := t_store tm (view d), dr_transfer := No_transfer\<rparr>"
      using v Cons.prems by (simp add: drive_put_def)
    then show ?thesis using True by (intro exI [of _ "t_store tm (view d)"]) (simp del: fun_upd_apply)
  next
    case False
    then have "length vs < 255" using Cons.prems(3) by (cases ws) auto
    then have v': "view ?d = (view d)\<lparr>dr_transfer := Writing (vs @ [w]) a 0\<rparr>"
      using v Cons.prems by (simp add: drive_put_def)
    show ?thesis using Cons.IH [of ?d "vs @ [w]"] Cons.prems False by (simp add: v')
  qed
qed simp

lemma lba_bytes:
  assumes "lba \<le> ATA_LBA28_MASK"
  shows "word32_of (ucast (0xE0 OR (drop_bit 24 lba AND 0x0F)) AND 0x0F) (ucast (drop_bit 16 lba))
           (ucast (drop_bit 8 lba)) (ucast lba) = lba"
proof -
  have "unat lba < 2 ^ 28"
    using assms by (simp add: ATA_LBA28_MASK_def word_le_nat_alt)
  then have "unat (take_bit 28 lba) = unat lba"
    by (subst unsigned_take_bit_eq) (rule take_bit_nat_eq_self)
  then have h: "take_bit 28 lba = lba" by (rule word_eq_unatI)
  have hi: "n < 28" if "bit lba n" for n
    using that by (subst (asm) h [symmetric]) (simp add: bit_take_bit_iff)
  have m: "(0x0F :: u32) = mask 4" "(0x0F :: u8) = mask 4" by (simp_all add: mask_eq_exp_minus_1)
  have e0: "(0xE0 :: u32) = push_bit 5 7" by simp
  have "ucast (0xE0 OR (drop_bit 24 lba AND 0x0F)) AND 0x0F = (ucast (drop_bit 24 lba) :: u8)"
    unfolding m
  proof (rule bit_word_eqI, goal_cases)
    case (1 n)
    have "\<not> bit (0xE0 :: u32) n" if "n < 4"
      using that unfolding e0 by (simp only: bit_push_bit_iff) simp
    then show ?case using 1 hi [of "24 + n"] by (auto simp: bit_simps)
  qed
  then show ?thesis using word32_of_bytes [of lba] by simp
qed

lemma lba_of_regs:
  assumes "lba \<le> ATA_LBA28_MASK"
  shows "drive_lba (r\<lparr>dr_head := ucast (0xE0 OR (drop_bit 24 lba AND 0x0F)),
      dr_count := count, dr_low := ucast lba, dr_mid := ucast (drop_bit 8 lba),
      dr_high := ucast (drop_bit 16 lba)\<rparr>) = unat lba"
  using lba_bytes [OF assms] by (simp add: drive_lba_def)

lemma small_lba: "unat lba < 2 ^ 28 \<Longrightarrow> lba \<le> ATA_LBA28_MASK"
  by (simp add: ATA_LBA28_MASK_def word_le_nat_alt)

lemma select_drive:
  assumes bus: "drive_bus tm cap bus view" and b: "dr_busy (view d) = 0"
  shows "view (ata_select_lba bus lba count cmd d) =
    drive_command tm cap cmd ((view d)\<lparr>dr_head := ucast (0xE0 OR (drop_bit 24 lba AND 0x0F)),
      dr_count := count, dr_low := ucast lba, dr_mid := ucast (drop_bit 8 lba),
      dr_high := ucast (drop_bit 16 lba)\<rparr>)"
  using b by (simp add: ata_select_lba_def ata_consts drive_busD(4) [OF bus] drive_outb_def)

text \<open>Between two operations: no transfer, no error, and if busy then not for long.\<close>

definition drive_idle :: "nat \<Rightarrow> drive \<Rightarrow> bool" where
  "drive_idle cap r \<longleftrightarrow> \<not> dr_error r \<and> dr_transfer r = No_transfer \<and> dr_busy r < 100000 \<and>
     (\<forall>n. length (dr_sectors r n) = 512) \<and> cap \<le> 2 ^ 28"

text \<open>
  Reading.  One sector is read right on every such drive.  Several sectors are
  read right when the drive has each next sector at once, since the driver
  waits for the first one only.
\<close>

definition read_safe :: "timing \<Rightarrow> u8 \<Rightarrow> bool" where
  "read_safe tm count \<longleftrightarrow> count = 1 \<or> (\<forall>r. t_sector tm r = 0)"

lemma read_drive:
  assumes bus: "drive_bus tm cap bus view" and tm: "drive_timely tm bus view" and idle: "drive_idle cap (view d)"
    and p: "ata_present info" "count \<noteq> 0" "unat lba + unat count \<le> cap" and safe: "read_safe tm count"
  obtains d' where "ata_read_sectors bus lba count (info, d) =
      (Some (sectors_data (dr_sectors (view d)) (unat lba) (unat count)), info, d')"
    "drive_idle cap (view d')" "dr_sectors (view d') = dr_sectors (view d)"
proof -
  let ?st = "dr_sectors (view d)" and ?k = "unat count - 1"
  let ?data = "sectors_data ?st (unat lba) (unat count)"
  have c0: "0 < unat count" using p(2) by (simp add: unat_gt_0)
  have "unat lba < 2 ^ 28" using p(3) c0 idle by (simp add: drive_idle_def)
  then have l: "lba \<le> ATA_LBA28_MASK" by (rule small_lba)
  have len: "length (?st n) = 512" for n using idle by (simp add: drive_idle_def)
  obtain d1 where d1: "ata_wait_not_busy bus 100000 d = (0, d1)" "view d1 = (view d)\<lparr>dr_busy := 0\<rparr>"
    using wait_not_busy_drive [OF bus, of d 100000] idle by (auto simp: drive_idle_def)
  let ?d2 = "ata_select_lba bus lba count ATA_CMD_READ_PIO d1" and ?ws = "bytes_words (?st (unat lba))"
  have v2: "\<not> dr_error (view ?d2)" "dr_transfer (view ?d2) = Reading ?ws (unat lba + 1) ?k"
      "dr_busy (view ?d2) < 100000" "dr_sectors (view ?d2) = ?st"
    using p(2,3) d1(2) tm
    by (simp_all add: select_drive [OF bus] drive_command_def drive_count_def sector_words_def ata_consts
        lba_of_regs [OF l] Let_def drive_timely_def)
  obtain d3 where d3: "ata_wait_drq bus 100000 ?d2 = (0, d3)" "view d3 = (view ?d2)\<lparr>dr_busy := 0\<rparr>"
    using wait_drq_drive [OF bus v2(3,1)] v2(2) by auto
  have lw: "length ?ws = 256" using len by (simp add: length_bytes_words)
  then have "?ws \<noteq> []" by auto
  moreover have "unat count * 256 = length ?ws + 256 * ?k" using lw c0 by simp
  moreover have "?k = 0 \<or> (\<forall>r. t_sector tm r = 0)" using safe by (auto simp: read_safe_def)
  moreover have "dr_busy (view d3) = 0" "dr_transfer (view d3) = Reading ?ws (unat lba + 1) ?k"
      "dr_sectors (view d3) = ?st" using d3(2) v2 by simp_all
  ultimately have i: "fst (ata_insw bus 0x1F0 (unat count * 256) d3) = ?ws @ bytes_words (sectors_data ?st (unat lba + 1) ?k)"
      "view (snd (ata_insw bus 0x1F0 (unat count * 256) d3)) = (view d3)\<lparr>dr_transfer := No_transfer\<rparr>"
    using insw_drive [OF bus, of d3 ?ws "unat lba + 1" ?k "unat count * 256"] len by simp_all
  have "?data = ?st (unat lba) @ sectors_data ?st (unat lba + 1) ?k"
    using sectors_data_first [of ?st "unat lba" ?k] c0 by simp
  then have "?ws @ bytes_words (sectors_data ?st (unat lba + 1) ?k) = bytes_words ?data"
    using len by (simp add: bytes_words_append)
  moreover have "words_bytes (bytes_words ?data) = ?data"
    using length_sectors_data [OF len] by (intro words_bytes_bytes_words) simp
  ultimately have "ata_read_sectors bus lba count (info, d) =
      (Some ?data, info, snd (ata_insw bus 0x1F0 (unat count * 256) d3))"
    using p(1,2) l d1(1) d3(1) i(1)
    by (simp add: ata_read_sectors_def not_less split_beta Let_def ATA_SECTOR_SIZE_def ATA_DATA_PORT_def)
  moreover have "drive_idle cap (view (snd (ata_insw bus 0x1F0 (unat count * 256) d3)))"
    using v2 idle d3(2) by (simp add: i(2) drive_idle_def)
  ultimately show ?thesis using that v2(4) d3(2) i(2) by simp
qed

lemma write_drive:
  assumes bus: "drive_bus tm cap bus view" and tm: "drive_timely tm bus view" and idle: "drive_idle cap (view d)"
    and p: "ata_present info" "length bs = 512" "unat lba < cap"
  obtains d' where "ata_write_sectors bus lba 1 bs (info, d) = (0, info, d')"
    "drive_idle cap (view d')" "dr_sectors (view d') = (dr_sectors (view d))(unat lba := bs)"
proof -
  let ?st = "dr_sectors (view d)"
  have "unat lba < 2 ^ 28" using p(3) idle by (simp add: drive_idle_def)
  then have l: "lba \<le> ATA_LBA28_MASK" by (rule small_lba)
  obtain d1 where d1: "ata_wait_not_busy bus 100000 d = (0, d1)" "view d1 = (view d)\<lparr>dr_busy := 0\<rparr>"
    using wait_not_busy_drive [OF bus, of d 100000] idle by (auto simp: drive_idle_def)
  let ?d2 = "ata_select_lba bus lba 1 ATA_CMD_WRITE_PIO d1"
  have v2: "\<not> dr_error (view ?d2)" "dr_transfer (view ?d2) = Writing [] (unat lba) 0"
      "dr_busy (view ?d2) < 100000" "dr_sectors (view ?d2) = ?st"
    using p(3) d1(2) tm
    by (simp_all add: select_drive [OF bus] drive_command_def drive_count_def ata_consts
        lba_of_regs [OF l] Let_def drive_timely_def)
  obtain d3 where d3: "ata_wait_drq bus 100000 ?d2 = (0, d3)" "view d3 = (view ?d2)\<lparr>dr_busy := 0\<rparr>"
    using wait_drq_drive [OF bus v2(3,1)] v2(2) by auto
  have lw: "length (bytes_words bs) = 256" using p(2) by (simp add: length_bytes_words)
  then have ne: "bytes_words bs \<noteq> []" by auto
  let ?d4 = "ata_outsw bus 0x1F0 (bytes_words bs) d3" and ?st' = "?st(unat lba := bs)"
  obtain b where v4: "dr_transfer (view ?d4) = No_transfer" "dr_busy (view ?d4) = b" "b \<in> range (t_store tm)"
      "\<not> dr_error (view ?d4)" "dr_sectors (view ?d4) = ?st'"
    using outsw_drive [OF bus, of d3 "[]" "unat lba" "bytes_words bs"] lw ne v2 d3(2)
      words_bytes_bytes_words [of bs] p(2) by auto
  let ?d5 = "outb bus ATA_COMMAND_PORT 0xE7 ?d4"
  have v5: "dr_transfer (view ?d5) = No_transfer" "dr_busy (view ?d5) < 100000" "\<not> dr_error (view ?d5)"
      "dr_sectors (view ?d5) = ?st'"
  proof -
    have "view ?d5 = view ?d4 \<or> view ?d5 = drive_outb tm cap 0x1F7 0xE7 (view ?d4)"
    proof (cases "b = 0")
      case True
      then show ?thesis using drive_busD(4) [OF bus, of ?d4 "0x1F7"] v4(2) by (simp add: ata_consts)
    next
      case False
      then have "\<exists>r. t_store tm r \<noteq> 0" using v4(3) by auto
      then show ?thesis using tm v4(2) False by (auto simp: drive_timely_def ata_consts)
    qed
    moreover have "b < 100000" using v4(3) tm by (auto simp: drive_timely_def)
    ultimately show "dr_transfer (view ?d5) = No_transfer" "dr_busy (view ?d5) < 100000" "\<not> dr_error (view ?d5)"
        "dr_sectors (view ?d5) = ?st'"
      using v4 tm by (auto simp: drive_outb_def drive_command_def Let_def drive_timely_def)
  qed
  obtain d6 where d6: "ata_wait_not_busy bus 100000 ?d5 = (0, d6)" "view d6 = (view ?d5)\<lparr>dr_busy := 0\<rparr>"
    using wait_not_busy_drive [OF bus v5(2)] v5(3) by auto
  have "ata_write_sectors bus lba 1 bs (info, d) = (0, info, d6)"
    using p(1,2) l d1(1) d3(1) d6(1)
    by (simp add: ata_write_sectors_def not_less Let_def ATA_SECTOR_SIZE_def ATA_DATA_PORT_def)
  moreover have "drive_idle cap (view d6)"
    using v5 d6(2) idle p(2) by (simp add: drive_idle_def)
  ultimately show ?thesis using that v5(4) d6(2) by simp
qed

text \<open>A write beyond the capacity fails: the drive refuses the command, or the driver the address.\<close>

lemma wait_drq_error:
  assumes bus: "drive_bus tm cap bus view"
  shows "dr_error (view d) \<Longrightarrow>
    \<exists>d'. ata_wait_drq bus n d = (-1, d') \<and> dr_sectors (view d') = dr_sectors (view d)"
proof (induction n arbitrary: d)
  case (Suc n)
  show ?case
  proof (cases "dr_busy (view d)")
    case 0
    then show ?thesis using poll_ready [OF bus 0] Suc.prems by (simp add: ata_consts split_beta Let_def)
  next
    case (Suc b)
    then show ?thesis
      using poll_busy [OF bus Suc] Suc.IH [of "ata_io_wait bus (snd (inb bus 0x1F7 d))"] Suc.prems
      by (simp add: ata_consts split_beta Let_def)
  qed
qed simp

lemma write_beyond_drive:
  assumes bus: "drive_bus tm cap bus view" and idle: "drive_idle cap (view d)"
    and p: "ata_present info" "cap \<le> unat lba"
  obtains d' where "ata_write_sectors bus lba 1 bs (info, d) = (-1, info, d')"
    "dr_sectors (view d') = dr_sectors (view d)"
proof (cases "lba \<le> ATA_LBA28_MASK")
  case False
  then show ?thesis using that [of d] by (simp add: ata_write_sectors_def not_le)
next
  case True
  obtain d1 where d1: "ata_wait_not_busy bus 100000 d = (0, d1)" "view d1 = (view d)\<lparr>dr_busy := 0\<rparr>"
    using wait_not_busy_drive [OF bus, of d 100000] idle by (auto simp: drive_idle_def)
  let ?d2 = "ata_select_lba bus lba 1 ATA_CMD_WRITE_PIO d1"
  have v2: "dr_error (view ?d2)" "dr_sectors (view ?d2) = dr_sectors (view d)"
    using p(2) d1(2)
    by (simp_all add: select_drive [OF bus] drive_command_def drive_count_def ata_consts
        lba_of_regs [OF True] Let_def)
  obtain d3 where d3: "ata_wait_drq bus 100000 ?d2 = (-1, d3)" "dr_sectors (view d3) = dr_sectors (view d)"
    using wait_drq_error [OF bus v2(1)] v2(2) by metis
  have "ata_write_sectors bus lba 1 bs (info, d) = (-1, info, d3)"
    using p(1) True d1(1) d3(1) by (auto simp: ata_write_sectors_def)
  then show ?thesis using that d3(2) by blast
qed

definition ata_blockdev :: "'d port_bus \<Rightarrow> (ata_device_info \<times> 'd) blockdev" where
  "ata_blockdev bus = \<lparr>bd_present = (\<lambda>s. ata_present (ata_get_info s)),
     bd_read = ata_read_sectors bus, bd_write = (\<lambda>lba. ata_write_sectors bus lba 1)\<rparr>"

text \<open>
  The driver provides the block device interface for every drive that follows
  the protocol and has the next sector of a read at once; without a drive it
  refuses both operations.
\<close>

locale ata_drive =
  fixes tm :: timing and cap :: nat and bus :: "'d port_bus" and view :: "'d \<Rightarrow> drive"
  assumes protocol: "drive_bus tm cap bus view"
    and timely: "drive_timely tm bus view"
    and streams: "t_sector tm r = 0"

lemma ata_block_device:
  assumes bus: "drive_bus tm cap bus view" and tm: "drive_timely tm bus view" and streams: "\<And>r. t_sector tm r = 0"
  shows "block_device (ata_blockdev bus) (\<lambda>s. drive_idle cap (view (snd s)))
    (\<lambda>s. dr_sectors (view (snd s))) cap"
proof -
  have safe: "read_safe tm c" for c using streams by (simp add: read_safe_def)
  show ?thesis
proof
  fix s :: "ata_device_info \<times> 'a" and n
  assume "drive_idle cap (view (snd s))"
  then show "cap \<le> 2 ^ 28" "length (dr_sectors (view (snd s)) n) = 512"
    by (simp_all add: drive_idle_def)
next
  fix s s' :: "ata_device_info \<times> 'a" and lba :: u32 and c :: u8 and r
  assume idle: "drive_idle cap (view (snd s))" and c: "unat lba + unat c \<le> cap"
    and r: "bd_read (ata_blockdev bus) lba c s = (r, s')"
  obtain info d where s: "s = (info, d)" by (cases s)
  show "drive_idle cap (view (snd s')) \<and> dr_sectors (view (snd s')) = dr_sectors (view (snd s)) \<and>
      bd_present (ata_blockdev bus) s' = bd_present (ata_blockdev bus) s"
  proof (cases "ata_present info \<and> c \<noteq> 0")
    case True
    have "drive_idle cap (view d)" "ata_present info" "c \<noteq> 0" using True idle s by simp_all
    from read_drive [OF bus tm this c safe] obtain d' where
      "ata_read_sectors bus lba c (info, d) =
        (Some (sectors_data (dr_sectors (view d)) (unat lba) (unat c)), info, d')"
      "drive_idle cap (view d')" "dr_sectors (view d') = dr_sectors (view d)" .
    then show ?thesis using r s by (auto simp: ata_blockdev_def ata_get_info_def)
  next
    case False
    then show ?thesis using idle r s by (auto simp: ata_blockdev_def ata_read_sectors_def)
  qed
next
  fix s :: "ata_device_info \<times> 'a" and lba :: u32 and c :: u8
  assume *: "drive_idle cap (view (snd s))" "bd_present (ata_blockdev bus) s" "c \<noteq> 0"
    "unat lba + unat c \<le> cap"
  then have "ata_present (fst s)" by (simp add: ata_blockdev_def ata_get_info_def)
  from read_drive [OF bus tm *(1) this *(3,4) safe] obtain d' where
    "ata_read_sectors bus lba c (fst s, snd s) =
      (Some (sectors_data (dr_sectors (view (snd s))) (unat lba) (unat c)), fst s, d')" .
  then show "fst (bd_read (ata_blockdev bus) lba c s) =
      Some (sectors_data (dr_sectors (view (snd s))) (unat lba) (unat c))"
    by (simp add: ata_blockdev_def)
next
  fix s :: "ata_device_info \<times> 'a" and lba
  show "bd_read (ata_blockdev bus) lba 0 s = (None, s)"
    by (cases s) (simp add: ata_blockdev_def ata_read_sectors_def)
next
  fix s s' :: "ata_device_info \<times> 'a" and lba :: u32 and bs w
  assume *: "drive_idle cap (view (snd s))" "bd_present (ata_blockdev bus) s" "length bs = 512"
    "unat lba < cap" "bd_write (ata_blockdev bus) lba bs s = (w, s')"
  then have p: "ata_present (fst s)" by (simp add: ata_blockdev_def ata_get_info_def)
  from write_drive [OF bus tm *(1) p *(3,4)] obtain d' where
    "ata_write_sectors bus lba 1 bs (fst s, snd s) = (0, fst s, d')" "drive_idle cap (view d')"
    "dr_sectors (view d') = (dr_sectors (view (snd s)))(unat lba := bs)" .
  with p *(5) show "w = 0 \<and> drive_idle cap (view (snd s')) \<and>
      dr_sectors (view (snd s')) = (dr_sectors (view (snd s)))(unat lba := bs) \<and>
      bd_present (ata_blockdev bus) s'"
    by (auto simp: ata_blockdev_def ata_get_info_def)
next
  fix s s' :: "ata_device_info \<times> 'a" and lba :: u32 and bs w
  assume *: "drive_idle cap (view (snd s))" "bd_present (ata_blockdev bus) s"
    "cap \<le> unat lba" "bd_write (ata_blockdev bus) lba bs s = (w, s')"
  then have p: "ata_present (fst s)" by (simp add: ata_blockdev_def ata_get_info_def)
  obtain d' where "ata_write_sectors bus lba 1 bs (fst s, snd s) = (-1, fst s, d')"
    "dr_sectors (view d') = dr_sectors (view (snd s))"
    using write_beyond_drive [OF bus *(1) p *(3)] by metis
  with *(4) show "w \<noteq> 0 \<and> dr_sectors (view (snd s')) = dr_sectors (view (snd s))"
    by (auto simp: ata_blockdev_def)
qed
qed

sublocale ata_drive \<subseteq> block_device "ata_blockdev bus" "\<lambda>s. drive_idle cap (view (snd s))"
    "\<lambda>s. dr_sectors (view (snd s))" cap
  by (rule ata_block_device [OF protocol timely streams])

text \<open>
  A drive that is nothing but its registers and sectors, for evaluation.  While
  it is busy it ignores registers and commands and its data register reads as
  all ones.
\<close>

definition sim_bus :: "timing \<Rightarrow> nat \<Rightarrow> drive port_bus" where
  "sim_bus tm cap = \<lparr>inb = (\<lambda>p d. if p = 0x1F7 then (drive_status d, drive_poll d) else (0, d)),
     outb = (\<lambda>p v d. if dr_busy d = 0 then drive_outb tm cap p v d else d),
     insw = (\<lambda>p d. case dr_transfer d of
         Reading (w # ws) a k \<Rightarrow> if p = 0x1F0 \<and> dr_busy d = 0 then (w, drive_take tm d) else (0xFFFF, d)
       | _ \<Rightarrow> (0xFFFF, d)),
     outsw = (\<lambda>p w d. if p = 0x1F0 \<and> dr_busy d = 0 then drive_put tm w d else d)\<rparr>"

lemma sim_drive: "drive_bus tm cap (sim_bus tm cap) (\<lambda>d. d)"
  by (simp add: drive_bus_def sim_bus_def drive_outb_def)

definition sim_timing :: timing where
  "sim_timing = \<lparr>t_start = (\<lambda>r. 3), t_sector = (\<lambda>r. 0), t_store = (\<lambda>r. 2)\<rparr>"

lemma sim_timely: "drive_timely sim_timing (sim_bus sim_timing cap) (\<lambda>d. d)"
  by (simp add: drive_timely_def sim_timing_def sim_bus_def)

lemma sim_streams: "t_sector sim_timing r = 0"
  by (simp add: sim_timing_def)

interpretation sim: ata_drive sim_timing "2 ^ 20" "sim_bus sim_timing (2 ^ 20)" "\<lambda>d. d"
  by unfold_locales (rule sim_drive, rule sim_timely, rule sim_streams)

definition sim_drive0 :: drive where
  "sim_drive0 = \<lparr>dr_head = 0, dr_count = 0, dr_low = 0, dr_mid = 0, dr_high = 0, dr_error = False,
     dr_busy = 1, dr_transfer = No_transfer, dr_sectors = (\<lambda>n. replicate 512 0), dr_identity = []\<rparr>"

definition sim_info :: ata_device_info where
  "sim_info = \<lparr>ata_present = True, ata_lba48_supported = False, ata_total_sectors = 0x100000,
     ata_model = ''SIM''\<rparr>"

lemma sim_idle: "drive_idle (2 ^ 20) sim_drive0"
  by (simp add: drive_idle_def sim_drive0_def)

text \<open>
  A drive that is busy between the sectors of a read: the driver, which waits for
  the first sector only, reports success and returns the first sector followed by
  what the data register shows while the drive is busy.
\<close>

lemma insw_busy: "0 < dr_busy d \<Longrightarrow> ata_insw (sim_bus tm cap) 0x1F0 n d = (replicate n 0xFFFF, d)"
  by (induction n) (auto simp: sim_bus_def split_beta Let_def split: transfer.split list.split)

lemma insw_gap:
  assumes gap: "\<And>r. 0 < t_sector tm r"
  shows "dr_busy d = 0 \<Longrightarrow> dr_transfer d = Reading ws a (Suc k) \<Longrightarrow> ws \<noteq> [] \<Longrightarrow>
    fst (ata_insw (sim_bus tm cap) 0x1F0 (length ws + n) d) = ws @ replicate n 0xFFFF"
proof (induction ws arbitrary: d)
  case (Cons w ws)
  let ?d = "drive_take tm d"
  have s: "insw (sim_bus tm cap) 0x1F0 d = (w, ?d)" using Cons.prems(1,2) by (simp add: sim_bus_def)
  show ?case
  proof (cases "ws = []")
    case True
    then have "0 < dr_busy ?d" using gap Cons.prems(2) by (simp add: drive_take_def)
    then show ?thesis using s True insw_busy [of ?d] by simp
  next
    case False
    then have "dr_busy ?d = 0" "dr_transfer ?d = Reading ws a (Suc k)"
      using Cons.prems by (simp_all add: drive_take_def)
    then show ?thesis using Cons.IH [of ?d] False s by (simp add: split_beta Let_def)
  qed
qed simp

lemma words_bytes_append: "words_bytes (vs @ ws) = words_bytes vs @ words_bytes ws"
  by (induction vs) simp_all

lemma words_bytes_ones: "words_bytes (replicate n 0xFFFF) = replicate (2 * n) 0xFF"
  by (induction n) simp_all

lemma gap_read_lost:
  assumes gap: "\<And>r. 0 < t_sector tm r" and tm: "\<And>r. t_start tm r < 100000"
    and idle: "drive_idle cap d" and p: "ata_present info" "1 < count" "unat lba + unat count \<le> cap"
  shows "fst (ata_read_sectors (sim_bus tm cap) lba count (info, d)) =
    Some (dr_sectors d (unat lba) @ replicate (512 * (unat count - 1)) 0xFF)"
proof -
  note bus = sim_drive [of tm cap]
  have c: "1 < unat count" using p(2) by (simp add: word_less_nat_alt)
  have "unat lba < 2 ^ 28" using p(3) c idle by (simp add: drive_idle_def)
  then have l: "lba \<le> ATA_LBA28_MASK" by (rule small_lba)
  have len: "length (dr_sectors d n) = 512" for n using idle by (simp add: drive_idle_def)
  have "count \<noteq> 0" using c by auto
  obtain d1 where d1: "ata_wait_not_busy (sim_bus tm cap) 100000 d = (0, d1)" "d1 = d\<lparr>dr_busy := 0\<rparr>"
    using wait_not_busy_drive [OF bus, of d 100000] idle by (auto simp: drive_idle_def)
  let ?d2 = "ata_select_lba (sim_bus tm cap) lba count ATA_CMD_READ_PIO d1" and ?ws = "bytes_words (dr_sectors d (unat lba))"
  have v2: "\<not> dr_error ?d2" "dr_transfer ?d2 = Reading ?ws (unat lba + 1) (Suc (unat count - 2))" "dr_busy ?d2 < 100000"
    using p(3) c d1(2) tm \<open>count \<noteq> 0\<close>
    by (simp_all add: select_drive [OF bus] drive_command_def drive_count_def sector_words_def ata_consts
        lba_of_regs [OF l] Let_def)
  obtain d3 where d3: "ata_wait_drq (sim_bus tm cap) 100000 ?d2 = (0, d3)" "d3 = ?d2\<lparr>dr_busy := 0\<rparr>"
    using wait_drq_drive [OF bus v2(3,1)] v2(2) by auto
  have lw: "length ?ws = 256" using len by (simp add: length_bytes_words)
  then have "?ws \<noteq> []" by auto
  moreover have "unat count * 256 = length ?ws + 256 * (unat count - 1)" using lw c by simp
  ultimately have "fst (ata_insw (sim_bus tm cap) 0x1F0 (unat count * 256) d3) = ?ws @ replicate (256 * (unat count - 1)) 0xFFFF"
    using insw_gap [OF gap, of d3 ?ws] d3(2) v2(2) by simp
  moreover have "words_bytes ?ws = dr_sectors d (unat lba)" using len by (intro words_bytes_bytes_words) simp
  ultimately show ?thesis
    using p(1) l d1(1) d3(1) \<open>count \<noteq> 0\<close>
    by (simp add: ata_read_sectors_def not_less split_beta Let_def ATA_SECTOR_SIZE_def ATA_DATA_PORT_def
        words_bytes_append words_bytes_ones)
qed

section \<open>Properties\<close>



lemma read_one_sector:
  assumes "drive_bus tm cap bus view" "drive_timely tm bus view" "drive_idle cap (view d)" "ata_present info" "unat lba < cap"
  obtains d' where "ata_read_sectors bus lba 1 (info, d) = (Some (dr_sectors (view d) (unat lba)), info, d')"
    "drive_idle cap (view d')" "dr_sectors (view d') = dr_sectors (view d)"
proof -
  have c: "(1 :: u8) \<noteq> 0" "unat lba + unat (1 :: u8) \<le> cap" using assms(5) by simp_all
  have one: "sectors_data st a (unat (1 :: u8)) = st a" for st a by (simp add: sectors_data_def)
  have s: "read_safe tm 1" by (simp add: read_safe_def)
  from read_drive [OF assms(1-4) c s, unfolded one] that show ?thesis by blast
qed

lemma xor_pattern_length: "length (map (\<lambda>i. 0xA5 XOR of_nat i :: u8) [0..<ATA_SECTOR_SIZE]) = 512"
  by (simp add: ATA_SECTOR_SIZE_def)

text \<open>The disk self-test.  On an idle drive that follows the protocol and has more
than 2048 sectors the self-test succeeds and leaves every sector as it was,
although it overwrites sector 2048 on the way.\<close>

theorem ata_self_test_restores:
  assumes "drive_bus tm cap bus view" and "drive_timely tm bus view" and "drive_idle cap (view d)"
    and "ata_present info" and "2048 < ata_total_sectors info" and "2048 < cap"
  shows "let (r, info', d') = ata_disk_self_test bus (info, d)
         in r = 0 \<and> info' = info \<and> drive_idle cap (view d') \<and>
            dr_sectors (view d') = dr_sectors (view d)"
proof -
  let ?pat = "map (\<lambda>i. 0xA5 XOR of_nat i :: u8) [0..<ATA_SECTOR_SIZE]"
  have c: "unat (2048 :: u32) < cap" using assms(6) by simp
  from read_one_sector [OF assms(1-4) c] obtain d1 where
    1: "ata_read_sectors bus 2048 1 (info, d) = (Some (dr_sectors (view d) (unat (2048 :: u32))), info, d1)"
       "drive_idle cap (view d1)" "dr_sectors (view d1) = dr_sectors (view d)" .
  from write_drive [OF assms(1,2) 1(2) assms(4) xor_pattern_length c] obtain d2 where
    2: "ata_write_sectors bus 2048 1 ?pat (info, d1) = (0, info, d2)" "drive_idle cap (view d2)"
       "dr_sectors (view d2) = (dr_sectors (view d1))(unat (2048 :: u32) := ?pat)" .
  from read_one_sector [OF assms(1,2) 2(2) assms(4) c] obtain d3 where
    3: "ata_read_sectors bus 2048 1 (info, d2) = (Some (dr_sectors (view d2) (unat (2048 :: u32))), info, d3)"
       "drive_idle cap (view d3)" "dr_sectors (view d3) = dr_sectors (view d2)" .
  have "length (dr_sectors (view d) (unat (2048 :: u32))) = 512"
    using assms(3) by (simp add: drive_idle_def)
  from write_drive [OF assms(1,2) 3(2) assms(4) this c] obtain d4 where
    4: "ata_write_sectors bus 2048 1 (dr_sectors (view d) (unat (2048 :: u32))) (info, d3) = (0, info, d4)"
       "drive_idle cap (view d4)"
       "dr_sectors (view d4) =
          (dr_sectors (view d3))(unat (2048 :: u32) := dr_sectors (view d) (unat (2048 :: u32)))" .
  have ptn: "dr_sectors (view d2) (unat (2048 :: u32)) = ?pat" using 2(3) by simp
  have restored: "dr_sectors (view d4) = dr_sectors (view d)"
    unfolding 4(3) 3(3) 2(3) 1(3) by simp
  have "ata_disk_self_test bus (info, d) = (0, info, d4)"
    using assms(4,5) 1(1) 2(1) 3(1) 4(1)
    unfolding ata_disk_self_test_def ptn Let_def by (simp add: not_le)
  then show ?thesis using 4(2) restored by simp
qed

lemma ata_self_test_restores_witness:
  "fst (ata_disk_self_test (sim_bus sim_timing (2 ^ 20)) (sim_info, sim_drive0)) = 0"
proof -
  have "ata_present sim_info" "2048 < ata_total_sectors sim_info" "2048 < (2 :: nat) ^ 20"
    by (simp_all add: sim_info_def)
  from ata_self_test_restores [OF sim_drive sim_timely sim_idle this] show ?thesis by (simp add: split_beta Let_def)
qed

text \<open>One failed command disables the driver.  While the drive's error bit is set,
which by the protocol lasts until the next command, every read and every write
fails before it sends a command, so the bit stays set and all later operations
fail as well, whatever sector they address.\<close>

lemma wait_not_busy_error:
  assumes bus: "drive_bus tm cap bus view"
  shows "dr_error (view d) \<Longrightarrow>
    \<exists>d'. ata_wait_not_busy bus n d = (-1, d') \<and> dr_error (view d')"
proof (induction n arbitrary: d)
  case (Suc n)
  show ?case
  proof (cases "dr_busy (view d)")
    case 0
    then show ?thesis using poll_ready [OF bus 0] Suc.prems by (simp add: ata_consts split_beta Let_def)
  next
    case (Suc b)
    then show ?thesis
      using poll_busy [OF bus Suc] Suc.IH [of "ata_io_wait bus (snd (inb bus 0x1F7 d))"] Suc.prems
      by (simp add: ata_consts split_beta Let_def)
  qed
qed simp

theorem ata_error_is_sticky:
  assumes "drive_bus tm cap bus view" and "dr_error (view d)"
  shows "(let (res, s1) = ata_read_sectors bus lba n (info, d) in res = None \<and> dr_error (view (snd s1))) \<and>
    (let (r, s1) = ata_write_sectors bus lba n bs (info, d) in r = -1 \<and> dr_error (view (snd s1)))"
proof
  obtain d' where d': "ata_wait_not_busy bus 100000 d = (-1, d')" "dr_error (view d')"
    using wait_not_busy_error [OF assms] by blast
  show "let (res, s1) = ata_read_sectors bus lba n (info, d) in res = None \<and> dr_error (view (snd s1))"
    using d' assms(2) by (simp add: ata_read_sectors_def)
  show "let (r, s1) = ata_write_sectors bus lba n bs (info, d) in r = -1 \<and> dr_error (view (snd s1))"
    using d' assms(2) by (simp add: ata_write_sectors_def)
qed

lemma ata_error_is_sticky_witness:
  "fst (ata_read_sectors (sim_bus sim_timing 8) 0 1 (sim_info, sim_drive0\<lparr>dr_error := True\<rparr>)) = None"
  using ata_error_is_sticky [OF sim_drive, of "sim_drive0\<lparr>dr_error := True\<rparr>" sim_timing 8 0 1 sim_info]
  by (simp add: split_beta Let_def)

end
