(* ===== verification/Fs.thy ===== *)
theory Fs
  imports BlockDevice SlotTable WordLib
begin

text \<open>
  The contiguous-file file system \<open>fs/fs.c\<close> over the block device interface.
  Directory entries are records with their 36-byte encoding; the table in
  memory has 32 entries, of which a single 512-byte sector is loaded and
  stored.  A read that stores more bytes than the caller's buffer holds is the
  outcome \<open>ReadOverrun\<close>.  Null arguments, which the code refuses, are not
  represented; a file's data is the list of its bytes.
\<close>

definition FS_NAME_MAX :: nat where "FS_NAME_MAX = 16"
definition FS_FILES_MAX :: nat where "FS_FILES_MAX = 32"
definition FS_BLOCK_SIZE :: nat where "FS_BLOCK_SIZE = 512"
definition FS_MAGIC_VALUE :: u32 where "FS_MAGIC_VALUE = 0x53485341"
definition FS_VERSION :: u32 where "FS_VERSION = 1"
definition FS_SUPERBLOCK_LBA :: u32 where "FS_SUPERBLOCK_LBA = 4096"
definition FS_TABLE_LBA :: u32 where "FS_TABLE_LBA = 4097"
definition FS_DATA_LBA :: u32 where "FS_DATA_LBA = 4098"
definition FS_MAX_FILE_BYTES :: nat where "FS_MAX_FILE_BYTES = 256 * 512"

lemmas fs_consts = FS_NAME_MAX_def FS_FILES_MAX_def FS_BLOCK_SIZE_def FS_MAGIC_VALUE_def
  FS_VERSION_def FS_SUPERBLOCK_LBA_def FS_TABLE_LBA_def FS_DATA_LBA_def FS_MAX_FILE_BYTES_def

section \<open>Data\<close>

record fs_superblock =
  sb_magic :: u32
  sb_version :: u32
  sb_volume_label :: "char list"
  sb_total_files :: u32
  sb_data_start_lba :: u32

record fs_disk_entry =
  e_name :: "char list"
  e_start_lba :: u32
  e_size_bytes :: u32
  e_used :: u8
  e_reserved :: "u8 list"

record fs_file_entry =
  c_name :: "char list"
  c_start_lba :: u32
  c_size_bytes :: u32
  c_used :: u8

record fs_info =
  i_present :: bool
  i_mounted :: bool
  i_total_files :: u32
  i_used_files :: u32
  i_data_start_lba :: u32
  i_volume_label :: "char list"

record fs =
  fs_info :: fs_info
  fs_cache :: "fs_file_entry list"
  fs_disk_entries :: "fs_disk_entry list"

definition zero_entry :: fs_disk_entry where
  "zero_entry = \<lparr>e_name = zbuf FS_NAME_MAX, e_start_lba = 0, e_size_bytes = 0, e_used = 0,
     e_reserved = replicate 11 0\<rparr>"

definition zero_cache_entry :: fs_file_entry where
  "zero_cache_entry = \<lparr>c_name = zbuf FS_NAME_MAX, c_start_lba = 0, c_size_bytes = 0, c_used = 0\<rparr>"

definition zero_info :: fs_info where
  "zero_info = \<lparr>i_present = False, i_mounted = False, i_total_files = 0, i_used_files = 0,
     i_data_start_lba = 0, i_volume_label = zbuf 17\<rparr>"

text \<open>The packed little-endian layout.\<close>

definition le32 :: "u32 \<Rightarrow> u8 list" where
  "le32 w = [ucast w, ucast (drop_bit 8 w), ucast (drop_bit 16 w), ucast (drop_bit 24 w)]"

definition un_le32 :: "u8 list \<Rightarrow> u32" where
  "un_le32 bs = word32_of (bs ! 3) (bs ! 2) (bs ! 1) (bs ! 0)"

definition chars_bytes :: "char list \<Rightarrow> u8 list" where
  "chars_bytes cs = map of_char cs"

definition bytes_chars :: "u8 list \<Rightarrow> char list" where
  "bytes_chars bs = map (\<lambda>b. char_of (unat b)) bs"

definition entry_bytes :: "fs_disk_entry \<Rightarrow> u8 list" where
  "entry_bytes e = chars_bytes (e_name e) @ le32 (e_start_lba e) @ le32 (e_size_bytes e) @
     [e_used e] @ e_reserved e"

definition bytes_entry :: "u8 list \<Rightarrow> fs_disk_entry" where
  "bytes_entry bs =
     \<lparr>e_name = bytes_chars (take 16 bs), e_start_lba = un_le32 (drop 16 bs),
      e_size_bytes = un_le32 (drop 20 bs), e_used = bs ! 24, e_reserved = take 11 (drop 25 bs)\<rparr>"

definition table_bytes :: "fs_disk_entry list \<Rightarrow> u8 list" where
  "table_bytes es = concat (map entry_bytes es)"

definition bytes_table :: "u8 list \<Rightarrow> fs_disk_entry list" where
  "bytes_table bs = map (\<lambda>i. bytes_entry (drop (36 * i) bs)) [0..<FS_FILES_MAX]"

definition superblock_bytes :: "fs_superblock \<Rightarrow> u8 list" where
  "superblock_bytes sb = le32 (sb_magic sb) @ le32 (sb_version sb) @ chars_bytes (sb_volume_label sb) @
     le32 (sb_total_files sb) @ le32 (sb_data_start_lba sb) @ replicate (512 - 33) 0"

definition bytes_superblock :: "u8 list \<Rightarrow> fs_superblock" where
  "bytes_superblock bs =
     \<lparr>sb_magic = un_le32 bs, sb_version = un_le32 (drop 4 bs),
      sb_volume_label = bytes_chars (take 17 (drop 8 bs)),
      sb_total_files = un_le32 (drop 25 bs), sb_data_start_lba = un_le32 (drop 29 bs)\<rparr>"

section \<open>Operations\<close>

definition fs_clear_cache :: fs where
  "fs_clear_cache = \<lparr>fs_info = zero_info, fs_cache = replicate FS_FILES_MAX zero_cache_entry,
     fs_disk_entries = replicate FS_FILES_MAX zero_entry\<rparr>"

definition fs_copy_name :: "char list \<Rightarrow> char list \<Rightarrow> char list" where
  "fs_copy_name dest src = copy_text dest src"

function name_equals_loop :: "char list \<Rightarrow> char list \<Rightarrow> nat \<Rightarrow> bool" where
  "name_equals_loop a b i =
     (if i < FS_NAME_MAX then
        (if cget a i \<noteq> cget b i then False
         else if cget a i = NUL then True
         else name_equals_loop a b (i + 1))
      else cget b (FS_NAME_MAX - 1) = NUL)"
  by pat_completeness auto
termination
  by (relation "measure (\<lambda>(a, b, i). FS_NAME_MAX - i)") auto

declare name_equals_loop.simps [simp del]

definition fs_name_equals :: "char list \<Rightarrow> char list \<Rightarrow> bool" where
  "fs_name_equals a b = name_equals_loop a b 0"

definition fs_load_superblock :: "'s blockdev \<Rightarrow> 's \<Rightarrow> fs_superblock option \<times> 's" where
  "fs_load_superblock dev s =
     (case bd_read dev FS_SUPERBLOCK_LBA 1 s of (r, s') \<Rightarrow> (map_option bytes_superblock r, s'))"

text \<open>One sector is read over the start of the 1152 bytes of the table.\<close>

definition fs_load_table :: "'s blockdev \<Rightarrow> fs_disk_entry list \<Rightarrow> 's \<Rightarrow> fs_disk_entry list option \<times> 's" where
  "fs_load_table dev es s =
     (case bd_read dev FS_TABLE_LBA 1 s of
        (None, s') \<Rightarrow> (None, s')
      | (Some bs, s') \<Rightarrow> (Some (bytes_table (bs @ drop (length bs) (table_bytes es))), s'))"

definition fs_store_superblock :: "'s blockdev \<Rightarrow> fs_superblock \<Rightarrow> 's \<Rightarrow> int \<times> 's" where
  "fs_store_superblock dev sb s = bd_write dev FS_SUPERBLOCK_LBA (superblock_bytes sb) s"

definition fs_store_table :: "'s blockdev \<Rightarrow> fs_disk_entry list \<Rightarrow> 's \<Rightarrow> int \<times> 's" where
  "fs_store_table dev es s = bd_write dev FS_TABLE_LBA (take 512 (table_bytes es)) s"

definition sync_entry :: "fs_disk_entry \<Rightarrow> fs_file_entry" where
  "sync_entry e = \<lparr>c_name = (e_name e)[FS_NAME_MAX - 1 := NUL], c_start_lba = e_start_lba e,
     c_size_bytes = e_size_bytes e, c_used = e_used e\<rparr>"

definition fs_sync_cache :: "fs \<Rightarrow> fs" where
  "fs_sync_cache f = f\<lparr>fs_cache := map sync_entry (fs_disk_entries f)\<rparr>"

definition fs_blocks_for_bytes :: "u32 \<Rightarrow> u32" where
  "fs_blocks_for_bytes size_bytes = (size_bytes + of_nat FS_BLOCK_SIZE - 1) div of_nat FS_BLOCK_SIZE"

definition fs_write_label :: "char list \<Rightarrow> char list" where
  "fs_write_label dest = copy_text dest ''ACHARYAOS_FS''"

definition used_entry :: "fs_disk_entry \<Rightarrow> bool" where
  "used_entry e \<longleftrightarrow> e_used e \<noteq> 0"

definition fs_new_superblock :: fs_superblock where
  "fs_new_superblock = \<lparr>sb_magic = FS_MAGIC_VALUE, sb_version = FS_VERSION,
     sb_volume_label = fs_write_label (zbuf 17), sb_total_files = of_nat FS_FILES_MAX,
     sb_data_start_lba = FS_DATA_LBA\<rparr>"

definition fs_format :: "'s blockdev \<Rightarrow> fs \<Rightarrow> 's \<Rightarrow> int \<times> fs \<times> 's" where
  "fs_format dev f s =
     (let sb = fs_new_superblock;
          f1 = f\<lparr>fs_disk_entries := replicate FS_FILES_MAX zero_entry\<rparr>;
          (r1, s1) = fs_store_superblock dev sb s
      in if r1 \<noteq> 0 then (-1, f1, s1)
         else let (r2, s2) = fs_store_table dev (fs_disk_entries f1) s1 in
           if r2 \<noteq> 0 then (-1, f1, s2)
           else (0, fs_sync_cache (f1\<lparr>fs_info :=
                  \<lparr>i_present = True, i_mounted = True, i_total_files = of_nat FS_FILES_MAX,
                   i_used_files = 0, i_data_start_lba = FS_DATA_LBA,
                   i_volume_label = (take 16 (sb_volume_label sb) @ [NUL])\<rparr>\<rparr>), s2))"

definition fs_init :: "'s blockdev \<Rightarrow> 's \<Rightarrow> fs \<times> 's" where
  "fs_init dev s =
     (let f = fs_clear_cache in
      if \<not> bd_present dev s then (f, s)
      else case fs_load_superblock dev s of
        (None, s1) \<Rightarrow> snd (fs_format dev f s1)
      | (Some sb, s1) \<Rightarrow>
          if sb_magic sb \<noteq> FS_MAGIC_VALUE \<or> sb_version sb \<noteq> FS_VERSION then snd (fs_format dev f s1)
          else case fs_load_table dev (fs_disk_entries f) s1 of
            (None, s2) \<Rightarrow> (f, s2)
          | (Some es, s2) \<Rightarrow>
              (fs_sync_cache (f\<lparr>fs_disk_entries := es, fs_info :=
                 \<lparr>i_present = True, i_mounted = True, i_total_files = sb_total_files sb,
                  i_used_files = of_nat (count_used used_entry es),
                  i_data_start_lba = sb_data_start_lba sb,
                  i_volume_label = take 16 (sb_volume_label sb) @ [NUL]\<rparr>\<rparr>), s2))"

definition fs_mounted :: "fs \<Rightarrow> bool" where
  "fs_mounted f = i_mounted (fs_info f)"

definition fs_get_info :: "fs \<Rightarrow> fs_info" where
  "fs_get_info f = fs_info f"

definition fs_list_files :: "fs \<Rightarrow> nat \<Rightarrow> fs_file_entry list" where
  "fs_list_files f max_files =
     map snd (list_used (\<lambda>(e, c). used_entry e) (zip (fs_disk_entries f) (fs_cache f)) max_files)"

definition fs_find_entry :: "fs_disk_entry list \<Rightarrow> char list \<Rightarrow> nat option" where
  "fs_find_entry es name = first_index (\<lambda>e. used_entry e \<and> fs_name_equals (e_name e) name) es"

definition fs_find_free_entry :: "fs_disk_entry list \<Rightarrow> nat option" where
  "fs_find_free_entry es = first_index (\<lambda>e. \<not> used_entry e) es"

definition fs_next_free_lba :: "fs \<Rightarrow> u32" where
  "fs_next_free_lba f =
     fold (\<lambda>e next. if \<not> used_entry e then next
            else let fin = e_start_lba e + fs_blocks_for_bytes (e_size_bytes e)
                 in if fin > next then fin else next)
       (fs_disk_entries f) (i_data_start_lba (fs_info f))"

text \<open>The bytes a read stored at the buffer and the size it reports.\<close>

datatype read_result = ReadFailed | ReadDone "u8 list" u32 | ReadOverrun "u8 list"

definition fs_read_file :: "'s blockdev \<Rightarrow> char list \<Rightarrow> nat \<Rightarrow> fs \<Rightarrow> 's \<Rightarrow> read_result \<times> 's" where
  "fs_read_file dev name buffer_len f s =
     (if \<not> i_mounted (fs_info f) then (ReadFailed, s)
      else case fs_find_entry (fs_disk_entries f) name of
        None \<Rightarrow> (ReadFailed, s)
      | Some idx \<Rightarrow>
          let e = fs_disk_entries f ! idx; blocks = fs_blocks_for_bytes (e_size_bytes e) in
          if buffer_len < unat (e_size_bytes e) then (ReadFailed, s)
          else if blocks = 0 then (ReadDone [] 0, s)
          else case bd_read dev (e_start_lba e) (ucast blocks) s of
            (None, s') \<Rightarrow> (ReadFailed, s')
          | (Some bs, s') \<Rightarrow>
              (if length bs \<le> buffer_len then ReadDone bs (e_size_bytes e) else ReadOverrun bs, s'))"

text \<open>The loop over the blocks of a file; \<open>i\<close> counts the blocks written.\<close>

definition block_sector :: "u8 list \<Rightarrow> nat \<Rightarrow> u8 list" where
  "block_sector dat i =
     (let chunk = (if (i + 1) * FS_BLOCK_SIZE > length dat then length dat - i * FS_BLOCK_SIZE
                   else FS_BLOCK_SIZE);
          src = drop (i * FS_BLOCK_SIZE) dat
      in take chunk src @ replicate (FS_BLOCK_SIZE - chunk) 0)"

fun write_blocks :: "'s blockdev \<Rightarrow> u32 \<Rightarrow> u8 list \<Rightarrow> nat list \<Rightarrow> 's \<Rightarrow> int \<times> 's" where
  "write_blocks dev start_lba dat [] s = (0, s)"
| "write_blocks dev start_lba dat (i # blocks) s =
     (case bd_write dev (start_lba + of_nat i) (block_sector dat i) s of (r, s') \<Rightarrow>
        if r \<noteq> 0 then (-1, s') else write_blocks dev start_lba dat blocks s')"

text \<open>The entry a write goes to: the one found, or a free one marked used under the name.\<close>

definition fs_claim_entry :: "fs_disk_entry list \<Rightarrow> char list \<Rightarrow> (nat \<times> fs_disk_entry list) option" where
  "fs_claim_entry es name =
     (case fs_find_entry es name of
        Some i \<Rightarrow> Some (i, es)
      | None \<Rightarrow>
          (case fs_find_free_entry es of
             None \<Rightarrow> None
           | Some i \<Rightarrow> Some (i, es[i := (es ! i)\<lparr>e_name := fs_copy_name (e_name (es ! i)) name, e_used := 1\<rparr>])))"

definition fs_write_file :: "'s blockdev \<Rightarrow> char list \<Rightarrow> u8 list \<Rightarrow> fs \<Rightarrow> 's \<Rightarrow> int \<times> fs \<times> 's" where
  "fs_write_file dev name dat f s =
     (if \<not> i_mounted (fs_info f) then (-1, f, s)
      else if length dat > FS_MAX_FILE_BYTES then (-1, f, s)
      else
        case fs_claim_entry (fs_disk_entries f) name of None \<Rightarrow> (-1, f, s)
           | Some (idx, es1) \<Rightarrow>
             let f1 = f\<lparr>fs_disk_entries := es1\<rparr>;
                 blocks = fs_blocks_for_bytes (of_nat (length dat));
                 start_lba = fs_next_free_lba f1;
                 f2 = f1\<lparr>fs_disk_entries := es1[idx := (es1 ! idx)\<lparr>e_start_lba := start_lba,
                        e_size_bytes := of_nat (length dat)\<rparr>]\<rparr>;
                 (r1, s1) = write_blocks dev start_lba dat [0..<unat blocks] s
             in if r1 \<noteq> 0 then (-1, f2, s1)
                else let (r2, s2) = fs_store_table dev (fs_disk_entries f2) s1 in
                  if r2 \<noteq> 0 then (-1, f2, s2)
                  else (0, fs_sync_cache (f2\<lparr>fs_info := (fs_info f2)\<lparr>i_used_files :=
                         of_nat (count_used used_entry (fs_disk_entries f2))\<rparr>\<rparr>), s2))"

definition fs_delete_file :: "'s blockdev \<Rightarrow> char list \<Rightarrow> fs \<Rightarrow> 's \<Rightarrow> int \<times> fs \<times> 's" where
  "fs_delete_file dev name f s =
     (case fs_find_entry (fs_disk_entries f) name of
        None \<Rightarrow> (-1, f, s)
      | Some idx \<Rightarrow>
          let f1 = f\<lparr>fs_disk_entries := (fs_disk_entries f)[idx := zero_entry]\<rparr>;
              (r, s1) = fs_store_table dev (fs_disk_entries f1) s
          in if r \<noteq> 0 then (-1, f1, s1)
             else (0, fs_sync_cache (f1\<lparr>fs_info := (fs_info f1)\<lparr>i_used_files :=
                      (if i_used_files (fs_info f1) > 0 then i_used_files (fs_info f1) - 1
                       else i_used_files (fs_info f1))\<rparr>\<rparr>), s1))"

definition fs_fsck :: "'s blockdev \<Rightarrow> fs \<Rightarrow> 's \<Rightarrow> int \<times> fs \<times> 's" where
  "fs_fsck dev f s =
     (case fs_load_superblock dev s of
        (None, s1) \<Rightarrow> (-1, f, s1)
      | (Some sb, s1) \<Rightarrow>
          if sb_magic sb \<noteq> FS_MAGIC_VALUE \<or> sb_version sb \<noteq> FS_VERSION then (-1, f, s1)
          else case fs_load_table dev (fs_disk_entries f) s1 of
            (None, s2) \<Rightarrow> (-1, f, s2)
          | (Some es, s2) \<Rightarrow> (0, f\<lparr>fs_disk_entries := es\<rparr>, s2))"

end
