(* ===== verification/FsLemmas.thy ===== *)
theory FsLemmas
  imports Fs
begin

text \<open>
  Facts about single file system functions: name comparison, the encoding of
  entries and of the table sector, the registry interface of the directory,
  block arithmetic, the first free block and the block-writing loop.
\<close>

section \<open>Names\<close>

lemma cstr_length_le: "cget a k = NUL \<Longrightarrow> length (cstr a) \<le> k"
  using cget_cstr [of k a] by (meson not_less)

lemma cstr_eq_upto:
  "(\<forall>j \<le> k. cget a j = cget b j) \<Longrightarrow> cget a k = NUL \<Longrightarrow> cstr a = cstr b"
proof (induction k arbitrary: a b)
  case 0
  then show ?case using cstr_eq_Nil_iff [of a] cstr_eq_Nil_iff [of b] by simp
next
  case (Suc k)
  show ?case
  proof (cases "cget a 0 = NUL")
    case True
    then show ?thesis using Suc.prems(1) cstr_eq_Nil_iff [of a] cstr_eq_Nil_iff [of b] by auto
  next
    case False
    then have "cget b 0 \<noteq> NUL" "cget a 0 = cget b 0" using Suc.prems(1) by auto
    with False obtain c a' b' where ab: "a = c # a'" "b = c # b'" by (cases a; cases b) auto
    have "\<forall>j \<le> k. cget a' j = cget b' j"
      using Suc.prems(1) ab by (metis Suc_le_mono cget_Cons_Suc)
    then show ?thesis using Suc.IH [of a' b'] Suc.prems(2) ab by (simp add: cstr_Cons)
  qed
qed

lemma cstr_eq_chars: "cstr a = cstr b \<Longrightarrow> j \<le> length (cstr a) \<Longrightarrow> cget a j = cget b j"
  using cget_cstr [of j a] cget_cstr [of j b] cget_length_cstr [of a] cget_length_cstr [of b]
  by (cases "j = length (cstr a)") auto

lemma name_equals_loop_iff:
  "i \<le> 16 \<Longrightarrow> (\<forall>j < i. cget a j = cget b j \<and> cget a j \<noteq> NUL) \<Longrightarrow>
   name_equals_loop a b i \<longleftrightarrow> (\<exists>k < 16. (\<forall>j \<le> k. cget a j = cget b j) \<and> cget a k = NUL)"
proof (induction a b i rule: name_equals_loop.induct)
  case (1 a b i)
  show ?case
  proof (cases "i < 16")
    case False
    then have i: "i = 16" using "1.prems"(1) by simp
    have "name_equals_loop a b 16 \<longleftrightarrow> cget b 15 = NUL"
      by (subst name_equals_loop.simps) (simp add: FS_NAME_MAX_def)
    moreover have "cget b 15 \<noteq> NUL" using "1.prems"(2) [rule_format, of 15] i by auto
    ultimately show ?thesis using "1.prems"(2) i by auto
  next
    case True
    show ?thesis
    proof (cases "cget a i = cget b i \<and> cget a i \<noteq> NUL")
      case True
      then have "name_equals_loop a b i = name_equals_loop a b (i + 1)"
        using \<open>i < 16\<close> by (subst name_equals_loop.simps) (auto simp: FS_NAME_MAX_def)
      moreover have "\<forall>j < i + 1. cget a j = cget b j \<and> cget a j \<noteq> NUL"
        using True "1.prems"(2) by (auto simp: less_Suc_eq)
      with True \<open>i < 16\<close> have "name_equals_loop a b (i + 1) \<longleftrightarrow>
          (\<exists>k < 16. (\<forall>j \<le> k. cget a j = cget b j) \<and> cget a k = NUL)"
        by (intro "1.IH") (auto simp: FS_NAME_MAX_def)
      ultimately show ?thesis by simp
    next
      case stop: False
      have "name_equals_loop a b i \<longleftrightarrow> cget a i = cget b i \<and> cget a i = NUL"
        using \<open>i < 16\<close> stop by (subst name_equals_loop.simps) (auto simp: FS_NAME_MAX_def)
      also have "\<dots> \<longleftrightarrow> (\<exists>k < 16. (\<forall>j \<le> k. cget a j = cget b j) \<and> cget a k = NUL)"
      proof
        assume "cget a i = cget b i \<and> cget a i = NUL"
        then show "\<exists>k < 16. (\<forall>j \<le> k. cget a j = cget b j) \<and> cget a k = NUL"
          using \<open>i < 16\<close> "1.prems"(2) by (metis le_neq_implies_less)
      next
        assume "\<exists>k < 16. (\<forall>j \<le> k. cget a j = cget b j) \<and> cget a k = NUL"
        then obtain k where k: "\<forall>j \<le> k. cget a j = cget b j" "cget a k = NUL" by blast
        then have "i \<le> k" using "1.prems"(2) by (meson not_le)
        then show "cget a i = cget b i \<and> cget a i = NUL" using k stop by blast
      qed
      finally show ?thesis .
    qed
  qed
qed

lemma name_equals_iff: "fs_name_equals a b \<longleftrightarrow> length (cstr a) < 16 \<and> cstr a = cstr b"
proof -
  have "fs_name_equals a b \<longleftrightarrow> (\<exists>k < 16. (\<forall>j \<le> k. cget a j = cget b j) \<and> cget a k = NUL)"
    unfolding fs_name_equals_def by (rule name_equals_loop_iff) auto
  also have "\<dots> \<longleftrightarrow> length (cstr a) < 16 \<and> cstr a = cstr b"
  proof
    assume "\<exists>k < 16. (\<forall>j \<le> k. cget a j = cget b j) \<and> cget a k = NUL"
    then obtain k where k: "k < 16" "\<forall>j \<le> k. cget a j = cget b j" "cget a k = NUL" by blast
    then show "length (cstr a) < 16 \<and> cstr a = cstr b"
      using cstr_eq_upto [OF k(2,3)] cstr_length_le [OF k(3)] by simp
  next
    assume *: "length (cstr a) < 16 \<and> cstr a = cstr b"
    then show "\<exists>k < 16. (\<forall>j \<le> k. cget a j = cget b j) \<and> cget a k = NUL"
      using cstr_eq_chars [of a b] cget_length_cstr [of a]
      by (intro exI [of _ "length (cstr a)"]) auto
  qed
  finally show ?thesis .
qed

section \<open>The directory as a registry\<close>

text \<open>
  An entry's key is its name; a name without terminator, which only a damaged
  disk can hold, has no key.
\<close>

definition entry_key :: "fs_disk_entry \<Rightarrow> string option" where
  "entry_key e = (if length (cstr (e_name e)) < 16 then Some (cstr (e_name e)) else None)"

interpretation fsd: slot_table used_entry entry_key "\<lambda>name. Some (cstr name)"
    fs_find_entry fs_find_free_entry
proof (rule slot_tableI)
  fix es :: "fs_disk_entry list" and name
  show "fs_find_entry es name = first_index (\<lambda>e. used_entry e \<and> entry_key e = Some (cstr name)) es"
    unfolding fs_find_entry_def by (intro first_index_cong) (auto simp: name_equals_iff entry_key_def)
qed (simp add: fs_find_free_entry_def)

section \<open>Encoding\<close>

definition entry_wf :: "fs_disk_entry \<Rightarrow> bool" where
  "entry_wf e \<longleftrightarrow> length (e_name e) = 16 \<and> length (e_reserved e) = 11"

lemma un_le32_le32: "un_le32 (le32 w @ bs) = w"
  by (simp add: un_le32_def le32_def word32_of_bytes)

lemma bytes_chars_chars: "bytes_chars (chars_bytes cs) = cs"
proof -
  have "char_of (unat (of_char c :: u8)) = c" for c
  proof -
    have "(of_char c :: u8) = of_nat (of_char c)" by (rule of_nat_of_char [symmetric])
    then have "unat (of_char c :: u8) = of_char c"
      using nat_of_char_less_256 [of c]
      by (simp only: unat_of_nat take_bit_nat_eq_self) (simp add: take_bit_nat_eq_self)
    then show ?thesis by simp
  qed
  then show ?thesis by (simp add: bytes_chars_def chars_bytes_def comp_def)
qed

lemma length_le32 [simp]: "length (le32 w) = 4"
  by (simp add: le32_def)

lemma length_chars_bytes [simp]: "length (chars_bytes cs) = length cs"
  by (simp add: chars_bytes_def)

lemma length_entry_bytes: "entry_wf e \<Longrightarrow> length (entry_bytes e) = 36"
  by (simp add: entry_bytes_def entry_wf_def)

lemma entry_roundtrip: "entry_wf e \<Longrightarrow> bytes_entry (entry_bytes e @ rest) = e"
  by (simp add: bytes_entry_def entry_bytes_def entry_wf_def bytes_chars_chars un_le32_le32 nth_append)

lemma bytes_entry_take: "36 \<le> length bs \<Longrightarrow> bytes_entry (take 36 bs) = bytes_entry bs"
  by (simp add: bytes_entry_def un_le32_def min_def drop_take)

lemma length_table_bytes: "\<forall>e \<in> set es. entry_wf e \<Longrightarrow> length (table_bytes es) = 36 * length es"
  by (induction es) (simp_all add: table_bytes_def length_entry_bytes)

lemma drop_table_bytes:
  "\<forall>e \<in> set es. entry_wf e \<Longrightarrow> i \<le> length es \<Longrightarrow>
   drop (36 * i) (table_bytes es) = table_bytes (drop i es)"
proof (induction es arbitrary: i)
  case (Cons e es)
  then show ?case
    by (cases i) (simp_all add: table_bytes_def length_entry_bytes)
qed (simp add: table_bytes_def)

lemma table_at_index:
  assumes "\<forall>e \<in> set es. entry_wf e" "i < length es"
  shows "bytes_entry (drop (36 * i) (table_bytes es) @ rest) = es ! i"
proof -
  have "table_bytes (drop i es) = entry_bytes (es ! i) @ table_bytes (drop (Suc i) es)"
    using assms(2) by (simp add: table_bytes_def Cons_nth_drop_Suc [symmetric])
  then show ?thesis using assms by (simp add: drop_table_bytes entry_roundtrip)
qed

lemma bytes_entry_tail:
  assumes "drop 16 a = drop 16 b" "36 \<le> length a" "36 \<le> length b"
  shows "e_used (bytes_entry a) = e_used (bytes_entry b)"
    and "e_start_lba (bytes_entry a) = e_start_lba (bytes_entry b)"
    and "e_size_bytes (bytes_entry a) = e_size_bytes (bytes_entry b)"
    and "entry_wf (bytes_entry a)"
proof -
  have "drop 16 a ! 8 = drop 16 b ! 8" by (simp only: assms(1))
  then have "a ! 24 = b ! 24" using assms(2,3) by simp
  then show "e_used (bytes_entry a) = e_used (bytes_entry b)" by (simp add: bytes_entry_def)
  show "e_start_lba (bytes_entry a) = e_start_lba (bytes_entry b)"
    using assms(1) by (simp add: bytes_entry_def)
  have "drop 4 (drop 16 a) = drop 4 (drop 16 b)" by (simp only: assms(1))
  then have "drop 20 a = drop 20 b" by simp
  then show "e_size_bytes (bytes_entry a) = e_size_bytes (bytes_entry b)" by (simp add: bytes_entry_def)
  show "entry_wf (bytes_entry a)" using assms(2) by (simp add: entry_wf_def bytes_entry_def bytes_chars_def)
qed

text \<open>
  What is in memory after the table sector stored from \<open>es\<close> has been read over
  the encoding of \<open>old\<close>: the first 14 entries are those of \<open>es\<close>, the used
  fields of the others are those of \<open>old\<close>.
\<close>

lemma table_reload:
  assumes es: "\<forall>e \<in> set es. entry_wf e" "length es = 32"
    and old: "\<forall>e \<in> set old. entry_wf e" "length old = 32"
    and bs: "bs = take 512 (table_bytes es) @ drop 512 (table_bytes old)"
  shows "i < 14 \<Longrightarrow> bytes_table bs ! i = es ! i"
    and "14 \<le> i \<Longrightarrow> i < 32 \<Longrightarrow> used_entry (bytes_table bs ! i) = used_entry (old ! i) \<and>
          e_start_lba (bytes_table bs ! i) = e_start_lba (old ! i) \<and>
          e_size_bytes (bytes_table bs ! i) = e_size_bytes (old ! i) \<and> entry_wf (bytes_table bs ! i)"
    and "15 \<le> i \<Longrightarrow> i < 32 \<Longrightarrow> bytes_table bs ! i = old ! i"
    and "length (bytes_table bs) = 32"
proof -
  have len: "length (table_bytes es) = 1152" "length (table_bytes old) = 1152"
    using length_table_bytes [OF es(1)] length_table_bytes [OF old(1)] es(2) old(2) by simp_all
  then have lb: "length bs = 1152" by (simp add: bs)
  show "length (bytes_table bs) = 32" by (simp add: bytes_table_def FS_FILES_MAX_def)
  have at: "bytes_table bs ! i = bytes_entry (drop (36 * i) bs)" if "i < 32" for i
    using that by (simp add: bytes_table_def FS_FILES_MAX_def)
  show "bytes_table bs ! i = es ! i" if "i < 14"
  proof -
    have i: "36 * i + 36 \<le> 512" using that by simp
    have "take 36 (drop (36 * i) bs) = take 36 (drop (36 * i) (table_bytes es))"
      using i len unfolding bs by (simp add: drop_take min_def)
    then have "bytes_entry (drop (36 * i) bs) = bytes_entry (drop (36 * i) (table_bytes es))"
      using bytes_entry_take [of "drop (36 * i) bs"] bytes_entry_take [of "drop (36 * i) (table_bytes es)"]
        lb len i by simp
    then show ?thesis
      using at [of i] table_at_index [OF es(1), of i "[]"] es(2) that by simp
  qed
  have hi: "drop k bs = drop k (table_bytes old)" if "512 \<le> k" for k
    using that len unfolding bs by simp
  show "bytes_table bs ! i = old ! i" if "15 \<le> i" "i < 32"
    using at [OF that(2)] hi [of "36 * i"] table_at_index [OF old(1), of i "[]"] old(2) that by simp
  show "used_entry (bytes_table bs ! i) = used_entry (old ! i) \<and>
      e_start_lba (bytes_table bs ! i) = e_start_lba (old ! i) \<and>
      e_size_bytes (bytes_table bs ! i) = e_size_bytes (old ! i) \<and> entry_wf (bytes_table bs ! i)"
    if "14 \<le> i" "i < 32"
  proof -
    let ?b = "drop (36 * i) bs" and ?o = "drop (36 * i) (table_bytes old)"
    have k: "512 \<le> 16 + 36 * i" "36 \<le> length ?b" "36 \<le> length ?o" using that lb len by simp_all
    have tl: "drop 16 ?b = drop 16 ?o" using hi [OF k(1)] by simp
    have "bytes_entry ?o = old ! i"
      using table_at_index [OF old(1), of i "[]"] old(2) that by simp
    then show ?thesis
      using at [OF that(2)] bytes_entry_tail [OF tl k(2,3)] by (simp add: used_entry_def)
  qed
qed

lemma superblock_roundtrip:
  "length (sb_volume_label sb) = 17 \<Longrightarrow> bytes_superblock (superblock_bytes sb) = sb"
  by (simp add: bytes_superblock_def superblock_bytes_def un_le32_le32 bytes_chars_chars)

lemma length_superblock_bytes: "length (sb_volume_label sb) = 17 \<Longrightarrow> length (superblock_bytes sb) = 512"
  by (simp add: superblock_bytes_def)

section \<open>Blocks\<close>

definition nblocks :: "nat \<Rightarrow> nat" where
  "nblocks n = (n + 511) div 512"

lemma nblocks_bounds: "n \<le> nblocks n * 512" "nblocks n * 512 < n + 512"
  using round_up_bounds [of 512 n] by (simp_all add: nblocks_def)

lemma blocks_for_bytes: "unat sz \<le> 131072 \<Longrightarrow> unat (fs_blocks_for_bytes sz) = nblocks (unat sz)"
proof -
  assume sz: "unat sz \<le> 131072"
  have "sz + of_nat FS_BLOCK_SIZE - 1 = 511 + sz" by (simp add: FS_BLOCK_SIZE_def)
  moreover have "unat (511 + sz) = unat sz + 511" using sz by (subst unat_add_nowrap) simp_all
  ultimately show ?thesis
    by (simp add: fs_blocks_for_bytes_def unat_div nblocks_def FS_BLOCK_SIZE_def)
qed

lemma nblocks_mono_max: "n \<le> 131072 \<Longrightarrow> nblocks n \<le> 256"
  by (simp add: nblocks_def)

lemma length_block_sector: "i * 512 \<le> length dat \<Longrightarrow> length (block_sector dat i) = 512"
  by (simp add: block_sector_def FS_BLOCK_SIZE_def Let_def)

lemma concat_chunks: "concat (map (\<lambda>i. take 512 (drop (i * 512) xs)) [0..<k]) = take (k * 512) xs"
proof (induction k)
  case (Suc k)
  then show ?case using take_add [of "k * 512" 512 xs] by (simp add: add.commute)
qed simp

definition padded :: "u8 list \<Rightarrow> u8 list" where
  "padded dat = dat @ replicate (nblocks (length dat) * 512 - length dat) 0"

lemma length_padded: "length (padded dat) = nblocks (length dat) * 512"
  using nblocks_bounds(1) [of "length dat"] by (simp add: padded_def)

lemma block_sector_padded:
  assumes "i < nblocks (length dat)"
  shows "block_sector dat i = take 512 (drop (i * 512) (padded dat))" and "i * 512 \<le> length dat"
proof -
  let ?L = "length dat" and ?n = "nblocks (length dat)"
  have le: "(i + 1) * 512 \<le> ?n * 512" using assms by simp
  then show i: "i * 512 \<le> ?L" using nblocks_bounds(2) [of ?L] by simp
  show "block_sector dat i = take 512 (drop (i * 512) (padded dat))"
  proof (cases "(i + 1) * 512 > ?L")
    case True
    have "min 512 (?L - i * 512) = ?L - i * 512" "512 - (?L - i * 512) \<le> ?n * 512 - ?L"
      using True le i by auto
    then show ?thesis
      using True i by (simp add: block_sector_def FS_BLOCK_SIZE_def Let_def padded_def min_def)
  next
    case False
    then show ?thesis by (simp add: block_sector_def FS_BLOCK_SIZE_def Let_def padded_def)
  qed
qed

lemma concat_block_sectors:
  "concat (map (block_sector dat) [0..<nblocks (length dat)]) = padded dat"
proof -
  have "map (block_sector dat) [0..<nblocks (length dat)] =
      map (\<lambda>i. take 512 (drop (i * 512) (padded dat))) [0..<nblocks (length dat)]"
    using block_sector_padded(1) by simp
  then show ?thesis using length_padded [of dat] by (simp only: concat_chunks) simp
qed

section \<open>The next free block\<close>

definition extent_end :: "fs_disk_entry \<Rightarrow> nat" where
  "extent_end e = unat (e_start_lba e) + nblocks (unat (e_size_bytes e))"

definition extent_ok :: "nat \<Rightarrow> fs_disk_entry \<Rightarrow> bool" where
  "extent_ok cap e \<longleftrightarrow> unat (e_size_bytes e) \<le> 131072 \<and> extent_end e \<le> cap"

lemma end_word:
  assumes "extent_ok cap e" "cap \<le> 2 ^ 28"
  shows "unat (e_start_lba e + fs_blocks_for_bytes (e_size_bytes e)) = extent_end e"
proof -
  have b: "unat (fs_blocks_for_bytes (e_size_bytes e)) = nblocks (unat (e_size_bytes e))"
    using assms(1) by (simp add: extent_ok_def blocks_for_bytes)
  have "extent_end e < 2 ^ 32" using assms by (simp add: extent_ok_def)
  then show ?thesis using b by (subst unat_add_nowrap) (simp_all add: extent_end_def)
qed

lemma next_free_fold:
  assumes "cap \<le> 2 ^ 28" "\<forall>e \<in> set es. used_entry e \<longrightarrow> extent_ok cap e"
  shows "let r = fold (\<lambda>e next. if \<not> used_entry e then next
            else let fin = e_start_lba e + fs_blocks_for_bytes (e_size_bytes e)
                 in if fin > next then fin else next) es d
    in unat d \<le> unat r \<and> (\<forall>e \<in> set es. used_entry e \<longrightarrow> extent_end e \<le> unat r) \<and>
       (r = d \<or> (\<exists>e \<in> set es. used_entry e \<and> unat r = extent_end e))"
  using assms(2)
proof (induction es arbitrary: d)
  case (Cons e es)
  let ?fin = "e_start_lba e + fs_blocks_for_bytes (e_size_bytes e)"
  let ?d = "if \<not> used_entry e then d else if ?fin > d then ?fin else d"
  have fin: "used_entry e \<Longrightarrow> unat ?fin = extent_end e"
    using Cons.prems end_word [of cap e] assms(1) by simp
  have IH: "let r = fold (\<lambda>e next. if \<not> used_entry e then next
            else let fin = e_start_lba e + fs_blocks_for_bytes (e_size_bytes e)
                 in if fin > next then fin else next) es ?d
    in unat ?d \<le> unat r \<and> (\<forall>e \<in> set es. used_entry e \<longrightarrow> extent_end e \<le> unat r) \<and>
       (r = ?d \<or> (\<exists>e \<in> set es. used_entry e \<and> unat r = extent_end e))"
    using Cons by simp
  have "unat d \<le> unat ?d" "used_entry e \<Longrightarrow> extent_end e \<le> unat ?d"
    using fin by (auto simp: word_less_nat_alt)
  moreover have "?d = d \<or> used_entry e \<and> unat ?d = extent_end e" using fin by auto
  ultimately show ?case using IH unfolding Let_def fold_simps by (auto simp: Let_def)
qed simp

section \<open>Writing blocks to a device\<close>

context block_device
begin

lemma write_blocks_spec:
  assumes "ok s" "bd_present dev s"
    and "\<forall>i \<in> set xs. unat start + i < capacity \<and> i * 512 \<le> length dat"
  shows "\<exists>s'. write_blocks dev start dat xs s = (0, s') \<and> ok s' \<and> bd_present dev s' \<and>
    store s' = (\<lambda>n. if \<exists>i \<in> set xs. n = unat start + i then block_sector dat (n - unat start) else store s n)"
  using assms
proof (induction xs arbitrary: s)
  case (Cons i xs)
  have i: "unat start + i < capacity" "length (block_sector dat i) = 512"
    using Cons.prems(3) by (simp_all add: length_block_sector)
  have "unat start + i < 2 ^ 32" using i(1) capacity_bound [OF Cons.prems(1)] by simp
  then have u: "unat (start + of_nat i) = unat start + i"
    by (intro unat_add_of_nat_lt) simp
  obtain s1 where s1: "bd_write dev (start + of_nat i) (block_sector dat i) s = (0, s1)" "ok s1"
      "store s1 = (store s)(unat (start + of_nat i) := block_sector dat i)" "bd_present dev s1"
    using write_success [OF Cons.prems(1,2) i(2), of "start + of_nat i"] i(1) u by metis
  obtain s' where s': "write_blocks dev start dat xs s1 = (0, s')" "ok s'" "bd_present dev s'"
      "store s' = (\<lambda>n. if \<exists>i \<in> set xs. n = unat start + i then block_sector dat (n - unat start) else store s1 n)"
    using Cons.IH [OF s1(2,4)] Cons.prems(3) by auto
  have "store s' = (\<lambda>n. if \<exists>i \<in> set (i # xs). n = unat start + i then block_sector dat (n - unat start) else store s n)"
    using s'(4) s1(3) u by (auto simp: fun_eq_iff)
  then show ?case using s1(1) s' by auto
qed simp

lemma write_blocks_append:
  "write_blocks dev start dat (xs @ ys) s =
     (case write_blocks dev start dat xs s of (r, s') \<Rightarrow> if r \<noteq> 0 then (-1, s') else write_blocks dev start dat ys s')"
  by (induction xs arbitrary: s) (simp_all split: prod.split)

text \<open>Running off the end of the device: the blocks that fit are written, the next one fails.\<close>

lemma write_blocks_beyond:
  assumes "ok s" "bd_present dev s" and over: "capacity < unat start + nblocks (length dat)"
    and start: "unat start \<le> capacity"
  obtains s' where "write_blocks dev start dat [0..<nblocks (length dat)] s = (-1, s')"
    "\<And>n. n < unat start \<Longrightarrow> store s' n = store s n"
proof -
  let ?n = "nblocks (length dat)" and ?m = "capacity - unat start"
  have m: "?m < ?n" using over start by linarith
  have "\<forall>i \<in> set [0..<?m]. unat start + i < capacity \<and> i * 512 \<le> length dat"
    using m block_sector_padded(2) by auto
  from write_blocks_spec [OF assms(1,2) this] obtain s1 where
    s1: "write_blocks dev start dat [0..<?m] s = (0, s1)" "ok s1" "bd_present dev s1"
      "store s1 = (\<lambda>n. if \<exists>i \<in> set [0..<?m]. n = unat start + i then block_sector dat (n - unat start) else store s n)"
    by blast
  obtain w s2 where w: "bd_write dev (start + of_nat ?m) (block_sector dat ?m) s1 = (w, s2)" by fastforce
  have "unat start + ?m < 2 ^ 32" using start capacity_bound [OF assms(1)] by simp
  then have "unat (start + of_nat ?m) = unat start + ?m" by (intro unat_add_of_nat_lt) simp
  then have big: "capacity \<le> unat (start + of_nat ?m)" using start by simp
  have lb: "length (block_sector dat ?m) = 512"
    using m block_sector_padded(2) [of ?m dat] by (simp add: length_block_sector)
  have "w \<noteq> 0" "store s2 = store s1" using write_beyond [OF s1(2,3) lb big w] by simp_all
  moreover have "[0..<?n] = [0..<?m] @ ?m # [Suc ?m..<?n]"
    using m upt_conv_Cons [of ?m ?n] upt_add_eq_append [of 0 ?m "?n - ?m"] by simp
  ultimately have "write_blocks dev start dat [0..<?n] s = (-1, s2)"
    using s1(1) w by (simp add: write_blocks_append)
  then show ?thesis using that [of s2] \<open>store s2 = store s1\<close> s1(4) by auto
qed

lemma write_file_blocks:
  assumes "ok s" "bd_present dev s" and fit: "unat start + nblocks (length dat) \<le> capacity"
  obtains s' where "write_blocks dev start dat [0..<nblocks (length dat)] s = (0, s')" "ok s'"
    "bd_present dev s'"
    "sectors_data (store s') (unat start) (nblocks (length dat)) = padded dat"
    "\<And>n. n < unat start \<or> unat start + nblocks (length dat) \<le> n \<Longrightarrow> store s' n = store s n"
proof -
  let ?n = "nblocks (length dat)"
  have "\<forall>i \<in> set [0..<?n]. unat start + i < capacity \<and> i * 512 \<le> length dat"
    using fit block_sector_padded(2) by auto
  from write_blocks_spec [OF assms(1,2) this] obtain s' where
    s': "write_blocks dev start dat [0..<?n] s = (0, s')" "ok s'" "bd_present dev s'"
      "store s' = (\<lambda>n. if \<exists>i \<in> set [0..<?n]. n = unat start + i then block_sector dat (n - unat start) else store s n)"
    by blast
  have "map (store s') [unat start..<unat start + ?n] = map (block_sector dat) [0..<?n]"
    by (rule nth_equalityI) (auto simp: s'(4))
  then have "sectors_data (store s') (unat start) ?n = padded dat"
    by (simp add: sectors_data_def concat_block_sectors)
  moreover have "store s' n = store s n" if "n < unat start \<or> unat start + ?n \<le> n" for n
    using that s'(4) by auto
  ultimately show ?thesis using that [OF s'(1-3)] by blast
qed

end

end
