(* ===== verification/FsCorrect.thy ===== *)
theory FsCorrect
  imports FsLemmas
begin

text \<open>
  The file system against its specification, a map from names to contents.  The
  invariant says what every state reached through the operations looks like;
  each operation is shown to act on the map as its name says, on any device
  that keeps the promises of the block device interface.
\<close>

section \<open>The invariant and the abstraction\<close>

definition extents_disjoint :: "fs_disk_entry list \<Rightarrow> bool" where
  "extents_disjoint es \<longleftrightarrow>
     (\<forall>i < length es. \<forall>j < length es. i \<noteq> j \<longrightarrow> used_entry (es ! i) \<longrightarrow> used_entry (es ! j) \<longrightarrow>
        extent_end (es ! i) \<le> unat (e_start_lba (es ! j)) \<or>
        extent_end (es ! j) \<le> unat (e_start_lba (es ! i)))"

definition dir_entry_ok :: "nat \<Rightarrow> fs_disk_entry \<Rightarrow> bool" where
  "dir_entry_ok cap e \<longleftrightarrow> entry_wf e \<and> extent_ok cap e \<and>
     (if used_entry e then length (cstr (e_name e)) < 16 \<and> 4098 \<le> unat (e_start_lba e)
      else e_start_lba e = 0 \<and> e_size_bytes e = 0)"

definition dir_ok :: "nat \<Rightarrow> fs_disk_entry list \<Rightarrow> bool" where
  "dir_ok cap es \<longleftrightarrow> length es = 32 \<and> (\<forall>e \<in> set es. dir_entry_ok cap e) \<and>
     keys_distinct used_entry entry_key es \<and> extents_disjoint es"

definition fs_inv :: "nat \<Rightarrow> fs \<Rightarrow> bool" where
  "fs_inv cap f \<longleftrightarrow> dir_ok cap (fs_disk_entries f) \<and>
     i_mounted (fs_info f) \<and> i_data_start_lba (fs_info f) = 4098 \<and>
     i_used_files (fs_info f) = of_nat (count_used used_entry (fs_disk_entries f)) \<and>
     fs_cache f = map sync_entry (fs_disk_entries f)"

definition entry_data :: "(nat \<Rightarrow> u8 list) \<Rightarrow> fs_disk_entry \<Rightarrow> u8 list" where
  "entry_data st e = take (unat (e_size_bytes e))
     (sectors_data st (unat (e_start_lba e)) (nblocks (unat (e_size_bytes e))))"

definition dir_files :: "(nat \<Rightarrow> u8 list) \<Rightarrow> fs_disk_entry list \<Rightarrow> string \<Rightarrow> u8 list option" where
  "dir_files st es name = map_option (entry_data st) (tab_of used_entry entry_key es (Some name))"

definition free_block :: "fs_disk_entry list \<Rightarrow> nat" where
  "free_block es = Max (insert 4098 (extent_end ` {e \<in> set es. used_entry e}))"

lemma dir_okD:
  assumes "dir_ok cap es"
  shows "length es = 32" "e \<in> set es \<Longrightarrow> dir_entry_ok cap e" "e \<in> set es \<Longrightarrow> entry_wf e"
    "e \<in> set es \<Longrightarrow> extent_ok cap e" "keys_distinct used_entry entry_key es" "extents_disjoint es"
  using assms by (auto simp: dir_ok_def dir_entry_ok_def)

lemma end_le_free: "e \<in> set es \<Longrightarrow> used_entry e \<Longrightarrow> extent_end e \<le> free_block es"
  by (simp add: free_block_def)

lemma free_block_ge: "4098 \<le> free_block es"
  by (simp add: free_block_def)

lemma next_free_eq:
  assumes "cap \<le> 2 ^ 28" "\<forall>e \<in> set (fs_disk_entries f). used_entry e \<longrightarrow> extent_ok cap e"
    and "i_data_start_lba (fs_info f) = 4098"
  shows "unat (fs_next_free_lba f) = free_block (fs_disk_entries f)"
proof -
  let ?es = "fs_disk_entries f" and ?r = "fs_next_free_lba f"
  have r: "4098 \<le> unat ?r" "\<forall>e \<in> set ?es. used_entry e \<longrightarrow> extent_end e \<le> unat ?r"
      "?r = 4098 \<or> (\<exists>e \<in> set ?es. used_entry e \<and> unat ?r = extent_end e)"
    using next_free_fold [OF assms(1,2), of 4098] by (simp_all add: Let_def fs_next_free_lba_def assms(3))
  show ?thesis
    unfolding free_block_def
  proof (rule Max_eqI [symmetric])
    show "unat ?r \<in> insert 4098 (extent_end ` {e \<in> set ?es. used_entry e})" using r(3) by auto
  qed (use r(1,2) in auto)
qed

lemma key_used:
  "dir_ok cap es \<Longrightarrow> e \<in> set es \<Longrightarrow> used_entry e \<Longrightarrow> entry_key e = Some (cstr (e_name e))"
  using dir_okD(2) [of cap es e] by (simp add: dir_entry_ok_def entry_key_def)

text \<open>The contents only depend on the sectors below the first free block.\<close>

lemma dir_files_cong:
  assumes "dir_ok cap es" "\<And>n. 4098 \<le> n \<Longrightarrow> n < free_block es \<Longrightarrow> st' n = st n"
  shows "dir_files st' es name = dir_files st es name"
proof (cases "tab_of used_entry entry_key es (Some name)")
  case (Some e)
  then have e: "e \<in> set es" "used_entry e" using tab_of_SomeD by fastforce+
  have "4098 \<le> unat (e_start_lba e)" using dir_okD(2) [OF assms(1) e(1)] e(2) by (simp add: dir_entry_ok_def)
  moreover have "unat (e_start_lba e) + nblocks (unat (e_size_bytes e)) \<le> free_block es"
    using end_le_free [OF e] by (simp add: extent_end_def)
  ultimately have "sectors_data st' (unat (e_start_lba e)) (nblocks (unat (e_size_bytes e))) =
      sectors_data st (unat (e_start_lba e)) (nblocks (unat (e_size_bytes e)))"
    by (intro sectors_data_cong) (simp add: assms(2))
  with Some show ?thesis by (simp add: dir_files_def entry_data_def)
qed (simp add: dir_files_def)

section \<open>Storing an entry\<close>

text \<open>
  The directory after an entry with a fresh extent at the first free block has
  replaced the one found for its name, or a free one.
\<close>

lemma store_entry:
  assumes ok: "dir_ok cap es" and name: "length (cstr name) < 16"
    and slot: "fs_find_entry es name = Some i \<or> fs_find_entry es name = None \<and> fs_find_free_entry es = Some i"
    and e: "used_entry e" "cstr (e_name e) = cstr name" "entry_wf e"
      "unat (e_start_lba e) = free_block es" "extent_ok cap e"
  shows "dir_ok cap (es[i := e])" and "i < 32"
    and "tab_of used_entry entry_key (es[i := e]) = (tab_of used_entry entry_key es)(Some (cstr name) \<mapsto> e)"
proof -
  have i: "i < length es" using slot fsd.find_slot_hit fsd.find_free_hit by blast
  then show "i < 32" using dir_okD(1) [OF ok] by simp
  have key: "entry_key e = Some (cstr name)" using e(2) name by (simp add: entry_key_def)
  have dist: "keys_distinct used_entry entry_key (es[i := e]) \<and>
      tab_of used_entry entry_key (es[i := e]) = (tab_of used_entry entry_key es)(Some (cstr name) \<mapsto> e)"
    using slot fsd.overwrite_slot [OF dir_okD(5) [OF ok] _ e(1) key]
      fsd.insert_slot [OF dir_okD(5) [OF ok] _ _ e(1) key] by blast
  then show "tab_of used_entry entry_key (es[i := e]) = (tab_of used_entry entry_key es)(Some (cstr name) \<mapsto> e)"
    by simp
  have all: "\<forall>x \<in> set (es[i := e]). dir_entry_ok cap x"
    using dir_okD(2) [OF ok] e name free_block_ge [of es] set_update_subset_insert [of es i e]
    by (auto simp: dir_entry_ok_def)
  have "extents_disjoint (es[i := e])"
    unfolding extents_disjoint_def
  proof (intro allI impI)
    fix a b
    assume ab: "a < length (es[i := e])" "b < length (es[i := e])" "a \<noteq> b"
      "used_entry (es[i := e] ! a)" "used_entry (es[i := e] ! b)"
    have old: "extent_end (es ! k) \<le> unat (e_start_lba e)" if "k < length es" "k \<noteq> i" "used_entry (es ! k)" for k
      using end_le_free [of "es ! k" es] that e(4) by simp
    show "extent_end (es[i := e] ! a) \<le> unat (e_start_lba (es[i := e] ! b)) \<or>
        extent_end (es[i := e] ! b) \<le> unat (e_start_lba (es[i := e] ! a))"
      using ab old [of a] old [of b] dir_okD(6) [OF ok]
      by (cases "a = i"; cases "b = i") (auto simp: extents_disjoint_def)
  qed
  with dist all show "dir_ok cap (es[i := e])" using dir_okD(1) [OF ok] by (simp add: dir_ok_def)
qed

lemma clear_entry:
  assumes ok: "dir_ok cap es" and i: "fs_find_entry es name = Some i"
  shows "dir_ok cap (es[i := zero_entry])"
    and "tab_of used_entry entry_key (es[i := zero_entry]) =
      (tab_of used_entry entry_key es)(Some (cstr name) := None)"
proof -
  have z: "\<not> used_entry zero_entry" "dir_entry_ok cap zero_entry"
    by (simp_all add: used_entry_def zero_entry_def dir_entry_ok_def entry_wf_def extent_ok_def
        extent_end_def nblocks_def FS_NAME_MAX_def)
  note r = fsd.release_slot [OF dir_okD(5) [OF ok] i z(1)]
  then show "tab_of used_entry entry_key (es[i := zero_entry]) =
      (tab_of used_entry entry_key es)(Some (cstr name) := None)" by simp
  have "\<forall>x \<in> set (es[i := zero_entry]). dir_entry_ok cap x"
    using dir_okD(2) [OF ok] z(2) set_update_subset_insert [of es i zero_entry] by blast
  moreover have "es[i := zero_entry] ! k = es ! k"
    if "k < length es" "used_entry (es[i := zero_entry] ! k)" for k
    using that z(1) by (cases "i = k") auto
  then have "extents_disjoint (es[i := zero_entry])"
    using dir_okD(6) [OF ok] unfolding extents_disjoint_def by (metis length_list_update)
  ultimately show "dir_ok cap (es[i := zero_entry])"
    using r(1) dir_okD(1) [OF ok] by (simp add: dir_ok_def)
qed

lemma length_table_sector:
  "dir_ok cap es \<Longrightarrow> length (take 512 (table_bytes es)) = 512"
  using length_table_bytes [of es] dir_okD(1,3) [of cap es] by simp

lemma claim_entry:
  assumes dir: "dir_ok cap es" and name: "length (cstr name) < 16"
    and c: "fs_claim_entry es name = Some (i, es1)"
  shows "fs_find_entry es name = Some i \<or> fs_find_entry es name = None \<and> fs_find_free_entry es = Some i"
    and "i < length es"
    and "used_entry (es1 ! i)" "cstr (e_name (es1 ! i)) = cstr name" "entry_wf (es1 ! i)"
    and "es1[i := y] = es[i := y]"
    and "\<forall>e \<in> set es1. used_entry e \<longrightarrow> extent_ok cap e"
    and "free_block es1 = free_block es"
proof -
  show s: "fs_find_entry es name = Some i \<or> fs_find_entry es name = None \<and> fs_find_free_entry es = Some i"
    using c by (auto simp: fs_claim_entry_def split: option.splits)
  then show i: "i < length es" using fsd.find_slot_hit fsd.find_free_hit by blast
  have e: "dir_entry_ok cap (es ! i)" "entry_wf (es ! i)" "extent_ok cap (es ! i)"
    using dir_okD(2-4) [OF dir] i by simp_all
  let ?x = "(es ! i)\<lparr>e_name := fs_copy_name (e_name (es ! i)) name, e_used := 1\<rparr>"
  have "es1 = es \<and> used_entry (es ! i) \<and> cstr (e_name (es ! i)) = cstr name \<or>
      es1 = es[i := ?x] \<and> \<not> used_entry (es ! i)"
  proof (cases "fs_find_entry es name")
    case None
    then show ?thesis using c s fsd.find_free_hit [of es i] by (auto simp: fs_claim_entry_def)
  next
    case (Some j)
    then have "es1 = es" "j = i" using c by (simp_all add: fs_claim_entry_def)
    then show ?thesis using fsd.find_slot_hit [OF Some] by (auto simp: entry_key_def split: if_splits)
  qed
  then consider "es1 = es" "used_entry (es ! i)" "cstr (e_name (es ! i)) = cstr name"
    | "es1 = es[i := ?x]" "\<not> used_entry (es ! i)" by blast
  then have "used_entry (es1 ! i) \<and> cstr (e_name (es1 ! i)) = cstr name \<and> entry_wf (es1 ! i) \<and>
      es1[i := y] = es[i := y] \<and> (\<forall>e \<in> set es1. used_entry e \<longrightarrow> extent_ok cap e) \<and>
      free_block es1 = free_block es"
  proof cases
    case 1
    then show ?thesis using e dir_okD(4) [OF dir] by simp
  next
    case 2
    have n: "length (e_name (es ! i)) = 16" "e_name (es ! i) \<noteq> []" using e(2) by (auto simp: entry_wf_def)
    have x: "used_entry ?x" "extent_end ?x = 0" "extent_ok cap ?x"
      using 2(2) e(1) by (simp_all add: used_entry_def dir_entry_ok_def extent_end_def extent_ok_def nblocks_def)
    have "used_entry (es1 ! i)" using 2 i x by simp
    moreover have "cstr (e_name (es1 ! i)) = cstr name"
      using 2 i n name by (simp add: fs_copy_name_def cstr_copy_text)
    moreover have "entry_wf (es1 ! i)" using 2 i e(2) by (simp add: entry_wf_def fs_copy_name_def)
    moreover have "es1[i := y] = es[i := y]" using 2 by simp
    moreover have "\<forall>e \<in> set es1. used_entry e \<longrightarrow> extent_ok cap e"
      using 2(1) x(3) dir_okD(4) [OF dir] set_update_subset_insert [of es i ?x] by auto
    moreover have sub: "{e \<in> set es1. used_entry e} \<subseteq> insert ?x {e \<in> set es. used_entry e}"
        "{e \<in> set es. used_entry e} \<subseteq> {e \<in> set es1. used_entry e}"
    proof -
      show "{e \<in> set es1. used_entry e} \<subseteq> insert ?x {e \<in> set es. used_entry e}"
        using 2(1) set_update_subset_insert [of es i ?x] by auto
      show "{e \<in> set es. used_entry e} \<subseteq> {e \<in> set es1. used_entry e}"
      proof
        fix z assume "z \<in> {e \<in> set es. used_entry e}"
        then obtain k where "k < length es" "es ! k = z" "used_entry z" by (auto simp: in_set_conv_nth)
        then show "z \<in> {e \<in> set es1. used_entry e}"
          using 2 by (cases "k = i") (auto simp: in_set_conv_nth intro: exI [of _ k])
      qed
    qed
    moreover have "free_block es1 = free_block es"
    proof (rule antisym)
      show "free_block es1 \<le> free_block es"
        unfolding free_block_def [of es1]
        using sub(1) x(2) free_block_ge [of es] end_le_free [of _ es]
        by (intro Max.boundedI) auto
      show "free_block es \<le> free_block es1"
        unfolding free_block_def using sub(2) by (intro Max_mono) auto
    qed
    ultimately show ?thesis by blast
  qed
  then show "used_entry (es1 ! i)" "cstr (e_name (es1 ! i)) = cstr name" "entry_wf (es1 ! i)"
      "es1[i := y] = es[i := y]" "\<forall>e \<in> set es1. used_entry e \<longrightarrow> extent_ok cap e"
      "free_block es1 = free_block es"
    by blast+
qed

section \<open>Operations on a device\<close>

context block_device
begin

lemma table_written:
  assumes "ok s" "bd_present dev s" "dir_ok cap es" "4097 < capacity"
  obtains s' where "fs_store_table dev es s = (0, s')" "ok s'" "bd_present dev s'"
    "store s' = (store s)(4097 := take 512 (table_bytes es))"
proof -
  have "unat FS_TABLE_LBA = 4097" by (simp add: FS_TABLE_LBA_def)
  with write_success [OF assms(1,2) length_table_sector [OF assms(3)], of FS_TABLE_LBA] assms(4) that
  show ?thesis by (simp add: fs_store_table_def) metis
qed

lemma write_file:
  assumes dev_s: "ok s" "bd_present dev s" and inv: "fs_inv capacity f"
    and name: "length (cstr name) < 16" and len: "length dat \<le> 131072"
    and slot: "fs_find_entry (fs_disk_entries f) name \<noteq> None \<or> fs_find_free_entry (fs_disk_entries f) \<noteq> None"
    and space: "free_block (fs_disk_entries f) + nblocks (length dat) \<le> capacity"
  obtains f' s' where "fs_write_file dev name dat f s = (0, f', s')" "fs_inv capacity f'" "ok s'"
    "bd_present dev s'" "store s' 4097 = take 512 (table_bytes (fs_disk_entries f'))"
    "store s' 4096 = store s 4096" "fs_info f' = (fs_info f)\<lparr>i_used_files := i_used_files (fs_info f')\<rparr>"
    "dir_files (store s') (fs_disk_entries f') =
      (dir_files (store s) (fs_disk_entries f))(cstr name \<mapsto> dat)"
proof -
  let ?es = "fs_disk_entries f" and ?n = "nblocks (length dat)"
  have dir: "dir_ok capacity ?es" and mounted: "i_mounted (fs_info f)"
    and start: "i_data_start_lba (fs_info f) = 4098"
    using inv by (auto simp: fs_inv_def)
  have cap: "capacity \<le> 2 ^ 28" using capacity_bound [OF dev_s(1)] .
  obtain i es1 where fnd: "fs_claim_entry ?es name = Some (i, es1)"
    using slot by (cases "fs_find_entry ?es name"; cases "fs_find_free_entry ?es")
      (auto simp: fs_claim_entry_def)
  note x = claim_entry [OF dir name fnd]
  have sl: "fs_find_entry ?es name = Some i \<or> fs_find_entry ?es name = None \<and> fs_find_free_entry ?es = Some i"
    by (rule x(1))
  let ?x = "es1 ! i"
  define f1 where "f1 = f\<lparr>fs_disk_entries := es1\<rparr>"
  have N: "unat (fs_next_free_lba f1) = free_block ?es"
    using next_free_eq [OF cap, of f1] start x(7,8) by (simp add: f1_def)
  have sz: "unat (of_nat (length dat) :: u32) = length dat"
    using len by (simp add: unat_of_nat take_bit_nat_eq_self)
  have nb: "unat (fs_blocks_for_bytes (of_nat (length dat))) = ?n"
    using blocks_for_bytes [of "of_nat (length dat)"] sz len by simp
  define e where "e = ?x\<lparr>e_start_lba := fs_next_free_lba f1, e_size_bytes := of_nat (length dat)\<rparr>"
  have e: "used_entry e" "cstr (e_name e) = cstr name" "entry_wf e" "unat (e_start_lba e) = free_block ?es"
      "extent_ok capacity e" "unat (e_size_bytes e) = length dat"
    using x(3-5) N sz len space
    by (simp_all add: e_def used_entry_def entry_wf_def extent_ok_def extent_end_def)
  let ?es2 = "?es[i := e]"
  note st = store_entry [OF dir name sl e(1-5)]
  obtain s1 where s1: "write_blocks dev (fs_next_free_lba f1) dat [0..<?n] s = (0, s1)" "ok s1"
      "bd_present dev s1" "sectors_data (store s1) (free_block ?es) ?n = padded dat"
      "\<And>n. n < free_block ?es \<or> free_block ?es + ?n \<le> n \<Longrightarrow> store s1 n = store s n"
    using write_file_blocks [OF dev_s, of "fs_next_free_lba f1" dat] N space by metis
  have tb: "4097 < capacity" using space free_block_ge [of ?es] by linarith
  obtain s2 where s2: "fs_store_table dev ?es2 s1 = (0, s2)" "ok s2" "bd_present dev s2"
      "store s2 = (store s1)(4097 := take 512 (table_bytes ?es2))"
    using table_written [OF s1(2,3) st(1) tb] by blast
  define f' where "f' = fs_sync_cache (f1\<lparr>fs_disk_entries := ?es2,
      fs_info := (fs_info f)\<lparr>i_used_files := of_nat (count_used used_entry ?es2)\<rparr>\<rparr>)"
  have run: "fs_write_file dev name dat f s = (0, f', s2)"
    using mounted len fnd s1(1) s2(1) x(6)
    by (simp add: fs_write_file_def Let_def FS_MAX_FILE_BYTES_def nb
        f1_def [symmetric] e_def [symmetric] f'_def) (simp add: f1_def)
  have es': "fs_disk_entries f' = ?es2" by (simp add: f'_def fs_sync_cache_def)
  have inv': "fs_inv capacity f'"
    using st(1) mounted start by (simp add: fs_inv_def f'_def fs_sync_cache_def)
  have new: "entry_data (store s2) e = dat"
  proof -
    have "sectors_data (store s2) (free_block ?es) ?n = sectors_data (store s1) (free_block ?es) ?n"
      using free_block_ge [of ?es] by (intro sectors_data_cong) (simp add: s2(4))
    then show ?thesis using s1(4) e(4,6) by (simp add: entry_data_def padded_def)
  qed
  have "dir_files (store s2) ?es2 k = ((dir_files (store s) ?es)(cstr name \<mapsto> dat)) k" for k
  proof (cases "k = cstr name")
    case True
    then show ?thesis using st(3) new by (simp add: dir_files_def)
  next
    case False
    have "dir_files (store s2) ?es2 k = dir_files (store s2) ?es k"
      using False st(3) by (simp add: dir_files_def)
    also have "\<dots> = dir_files (store s) ?es k"
      using s1(5) by (intro dir_files_cong [OF dir]) (simp add: s2(4))
    finally show ?thesis using False by simp
  qed
  then have files: "dir_files (store s2) ?es2 = (dir_files (store s) ?es)(cstr name \<mapsto> dat)" by blast
  have "store s2 4096 = store s 4096"
    using s1(5) [of 4096] free_block_ge [of ?es] by (simp add: s2(4))
  then show ?thesis
    using that [OF run inv' s2(2,3)] s2(4) es' files
    by (simp add: f'_def fs_sync_cache_def)
qed

text \<open>
  A write that runs off the end of the device: it reports the failure and nothing
  below the first free block is touched, the stored directory included, but the
  mounted directory already has the new extent.
\<close>

lemma free_block_le:
  assumes "dir_ok cap es" "4097 < cap"
  shows "free_block es \<le> cap"
proof -
  have "extent_end e \<le> cap" if "e \<in> set es" for e
    using dir_okD(4) [OF assms(1) that] by (simp add: extent_ok_def)
  then show ?thesis unfolding free_block_def using assms(2) by (subst Max_le_iff) auto
qed

lemma write_no_room:
  assumes dev_s: "ok s" "bd_present dev s" and inv: "fs_inv capacity f" and cap: "4097 < capacity"
    and name: "length (cstr name) < 16" and len: "length dat \<le> 131072"
    and slot: "fs_find_entry (fs_disk_entries f) name \<noteq> None \<or> fs_find_free_entry (fs_disk_entries f) \<noteq> None"
    and space: "capacity < free_block (fs_disk_entries f) + nblocks (length dat)"
  obtains i e s' where
    "fs_write_file dev name dat f s = (-1, f\<lparr>fs_disk_entries := (fs_disk_entries f)[i := e]\<rparr>, s')"
    "fs_find_entry (fs_disk_entries f) name = Some i \<or>
       fs_find_entry (fs_disk_entries f) name = None \<and> fs_find_free_entry (fs_disk_entries f) = Some i"
    "used_entry e" "cstr (e_name e) = cstr name" "unat (e_start_lba e) = free_block (fs_disk_entries f)"
    "unat (e_size_bytes e) = length dat"
    "\<And>n. n < free_block (fs_disk_entries f) \<Longrightarrow> store s' n = store s n"
proof -
  let ?es = "fs_disk_entries f" and ?n = "nblocks (length dat)"
  have dir: "dir_ok capacity ?es" and mounted: "i_mounted (fs_info f)"
    and start: "i_data_start_lba (fs_info f) = 4098"
    using inv by (auto simp: fs_inv_def)
  obtain i es1 where fnd: "fs_claim_entry ?es name = Some (i, es1)"
    using slot by (cases "fs_find_entry ?es name"; cases "fs_find_free_entry ?es")
      (auto simp: fs_claim_entry_def)
  note x = claim_entry [OF dir name fnd]
  define f1 where "f1 = f\<lparr>fs_disk_entries := es1\<rparr>"
  have N: "unat (fs_next_free_lba f1) = free_block ?es"
    using next_free_eq [OF capacity_bound [OF dev_s(1)], of f1] start x(7,8) by (simp add: f1_def)
  have sz: "unat (of_nat (length dat) :: u32) = length dat"
    using len by (simp add: unat_of_nat take_bit_nat_eq_self)
  have nb: "unat (fs_blocks_for_bytes (of_nat (length dat))) = ?n"
    using blocks_for_bytes [of "of_nat (length dat)"] sz len by simp
  define e where "e = (es1 ! i)\<lparr>e_start_lba := fs_next_free_lba f1, e_size_bytes := of_nat (length dat)\<rparr>"
  obtain s1 where s1: "write_blocks dev (fs_next_free_lba f1) dat [0..<?n] s = (-1, s1)"
      "\<And>n. n < free_block ?es \<Longrightarrow> store s1 n = store s n"
    using write_blocks_beyond [OF dev_s, of "fs_next_free_lba f1" dat] N space free_block_le [OF dir cap] by metis
  have run: "fs_write_file dev name dat f s = (-1, f\<lparr>fs_disk_entries := ?es[i := e]\<rparr>, s1)"
    using mounted len fnd s1(1) x(6)
    by (simp add: fs_write_file_def Let_def FS_MAX_FILE_BYTES_def nb
        f1_def [symmetric] e_def [symmetric]) (simp add: f1_def)
  show ?thesis
    using that [OF run x(1)] x(3,4) N sz s1(2) by (simp add: e_def used_entry_def)
qed

lemma entry_content:
  assumes "ok s" "dir_ok capacity es" "e \<in> set es"
  shows "length (sectors_data (store s) a n) = n * 512"
    and "length (entry_data (store s) e) = unat (e_size_bytes e)"
proof -
  show l: "length (sectors_data (store s) a n) = n * 512" for a n
    using sector_length [OF assms(1)] by (simp add: length_sectors_data)
  show "length (entry_data (store s) e) = unat (e_size_bytes e)"
    using nblocks_bounds(1) by (simp add: entry_data_def l)
qed

lemma found_entry:
  assumes "ok s" "fs_inv capacity f" "fs_find_entry (fs_disk_entries f) name = Some i"
  defines "e \<equiv> fs_disk_entries f ! i"
  shows "dir_files (store s) (fs_disk_entries f) (cstr name) = Some (entry_data (store s) e)"
    and "length (entry_data (store s) e) = unat (e_size_bytes e)" "unat (e_size_bytes e) \<le> 131072"
    and "unat (e_start_lba e) + nblocks (unat (e_size_bytes e)) \<le> capacity"
proof -
  have dir: "dir_ok capacity (fs_disk_entries f)" using assms(2) by (simp add: fs_inv_def)
  have e: "e \<in> set (fs_disk_entries f)" using fsd.find_slot_hit [OF assms(3)] by (simp add: e_def)
  show "dir_files (store s) (fs_disk_entries f) (cstr name) = Some (entry_data (store s) e)"
    using fsd.find_slot_Some_tab [OF assms(3)] by (simp add: dir_files_def e_def)
  show "length (entry_data (store s) e) = unat (e_size_bytes e)"
    by (rule entry_content(2) [OF assms(1) dir e])
  show "unat (e_size_bytes e) \<le> 131072" "unat (e_start_lba e) + nblocks (unat (e_size_bytes e)) \<le> capacity"
    using dir_okD(4) [OF dir e] by (simp_all add: extent_ok_def extent_end_def)
qed

lemma find_miss_iff:
  "fs_find_entry es name = None \<longleftrightarrow> dir_files st es (cstr name) = None"
  by (simp add: dir_files_def fsd.find_slot_None_iff)

lemma read_file:
  assumes dev_s: "ok s" "bd_present dev s" and inv: "fs_inv capacity f"
  obtains bs s' where
    "fs_read_file dev name n f s =
       ((case dir_files (store s) (fs_disk_entries f) (cstr name) of
           None \<Rightarrow> ReadFailed
         | Some dat \<Rightarrow>
             if n < length dat \<or> nblocks (length dat) = 256 then ReadFailed
             else if nblocks (length dat) * 512 \<le> n then ReadDone bs (of_nat (length dat))
             else ReadOverrun bs), s')"
    "ok s'" "store s' = store s" "bd_present dev s'"
    "\<forall>dat. dir_files (store s) (fs_disk_entries f) (cstr name) = Some dat \<longrightarrow>
       length bs = nblocks (length dat) * 512 \<and> take (length dat) bs = dat"
proof (cases "fs_find_entry (fs_disk_entries f) name")
  case None
  have "dir_files (store s) (fs_disk_entries f) (cstr name) = None"
    using None find_miss_iff by blast
  then show ?thesis using that [of "[]" s] dev_s inv None by (simp add: fs_read_file_def)
next
  case (Some i)
  let ?e = "fs_disk_entries f ! i"
  define dat where "dat = entry_data (store s) ?e"
  define blocks where "blocks = fs_blocks_for_bytes (e_size_bytes ?e)"
  note fe = found_entry [OF dev_s(1) inv Some, folded dat_def]
  have mounted: "i_mounted (fs_info f)" using inv by (simp add: fs_inv_def)
  have blk: "unat blocks = nblocks (length dat)"
    using blocks_for_bytes fe(2,3) by (simp add: blocks_def)
  have sz: "of_nat (length dat) = e_size_bytes ?e" using fe(2) by simp
  have n256: "nblocks (length dat) \<le> 256" using nblocks_mono_max fe(2,3) by simp
  have shape: "fs_read_file dev name n f s =
      (if n < length dat then (ReadFailed, s) else if blocks = 0 then (ReadDone [] 0, s)
       else case bd_read dev (e_start_lba ?e) (ucast blocks) s of (None, s') \<Rightarrow> (ReadFailed, s')
         | (Some bs, s') \<Rightarrow> (if length bs \<le> n then ReadDone bs (e_size_bytes ?e) else ReadOverrun bs, s'))"
    using mounted Some fe(2) by (simp add: fs_read_file_def Let_def blocks_def)
  have b0: "blocks = 0 \<longleftrightarrow> nblocks (length dat) = 0"
    using blk by (metis unat_eq_0)
  consider "n < length dat" | "\<not> n < length dat" "nblocks (length dat) = 0"
    | "\<not> n < length dat" "nblocks (length dat) = 256"
    | "\<not> n < length dat" "0 < nblocks (length dat)" "nblocks (length dat) < 256"
    using n256 by linarith
  then show ?thesis
  proof cases
    case 1
    then show ?thesis
      using that [of "dat @ replicate (nblocks (length dat) * 512 - length dat) 0" s] dev_s fe(1) shape
        nblocks_bounds(1) [of "length dat"] by simp
  next
    case 2
    then have "dat = []" using nblocks_bounds(1) [of "length dat"] by simp
    then show ?thesis using that [of "[]" s] dev_s fe(1) shape b0 2 by simp
  next
    case 3
    have "unat blocks = 256" using blk 3 by simp
    then have "(of_nat (unat blocks) :: u32) = of_nat 256" by (simp only:)
    then have "blocks = 256" by simp
    then have "(ucast blocks :: u8) = 0" by simp
    then have "fs_read_file dev name n f s = (ReadFailed, s)"
      using shape 3 b0 read_zero [of "e_start_lba ?e" s] by simp
    then show ?thesis
      using that [of "dat @ replicate (nblocks (length dat) * 512 - length dat) 0" s] dev_s fe(1) 3
        nblocks_bounds(1) [of "length dat"] by simp
  next
    case 4
    have c: "unat (ucast blocks :: u8) = nblocks (length dat)"
      using blk 4(3) by (simp add: unsigned_ucast_eq take_bit_nat_eq_self)
    have c0: "(ucast blocks :: u8) \<noteq> 0" using c 4(2) by auto
    have fit: "unat (e_start_lba ?e) + unat (ucast blocks :: u8) \<le> capacity" using fe(2,4) c by simp
    from read_success [OF dev_s c0 fit] obtain s' where
      r: "bd_read dev (e_start_lba ?e) (ucast blocks) s =
        (Some (sectors_data (store s) (unat (e_start_lba ?e)) (unat (ucast blocks :: u8))), s')"
        "ok s'" "store s' = store s" "bd_present dev s'" .
    define bs where "bs = sectors_data (store s) (unat (e_start_lba ?e)) (nblocks (length dat))"
    have lb: "length bs = nblocks (length dat) * 512" "take (length dat) bs = dat"
      using sector_length [OF dev_s(1)] fe(2) by (simp_all add: bs_def length_sectors_data dat_def entry_data_def)
    show ?thesis
      using that [of bs s'] r lb 4 b0 shape fe(1) sz c by (simp add: bs_def [symmetric])
  qed
qed

lemma delete_file:
  assumes dev_s: "ok s" "bd_present dev s" and inv: "fs_inv capacity f" and cap: "4097 < capacity"
    and here: "dir_files (store s) (fs_disk_entries f) (cstr name) \<noteq> None"
  obtains f' s' where "fs_delete_file dev name f s = (0, f', s')" "fs_inv capacity f'" "ok s'"
    "bd_present dev s'" "store s' = (store s)(4097 := take 512 (table_bytes (fs_disk_entries f')))"
    "fs_info f' = (fs_info f)\<lparr>i_used_files := i_used_files (fs_info f')\<rparr>"
    "dir_files (store s') (fs_disk_entries f') = (dir_files (store s) (fs_disk_entries f))(cstr name := None)"
proof -
  let ?es = "fs_disk_entries f"
  have dir: "dir_ok capacity ?es" and mounted: "i_mounted (fs_info f)"
    and start: "i_data_start_lba (fs_info f) = 4098"
    and cnt: "i_used_files (fs_info f) = of_nat (count_used used_entry ?es)"
    using inv by (auto simp: fs_inv_def)
  obtain i where i: "fs_find_entry ?es name = Some i"
    using here find_miss_iff [of ?es name "store s"] by auto
  let ?es2 = "?es[i := zero_entry]"
  note cl = clear_entry [OF dir i]
  obtain s1 where s1: "fs_store_table dev ?es2 s = (0, s1)" "ok s1" "bd_present dev s1"
      "store s1 = (store s)(4097 := take 512 (table_bytes ?es2))"
    using table_written [OF dev_s cl(1) cap] by blast
  have hit: "i < length ?es" "used_entry (?es ! i)" "\<not> used_entry zero_entry"
    using fsd.find_slot_hit [OF i] by (auto simp: used_entry_def zero_entry_def)
  then have c1: "count_used used_entry ?es = Suc (count_used used_entry ?es2)"
    using count_used_update [of i ?es used_entry zero_entry] by simp
  have "Suc (count_used used_entry ?es2) < 2 ^ 32"
    using count_used_le [of used_entry ?es] dir_okD(1) [OF dir] c1 by simp
  then have pos: "i_used_files (fs_info f) > 0"
    unfolding cnt c1 word_less_nat_alt by (simp only: unat_of_nat) (simp add: take_bit_nat_eq_self)
  let ?f' = "fs_sync_cache (f\<lparr>fs_disk_entries := ?es2,
      fs_info := (fs_info f)\<lparr>i_used_files := i_used_files (fs_info f) - 1\<rparr>\<rparr>)"
  have run: "fs_delete_file dev name f s = (0, ?f', s1)"
    using i s1(1) pos by (simp add: fs_delete_file_def Let_def)
  have es': "fs_disk_entries ?f' = ?es2" by (simp add: fs_sync_cache_def)
  have "fs_inv capacity ?f'"
    using cl(1) mounted start cnt c1 by (simp add: fs_inv_def fs_sync_cache_def)
  moreover have "dir_files (store s1) ?es2 k = ((dir_files (store s) ?es)(cstr name := None)) k" for k
  proof -
    have "dir_files (store s1) ?es2 k = ((dir_files (store s1) ?es)(cstr name := None)) k"
      using cl(2) by (simp add: dir_files_def)
    moreover have "dir_files (store s1) ?es k = dir_files (store s) ?es k"
      by (intro dir_files_cong [OF dir]) (simp add: s1(4))
    ultimately show ?thesis by simp
  qed
  ultimately show ?thesis
    using that [OF run _ s1(2,3)] s1(4) by (simp add: fs_sync_cache_def fun_eq_iff)
qed

end

section \<open>Mounting\<close>

definition fs_on_disk :: "(nat \<Rightarrow> u8 list) \<Rightarrow> fs \<Rightarrow> bool" where
  "fs_on_disk st f \<longleftrightarrow> st 4096 = superblock_bytes fs_new_superblock \<and>
     st 4097 = take 512 (table_bytes (fs_disk_entries f))"

lemma new_superblock:
  "sb_magic fs_new_superblock = FS_MAGIC_VALUE" "sb_version fs_new_superblock = FS_VERSION"
  "sb_data_start_lba fs_new_superblock = 4098" "length (sb_volume_label fs_new_superblock) = 17"
  by (simp_all add: fs_new_superblock_def FS_DATA_LBA_def fs_write_label_def)

lemma zero_entry_ok:
  "entry_wf zero_entry" "\<not> used_entry zero_entry" "dir_entry_ok cap zero_entry"
  "e_start_lba zero_entry = 0" "e_size_bytes zero_entry = 0"
  by (simp_all add: used_entry_def zero_entry_def dir_entry_ok_def entry_wf_def extent_ok_def
        extent_end_def nblocks_def FS_NAME_MAX_def)

lemma dir_ok_empty: "dir_ok cap (replicate 32 zero_entry)"
proof -
  have "\<forall>e \<in> set (replicate 32 zero_entry). \<not> used_entry e" using zero_entry_ok(2) by auto
  then have "keys_distinct used_entry entry_key (replicate 32 zero_entry)"
    by (rule keys_distinct_none_live)
  then show ?thesis using zero_entry_ok by (auto simp: dir_ok_def extents_disjoint_def)
qed

lemma dir_files_none_used: "\<forall>e \<in> set es. \<not> used_entry e \<Longrightarrow> dir_files st es = Map.empty"
  by (simp add: dir_files_def fun_eq_iff tab_of_none_live)

text \<open>The directory read back from the table sector: the first 14 entries survive.\<close>

lemma dir_reloaded:
  assumes dir: "dir_ok cap es"
    and es': "es' = bytes_table (take 512 (table_bytes es) @ drop 512 (table_bytes (replicate 32 zero_entry)))"
  shows "dir_ok cap es'" and "tab_of used_entry entry_key es' k = tab_of used_entry entry_key (take 14 es) k"
proof -
  let ?old = "replicate 32 zero_entry"
  have wf: "\<forall>e \<in> set es. entry_wf e" "\<forall>e \<in> set ?old. entry_wf e"
    using dir_okD(3) [OF dir] zero_entry_ok(1) by auto
  note rl = table_reload [OF wf(1) dir_okD(1) [OF dir] wf(2) length_replicate refl, folded es']
  have low: "es' ! i = es ! i" if "i < 14" for i using rl(1) that .
  have high: "\<not> used_entry (es' ! i) \<and> dir_entry_ok cap (es' ! i)" if "14 \<le> i" "i < 32" for i
    using rl(2) [OF that] that zero_entry_ok
    by (simp add: dir_entry_ok_def extent_ok_def extent_end_def nblocks_def)
  have used: "i < 14" if "i < 32" "used_entry (es' ! i)" for i
    using high [of i] that by (meson not_le)
  have len: "length es' = 32" "length es = 32" using rl(4) dir_okD(1) [OF dir] by simp_all
  have "\<forall>e \<in> set es'. dir_entry_ok cap e"
  proof
    fix e assume "e \<in> set es'"
    then obtain i where i: "i < 32" "e = es' ! i" using len by (auto simp: in_set_conv_nth)
    show "dir_entry_ok cap e"
    proof (cases "i < 14")
      case True
      then show ?thesis using i low [of i] dir_okD(2) [OF dir] len by simp
    next
      case False
      then show ?thesis using i high [of i] by simp
    qed
  qed
  moreover have "keys_distinct used_entry entry_key es'"
    unfolding keys_distinct_def len
    using used low keys_distinctD [OF dir_okD(5) [OF dir]] len by (metis (no_types, lifting))
  moreover have "extents_disjoint es'"
    unfolding extents_disjoint_def len
    using used low dir_okD(6) [OF dir, unfolded extents_disjoint_def len] by (metis (no_types, lifting))
  ultimately show "dir_ok cap es'" using len by (simp add: dir_ok_def)
  have "es' = take 14 es @ drop 14 es'"
  proof (rule nth_equalityI)
    show "length es' = length (take 14 es @ drop 14 es')" using len by simp
    fix i assume "i < length es'"
    then show "es' ! i = (take 14 es @ drop 14 es') ! i"
      using low [of i] len by (simp add: nth_append)
  qed
  moreover have "\<forall>e \<in> set (drop 14 es'). \<not> used_entry e"
  proof
    fix e assume "e \<in> set (drop 14 es')"
    then obtain j where "j < 18" "e = es' ! (14 + j)" using len by (auto simp: in_set_conv_nth)
    then show "\<not> used_entry e" using high [of "14 + j"] by simp
  qed
  ultimately show "tab_of used_entry entry_key es' k = tab_of used_entry entry_key (take 14 es) k"
    using tab_of_append_dead by metis
qed

context block_device
begin

lemma format_disk:
  assumes dev_s: "ok s" "bd_present dev s" and cap: "4097 < capacity"
  obtains f' s' where "fs_format dev f s = (0, f', s')" "fs_inv capacity f'" "ok s'"
    "bd_present dev s'" "fs_on_disk (store s') f'" "dir_files (store s') (fs_disk_entries f') = Map.empty"
proof -
  let ?z = "replicate 32 zero_entry"
  have lba: "unat FS_SUPERBLOCK_LBA = 4096" by (simp add: FS_SUPERBLOCK_LBA_def)
  obtain s1 where s1: "fs_store_superblock dev fs_new_superblock s = (0, s1)" "ok s1" "bd_present dev s1"
      "store s1 = (store s)(4096 := superblock_bytes fs_new_superblock)"
    using write_success [OF dev_s length_superblock_bytes [OF new_superblock(4)], of FS_SUPERBLOCK_LBA]
      cap lba by (auto simp: fs_store_superblock_def)
  obtain s2 where s2: "fs_store_table dev ?z s1 = (0, s2)" "ok s2" "bd_present dev s2"
      "store s2 = (store s1)(4097 := take 512 (table_bytes ?z))"
    using table_written [OF s1(2,3) dir_ok_empty cap] by blast
  obtain f' where run: "fs_format dev f s = (0, f', s2)" and es: "fs_disk_entries f' = ?z"
      and "i_mounted (fs_info f')" "i_data_start_lba (fs_info f') = 4098" "i_used_files (fs_info f') = 0"
      "fs_cache f' = map sync_entry ?z"
    using s1(1) s2(1)
    by (simp add: fs_format_def Let_def FS_FILES_MAX_def fs_sync_cache_def FS_DATA_LBA_def)
  moreover have none: "\<forall>e \<in> set ?z. \<not> used_entry e" using zero_entry_ok(2) by auto
  then have "count_used used_entry ?z = 0" by (simp add: count_used_def filter_empty_conv)
  ultimately have "fs_inv capacity f'" using dir_ok_empty by (simp add: fs_inv_def)
  moreover have "fs_on_disk (store s2) f'" using s1(4) s2(4) es by (simp add: fs_on_disk_def)
  moreover have "dir_files (store s2) (fs_disk_entries f') = Map.empty"
    using dir_files_none_used [OF none] es by simp
  ultimately show ?thesis using that [OF run _ s2(2,3)] by blast
qed

lemma mount_disk:
  assumes dev_s: "ok s" "bd_present dev s" and cap: "4097 < capacity"
    and dir: "dir_ok capacity (fs_disk_entries f)" and disk: "fs_on_disk (store s) f"
  obtains f' s' where "fs_init dev s = (f', s')" "fs_inv capacity f'" "ok s'" "bd_present dev s'"
    "store s' = store s" "dir_files (store s') (fs_disk_entries f') = dir_files (store s) (take 14 (fs_disk_entries f))"
proof -
  let ?es = "fs_disk_entries f"
  have lba: "unat FS_SUPERBLOCK_LBA = 4096" "unat FS_TABLE_LBA = 4097"
    by (simp_all add: FS_SUPERBLOCK_LBA_def FS_TABLE_LBA_def)
  have one: "sectors_data st a (unat (1 :: u8)) = st a" "(1 :: u8) \<noteq> 0" for st a
    by (simp_all add: sectors_data_def)
  have c: "unat FS_SUPERBLOCK_LBA + unat (1 :: u8) \<le> capacity" "unat FS_TABLE_LBA + unat (1 :: u8) \<le> capacity"
    using cap lba by simp_all
  from read_success [OF dev_s one(2) c(1)] obtain s1 where
    s1: "bd_read dev FS_SUPERBLOCK_LBA 1 s = (Some (store s 4096), s1)" "ok s1" "store s1 = store s"
      "bd_present dev s1" unfolding one lba .
  from read_success [OF s1(2,4) one(2) c(2)] obtain s2 where
    s2: "bd_read dev FS_TABLE_LBA 1 s1 = (Some (store s 4097), s2)" "ok s2" "store s2 = store s"
      "bd_present dev s2" unfolding one lba s1(3) .
  have sb: "bytes_superblock (store s 4096) = fs_new_superblock"
    using disk superblock_roundtrip [OF new_superblock(4)] by (simp add: fs_on_disk_def)
  define es' where "es' = bytes_table (take 512 (table_bytes ?es) @ drop 512 (table_bytes (replicate 32 zero_entry)))"
  note rl = dir_reloaded [OF dir es'_def]
  have tb: "store s 4097 = take 512 (table_bytes ?es)" "length (take 512 (table_bytes ?es)) = 512"
    using disk length_table_sector [OF dir] by (simp_all add: fs_on_disk_def)
  have load: "fs_load_table dev (replicate 32 zero_entry) s1 = (Some es', s2)"
    using s2(1) tb by (simp add: fs_load_table_def es'_def)
  obtain f' where run: "fs_init dev s = (f', s2)" and f': "fs_disk_entries f' = es'"
      "i_mounted (fs_info f')" "i_data_start_lba (fs_info f') = 4098"
      "i_used_files (fs_info f') = of_nat (count_used used_entry es')" "fs_cache f' = map sync_entry es'"
    using dev_s(2) s1(1) sb load new_superblock(1-3)
    by (simp add: fs_init_def fs_load_superblock_def fs_clear_cache_def FS_FILES_MAX_def fs_sync_cache_def)
  have "fs_inv capacity f'" using rl(1) f' by (simp add: fs_inv_def)
  moreover have "dir_files (store s2) (fs_disk_entries f') = dir_files (store s) (take 14 ?es)"
    unfolding dir_files_def f'(1) s2(3) rl(2) by (rule refl)
  ultimately show ?thesis using that [OF run _ s2(2,4,3)] by blast
qed

end

end
