(* ===== verification/FileStore.thy ===== *)
theory FileStore
  imports FsCorrect
begin

text \<open>
  The file interface the kernel's applications use: whole-file reads and writes
  and deletion by name.  The record lists the operations; the locale states
  what they promise about the map from names to contents.  The file system on
  any block device provides it.
\<close>

record 'w file_api =
  fa_write :: "char list \<Rightarrow> u8 list \<Rightarrow> 'w \<Rightarrow> int \<times> 'w"
  fa_read :: "char list \<Rightarrow> nat \<Rightarrow> 'w \<Rightarrow> read_result \<times> 'w"
  fa_delete :: "char list \<Rightarrow> 'w \<Rightarrow> int \<times> 'w"

text \<open>What a read of a name delivers when the files are \<open>fm\<close>.\<close>

definition read_answer :: "(string \<Rightarrow> u8 list option) \<Rightarrow> char list \<Rightarrow> nat \<Rightarrow> read_result \<Rightarrow> bool" where
  "read_answer fm name n r =
     (case fm (cstr name) of
        None \<Rightarrow> r = ReadFailed
      | Some dat \<Rightarrow>
          (if n < length dat \<or> nblocks (length dat) = 256 then r = ReadFailed
           else \<exists>bs. length bs = nblocks (length dat) * 512 \<and> take (length dat) bs = dat \<and>
             r = (if length bs \<le> n then ReadDone bs (of_nat (length dat)) else ReadOverrun bs)))"

locale file_store =
  fixes api :: "'w file_api"
    and ready :: "'w \<Rightarrow> bool"
    and files :: "'w \<Rightarrow> string \<Rightarrow> u8 list option"
    and room :: "'w \<Rightarrow> char list \<Rightarrow> nat \<Rightarrow> bool"
  assumes write_law: "ready w \<Longrightarrow> length (cstr name) < 16 \<Longrightarrow> length dat \<le> 131072 \<Longrightarrow>
          room w name (length dat) \<Longrightarrow> fa_write api name dat w = (r, w') \<Longrightarrow>
          r = 0 \<and> ready w' \<and> files w' = (files w)(cstr name \<mapsto> dat)"
    and read_law: "ready w \<Longrightarrow> fa_read api name n w = (res, w') \<Longrightarrow>
          ready w' \<and> files w' = files w \<and> room w' = room w \<and> read_answer (files w) name n res"
    and delete_law: "ready w \<Longrightarrow> fa_delete api name w = (r, w') \<Longrightarrow>
          (if files w (cstr name) = None then r = -1 \<and> w' = w
           else r = 0 \<and> ready w' \<and> files w' = (files w)(cstr name := None))"
begin

text \<open>Reading back what was written, through a buffer of whole blocks.\<close>

lemma read_back:
  assumes "ready w" "length (cstr name) < 16" "length dat \<le> n" "nblocks (length dat) * 512 \<le> n"
    "nblocks (length dat) < 256" "room w name (length dat)"
  obtains w1 bs w2 where "fa_write api name dat w = (0, w1)"
    "fa_read api name n w1 = (ReadDone bs (of_nat (length dat)), w2)" "take (length dat) bs = dat"
    "ready w2" "files w2 = (files w)(cstr name \<mapsto> dat)" "ready w1" "files w1 = files w2"
proof -
  obtain r w1 where wr: "fa_write api name dat w = (r, w1)" by fastforce
  have "length dat \<le> 131072"
    using assms(5) nblocks_bounds(1) [of "length dat"] by simp
  from write_law [OF assms(1,2) this assms(6) wr]
  have w1: "r = 0" "ready w1" "files w1 = (files w)(cstr name \<mapsto> dat)" by simp_all
  obtain res w2 where rd: "fa_read api name n w1 = (res, w2)" by fastforce
  from read_law [OF w1(2) rd] have w2: "ready w2" "files w2 = files w1" "read_answer (files w1) name n res"
    by simp_all
  then obtain bs where "take (length dat) bs = dat" "res = ReadDone bs (of_nat (length dat))"
    using assms(3-5) w1(3) by (auto simp: read_answer_def split: if_splits)
  then show ?thesis using that wr w1 w2 rd by simp
qed

end

section \<open>The file system provides it\<close>

definition fs_api :: "'s blockdev \<Rightarrow> (fs \<times> 's) file_api" where
  "fs_api dev = \<lparr>fa_write = (\<lambda>name dat (f, s). fs_write_file dev name dat f s),
     fa_read = (\<lambda>name n (f, s). let (r, s') = fs_read_file dev name n f s in (r, (f, s'))),
     fa_delete = (\<lambda>name (f, s). fs_delete_file dev name f s)\<rparr>"

definition fs_ready :: "'s blockdev \<Rightarrow> ('s \<Rightarrow> bool) \<Rightarrow> ('s \<Rightarrow> nat \<Rightarrow> u8 list) \<Rightarrow> nat \<Rightarrow> fs \<Rightarrow> 's \<Rightarrow> bool" where
  "fs_ready dev ok store cap f s \<longleftrightarrow>
     ok s \<and> bd_present dev s \<and> 4097 < cap \<and> fs_inv cap f \<and> fs_on_disk (store s) f"

definition fs_files :: "('s \<Rightarrow> nat \<Rightarrow> u8 list) \<Rightarrow> fs \<Rightarrow> 's \<Rightarrow> string \<Rightarrow> u8 list option" where
  "fs_files store f s = dir_files (store s) (fs_disk_entries f)"

text \<open>A slot and enough sectors are left for a write of \<open>n\<close> bytes under a name.\<close>

definition fs_full :: "fs \<Rightarrow> char list \<Rightarrow> bool" where
  "fs_full f name \<longleftrightarrow>
     fs_find_entry (fs_disk_entries f) name = None \<and> fs_find_free_entry (fs_disk_entries f) = None"

definition fs_room :: "nat \<Rightarrow> fs \<Rightarrow> char list \<Rightarrow> nat \<Rightarrow> bool" where
  "fs_room cap f name n \<longleftrightarrow>
     \<not> fs_full f name \<and> free_block (fs_disk_entries f) + nblocks n \<le> cap"

text \<open>
  The mounted directory after a write of \<open>n\<close> bytes that ran out of sectors: the
  entry of the name, or a free one, holds an extent that begins at the first free
  block; nothing else of the file system's state has changed.
\<close>

definition fs_claimed :: "fs \<Rightarrow> char list \<Rightarrow> nat \<Rightarrow> fs \<Rightarrow> bool" where
  "fs_claimed f name n f' \<longleftrightarrow> (\<exists>i e. f' = f\<lparr>fs_disk_entries := (fs_disk_entries f)[i := e]\<rparr> \<and>
     (fs_find_entry (fs_disk_entries f) name = Some i \<or>
      fs_find_entry (fs_disk_entries f) name = None \<and> fs_find_free_entry (fs_disk_entries f) = Some i) \<and>
     used_entry e \<and> cstr (e_name e) = cstr name \<and>
     unat (e_start_lba e) = free_block (fs_disk_entries f) \<and> unat (e_size_bytes e) = n)"

lemma fs_readyD:
  "fs_ready dev ok store cap f s \<Longrightarrow> ok s" "fs_ready dev ok store cap f s \<Longrightarrow> bd_present dev s"
  "fs_ready dev ok store cap f s \<Longrightarrow> 4097 < cap" "fs_ready dev ok store cap f s \<Longrightarrow> fs_inv cap f"
  "fs_ready dev ok store cap f s \<Longrightarrow> fs_on_disk (store s) f"
  by (simp_all add: fs_ready_def)

context block_device
begin

lemma fs_write_ready:
  assumes ready: "fs_ready dev ok store capacity f s" and name: "length (cstr name) < 16"
    and len: "length dat \<le> 131072" and room: "fs_room capacity f name (length dat)"
  shows "\<exists>f' s'. fs_write_file dev name dat f s = (0, f', s') \<and> fs_ready dev ok store capacity f' s' \<and>
      fs_files store f' s' = (fs_files store f s)(cstr name \<mapsto> dat)"
proof -
  note rd = fs_readyD [OF ready]
  have slot: "fs_find_entry (fs_disk_entries f) name \<noteq> None \<or> fs_find_free_entry (fs_disk_entries f) \<noteq> None"
    and space: "free_block (fs_disk_entries f) + nblocks (length dat) \<le> capacity"
    using room by (auto simp: fs_room_def fs_full_def)
  from write_file [OF rd(1,2,4) name len slot space] obtain f' s' where
    w: "fs_write_file dev name dat f s = (0, f', s')" "fs_inv capacity f'" "ok s'" "bd_present dev s'"
      "store s' 4097 = take 512 (table_bytes (fs_disk_entries f'))" "store s' 4096 = store s 4096"
      "dir_files (store s') (fs_disk_entries f') = (dir_files (store s) (fs_disk_entries f))(cstr name \<mapsto> dat)" .
  then show ?thesis using rd(3,5) by (simp add: fs_ready_def fs_on_disk_def fs_files_def)
qed

lemma fs_write_no_room:
  assumes ready: "fs_ready dev ok store capacity f s" and name: "length (cstr name) < 16"
    and len: "length dat \<le> 131072" and slot: "\<not> fs_full f name" and room: "\<not> fs_room capacity f name (length dat)"
  shows "\<exists>f' s'. fs_write_file dev name dat f s = (-1, f', s') \<and> fs_claimed f name (length dat) f' \<and>
      (\<forall>n < free_block (fs_disk_entries f). store s' n = store s n)"
proof -
  note rd = fs_readyD [OF ready]
  have s: "fs_find_entry (fs_disk_entries f) name \<noteq> None \<or> fs_find_free_entry (fs_disk_entries f) \<noteq> None"
    and full: "capacity < free_block (fs_disk_entries f) + nblocks (length dat)"
    using slot room by (auto simp: fs_room_def fs_full_def)
  from write_no_room [OF rd(1,2,4,3) name len s full] obtain i e s' where
    w: "fs_write_file dev name dat f s = (-1, f\<lparr>fs_disk_entries := (fs_disk_entries f)[i := e]\<rparr>, s')"
    "fs_find_entry (fs_disk_entries f) name = Some i \<or>
       fs_find_entry (fs_disk_entries f) name = None \<and> fs_find_free_entry (fs_disk_entries f) = Some i"
    "used_entry e" "cstr (e_name e) = cstr name" "unat (e_start_lba e) = free_block (fs_disk_entries f)"
    "unat (e_size_bytes e) = length dat"
    and same: "\<And>n. n < free_block (fs_disk_entries f) \<Longrightarrow> store s' n = store s n" by blast
  have "fs_claimed f name (length dat) (f\<lparr>fs_disk_entries := (fs_disk_entries f)[i := e]\<rparr>)"
    unfolding fs_claimed_def using w(2-6) by blast
  then show ?thesis using w(1) same by blast
qed

lemma fs_read_ready:
  assumes ready: "fs_ready dev ok store capacity f s"
  shows "\<exists>r s'. fs_read_file dev name n f s = (r, s') \<and> fs_ready dev ok store capacity f s' \<and>
    fs_files store f s' = fs_files store f s \<and> read_answer (fs_files store f s) name n r"
proof -
  note rd = fs_readyD [OF ready]
  from read_file [OF rd(1,2,4), of name n] obtain bs s' where
    r: "fs_read_file dev name n f s =
       ((case dir_files (store s) (fs_disk_entries f) (cstr name) of
           None \<Rightarrow> ReadFailed
         | Some dat \<Rightarrow>
             if n < length dat \<or> nblocks (length dat) = 256 then ReadFailed
             else if nblocks (length dat) * 512 \<le> n then ReadDone bs (of_nat (length dat))
             else ReadOverrun bs), s')"
    "ok s'" "store s' = store s" "bd_present dev s'"
    "\<forall>dat. dir_files (store s) (fs_disk_entries f) (cstr name) = Some dat \<longrightarrow>
       length bs = nblocks (length dat) * 512 \<and> take (length dat) bs = dat" .
  have "fs_ready dev ok store capacity f s'" "fs_files store f s' = fs_files store f s"
    using r(2-4) rd by (simp_all add: fs_ready_def fs_files_def)
  then show ?thesis
    using r(1,5) by (cases "dir_files (store s) (fs_disk_entries f) (cstr name)")
      (auto simp: fs_files_def read_answer_def intro!: exI [of _ bs])
qed

lemma fs_delete_ready:
  assumes ready: "fs_ready dev ok store capacity f s"
  shows "fs_files store f s (cstr name) = None \<Longrightarrow> fs_delete_file dev name f s = (-1, f, s)"
    and "fs_files store f s (cstr name) \<noteq> None \<Longrightarrow>
      \<exists>f' s'. fs_delete_file dev name f s = (0, f', s') \<and> fs_ready dev ok store capacity f' s' \<and>
        fs_files store f' s' = (fs_files store f s)(cstr name := None)"
proof -
  note rd = fs_readyD [OF ready]
  show "fs_delete_file dev name f s = (-1, f, s)" if "fs_files store f s (cstr name) = None"
  proof -
    have "fs_find_entry (fs_disk_entries f) name = None"
      using that find_miss_iff by (simp add: fs_files_def)
    then show ?thesis by (simp add: fs_delete_file_def)
  qed
  assume here: "fs_files store f s (cstr name) \<noteq> None"
  from delete_file [OF rd(1,2,4,3) here [unfolded fs_files_def]] obtain f' s' where
    d: "fs_delete_file dev name f s = (0, f', s')" "fs_inv capacity f'" "ok s'" "bd_present dev s'"
      "store s' = (store s)(4097 := take 512 (table_bytes (fs_disk_entries f')))"
      "dir_files (store s') (fs_disk_entries f') = (dir_files (store s) (fs_disk_entries f))(cstr name := None)" .
  then have "fs_ready dev ok store capacity f' s'" using rd(3,5) by (simp add: fs_ready_def fs_on_disk_def)
  then show "\<exists>f' s'. fs_delete_file dev name f s = (0, f', s') \<and> fs_ready dev ok store capacity f' s' \<and>
      fs_files store f' s' = (fs_files store f s)(cstr name := None)"
    using d by (simp add: fs_files_def)
qed

lemma provides_files:
  "file_store (fs_api dev) (\<lambda>(f, s). fs_ready dev ok store capacity f s)
    (\<lambda>(f, s). fs_files store f s) (\<lambda>(f, s). fs_room capacity f)"
proof
  fix w w' :: "fs \<times> 's" and name :: "char list" and dat r
  obtain f s where w: "w = (f, s)" by (cases w)
  assume "case w of (f, s) \<Rightarrow> fs_ready dev ok store capacity f s" "length (cstr name) < 16"
    "length dat \<le> 131072" "(case w of (f, s) \<Rightarrow> fs_room capacity f) name (length dat)"
    "fa_write (fs_api dev) name dat w = (r, w')"
  then show "r = 0 \<and> (case w' of (f, s) \<Rightarrow> fs_ready dev ok store capacity f s) \<and>
      (case w' of (f, s) \<Rightarrow> fs_files store f s) = (case w of (f, s) \<Rightarrow> fs_files store f s)(cstr name \<mapsto> dat)"
    using fs_write_ready [of f s name dat] w by (auto simp: fs_api_def)
next
  fix w w' :: "fs \<times> 's" and name :: "char list" and n res
  obtain f s where w: "w = (f, s)" by (cases w)
  assume "case w of (f, s) \<Rightarrow> fs_ready dev ok store capacity f s" "fa_read (fs_api dev) name n w = (res, w')"
  then show "(case w' of (f, s) \<Rightarrow> fs_ready dev ok store capacity f s) \<and>
      (case w' of (f, s) \<Rightarrow> fs_files store f s) = (case w of (f, s) \<Rightarrow> fs_files store f s) \<and>
      (case w' of (f, s) \<Rightarrow> fs_room capacity f) = (case w of (f, s) \<Rightarrow> fs_room capacity f) \<and>
      read_answer (case w of (f, s) \<Rightarrow> fs_files store f s) name n res"
    using fs_read_ready [of f s name n] w by (auto simp: fs_api_def)
next
  fix w w' :: "fs \<times> 's" and name :: "char list" and r
  obtain f s where w: "w = (f, s)" by (cases w)
  assume "case w of (f, s) \<Rightarrow> fs_ready dev ok store capacity f s" "fa_delete (fs_api dev) name w = (r, w')"
  then show "if (case w of (f, s) \<Rightarrow> fs_files store f s) (cstr name) = None then r = -1 \<and> w' = w
      else r = 0 \<and> (case w' of (f, s) \<Rightarrow> fs_ready dev ok store capacity f s) \<and>
        (case w' of (f, s) \<Rightarrow> fs_files store f s) = (case w of (f, s) \<Rightarrow> fs_files store f s)(cstr name := None)"
    using fs_delete_ready [of f s name] w by (auto simp: fs_api_def)
qed

end

sublocale block_device \<subseteq> file_store "fs_api dev" "\<lambda>(f, s). fs_ready dev ok store capacity f s"
    "\<lambda>(f, s). fs_files store f s" "\<lambda>(f, s). fs_room capacity f"
  by (rule provides_files)

end
