(* ===== verification/FsProps.thy ===== *)
theory FsProps
  imports FileStore Ata
begin

text \<open>
  The correctness properties of the file system, stated for every block device
  that keeps the interface, with the disk driver on a simulated drive as the
  concrete device of the witnesses.
\<close>

section \<open>The simulated disk\<close>

definition sim_disk :: "(ata_device_info \<times> drive) blockdev" where
  "sim_disk = ata_blockdev (sim_bus sim_timing (2 ^ 20))"

definition sim_ok :: "ata_device_info \<times> drive \<Rightarrow> bool" where
  "sim_ok s = drive_idle (2 ^ 20) (snd s)"

definition sim_store :: "ata_device_info \<times> drive \<Rightarrow> nat \<Rightarrow> u8 list" where
  "sim_store s = dr_sectors (snd s)"

lemma sim_device: "block_device sim_disk sim_ok sim_store (2 ^ 20)"
  using ata_block_device [OF sim_drive sim_timely sim_streams]
  by (simp add: sim_disk_def sim_ok_def [abs_def] sim_store_def [abs_def])

lemma sim_start: "sim_ok (sim_info, sim_drive0)" "bd_present sim_disk (sim_info, sim_drive0)"
  using sim_idle by (simp_all add: sim_ok_def sim_disk_def ata_blockdev_def ata_get_info_def sim_info_def)

lemma sim_formatted:
  obtains f s where "fs_format sim_disk fs_clear_cache (sim_info, sim_drive0) = (0, f, s)"
    "fs_ready sim_disk sim_ok sim_store (2 ^ 20) f s" "fs_files sim_store f s = Map.empty"
proof -
  have cap: "4097 < (2 :: nat) ^ 20" by simp
  from block_device.format_disk [OF sim_device sim_start cap] obtain f s where
    fs: "fs_format sim_disk fs_clear_cache (sim_info, sim_drive0) = (0, f, s)" "fs_inv (2 ^ 20) f"
      "sim_ok s" "bd_present sim_disk s" "fs_on_disk (sim_store s) f"
      "dir_files (sim_store s) (fs_disk_entries f) = Map.empty" .
  then show ?thesis using that [of f s] by (simp add: fs_ready_def fs_files_def)
qed

lemma free_block_empty:
  assumes "fs_inv cap f" "fs_files store f s = Map.empty"
  shows "free_block (fs_disk_entries f) = 4098" and "\<exists>i. fs_find_free_entry (fs_disk_entries f) = Some i"
proof -
  let ?es = "fs_disk_entries f"
  have dir: "dir_ok cap ?es" using assms(1) by (simp add: fs_inv_def)
  have none: "\<not> used_entry e" if "e \<in> set ?es" for e
  proof
    assume u: "used_entry e"
    have "tab_of used_entry entry_key ?es (Some (cstr (e_name e))) = None"
      using fun_cong [OF assms(2), of "cstr (e_name e)"] by (simp add: fs_files_def dir_files_def)
    then show False using key_used [OF dir that u] that u by (auto simp: tab_of_eq_None_iff)
  qed
  then have em: "{e \<in> set ?es. used_entry e} = {}" by blast
  show "free_block ?es = 4098" unfolding free_block_def em by simp
  have "length ?es = 32" using dir_okD(1) [OF dir] .
  then have "?es \<noteq> []" by auto
  then have "fs_find_free_entry ?es \<noteq> None"
    using none fsd.find_free_full [of ?es] by (metis list.set_intros(1) neq_Nil_conv)
  then show "\<exists>i. fs_find_free_entry ?es = Some i" by auto
qed

lemma sim_one_file:
  obtains f s where "fs_ready sim_disk sim_ok sim_store (2 ^ 20) f s"
    "fs_files sim_store f s = [''a'' \<mapsto> [1, 2, 3]]"
proof -
  from sim_formatted obtain f s where fs: "fs_ready sim_disk sim_ok sim_store (2 ^ 20) f s"
    "fs_files sim_store f s = Map.empty" by metis
  have n: "length (cstr ''a'') < 16" "cstr ''a'' = ''a''" by (simp_all add: cstr_Cons)
  have "fs_room (2 ^ 20) f ''a'' (length [1, 2, 3 :: u8])"
    using free_block_empty [OF fs_readyD(4) [OF fs(1)] fs(2)] by (auto simp: fs_room_def fs_full_def nblocks_def)
  moreover have "length [1, 2, 3 :: u8] \<le> 131072" by simp
  ultimately obtain f' s' where "fs_ready sim_disk sim_ok sim_store (2 ^ 20) f' s'"
      "fs_files sim_store f' s' = (fs_files sim_store f s)(cstr ''a'' \<mapsto> [1, 2, 3])"
    using block_device.fs_write_ready [OF sim_device fs(1) n(1)] by blast
  then show ?thesis using that [of f' s'] fs(2) n(2) by simp
qed

section \<open>Properties\<close>

text \<open>C3. Writing a file.  On a mounted file system over a block device, under a name of at most 15
characters: without a directory slot, or for more than 128 KiB, the write fails and nothing changes.
With enough sectors left it succeeds: afterwards the name maps to exactly the new contents, every other
file is as before, the invariant (one entry per name, disjoint extents inside the disk, cache and
counters in step) holds and the disk holds the new table.  With too few sectors it fails; the sectors
below the first free one, with the stored directory and all files, are as before, but the mounted
directory has already taken the new extent, which does not fit the disk, for that name.\<close>

theorem fs_write_updates_files:
  assumes dev: "block_device dev ok store cap" and ready: "fs_ready dev ok store cap f s"
    and name: "length (cstr name) < 16"
  shows "let (r, f', s') = fs_write_file dev name dat f s
         in if fs_full f name \<or> FS_MAX_FILE_BYTES < length dat then (r, f', s') = (-1, f, s)
            else if fs_room cap f name (length dat)
            then r = 0 \<and> fs_ready dev ok store cap f' s' \<and>
              fs_files store f' s' = (fs_files store f s)(cstr name \<mapsto> dat)
            else r = -1 \<and> fs_claimed f name (length dat) f' \<and>
              cap < free_block (fs_disk_entries f) + nblocks (length dat) \<and>
              (\<forall>n < free_block (fs_disk_entries f). store s' n = store s n)"
proof -
  have no: "fs_write_file dev name dat f s = (-1, f, s)" if "fs_full f name \<or> FS_MAX_FILE_BYTES < length dat"
    using that by (auto simp: fs_write_file_def fs_claim_entry_def fs_full_def)
  have max: "FS_MAX_FILE_BYTES = 131072" by (simp add: FS_MAX_FILE_BYTES_def)
  consider "fs_full f name \<or> FS_MAX_FILE_BYTES < length dat"
    | "\<not> fs_full f name" "length dat \<le> 131072" "fs_room cap f name (length dat)"
    | "\<not> fs_full f name" "length dat \<le> 131072" "\<not> fs_room cap f name (length dat)"
    unfolding max not_less [symmetric] by blast
  then show ?thesis
  proof cases
    case 1
    then show ?thesis using no by simp
  next
    case 2
    then show ?thesis
      using block_device.fs_write_ready [OF dev ready name 2(2,3)] by (auto simp: Let_def FS_MAX_FILE_BYTES_def)
  next
    case 3
    then have "cap < free_block (fs_disk_entries f) + nblocks (length dat)" by (auto simp: fs_room_def)
    then show ?thesis
      using block_device.fs_write_no_room [OF dev ready name 3(2,1,3)] 3 by (auto simp: Let_def FS_MAX_FILE_BYTES_def)
  qed
qed

lemma fs_write_updates_files_witness:
  "\<exists>f s. fs_format sim_disk fs_clear_cache (sim_info, sim_drive0) = (0, f, s) \<and>
     (let (r, f', s') = fs_write_file sim_disk ''a'' [1, 2, 3] f s
      in r = 0 \<and> fs_files sim_store f' s' ''a'' = Some [1, 2, 3])"
proof -
  from sim_formatted obtain f s where fs: "fs_format sim_disk fs_clear_cache (sim_info, sim_drive0) = (0, f, s)"
    "fs_ready sim_disk sim_ok sim_store (2 ^ 20) f s" "fs_files sim_store f s = Map.empty" .
  have n: "length (cstr ''a'') < 16" "cstr ''a'' = ''a''" by (simp_all add: cstr_Cons)
  note e = free_block_empty [OF fs_readyD(4) [OF fs(2)] fs(3)]
  show ?thesis
    using fs_write_updates_files [OF sim_device fs(2) n(1), of "[1, 2, 3]"] fs(1) e n(2)
    by (intro exI [of _ f] exI [of _ s])
      (auto simp: Let_def FS_MAX_FILE_BYTES_def nblocks_def split_beta fs_room_def fs_full_def)
qed

text \<open>C7. Reading a file.  On a mounted file system a read never changes the files.  It fails
exactly when the name is not there, the caller's buffer is shorter than the file or the file
needs 256 blocks, whose count does not fit the driver's byte; otherwise the bytes it stores
begin with the file's contents.  It stores whole blocks, so a buffer that holds the file but
not its last block is overrun.\<close>

theorem fs_read_returns_contents:
  assumes dev: "block_device dev ok store cap" and ready: "fs_ready dev ok store cap f s"
  shows "let (r, s') = fs_read_file dev name n f s
         in fs_ready dev ok store cap f s' \<and> fs_files store f s' = fs_files store f s \<and>
            (case fs_files store f s (cstr name) of
               None \<Rightarrow> r = ReadFailed
             | Some dat \<Rightarrow>
                 (if n < length dat \<or> nblocks (length dat) = 256 then r = ReadFailed
                  else \<exists>bs. length bs = nblocks (length dat) * 512 \<and> take (length dat) bs = dat \<and>
                    r = (if length bs \<le> n then ReadDone bs (of_nat (length dat)) else ReadOverrun bs)))"
proof -
  obtain r s' where r: "fs_read_file dev name n f s = (r, s')" "fs_ready dev ok store cap f s'"
      "fs_files store f s' = fs_files store f s" "read_answer (fs_files store f s) name n r"
    using block_device.fs_read_ready [OF dev ready, of name n] by blast
  show ?thesis using r(2,3) r(4) [unfolded read_answer_def] by (simp only: r(1) Let_def prod.case)
qed

lemma fs_read_returns_contents_witness:
  "\<exists>f s bs. fs_files sim_store f s = [''a'' \<mapsto> [1, 2, 3]] \<and>
     fst (fs_read_file sim_disk ''a'' 512 f s) = ReadDone bs 3 \<and> take 3 bs = [1, 2, 3] \<and>
     fst (fs_read_file sim_disk ''b'' 512 f s) = ReadFailed"
proof -
  from sim_one_file obtain f s where fs: "fs_ready sim_disk sim_ok sim_store (2 ^ 20) f s"
    "fs_files sim_store f s = [''a'' \<mapsto> [1, 2, 3]]" .
  have n: "cstr ''a'' = ''a''" "cstr ''b'' = ''b''" by (simp_all add: cstr_Cons)
  note rd = fs_read_returns_contents [OF sim_device fs(1), of _ 512]
  obtain bs where "fst (fs_read_file sim_disk ''a'' 512 f s) = ReadDone bs 3" "take 3 bs = [1, 2, 3]"
    using rd [of "''a''"] fs(2) n by (auto simp: split_beta Let_def nblocks_def numeral_3_eq_3)
  moreover have "fst (fs_read_file sim_disk ''b'' 512 f s) = ReadFailed"
    using rd [of "''b''"] fs(2) n by (simp add: split_beta Let_def)
  ultimately show ?thesis using fs(2) by blast
qed

text \<open>C23. Deleting a file.  On a mounted file system deletion fails, changing nothing, exactly
when the name is not there; otherwise the name is gone, every other file is as before, the
invariant holds and the disk holds the new table.\<close>

theorem fs_delete_removes_file:
  assumes dev: "block_device dev ok store cap" and ready: "fs_ready dev ok store cap f s"
  shows "let (r, f', s') = fs_delete_file dev name f s
         in if fs_files store f s (cstr name) = None then (r, f', s') = (-1, f, s)
            else r = 0 \<and> fs_ready dev ok store cap f' s' \<and>
                 fs_files store f' s' = (fs_files store f s)(cstr name := None)"
  using block_device.fs_delete_ready [OF dev ready, of name] by (cases "fs_files store f s (cstr name)") auto

lemma fs_delete_removes_file_witness:
  "\<exists>f s. fs_files sim_store f s = [''a'' \<mapsto> [1, 2, 3]] \<and>
     (let (r, f', s') = fs_delete_file sim_disk ''a'' f s in r = 0 \<and> fs_files sim_store f' s' = Map.empty) \<and>
     fs_delete_file sim_disk ''b'' f s = (-1, f, s)"
proof -
  from sim_one_file obtain f s where fs: "fs_ready sim_disk sim_ok sim_store (2 ^ 20) f s"
    "fs_files sim_store f s = [''a'' \<mapsto> [1, 2, 3]]" .
  have n: "cstr ''a'' = ''a''" "cstr ''b'' = ''b''" by (simp_all add: cstr_Cons)
  note del = fs_delete_removes_file [OF sim_device fs(1)]
  have "let (r, f', s') = fs_delete_file sim_disk ''a'' f s in r = 0 \<and> fs_files sim_store f' s' = Map.empty"
    using del [of "''a''"] fs(2) n by (simp add: split_beta Let_def)
  moreover have "fs_delete_file sim_disk ''b'' f s = (-1, f, s)"
    using del [of "''b''"] fs(2) n by (simp add: split_beta Let_def prod_eq_iff)
  ultimately show ?thesis using fs(2) by blast
qed

text \<open>C25. What survives a reboot.  Mounting the disk of a file system in use yields a state
that satisfies the invariant and whose files are those of the first 14 directory entries: the
one sector loaded and stored holds no more of the 32 entries, so the files of the others are
lost although every write of them succeeded.\<close>

theorem fs_remount_keeps_first_14:
  assumes dev: "block_device dev ok store cap" and ready: "fs_ready dev ok store cap f s"
  shows "let (f', s') = fs_init dev s
         in ok s' \<and> bd_present dev s' \<and> fs_inv cap f' \<and>
            fs_files store f' s' = dir_files (store s) (take 14 (fs_disk_entries f))"
proof -
  note rd = fs_readyD [OF ready]
  have dir: "dir_ok cap (fs_disk_entries f)" using rd(4) by (simp add: fs_inv_def)
  from block_device.mount_disk [OF dev rd(1-3) dir rd(5)] obtain f' s' where
    "fs_init dev s = (f', s')" "fs_inv cap f'" "ok s'" "bd_present dev s'"
    "dir_files (store s') (fs_disk_entries f') = dir_files (store s) (take 14 (fs_disk_entries f))" .
  then show ?thesis by (simp add: fs_files_def)
qed

lemma fs_remount_keeps_first_14_witness:
  "\<exists>f s. fs_format sim_disk fs_clear_cache (sim_info, sim_drive0) = (0, f, s) \<and>
     i_mounted (fs_info (fst (fs_init sim_disk s)))"
proof -
  from sim_formatted obtain f s where fs: "fs_format sim_disk fs_clear_cache (sim_info, sim_drive0) = (0, f, s)"
    "fs_ready sim_disk sim_ok sim_store (2 ^ 20) f s" .
  show ?thesis
    using fs_remount_keeps_first_14 [OF sim_device fs(2)] fs(1)
    by (intro exI [of _ f] exI [of _ s]) (simp add: split_beta Let_def fs_inv_def)
qed

end
