(* ===== verification/User.thy ===== *)
theory User
  imports SlotTable WordLib
begin

text \<open>
  The user registry and the password login \<open>kernel/user/user.c\<close>.  The static
  table and the two session variables are the record \<open>user_db\<close>; the searches
  are an instance of the registry interface.  Null arguments, which the code
  refuses, are not represented.
\<close>

definition USER_NAME_MAX :: nat where "USER_NAME_MAX = 32"
definition USER_FULL_MAX :: nat where "USER_FULL_MAX = 64"
definition USER_ENTRY_MAX :: nat where "USER_ENTRY_MAX = 16"

lemmas user_consts = USER_NAME_MAX_def USER_FULL_MAX_def USER_ENTRY_MAX_def

section \<open>Data\<close>

datatype user_role = USER_ROLE_GUEST | USER_ROLE_USER | USER_ROLE_ADMIN

record user_entry =
  username :: "char list"
  full_name :: "char list"
  password_hash :: u64
  role :: user_role
  enabled :: bool
  locked :: bool
  uid :: u32

record user_stats =
  total_users :: nat
  enabled_users :: nat
  locked_users :: nat
  us_active_uid :: u32
  active_username :: "char list"
  us_authenticated :: bool

record user_db =
  users :: "user_entry list"
  active_uid :: u32
  authenticated :: bool

definition zero_user :: user_entry where
  "zero_user = \<lparr>username = zbuf USER_NAME_MAX, full_name = zbuf USER_FULL_MAX, password_hash = 0,
     role = USER_ROLE_GUEST, enabled = False, locked = False, uid = 0\<rparr>"

section \<open>Operations\<close>

text \<open>The 64-bit FNV-1a hash of the characters up to the terminator.\<close>

definition hash_step :: "char \<Rightarrow> u64 \<Rightarrow> u64" where
  "hash_step c hash = (hash XOR of_char c) * 1099511628211"

definition user_hash_password :: "char list \<Rightarrow> u64" where
  "user_hash_password s = fold hash_step (cstr s) 1469598103934665603"

definition user_copy_text :: "char list \<Rightarrow> char list \<Rightarrow> char list" where
  "user_copy_text dest src = copy_text dest src"

definition live_user :: "user_entry \<Rightarrow> bool" where
  "live_user u \<longleftrightarrow> cget (username u) 0 \<noteq> NUL"

definition user_find :: "user_entry list \<Rightarrow> char list \<Rightarrow> nat option" where
  "user_find us name = first_index (\<lambda>u. live_user u \<and> strcmp (username u) name = 0) us"

definition user_find_free :: "user_entry list \<Rightarrow> nat option" where
  "user_find_free us = first_index (\<lambda>u. \<not> live_user u) us"

definition user_role_name :: "user_role \<Rightarrow> string" where
  "user_role_name r =
     (case r of USER_ROLE_GUEST \<Rightarrow> ''guest'' | USER_ROLE_USER \<Rightarrow> ''user'' | USER_ROLE_ADMIN \<Rightarrow> ''admin'')"

text \<open>The record both registrations store in the slot they found.\<close>

definition filled_user :: "user_entry \<Rightarrow> char list \<Rightarrow> char list \<Rightarrow> user_role \<Rightarrow> bool \<Rightarrow> nat \<Rightarrow> user_entry" where
  "filled_user u name full r en idx =
     \<lparr>username = user_copy_text (username u) name, full_name = user_copy_text (full_name u) full,
      password_hash = 0, role = r, enabled = en, locked = False, uid = of_nat (idx + 1)\<rparr>"

definition user_register :: "char list \<Rightarrow> char list \<Rightarrow> user_role \<Rightarrow> bool \<Rightarrow> user_db \<Rightarrow> user_db" where
  "user_register name full r en db =
     (case user_find_free (users db) of
        None \<Rightarrow> db
      | Some idx \<Rightarrow> db\<lparr>users := (users db)[idx := filled_user (users db ! idx) name full r en idx]\<rparr>)"

definition user_init :: user_db where
  "user_init =
     (let db = \<lparr>users = replicate USER_ENTRY_MAX zero_user, active_uid = 0, authenticated = False\<rparr>;
          db1 = user_register ''root'' ''AcharyaOS Root'' USER_ROLE_ADMIN True db;
          db2 = user_register ''admin'' ''System Administrator'' USER_ROLE_ADMIN True db1;
          db3 = user_register ''guest'' ''Guest Session'' USER_ROLE_GUEST True db2
      in db3\<lparr>active_uid := 1, authenticated := False\<rparr>)"

definition user_list :: "user_db \<Rightarrow> nat \<Rightarrow> user_entry list" where
  "user_list db max_entries = (if max_entries = 0 then [] else list_used live_user (users db) max_entries)"

definition user_info :: "char list \<Rightarrow> user_db \<Rightarrow> user_entry option" where
  "user_info name db = map_option ((!) (users db)) (user_find (users db) name)"

definition user_add :: "char list \<Rightarrow> char list \<Rightarrow> user_role \<Rightarrow> user_db \<Rightarrow> int \<times> user_db" where
  "user_add name full r db =
     (if cget name 0 = NUL then (-1, db)
      else if user_find (users db) name \<noteq> None then (-1, db)
      else case user_find_free (users db) of
        None \<Rightarrow> (-1, db)
      | Some idx \<Rightarrow>
          (0, db\<lparr>users := (users db)[idx := filled_user (users db ! idx) name full r True idx]\<rparr>))"

text \<open>An update of the slot found for a name.\<close>

definition update_user :: "nat \<Rightarrow> (user_entry \<Rightarrow> user_entry) \<Rightarrow> user_db \<Rightarrow> user_db" where
  "update_user idx g db = db\<lparr>users := (users db)[idx := g (users db ! idx)]\<rparr>"

definition user_enable :: "char list \<Rightarrow> user_db \<Rightarrow> int \<times> user_db" where
  "user_enable name db =
     (case user_find (users db) name of
        None \<Rightarrow> (-1, db)
      | Some idx \<Rightarrow> (0, update_user idx (\<lambda>u. u\<lparr>enabled := True\<rparr>) db))"

definition user_disable :: "char list \<Rightarrow> user_db \<Rightarrow> int \<times> user_db" where
  "user_disable name db =
     (case user_find (users db) name of
        None \<Rightarrow> (-1, db)
      | Some idx \<Rightarrow>
          if uid (users db ! idx) = active_uid db then (-1, db)
          else (0, update_user idx (\<lambda>u. u\<lparr>enabled := False\<rparr>) db))"

definition user_set_active :: "char list \<Rightarrow> user_db \<Rightarrow> int \<times> user_db" where
  "user_set_active name db =
     (case user_find (users db) name of
        None \<Rightarrow> (-1, db)
      | Some idx \<Rightarrow>
          if \<not> enabled (users db ! idx) then (-1, db)
          else (0, db\<lparr>active_uid := uid (users db ! idx)\<rparr>))"

definition user_get_active :: "user_db \<Rightarrow> user_entry option" where
  "user_get_active db =
     map_option ((!) (users db))
       (first_index (\<lambda>u. uid u = active_uid db \<and> cget (username u) 0 \<noteq> NUL) (users db))"

definition user_get_active_name :: "user_db \<Rightarrow> char list \<Rightarrow> int \<times> char list" where
  "user_get_active_name db out_name =
     (if length out_name = 0 then (-1, out_name)
      else case user_get_active db of
        None \<Rightarrow> (-1, out_name[0 := NUL])
      | Some u \<Rightarrow> (0, user_copy_text out_name (username u)))"

definition user_get_stats :: "user_db \<Rightarrow> user_stats \<Rightarrow> user_stats" where
  "user_get_stats db stats =
     \<lparr>total_users = count_used live_user (users db),
      enabled_users = count_used (\<lambda>u. live_user u \<and> enabled u) (users db),
      locked_users = count_used (\<lambda>u. live_user u \<and> locked u) (users db),
      us_active_uid = active_uid db,
      active_username =
        (case user_get_active_name db (zbuf USER_NAME_MAX) of (r, active_name) \<Rightarrow>
           if r = 0 then user_copy_text (active_username stats) active_name
           else (active_username stats)[0 := NUL]),
      us_authenticated = authenticated db\<rparr>"

definition user_set_password :: "char list \<Rightarrow> char list \<Rightarrow> user_db \<Rightarrow> int \<times> user_db" where
  "user_set_password name password db =
     (case user_find (users db) name of
        None \<Rightarrow> (-1, db)
      | Some idx \<Rightarrow>
          (0, update_user idx (\<lambda>u. u\<lparr>password_hash := user_hash_password password, locked := False\<rparr>) db))"

definition user_check_password :: "char list \<Rightarrow> char list \<Rightarrow> user_db \<Rightarrow> int" where
  "user_check_password name password db =
     (case user_find (users db) name of
        None \<Rightarrow> -1
      | Some idx \<Rightarrow>
          if password_hash (users db ! idx) = 0 then -1
          else if password_hash (users db ! idx) = user_hash_password password then 0 else -1)"

definition user_login :: "char list \<Rightarrow> char list \<Rightarrow> user_db \<Rightarrow> int \<times> user_db" where
  "user_login name password db =
     (case user_find (users db) name of
        None \<Rightarrow> (-1, db)
      | Some idx \<Rightarrow>
          if \<not> enabled (users db ! idx) then (-1, db)
          else if password_hash (users db ! idx) = 0 then (-1, db)
          else if user_check_password name password db \<noteq> 0
          then (-1, update_user idx (\<lambda>u. u\<lparr>locked := True\<rparr>) db)
          else (0, update_user idx (\<lambda>u. u\<lparr>locked := False\<rparr>)
                     (db\<lparr>active_uid := uid (users db ! idx), authenticated := True\<rparr>)))"

definition user_logout :: "user_db \<Rightarrow> user_db" where
  "user_logout db = db\<lparr>authenticated := False\<rparr>"

definition user_is_authenticated :: "user_db \<Rightarrow> bool" where
  "user_is_authenticated db = authenticated db"

text \<open>The default password of one user, when it exists.\<close>

definition default_password :: "char list \<Rightarrow> user_db \<Rightarrow> user_db" where
  "default_password name db =
     (case user_find (users db) name of
        None \<Rightarrow> db
      | Some idx \<Rightarrow> update_user idx (\<lambda>u. u\<lparr>password_hash := user_hash_password name\<rparr>) db)"

definition user_create_default_passwords :: "user_db \<Rightarrow> int \<times> user_db" where
  "user_create_default_passwords db =
     (0, default_password ''guest'' (default_password ''admin'' (default_password ''root'' db)))"

section \<open>The registry\<close>

definition user_name :: "user_entry \<Rightarrow> string" where
  "user_name u = cstr (username u)"

interpretation usr: slot_table live_user user_name cstr user_find user_find_free
proof (rule slot_tableI)
  show "user_find us q = first_index (\<lambda>u. live_user u \<and> user_name u = cstr q) us" for us q
    by (simp add: user_find_def strcmp_0_iff user_name_def)
qed (simp add: user_find_free_def)

definition user_at :: "user_db \<Rightarrow> string \<Rightarrow> user_entry option" where
  "user_at db = tab_of live_user user_name (users db)"

lemma user_find_None: "user_find (users db) name = None \<longleftrightarrow> user_at db (cstr name) = None"
  by (simp add: user_at_def usr.find_slot_None_iff)

lemma user_find_Some: "user_find (users db) name = Some i \<Longrightarrow> user_at db (cstr name) = Some (users db ! i)"
  by (simp add: user_at_def usr.find_slot_Some_tab)

section \<open>The invariant\<close>

definition user_slot_ok :: "nat \<Rightarrow> user_entry \<Rightarrow> bool" where
  "user_slot_ok i u \<longleftrightarrow> length (username u) = 32 \<and> length (full_name u) = 64 \<and>
     (live_user u \<longrightarrow> uid u = of_nat (i + 1))"

definition user_table_ok :: "user_entry list \<Rightarrow> bool" where
  "user_table_ok us \<longleftrightarrow> length us = 16 \<and> (\<forall>i < 16. user_slot_ok i (us ! i))"

definition is_active :: "user_db \<Rightarrow> nat \<Rightarrow> bool" where
  "is_active db i \<longleftrightarrow> i < 16 \<and> live_user (users db ! i) \<and> enabled (users db ! i) \<and>
     active_uid db = of_nat (i + 1)"

definition user_inv :: "user_db \<Rightarrow> bool" where
  "user_inv db \<longleftrightarrow> user_table_ok (users db) \<and> (\<exists>i. is_active db i)"

lemma uid_inj: "i < 16 \<Longrightarrow> j < 16 \<Longrightarrow> (of_nat (i + 1) :: u32) = of_nat (j + 1) \<longleftrightarrow> i = j"
proof -
  assume "i < 16" "j < 16"
  then have "unat (of_nat (i + 1) :: u32) = i + 1" "unat (of_nat (j + 1) :: u32) = j + 1"
    by (simp_all only: unat_of_nat) (simp_all add: take_bit_nat_eq_self)
  then show ?thesis by (metis add_right_cancel)
qed

lemma found_slot:
  assumes "user_table_ok (users db)" "user_find (users db) name = Some i"
  shows "i < 16" "live_user (users db ! i)" "user_slot_ok i (users db ! i)" "uid (users db ! i) = of_nat (i + 1)"
  using usr.find_slot_hit [OF assms(2)] assms(1) by (auto simp: user_table_ok_def user_slot_ok_def)

lemma user_table_update:
  assumes "user_table_ok us" "user_slot_ok i u"
  shows "user_table_ok (us[i := u])"
proof -
  have "user_slot_ok j (us[i := u] ! j)" if "j < 16" for j
    using assms that by (cases "j = i") (simp_all add: user_table_ok_def)
  then show ?thesis using assms(1) by (simp add: user_table_ok_def)
qed

text \<open>An update that keeps the name, the uid and, for the active user, the enabled flag.\<close>

lemma update_user_inv:
  assumes inv: "user_inv db" and f: "user_find (users db) name = Some i"
    and g: "\<And>u. username (g u) = username u \<and> full_name (g u) = full_name u \<and> uid (g u) = uid u"
    and en: "enabled (users db ! i) \<Longrightarrow> enabled (g (users db ! i)) \<or> uid (users db ! i) \<noteq> active_uid db"
  shows "user_inv (update_user i g db)"
proof -
  have tab: "user_table_ok (users db)" using inv by (simp add: user_inv_def)
  note s = found_slot [OF tab f]
  obtain k where k: "is_active db k" using inv by (auto simp: user_inv_def)
  have live: "live_user (g u) = live_user u" for u using g by (simp add: live_user_def)
  have "user_table_ok (users (update_user i g db))"
    using s(3) g live by (simp add: update_user_def user_table_update [OF tab] user_slot_ok_def)
  moreover have "is_active (update_user i g db) k"
  proof (cases "k = i")
    case True
    then show ?thesis using k en live s tab by (simp add: is_active_def update_user_def user_table_ok_def)
  next
    case False
    then show ?thesis using k tab by (simp add: is_active_def update_user_def user_table_ok_def)
  qed
  ultimately show ?thesis by (auto simp: user_inv_def)
qed

lemma filled_user_ok:
  assumes "user_slot_ok i u"
  shows "user_slot_ok i (filled_user u name full r en i)"
    and "cget name 0 \<noteq> NUL \<Longrightarrow> live_user (filled_user u name full r en i)"
    and "user_name (filled_user u name full r en i) = take 31 (cstr name)"
proof -
  have len: "length (username u) = 32" "username u \<noteq> []" using assms by (auto simp: user_slot_ok_def)
  show "user_slot_ok i (filled_user u name full r en i)"
    using assms by (simp add: user_slot_ok_def filled_user_def user_copy_text_def)
  show n: "user_name (filled_user u name full r en i) = take 31 (cstr name)"
    using len by (simp add: user_name_def filled_user_def user_copy_text_def cstr_copy_text)
  show "live_user (filled_user u name full r en i)" if "cget name 0 \<noteq> NUL"
    using that n cstr_eq_Nil_iff [of name] cstr_eq_Nil_iff [of "username (filled_user u name full r en i)"]
    by (simp add: live_user_def user_name_def)
qed

lemma free_slot:
  assumes "user_table_ok us" "user_find_free us = Some i"
  shows "i < 16" "\<not> live_user (us ! i)" "user_slot_ok i (us ! i)"
  using usr.find_free_hit [OF assms(2)] assms(1) by (auto simp: user_table_ok_def)

lemma store_user_inv:
  assumes inv: "user_inv db" and free: "user_find_free (users db) = Some i"
    and u: "user_slot_ok i u"
  shows "user_inv (db\<lparr>users := (users db)[i := u]\<rparr>)"
proof -
  have tab: "user_table_ok (users db)" using inv by (simp add: user_inv_def)
  obtain k where k: "is_active db k" using inv by (auto simp: user_inv_def)
  then have "k \<noteq> i" using free_slot [OF tab free] by (auto simp: is_active_def)
  then have "is_active (db\<lparr>users := (users db)[i := u]\<rparr>) k" using k by (simp add: is_active_def)
  then show ?thesis using user_table_update [OF tab u] by (auto simp: user_inv_def)
qed

lemma user_init_inv: "user_inv user_init"
proof -
  have "length (users user_init) = 16" "list_all (\<lambda>i. user_slot_ok i (users user_init ! i)) [0..<16]"
    "is_active user_init 0"
    by code_simp+
  then show ?thesis by (auto simp: user_inv_def user_table_ok_def list_all_iff)
qed

section \<open>Sessions\<close>

datatype user_op = AddUser "char list" "char list" user_role | EnableUser "char list"
  | DisableUser "char list" | SetActive "char list" | SetPassword "char list" "char list"
  | Login "char list" "char list" | Logout | DefaultPasswords

fun user_do :: "user_op \<Rightarrow> user_db \<Rightarrow> user_db" where
  "user_do (AddUser name full r) db = snd (user_add name full r db)"
| "user_do (EnableUser name) db = snd (user_enable name db)"
| "user_do (DisableUser name) db = snd (user_disable name db)"
| "user_do (SetActive name) db = snd (user_set_active name db)"
| "user_do (SetPassword name password) db = snd (user_set_password name password db)"
| "user_do (Login name password) db = snd (user_login name password db)"
| "user_do Logout db = user_logout db"
| "user_do DefaultPasswords db = snd (user_create_default_passwords db)"

definition user_run :: "user_op list \<Rightarrow> user_db" where
  "user_run ops = fold user_do ops user_init"

lemma set_active_inv:
  assumes inv: "user_inv db" and f: "user_find (users db) name = Some i" and en: "enabled (users db ! i)"
  shows "user_inv (db\<lparr>active_uid := uid (users db ! i), authenticated := a\<rparr>)"
proof -
  have tab: "user_table_ok (users db)" using inv by (simp add: user_inv_def)
  have "is_active (db\<lparr>active_uid := uid (users db ! i), authenticated := a\<rparr>) i"
    using found_slot [OF tab f] en by (simp add: is_active_def)
  then show ?thesis using tab by (auto simp: user_inv_def)
qed

lemma user_inv_session [simp]: "user_inv (db\<lparr>authenticated := a\<rparr>) = user_inv db"
  by (simp add: user_inv_def is_active_def)

lemma default_password_inv: "user_inv db \<Longrightarrow> user_inv (default_password name db)"
  by (auto simp: default_password_def split: option.splits intro!: update_user_inv)

lemma user_add_inv:
  assumes inv: "user_inv db"
  shows "user_inv (snd (user_add name full r db))"
proof (cases "cget name 0 = NUL \<or> user_find (users db) name \<noteq> None \<or> user_find_free (users db) = None")
  case True
  then show ?thesis using inv by (auto simp: user_add_def split: option.splits)
next
  case False
  then obtain i where i: "user_find_free (users db) = Some i" by auto
  have "user_slot_ok i (filled_user (users db ! i) name full r True i)"
    using inv free_slot [OF _ i] filled_user_ok(1) by (simp add: user_inv_def)
  then show ?thesis using False i store_user_inv [OF inv i] by (simp add: user_add_def)
qed

lemma user_login_inv:
  assumes inv: "user_inv db"
  shows "user_inv (snd (user_login name password db))"
proof (cases "user_find (users db) name")
  case (Some i)
  have up: "user_inv (update_user i (\<lambda>u. u\<lparr>locked := b\<rparr>) db)" if "enabled (users db ! i)" for b
    using that by (intro update_user_inv [OF inv Some]) auto
  have "user_inv (update_user i (\<lambda>u. u\<lparr>locked := False\<rparr>)
      (db\<lparr>active_uid := uid (users db ! i), authenticated := True\<rparr>))" if "enabled (users db ! i)"
    using that by (intro update_user_inv [OF set_active_inv [OF inv Some that], where name = name]) (auto simp: Some)
  then show ?thesis using up Some inv by (auto simp: user_login_def)
qed (simp add: user_login_def inv)

lemma user_do_inv: "user_inv db \<Longrightarrow> user_inv (user_do x db)"
proof (cases x)
  case (AddUser name full r)
  assume "user_inv db"
  then show ?thesis using AddUser user_add_inv by simp
next
  case (Login name password)
  assume "user_inv db"
  then show ?thesis using Login user_login_inv by simp
next
  case (SetActive name)
  assume inv: "user_inv db"
  have "user_inv (db\<lparr>active_uid := uid (users db ! i)\<rparr>)"
    if "user_find (users db) name = Some i" "enabled (users db ! i)" for i
    using set_active_inv [OF inv that, of "authenticated db"] by simp
  then show ?thesis using SetActive inv by (auto simp: user_set_active_def split: option.splits)
qed (auto simp: user_enable_def user_disable_def user_set_password_def user_logout_def
      user_create_default_passwords_def default_password_inv split: option.splits intro!: update_user_inv)

lemma user_run_inv: "user_inv (user_run ops)"
proof -
  have "user_inv db \<Longrightarrow> user_inv (fold user_do ops db)" for db
    by (induction ops arbitrary: db) (simp_all add: user_do_inv)
  then show ?thesis using user_init_inv by (simp add: user_run_def)
qed

lemma active_user:
  assumes "user_table_ok (users db)" "is_active db i"
  shows "user_get_active db = Some (users db ! i)"
proof -
  have "first_index (\<lambda>u. uid u = active_uid db \<and> cget (username u) 0 \<noteq> NUL) (users db) = Some i"
    unfolding first_index_Some_iff
    using assms uid_inj by (fastforce simp: is_active_def user_table_ok_def user_slot_ok_def live_user_def)
  then show ?thesis by (simp add: user_get_active_def)
qed

lemma find_update_user:
  "username (g (users db ! i)) = username (users db ! i) \<Longrightarrow>
   user_find (users (update_user i g db)) name = user_find (users db) name"
  unfolding user_find_def update_user_def by (simp add: first_index_update_same live_user_def)

section \<open>Properties\<close>

text \<open>C27. Sessions.  After any sequence of operations from boot the live users carry distinct uids,
and the active uid belongs to a live, enabled user: there is always somebody to act as, because
disabling refuses the active user and activation and login refuse disabled ones.\<close>

theorem user_always_active:
  "let db = user_run ops
   in distinct (map uid (filter live_user (users db))) \<and>
      (\<exists>u. user_get_active db = Some u \<and> live_user u \<and> enabled u \<and> uid u = active_uid db)"
proof -
  let ?db = "user_run ops" and ?us = "users (user_run ops)"
  have tab: "user_table_ok ?us" using user_run_inv by (simp add: user_inv_def)
  obtain i where i: "is_active ?db i" using user_run_inv by (auto simp: user_inv_def)
  define live where "live = filter (\<lambda>i. live_user (?us ! i)) [0..<16]"
  have us: "?us = map ((!) ?us) [0..<16]"
    using tab map_nth [of ?us] by (simp add: user_table_ok_def)
  have "filter live_user ?us = map ((!) ?us) live"
    unfolding live_def by (subst us) (simp add: filter_map comp_def)
  moreover have "map (uid \<circ> (!) ?us) live = map (\<lambda>i. of_nat (i + 1)) live"
    using tab by (auto simp: live_def user_table_ok_def user_slot_ok_def)
  moreover have "inj_on (\<lambda>i. of_nat (i + 1) :: u32) (set live)"
    using uid_inj by (intro inj_onI) (fastforce simp: live_def)
  then have "distinct (map (\<lambda>i. of_nat (i + 1) :: u32) live)"
    unfolding distinct_map by (simp add: live_def)
  ultimately have "distinct (map uid (filter live_user ?us))" by (simp only: map_map)
  then show ?thesis
    using active_user [OF tab i] i tab
    by (simp add: Let_def is_active_def user_table_ok_def user_slot_ok_def)
qed

text \<open>C26. Login.  In every state reached from boot, login succeeds exactly for an existing, enabled
user with a password set and the matching hash; then the session is authenticated and the active
user is that user.  Otherwise the session is what it was.\<close>

theorem user_login_exact:
  "let db = user_run ops; (r, db') = user_login name password db
   in if \<exists>u. user_at db (cstr name) = Some u \<and> enabled u \<and> password_hash u \<noteq> 0 \<and>
           password_hash u = user_hash_password password
      then r = 0 \<and> authenticated db' \<and> user_get_active db' = user_at db' (cstr name)
      else r = -1 \<and> authenticated db' = authenticated db \<and> active_uid db' = active_uid db"
proof (cases "user_find (users (user_run ops)) name")
  case None
  then show ?thesis using user_find_None [of "user_run ops" name] by (simp add: user_login_def)
next
  case (Some i)
  let ?db = "user_run ops"
  have tab: "user_table_ok (users ?db)" using user_run_inv by (simp add: user_inv_def)
  note s = found_slot [OF tab Some] and at = user_find_Some [OF Some]
  show ?thesis
  proof (cases "enabled (users ?db ! i) \<and> password_hash (users ?db ! i) \<noteq> 0 \<and>
      password_hash (users ?db ! i) = user_hash_password password")
    case True
    define db' where "db' = update_user i (\<lambda>u. u\<lparr>locked := False\<rparr>)
        (?db\<lparr>active_uid := uid (users ?db ! i), authenticated := True\<rparr>)"
    have r: "user_login name password ?db = (0, db')"
      using True Some by (auto simp: user_login_def user_check_password_def db'_def)
    have us: "users db' = (users ?db)[i := (users ?db ! i)\<lparr>locked := False\<rparr>]"
      by (simp add: db'_def update_user_def)
    have "user_slot_ok i ((users ?db ! i)\<lparr>locked := False\<rparr>)" using s(3) by (simp add: user_slot_ok_def live_user_def)
    then have "user_table_ok (users db')" using us user_table_update [OF tab] by simp
    moreover have "is_active db' i"
      using s True tab by (simp add: is_active_def us live_user_def user_table_ok_def)
        (simp add: db'_def update_user_def)
    ultimately have "user_get_active db' = Some (users db' ! i)" by (rule active_user)
    moreover have "user_find (users db') name = Some i"
      using Some find_update_user [of "\<lambda>u. u\<lparr>locked := False\<rparr>" ?db i name] by (simp add: us update_user_def)
    then have "user_at db' (cstr name) = Some (users db' ! i)" by (rule user_find_Some)
    moreover have "authenticated db'" by (simp add: db'_def update_user_def)
    ultimately show ?thesis using r at True by (auto simp: Let_def)
  next
    case False
    then have "fst (user_login name password ?db) = -1 \<and>
        authenticated (snd (user_login name password ?db)) = authenticated ?db \<and>
        active_uid (snd (user_login name password ?db)) = active_uid ?db"
      using Some by (auto simp: user_login_def user_check_password_def update_user_def)
    then show ?thesis using at False by (auto simp: Let_def split_beta)
  qed
qed

definition cred :: "user_db \<Rightarrow> char list \<Rightarrow> (bool \<times> u64) option" where
  "cred db name = map_option (\<lambda>i. (enabled (users db ! i), password_hash (users db ! i)))
     (user_find (users db) name)"

lemma login_keeps_credentials: "cred (snd (user_login n p db)) name = cred db name"
proof -
  have "cred (update_user i (\<lambda>u. u\<lparr>locked := b\<rparr>) d) name = cred d name" for i b d
  proof (cases "user_find (users d) name")
    case (Some j)
    then show ?thesis
      using find_update_user [of "\<lambda>u. u\<lparr>locked := b\<rparr>" d i name] usr.find_slot_hit [OF Some]
      by (cases "j = i") (simp_all add: cred_def update_user_def)
  next
    case None
    then show ?thesis
      using find_update_user [of "\<lambda>u. u\<lparr>locked := b\<rparr>" d i name] by (simp add: cred_def)
  qed
  moreover have "cred (db\<lparr>active_uid := a, authenticated := c\<rparr>) name = cred db name" for a c
    by (simp add: cred_def)
  ultimately show ?thesis by (simp add: user_login_def split: option.splits)
qed

text \<open>The lock has no effect.  A failed login sets the user's locked flag, but no operation
reads it: after any sequence of login attempts on an account a password is accepted exactly when
it would have been accepted before them, so passwords can be guessed without limit.\<close>

theorem user_lock_has_no_effect:
  "fst (user_login name password (fold (\<lambda>guess db. snd (user_login name guess db)) guesses db)) =
   fst (user_login name password db)"
proof -
  have res: "fst (user_login name password d) =
      (case cred d name of None \<Rightarrow> -1
       | Some (en, h) \<Rightarrow> if en \<and> h \<noteq> 0 \<and> h = user_hash_password password then 0 else -1)" for d
    by (auto simp: user_login_def user_check_password_def cred_def split: option.splits)
  have "cred (fold (\<lambda>guess db. snd (user_login name guess db)) guesses db) name = cred db name"
    by (induction guesses arbitrary: db) (simp_all add: login_keeps_credentials)
  then show ?thesis unfolding res by simp
qed

end
