(* ===== verification/TextLines.thy ===== *)
theory TextLines
  imports Prelude
begin

text \<open>
  Line-oriented text handling shared by the configuration store and the package
  installer: filling a line buffer from a text, cutting a text at its line
  break, and appending to an output buffer of fixed size.
\<close>

abbreviation LF :: char where "LF \<equiv> CHR 0x0A"
abbreviation CR :: char where "CR \<equiv> CHR 0x0D"

lemma char_ne [simp]: "NUL \<noteq> LF" "NUL \<noteq> CR" "LF \<noteq> CR"
  by simp_all

section \<open>Reading lines\<close>

text \<open>
  The loop that stores characters other than carriage returns while the line
  has room; the results are the line and the text it stopped at.
\<close>

fun fill_line :: "char list \<Rightarrow> nat \<Rightarrow> string \<Rightarrow> string \<times> char list" where
  "fill_line [] line_size line = (line, [])"
| "fill_line (c # text) line_size line =
     (if c \<noteq> NUL \<and> c \<noteq> LF \<and> length line + 1 < line_size
      then fill_line text line_size (if c \<noteq> CR then line @ [c] else line)
      else (line, c # text))"

lemma fill_line_shorter: "length (snd (fill_line t n line)) \<le> length t"
  by (induction t n line rule: fill_line.induct) (auto split: if_splits)

lemma fill_line_progress:
  "t \<noteq> [] \<Longrightarrow> cget t 0 \<noteq> NUL \<Longrightarrow> cget t 0 \<noteq> LF \<Longrightarrow> length line + 1 < n \<Longrightarrow>
   length (snd (fill_line t n line)) < length t"
  using fill_line_shorter [of "tl t" n] by (cases t) (auto intro: le_imp_less_Suc)

lemma dropWhile_progress: "length (dropWhile P xs) < length xs \<or> dropWhile P xs = xs \<and> (xs = [] \<or> \<not> P (hd xs))"
  using length_dropWhile_le [of P "tl xs"] by (cases xs) (auto simp: less_Suc_eq_le)

text \<open>A line read after skipping line breaks shortens a text that is not at its end.\<close>

lemma fill_after_breaks:
  assumes "cget s 0 \<noteq> NUL" "1 < n"
  shows "length (snd (fill_line (dropWhile (\<lambda>c. c = CR \<or> c = LF) s) n [])) < length s"
  using dropWhile_progress [of "\<lambda>c. c = CR \<or> c = LF" s]
proof
  let ?t = "dropWhile (\<lambda>c. c = CR \<or> c = LF) s"
  assume "length ?t < length s"
  then show ?thesis using fill_line_shorter [of ?t n "[]"] by linarith
next
  let ?t = "dropWhile (\<lambda>c. c = CR \<or> c = LF) s"
  assume stop: "?t = s \<and> (s = [] \<or> \<not> (hd s = CR \<or> hd s = LF))"
  have "s \<noteq> []" using assms(1) by auto
  moreover from this have "cget s 0 \<noteq> LF" using stop by (cases s) auto
  ultimately show ?thesis using fill_line_progress [of s "[]" n] stop assms by simp
qed

text \<open>
  Cutting in place: the line up to the next line break or the end, and the text
  after the break.
\<close>

definition cut_line :: "char list \<Rightarrow> string \<times> char list" where
  "cut_line s =
     (let line = takeWhile (\<lambda>c. c \<noteq> NUL \<and> c \<noteq> LF) s; rest = dropWhile (\<lambda>c. c \<noteq> NUL \<and> c \<noteq> LF) s
      in (line, if cget rest 0 = LF then tl rest else rest))"

lemma cut_line_progress: "cget s 0 \<noteq> NUL \<Longrightarrow> length (snd (cut_line s)) < length s"
proof (cases s)
  case (Cons c t)
  assume "cget s 0 \<noteq> NUL"
  then show ?thesis
    using Cons length_dropWhile_le [of "\<lambda>c. c \<noteq> NUL \<and> c \<noteq> LF" t]
    by (auto simp: cut_line_def Let_def less_Suc_eq_le)
qed simp

lemma cut_line_eq:
  "NUL \<notin> set xs \<Longrightarrow> LF \<notin> set xs \<Longrightarrow> cut_line (xs @ LF # rest) = (xs, rest)"
  by (induction xs) (auto simp: cut_line_def Let_def)

section \<open>Splitting a line at a separator\<close>

lemma split_at:
  assumes "c \<notin> set xs"
  shows "takeWhile (\<lambda>x. x \<noteq> c) (xs @ c # ys) = xs" and "dropWhile (\<lambda>x. x \<noteq> c) (xs @ c # ys) = c # ys"
proof -
  have "\<forall>x \<in> set xs. x \<noteq> c" using assms by auto
  then show "takeWhile (\<lambda>x. x \<noteq> c) (xs @ c # ys) = xs" "dropWhile (\<lambda>x. x \<noteq> c) (xs @ c # ys) = c # ys"
    by (simp_all add: takeWhile_append2 dropWhile_append2)
qed

section \<open>Writing into a buffer\<close>

text \<open>Characters are appended while the buffer keeps one byte free.\<close>

fun append_chars :: "nat \<Rightarrow> string \<Rightarrow> string \<Rightarrow> string" where
  "append_chars bsize [] buffer = buffer"
| "append_chars bsize (c # src) buffer =
     (if c \<noteq> NUL \<and> length buffer + 1 < bsize then append_chars bsize src (buffer @ [c]) else buffer)"

lemma append_chars_fits: "length buf + length (cstr src) < bsize \<Longrightarrow> append_chars bsize src buf = buf @ cstr src"
  by (induction src arbitrary: buf) (auto simp: cstr_Cons)

lemma append_chars_bound: "length buf < bsize \<Longrightarrow> length (append_chars bsize src buf) < bsize"
  by (induction src arbitrary: buf) auto

text \<open>A text without line breaks.\<close>

definition clean :: "string \<Rightarrow> bool" where
  "clean s \<longleftrightarrow> LF \<notin> set s \<and> CR \<notin> set s"

lemma fill_line_eq:
  "NUL \<notin> set xs \<Longrightarrow> clean xs \<Longrightarrow> length line + length xs < n \<Longrightarrow>
   fill_line (xs @ LF # rest) n line = (line @ xs, LF # rest)"
  by (induction xs arbitrary: line) (auto simp: clean_def)

end
