(* ===== verification/Config.thy ===== *)
theory Config
  imports FileStore TextLines
begin

text \<open>
  The configuration store \<open>kernel/config/config.c\<close>: a registry of key and value
  strings with built-in defaults, saved to and loaded from the file
  \<open>acharyaos.cfg\<close> as lines \<open>key=value\<close>.  File operations go through the file
  interface.  A load that overruns its buffer would be the result \<open>None\<close>.
  Null arguments, which the code refuses, are not represented.
\<close>

definition CONFIG_KEY_MAX :: nat where "CONFIG_KEY_MAX = 32"
definition CONFIG_VALUE_MAX :: nat where "CONFIG_VALUE_MAX = 96"
definition CONFIG_ENTRY_MAX :: nat where "CONFIG_ENTRY_MAX = 16"
definition CONFIG_FILE_MAX :: nat where "CONFIG_FILE_MAX = 1024"
definition CONFIG_FILE_NAME :: string where "CONFIG_FILE_NAME = ''acharyaos.cfg''"

lemmas config_consts = CONFIG_KEY_MAX_def CONFIG_VALUE_MAX_def CONFIG_ENTRY_MAX_def
  CONFIG_FILE_MAX_def CONFIG_FILE_NAME_def

section \<open>Data\<close>

record config_entry =
  ckey :: "char list"
  cvalue :: "char list"
  cused :: bool

record config_stats =
  total_entries :: nat
  used_entries :: nat
  backing_file :: "char list"

record config =
  config_entries :: "config_entry list"
  config_file_name :: "char list"

definition zero_config_entry :: config_entry where
  "zero_config_entry = \<lparr>ckey = zbuf CONFIG_KEY_MAX, cvalue = zbuf CONFIG_VALUE_MAX, cused = False\<rparr>"

definition config_defaults :: "(string \<times> string) list" where
  "config_defaults = [(''prompt'', ''acharyaos> ''), (''loglevel'', ''info''),
     (''browser_filter'', ''''), (''editor_tabwidth'', ''4'')]"

section \<open>The registry operations\<close>

definition config_copy_text :: "char list \<Rightarrow> char list \<Rightarrow> char list" where
  "config_copy_text dest src = copy_text dest src"

definition config_find_index :: "config_entry list \<Rightarrow> char list \<Rightarrow> nat option" where
  "config_find_index es key = first_index (\<lambda>e. cused e \<and> strcmp (ckey e) key = 0) es"

definition config_find_free_index :: "config_entry list \<Rightarrow> nat option" where
  "config_find_free_index es = first_index (\<lambda>e. \<not> cused e) es"

definition config_clear :: "config \<Rightarrow> config" where
  "config_clear c = c\<lparr>config_entries := replicate CONFIG_ENTRY_MAX zero_config_entry\<rparr>"

fun store_defaults :: "(string \<times> string) list \<Rightarrow> config_entry list \<Rightarrow> config_entry list" where
  "store_defaults [] es = es"
| "store_defaults ((k, v) # kvs) es =
     (case config_find_free_index es of
        None \<Rightarrow> es
      | Some idx \<Rightarrow> store_defaults kvs
          (es[idx := \<lparr>ckey = config_copy_text (ckey (es ! idx)) k,
                      cvalue = config_copy_text (cvalue (es ! idx)) v, cused = True\<rparr>]))"

definition config_reset_defaults :: "config \<Rightarrow> config" where
  "config_reset_defaults c =
     (let c1 = config_clear c
      in c1\<lparr>config_entries := store_defaults config_defaults (config_entries c1)\<rparr>)"

definition config_backing_file :: "config \<Rightarrow> char list" where
  "config_backing_file c = config_file_name c"

definition config_set :: "char list \<Rightarrow> char list \<Rightarrow> config \<Rightarrow> int \<times> config" where
  "config_set key val c =
     (if cget key 0 = NUL then (-1, c)
      else
        let es = config_entries c;
            slot = (case config_find_index es key of
                Some idx \<Rightarrow> Some (idx, es)
              | None \<Rightarrow> (case config_find_free_index es of
                  None \<Rightarrow> None
                | Some idx \<Rightarrow> Some (idx, es[idx := (es ! idx)\<lparr>cused := True,
                      ckey := config_copy_text (ckey (es ! idx)) key\<rparr>])))
        in case slot of
             None \<Rightarrow> (-1, c)
           | Some (idx, es1) \<Rightarrow>
               (0, c\<lparr>config_entries := es1[idx := (es1 ! idx)\<lparr>cvalue :=
                      config_copy_text (cvalue (es1 ! idx)) val\<rparr>]\<rparr>))"

definition config_get :: "char list \<Rightarrow> char list \<Rightarrow> config \<Rightarrow> int \<times> char list" where
  "config_get key out_value c =
     (if length out_value = 0 then (-1, out_value)
      else case config_find_index (config_entries c) key of
        None \<Rightarrow> (-1, out_value)
      | Some idx \<Rightarrow> (0, config_copy_text out_value (cvalue (config_entries c ! idx))))"

definition config_list :: "config \<Rightarrow> nat \<Rightarrow> config_entry list" where
  "config_list c max_entries =
     (if max_entries = 0 then [] else list_used cused (config_entries c) max_entries)"

definition config_get_stats :: "config \<Rightarrow> config_stats \<Rightarrow> config_stats" where
  "config_get_stats c stats =
     \<lparr>total_entries = CONFIG_ENTRY_MAX, used_entries = count_used cused (config_entries c),
      backing_file = config_copy_text (backing_file stats) (config_file_name c)\<rparr>"

section \<open>Loading\<close>

text \<open>
  \<open>config_next_line\<close>: skip line breaks, store what the line has room for, drop
  the rest of the line.  The results are the line stored and the text that
  remains.
\<close>

fun skip_line :: "char list \<Rightarrow> char list" where
  "skip_line [] = []"
| "skip_line (c # text) = (if c \<noteq> NUL \<and> c \<noteq> LF then skip_line text else if c = LF then text else c # text)"

definition config_next_line :: "char list \<Rightarrow> nat \<Rightarrow> string \<times> char list" where
  "config_next_line text line_size =
     (let (line, rest) = fill_line (dropWhile (\<lambda>c. c = CR \<or> c = LF) text) line_size []
      in (line, skip_line rest))"

lemma skip_line_shorter: "length (skip_line t) \<le> length t"
  by (induction t rule: skip_line.induct) auto

text \<open>The line is cut at its first equals sign and set as key and value.\<close>

definition config_load_line :: "string \<Rightarrow> config \<Rightarrow> config" where
  "config_load_line line c =
     (if line = [] then c
      else let k = takeWhile (\<lambda>x. x \<noteq> CHR ''='') line; rest = dropWhile (\<lambda>x. x \<noteq> CHR ''='') line
           in if rest = [] then c else snd (config_set k (tl rest) c))"

definition config_line_size :: nat where
  "config_line_size = CONFIG_KEY_MAX + CONFIG_VALUE_MAX + 2"

lemma next_line_progress:
  "cget s 0 \<noteq> NUL \<Longrightarrow> length (snd (config_next_line s config_line_size)) < length s"
  using fill_after_breaks [of s config_line_size]
    skip_line_shorter [of "snd (fill_line (dropWhile (\<lambda>c. c = CR \<or> c = LF) s) config_line_size [])"]
  by (simp add: config_next_line_def split_beta Let_def config_line_size_def config_consts)

function config_load_text :: "char list \<Rightarrow> config \<Rightarrow> config" where
  "config_load_text text c =
     (if cget text 0 = NUL then c
      else let (line, rest) = config_next_line text config_line_size
           in config_load_text rest (config_load_line line c))"
  by pat_completeness auto
termination
proof (relation "measure (\<lambda>(s, c). length s)")
  fix s and c :: config and x line rest
  assume "cget s 0 \<noteq> NUL" "x = config_next_line s config_line_size" "(line, rest) = x"
  then have "length rest < length s" using next_line_progress [of s] by (metis snd_conv)
  then show "((rest, config_load_line line c), s, c) \<in> measure (\<lambda>(s, c). length s)" by simp
qed simp

declare config_load_text.simps [simp del]

definition config_load :: "'w file_api \<Rightarrow> config \<Rightarrow> 'w \<Rightarrow> (int \<times> config) option \<times> 'w" where
  "config_load api c w =
     (let c1 = config_reset_defaults c in
      case fa_read api (config_file_name c1) CONFIG_FILE_MAX w of
        (ReadFailed, w') \<Rightarrow> (Some (0, c1), w')
      | (ReadOverrun bs, w') \<Rightarrow> (None, w')
      | (ReadDone bs file_size, w') \<Rightarrow>
          let n = (if unat file_size \<ge> CONFIG_FILE_MAX then CONFIG_FILE_MAX - 1 else unat file_size)
          in (Some (0, config_load_text (bytes_chars (take n bs)) c1), w'))"

definition config_init :: "'w file_api \<Rightarrow> config \<Rightarrow> 'w \<Rightarrow> config option \<times> 'w" where
  "config_init api c w =
     (let c1 = c\<lparr>config_file_name := config_copy_text (config_file_name c) CONFIG_FILE_NAME\<rparr>;
          (r, w') = config_load api (config_reset_defaults c1) w
      in (map_option snd r, w'))"

section \<open>Saving\<close>

fun save_entries :: "config_entry list \<Rightarrow> string \<Rightarrow> string" where
  "save_entries [] buffer = buffer"
| "save_entries (e # es) buffer =
     (if \<not> cused e then save_entries es buffer
      else let b1 = append_chars CONFIG_FILE_MAX (ckey e) buffer in
        if length b1 + 1 \<ge> CONFIG_FILE_MAX then b1
        else let b2 = append_chars CONFIG_FILE_MAX (cvalue e) (b1 @ ''='') in
          if length b2 + 1 \<ge> CONFIG_FILE_MAX then b2 else save_entries es (b2 @ [LF]))"

definition config_save :: "'w file_api \<Rightarrow> config \<Rightarrow> 'w \<Rightarrow> int \<times> 'w" where
  "config_save api c w =
     (let b = save_entries (config_entries c) []; b' = (if length b = 0 then [LF] else b)
      in fa_write api (config_file_name c) (chars_bytes b') w)"

end
