(* ===== verification/ConfigProps.thy ===== *)
theory ConfigProps
  imports Config FsProps
begin

text \<open>
  Correctness of the configuration store: the registry refines a finite map
  from keys to values, and a saved configuration is read back unchanged from
  any file store.
\<close>

section \<open>The registry\<close>

definition ckey_of :: "config_entry \<Rightarrow> string" where
  "ckey_of e = cstr (ckey e)"

interpretation cfg: slot_table cused ckey_of cstr config_find_index config_find_free_index
proof (rule slot_tableI)
  show "config_find_index es q = first_index (\<lambda>e. cused e \<and> ckey_of e = cstr q) es" for es q
    by (simp add: config_find_index_def strcmp_0_iff ckey_of_def)
qed (simp add: config_find_free_index_def)

definition config_map :: "config \<Rightarrow> string \<Rightarrow> string option" where
  "config_map c k = map_option (\<lambda>e. cstr (cvalue e)) (tab_of cused ckey_of (config_entries c) k)"

definition config_entry_ok :: "config_entry \<Rightarrow> bool" where
  "config_entry_ok e \<longleftrightarrow> length (ckey e) = 32 \<and> length (cvalue e) = 96 \<and>
     (cused e \<longrightarrow> ckey_of e \<noteq> [] \<and> length (ckey_of e) < 32 \<and> length (cstr (cvalue e)) < 96)"

definition config_ok :: "config \<Rightarrow> bool" where
  "config_ok c \<longleftrightarrow> length (config_entries c) = 16 \<and> (\<forall>e \<in> set (config_entries c). config_entry_ok e) \<and>
     keys_distinct cused ckey_of (config_entries c)"

lemma config_okD:
  assumes "config_ok c"
  shows "length (config_entries c) = 16" "e \<in> set (config_entries c) \<Longrightarrow> config_entry_ok e"
    "keys_distinct cused ckey_of (config_entries c)"
  using assms by (auto simp: config_ok_def)

lemma config_map_dom: "dom (config_map c) = dom (tab_of cused ckey_of (config_entries c))"
  by (auto simp: config_map_def dom_def)

lemma config_card: "config_ok c \<Longrightarrow> card (dom (config_map c)) \<le> 16"
  using card_dom_tab [OF config_okD(3)] count_used_le [of cused "config_entries c"]
  by (simp add: config_map_dom config_okD(1))

text \<open>Setting a key that is present or fits.\<close>

lemma config_set_map:
  assumes ok: "config_ok c" and key: "cstr key \<noteq> []" "length (cstr key) < 32"
    and room: "card (insert (cstr key) (dom (config_map c))) \<le> 16"
  obtains c' where "config_set key val c = (0, c')" "config_ok c'"
    "config_map c' = (config_map c)(cstr key \<mapsto> take 95 (cstr val))"
    "config_file_name c' = config_file_name c"
proof -
  let ?es = "config_entries c"
  note D = config_okD [OF ok]
  have k0: "cget key 0 \<noteq> NUL" using key(1) by (simp add: cstr_eq_Nil_iff)
  obtain i where i: "config_find_index ?es key = Some i \<or>
      config_find_index ?es key = None \<and> config_find_free_index ?es = Some i"
  proof (cases "config_find_index ?es key")
    case None
    have "card (insert (cstr key) (dom (tab_of cused ckey_of ?es))) \<le> length ?es"
      using room D(1) by (simp add: config_map_dom)
    from cfg.free_if_room [OF D(3) None this] None that show ?thesis by blast
  qed (use that in blast)
  have il: "i < length ?es" using i cfg.find_slot_hit cfg.find_free_hit by blast
  have eo: "config_entry_ok (?es ! i)" using D(2) il by simp
  define x where "x = (if config_find_index ?es key = None
      then (?es ! i)\<lparr>cused := True, ckey := config_copy_text (ckey (?es ! i)) key\<rparr> else ?es ! i)"
  define e where "e = x\<lparr>cvalue := config_copy_text (cvalue (?es ! i)) val\<rparr>"
  have lens: "length (ckey (?es ! i)) = 32" "length (cvalue (?es ! i)) = 96"
      "ckey (?es ! i) \<noteq> []" "cvalue (?es ! i) \<noteq> []"
    using eo by (auto simp: config_entry_ok_def)
  have e: "cused e" "ckey_of e = cstr key" "cstr (cvalue e) = take 95 (cstr val)" "config_entry_ok e"
    using i cfg.find_slot_hit [of ?es key i] lens key
    by (auto simp: e_def x_def ckey_of_def config_copy_text_def cstr_copy_text config_entry_ok_def)
  define c' where "c' = c\<lparr>config_entries := ?es[i := e]\<rparr>"
  have run: "config_set key val c = (0, c')"
    using i il k0 by (auto simp: config_set_def c'_def e_def x_def Let_def)
  have upd: "keys_distinct cused ckey_of (?es[i := e])"
      "tab_of cused ckey_of (?es[i := e]) = (tab_of cused ckey_of ?es)(cstr key \<mapsto> e)"
    using i cfg.overwrite_slot [OF D(3) _ e(1,2)] cfg.insert_slot [OF D(3) _ _ e(1,2)] by blast+
  have "config_ok c'"
    using upd(1) D(1,2) e(4) set_update_subset_insert [of ?es i e] by (auto simp: config_ok_def c'_def)
  moreover have "config_map c' = (config_map c)(cstr key \<mapsto> take 95 (cstr val))"
    using upd(2) e(3) by (simp add: config_map_def c'_def fun_eq_iff)
  ultimately show ?thesis using that [OF run] by (simp add: c'_def)
qed

lemma config_get_map:
  "out \<noteq> [] \<Longrightarrow> (case config_map c (cstr key) of
       None \<Rightarrow> config_get key out c = (-1, out)
     | Some v \<Rightarrow> fst (config_get key out c) = 0 \<and> cstr (snd (config_get key out c)) = take (length out - 1) v)"
  using cfg.tab_of_find [of "config_entries c" key]
  by (cases "config_find_index (config_entries c) key")
    (simp_all add: config_get_def config_map_def config_copy_text_def cstr_copy_text)

lemma defaults_map:
  "config_ok (config_reset_defaults c)" "config_map (config_reset_defaults c) = map_of config_defaults"
  "config_file_name (config_reset_defaults c) = config_file_name c"
proof -
  define es where "es = store_defaults config_defaults (replicate CONFIG_ENTRY_MAX zero_config_entry)"
  have en: "config_entries (config_reset_defaults c) = es"
    by (simp add: config_reset_defaults_def config_clear_def es_def)
  have used: "map (\<lambda>e. (ckey_of e, cstr (cvalue e))) (filter cused es) = config_defaults"
      "list_all config_entry_ok es" "length es = 16"
    unfolding es_def by code_simp+
  have "map ckey_of (filter cused es) = map fst (map (\<lambda>e. (ckey_of e, cstr (cvalue e))) (filter cused es))"
    by simp
  also have "\<dots> = map fst config_defaults" by (simp only: used(1))
  finally have "keys_distinct cused ckey_of es"
    by (simp add: keys_distinct_iff config_defaults_def)
  then show "config_ok (config_reset_defaults c)"
    using used(2,3) by (simp add: config_ok_def en list_all_iff)
  show "config_map (config_reset_defaults c) = map_of config_defaults"
    using used(1) by (simp add: config_map_def en tab_of_map_of fun_eq_iff)
  show "config_file_name (config_reset_defaults c) = config_file_name c"
    by (simp add: config_reset_defaults_def config_clear_def)
qed

section \<open>Saving\<close>

definition config_line :: "string \<Rightarrow> string \<Rightarrow> string" where
  "config_line k v = k @ ''='' @ v @ [LF]"

definition config_pairs :: "config \<Rightarrow> (string \<times> string) list" where
  "config_pairs c = map (\<lambda>e. (ckey_of e, cstr (cvalue e))) (filter cused (config_entries c))"

definition config_text :: "(string \<times> string) list \<Rightarrow> string" where
  "config_text kvs = concat (map (\<lambda>(k, v). config_line k v) kvs)"

lemma save_entries_fits:
  "length buf + length (config_text (map (\<lambda>e. (ckey_of e, cstr (cvalue e))) (filter cused es))) \<le> 1023 \<Longrightarrow>
   save_entries es buf = buf @ config_text (map (\<lambda>e. (ckey_of e, cstr (cvalue e))) (filter cused es))"
proof (induction es arbitrary: buf)
  case (Cons e es)
  show ?case
  proof (cases "cused e")
    case True
    let ?rest = "config_text (map (\<lambda>e. (ckey_of e, cstr (cvalue e))) (filter cused es))"
    have len: "length buf + length (ckey_of e) + 1 + length (cstr (cvalue e)) + 1 + length ?rest \<le> 1023"
      using Cons.prems True by (simp add: config_text_def config_line_def)
    have "append_chars CONFIG_FILE_MAX (ckey e) buf = buf @ ckey_of e"
      using len append_chars_fits [of buf "ckey e" CONFIG_FILE_MAX] by (simp add: ckey_of_def CONFIG_FILE_MAX_def)
    moreover have "append_chars CONFIG_FILE_MAX (cvalue e) ((buf @ ckey_of e) @ ''='') = ((buf @ ckey_of e) @ ''='') @ cstr (cvalue e)"
      using len by (intro append_chars_fits) (simp add: CONFIG_FILE_MAX_def)
    moreover have "save_entries es ((((buf @ ckey_of e) @ ''='') @ cstr (cvalue e)) @ [LF]) =
        ((((buf @ ckey_of e) @ ''='') @ cstr (cvalue e)) @ [LF]) @ ?rest"
      using len by (intro Cons.IH) simp
    ultimately show ?thesis
      using True len by (simp add: Let_def CONFIG_FILE_MAX_def config_text_def config_line_def)
  qed (use Cons in simp)
qed (simp add: config_text_def)

section \<open>Loading\<close>

lemma next_line_eq:
  assumes "NUL \<notin> set xs" "clean xs" "xs \<noteq> []" "length xs < 130"
  shows "config_next_line (xs @ LF # rest) config_line_size = (xs, rest)"
proof -
  have "dropWhile (\<lambda>c. c = CR \<or> c = LF) (xs @ LF # rest) = xs @ LF # rest"
    using assms(2,3) by (cases xs) (auto simp: clean_def)
  then show ?thesis
    using fill_line_eq [OF assms(1,2), of "[]" config_line_size rest] assms(4)
    by (simp add: config_next_line_def config_line_size_def config_consts)
qed

definition pair_ok :: "string \<times> string \<Rightarrow> bool" where
  "pair_ok = (\<lambda>(k, v). k \<noteq> [] \<and> length k < 32 \<and> length v < 96 \<and> NUL \<notin> set k \<and> NUL \<notin> set v \<and>
     clean k \<and> clean v \<and> CHR ''='' \<notin> set k)"

lemma load_line_eq:
  assumes "pair_ok (k, v)"
  shows "config_load_text (config_line k v @ rest) c = config_load_text rest (snd (config_set k v c))"
proof -
  let ?l = "k @ ''='' @ v"
  have l: "NUL \<notin> set ?l" "clean ?l" "?l \<noteq> []" "length ?l < 130"
    using assms by (auto simp: pair_ok_def clean_def)
  have "CHR ''='' \<notin> set k" using assms by (auto simp: pair_ok_def)
  then have k: "takeWhile (\<lambda>x. x \<noteq> CHR ''='') ?l = k" "dropWhile (\<lambda>x. x \<noteq> CHR ''='') ?l = CHR ''='' # v"
    using split_at by simp_all
  have ne: "cget (?l @ LF # rest) 0 \<noteq> NUL"
    using assms by (cases k) (auto simp: pair_ok_def)
  have "config_load_text (?l @ LF # rest) c = config_load_text rest (config_load_line ?l c)"
    using next_line_eq [OF l, of rest] ne by (subst config_load_text.simps) simp
  also have "config_load_line ?l c = snd (config_set k v c)"
    using l(3) unfolding config_load_line_def Let_def k by simp
  finally show ?thesis by (simp add: config_line_def)
qed

text \<open>Loading distinct pairs over a configuration that has room for them.\<close>

lemma load_pairs:
  assumes "config_ok c" "list_all pair_ok kvs" "distinct (map fst kvs)"
    "finite D" "card D \<le> 16" "dom (config_map c) \<subseteq> D" "fst ` set kvs \<subseteq> D"
  shows "config_ok (config_load_text (config_text kvs) c)"
    and "config_map (config_load_text (config_text kvs) c) = config_map c ++ map_of kvs"
proof -
  have "config_ok (config_load_text (config_text kvs) c) \<and>
      config_map (config_load_text (config_text kvs) c) = config_map c ++ map_of kvs"
    using assms
  proof (induction kvs arbitrary: c)
    case Nil
    then show ?case by (simp add: config_text_def config_load_text.simps)
  next
    case (Cons kv kvs)
    obtain k v where kv: "kv = (k, v)" by (cases kv)
    have p: "pair_ok (k, v)" using Cons.prems(2) kv by simp
    then have ck: "cstr k = k" "cstr v = v" "take 95 v = v" "k \<noteq> []" "length k < 32"
      by (auto simp: pair_ok_def cstr_id)
    have "insert (cstr k) (dom (config_map c)) \<subseteq> D" using Cons.prems(6,7) ck kv by auto
    then have "card (insert (cstr k) (dom (config_map c))) \<le> 16"
      using card_mono [OF Cons.prems(4)] Cons.prems(5) le_trans by blast
    moreover have "cstr k \<noteq> []" "length (cstr k) < 32" using ck by simp_all
    ultimately obtain c' where c': "config_set k v c = (0, c')" "config_ok c'"
        "config_map c' = (config_map c)(cstr k \<mapsto> take 95 (cstr v))"
      using config_set_map [OF Cons.prems(1), of k v] by metis
    have ld: "config_load_text (config_text (kv # kvs)) c = config_load_text (config_text kvs) c'"
      using load_line_eq [OF p, of "config_text kvs" c] c'(1) kv by (simp add: config_text_def)
    have "dom (config_map c') \<subseteq> D" using c'(3) Cons.prems(6,7) ck kv by auto
    then have "config_ok (config_load_text (config_text kvs) c') \<and>
        config_map (config_load_text (config_text kvs) c') = config_map c' ++ map_of kvs"
      using Cons.prems by (intro Cons.IH) (auto simp: c'(2))
    moreover have "k \<notin> dom (map_of kvs)" using Cons.prems(3) kv by (simp add: dom_map_of_conv_image_fst)
    then have "config_map c' ++ map_of kvs = config_map c ++ map_of (kv # kvs)"
      using c'(3) ck kv by (auto simp: fun_eq_iff map_add_def split: option.splits)
    ultimately show ?case using ld by (simp only: simp_thms)
  qed
  then show "config_ok (config_load_text (config_text kvs) c)"
    "config_map (config_load_text (config_text kvs) c) = config_map c ++ map_of kvs" by simp_all
qed

section \<open>Saving and loading through a file store\<close>

definition config_printable :: "config \<Rightarrow> bool" where
  "config_printable c \<longleftrightarrow> list_all pair_ok (config_pairs c) \<and> length (config_text (config_pairs c)) \<le> 1023"

lemma config_pairs_map: "map_of (config_pairs c) = config_map c"
  by (simp add: config_pairs_def config_map_def tab_of_map_of fun_eq_iff)

lemma config_pairs_distinct: "config_ok c \<Longrightarrow> distinct (map fst (config_pairs c))"
  using config_okD(3) [of c] by (simp add: config_pairs_def keys_distinct_iff comp_def)

lemma saved_text:
  assumes "config_printable c" "config_map c \<noteq> Map.empty"
  shows "save_entries (config_entries c) [] = config_text (config_pairs c)"
    and "config_text (config_pairs c) \<noteq> []"
proof -
  show "save_entries (config_entries c) [] = config_text (config_pairs c)"
    using assms(1) save_entries_fits [of "[]" "config_entries c"] by (simp add: config_printable_def config_pairs_def)
  have "config_pairs c \<noteq> []" using assms(2) config_pairs_map [of c] by auto
  then show "config_text (config_pairs c) \<noteq> []"
    by (cases "config_pairs c") (auto simp: config_text_def config_line_def split_beta)
qed

context file_store
begin

lemma config_save_then_load:
  assumes w: "ready w" and c: "config_ok c" "config_printable c" and name: "length (cstr (config_file_name c)) < 16"
    and dflt: "fst ` set config_defaults \<subseteq> dom (config_map c)" and room: "\<forall>n \<le> 1023. room w (config_file_name c) n"
  obtains w1 c2 w2 where "config_save api c w = (0, w1)" "config_load api c w1 = (Some (0, c2), w2)"
    "config_ok c2" "config_map c2 = config_map c" "ready w2"
proof -
  let ?t = "config_text (config_pairs c)"
  have ne: "config_map c \<noteq> Map.empty" using dflt by (auto simp: config_defaults_def)
  note sv = saved_text [OF c(2) ne]
  have len: "length ?t \<le> 1023" using c(2) by (simp add: config_printable_def)
  let ?d = "chars_bytes ?t"
  have ld: "length ?d \<le> 1023" using len by simp
  have nb: "nblocks (length ?d) \<le> 2" using ld by (simp add: nblocks_def)
  then have sz: "nblocks (length ?d) * 512 \<le> CONFIG_FILE_MAX" "nblocks (length ?d) < 256"
      "length ?d \<le> CONFIG_FILE_MAX" using ld by (simp_all add: CONFIG_FILE_MAX_def)
  obtain w1 bs w2 where rw: "fa_write api (config_file_name c) ?d w = (0, w1)"
      "fa_read api (config_file_name c) CONFIG_FILE_MAX w1 = (ReadDone bs (of_nat (length ?d)), w2)"
      "take (length ?d) bs = ?d" "ready w2"
    using read_back [OF w name sz(3,1,2)] room ld by metis
  have save: "config_save api c w = (0, w1)" using rw(1) sv by (simp add: config_save_def Let_def)
  have u: "unat (of_nat (length ?d) :: u32) = length ?d"
    using ld by (simp add: unat_of_nat take_bit_nat_eq_self)
  let ?c1 = "config_reset_defaults c"
  define c2 where "c2 = config_load_text ?t ?c1"
  have load: "config_load api c w1 = (Some (0, c2), w2)"
    using rw(2,3) ld u
    by (simp add: config_load_def Let_def defaults_map(3) CONFIG_FILE_MAX_def c2_def bytes_chars_chars)
  have "fst ` set (config_pairs c) = dom (config_map c)"
    using dom_map_of_conv_image_fst [of "config_pairs c"] by (simp add: config_pairs_map)
  moreover have "dom (config_map ?c1) \<subseteq> dom (config_map c)"
    using dflt by (simp add: defaults_map(2) dom_map_of_conv_image_fst)
  moreover have "finite (dom (config_map c))" by (simp add: config_map_dom dom_tab_of)
  ultimately have r: "config_ok c2" "config_map c2 = config_map ?c1 ++ map_of (config_pairs c)"
    using load_pairs [OF defaults_map(1) _ config_pairs_distinct [OF c(1)], of "dom (config_map c)" c]
      config_card [OF c(1)] c(2) by (simp_all add: config_printable_def c2_def)
  have "config_map c2 = config_map c"
    using r(2) \<open>dom (config_map ?c1) \<subseteq> dom (config_map c)\<close>
    by (simp add: config_pairs_map map_add_subsumed1 fun_eq_iff map_add_def split: option.splits)
      (metis domIff subsetD)
  then show ?thesis using that save load r(1) rw(4) by blast
qed

end

section \<open>Properties\<close>

text \<open>C29. Saving and loading.  On a mounted file system with room for the file, saving a
configuration whose keys and values hold no line breaks, whose keys hold no equals sign and whose
text is at most 1023 bytes succeeds, and loading it, in any later session, restores exactly the
same map from keys to values over the built-in defaults.\<close>

theorem config_save_load_roundtrip:
  assumes dev: "block_device dev ok store cap" and ready: "fs_ready dev ok store cap f s"
    and room: "\<forall>n \<le> 1023. fs_room cap f (config_file_name c) n"
    and name: "length (cstr (config_file_name c)) < 16"
    and c: "config_ok c" "config_printable c" "fst ` set config_defaults \<subseteq> dom (config_map c)"
  shows "let (r, w1) = config_save (fs_api dev) c (f, s); (res, w2) = config_load (fs_api dev) c w1
         in r = 0 \<and> (\<exists>c2. res = Some (0, c2) \<and> config_ok c2 \<and> config_map c2 = config_map c)"
proof -
  have st: "file_store (fs_api dev) (\<lambda>(f, s). fs_ready dev ok store cap f s)
      (\<lambda>(f, s). fs_files store f s) (\<lambda>(f, s). fs_room cap f)"
    using dev by (rule block_device.provides_files)
  have "(\<lambda>(f, s). fs_ready dev ok store cap f s) (f, s)"
    "\<forall>n \<le> 1023. (\<lambda>(f, s). fs_room cap f) (f, s) (config_file_name c) n"
    using ready room by simp_all
  from file_store.config_save_then_load [OF st this(1) c(1,2) name c(3) this(2)] obtain w1 c2 w2 where
    "config_save (fs_api dev) c (f, s) = (0, w1)" "config_load (fs_api dev) c w1 = (Some (0, c2), w2)"
    "config_ok c2" "config_map c2 = config_map c" .
  then show ?thesis by simp
qed

definition demo_config :: config where
  "demo_config = config_reset_defaults
     \<lparr>config_entries = [], config_file_name = CONFIG_FILE_NAME @ zbuf 3\<rparr>"

lemma demo_config_facts:
  "config_ok demo_config" "config_printable demo_config" "config_map demo_config = map_of config_defaults"
  "length (cstr (config_file_name demo_config)) < 16"
  by (simp_all add: demo_config_def defaults_map) code_simp+

lemma config_save_load_roundtrip_witness:
  "\<exists>f s. fs_format sim_disk fs_clear_cache (sim_info, sim_drive0) = (0, f, s) \<and>
     (let (r, w1) = config_save (fs_api sim_disk) demo_config (f, s);
          (res, w2) = config_load (fs_api sim_disk) demo_config w1
      in r = 0 \<and> (\<exists>c2. res = Some (0, c2) \<and> config_map c2 ''loglevel'' = Some ''info''))"
proof -
  from sim_formatted obtain f s where fs: "fs_format sim_disk fs_clear_cache (sim_info, sim_drive0) = (0, f, s)"
    "fs_ready sim_disk sim_ok sim_store (2 ^ 20) f s" "fs_files sim_store f s = Map.empty" .
  note e = free_block_empty [OF fs_readyD(4) [OF fs(2)] fs(3)]
  have room: "\<forall>n \<le> 1023. fs_room (2 ^ 20) f (config_file_name demo_config) n"
    using e by (auto simp: fs_room_def fs_full_def nblocks_def)
  have dom: "fst ` set config_defaults \<subseteq> dom (config_map demo_config)"
    by (simp add: demo_config_facts(3) dom_map_of_conv_image_fst)
  have "config_map demo_config ''loglevel'' = Some ''info''"
    by (simp add: demo_config_facts(3) config_defaults_def)
  then show ?thesis
    using config_save_load_roundtrip [OF sim_device fs(2) room demo_config_facts(4,1,2) dom] fs(1)
    by (intro exI [of _ f] exI [of _ s]) (auto simp: split_beta Let_def)
qed

end
