(* ===== verification/Package.thy ===== *)
theory Package
  imports FileStore TextLines Kstring
begin

text \<open>
  The package installer \<open>kernel/package/package.c\<close>: a registry of installed
  packages, its index file \<open>packages.db\<close>, and installation from a text
  manifest read through the file interface.  Loading and installing from a file
  that overran the buffer would be the result \<open>None\<close>.  Null arguments, which
  the code refuses, are not represented.
\<close>

definition PACKAGE_NAME_MAX :: nat where "PACKAGE_NAME_MAX = 32"
definition PACKAGE_VERSION_MAX :: nat where "PACKAGE_VERSION_MAX = 16"
definition PACKAGE_FILE_MAX :: nat where "PACKAGE_FILE_MAX = 64"
definition PACKAGE_ENTRY_MAX :: nat where "PACKAGE_ENTRY_MAX = 12"
definition PACKAGE_MANIFEST_MAX :: nat where "PACKAGE_MANIFEST_MAX = 2048"
definition PACKAGE_INDEX_FILE :: string where "PACKAGE_INDEX_FILE = ''packages.db''"

lemmas package_consts = PACKAGE_NAME_MAX_def PACKAGE_VERSION_MAX_def PACKAGE_FILE_MAX_def
  PACKAGE_ENTRY_MAX_def PACKAGE_MANIFEST_MAX_def PACKAGE_INDEX_FILE_def

section \<open>Data\<close>

record package_entry =
  p_name :: "char list"
  p_version :: "char list"
  p_source :: "char list"
  p_installed_files :: nat
  p_used :: bool

record package_stats =
  pk_total_entries :: nat
  pk_used_entries :: nat

type_synonym packages = "package_entry list"

definition zero_package :: package_entry where
  "zero_package = \<lparr>p_name = zbuf PACKAGE_NAME_MAX, p_version = zbuf PACKAGE_VERSION_MAX,
     p_source = zbuf PACKAGE_FILE_MAX, p_installed_files = 0, p_used = False\<rparr>"

section \<open>Helpers\<close>

definition package_clear_entries :: packages where
  "package_clear_entries = replicate PACKAGE_ENTRY_MAX zero_package"

definition package_copy_text :: "char list \<Rightarrow> char list \<Rightarrow> char list" where
  "package_copy_text dest src = copy_text dest src"

definition package_find_index :: "packages \<Rightarrow> char list \<Rightarrow> nat option" where
  "package_find_index es nm = first_index (\<lambda>e. p_used e \<and> strcmp (p_name e) nm = 0) es"

definition package_find_free_index :: "packages \<Rightarrow> nat option" where
  "package_find_free_index es = first_index (\<lambda>e. \<not> p_used e) es"

definition package_skip_spaces :: "char list \<Rightarrow> char list" where
  "package_skip_spaces s = dropWhile (\<lambda>c. c = CHR '' '') s"

definition package_starts_with_word :: "char list \<Rightarrow> char list \<Rightarrow> bool" where
  "package_starts_with_word line word =
     (let n = strlen word in
      if memcmp line word n \<noteq> 0 then False
      else cget line n = NUL \<or> cget line n = CHR '' '' \<or> cget line n = CHR ''='')"

fun parse_size_loop :: "char list \<Rightarrow> u64 \<Rightarrow> u64" where
  "parse_size_loop [] v = v"
| "parse_size_loop (c # s) v =
     (if 48 \<le> uchar c \<and> uchar c \<le> 57 then parse_size_loop s (v * 10 + (of_char c - 48)) else v)"

definition package_parse_size :: "char list \<Rightarrow> nat" where
  "package_parse_size s = unat (parse_size_loop s 0)"

definition package_trim_newline :: "string \<Rightarrow> string" where
  "package_trim_newline s = rev (dropWhile (\<lambda>c. c = LF \<or> c = CR) (rev s))"

section \<open>The index file\<close>

text \<open>
  One line per package: three fields and the decimal file count, each followed
  by its separator; writing stops for good once the buffer is full.
\<close>

fun count_digits :: "nat \<Rightarrow> nat \<Rightarrow> string" where
  "count_digits 0 count = []"
| "count_digits (Suc room) count =
     (if count > 0 then char_of (48 + count mod 10) # count_digits room (count div 10) else [])"

definition count_text :: "nat \<Rightarrow> string" where
  "count_text count = (if count = 0 then ''0'' else rev (count_digits 16 count))"

definition put_field :: "char \<Rightarrow> string \<Rightarrow> string \<times> bool \<Rightarrow> string \<times> bool" where
  "put_field sep src = (\<lambda>(buffer, full).
     if full then (buffer, True)
     else let b = append_chars PACKAGE_MANIFEST_MAX src buffer in
       if length b + 1 \<ge> PACKAGE_MANIFEST_MAX then (b, True) else (b @ [sep], False))"

definition put_package :: "package_entry \<Rightarrow> string \<times> bool \<Rightarrow> string \<times> bool" where
  "put_package e st =
     (if \<not> p_used e then st
      else put_field LF (count_text (p_installed_files e))
             (put_field (CHR ''|'') (p_source e)
               (put_field (CHR ''|'') (p_version e)
                 (put_field (CHR ''|'') (p_name e) st))))"

definition package_save_index :: "'w file_api \<Rightarrow> packages \<Rightarrow> 'w \<Rightarrow> 'w" where
  "package_save_index api es w =
     (let b = fst (fold put_package es ([], False)); b' = (if length b = 0 then [LF] else b)
      in snd (fa_write api PACKAGE_INDEX_FILE (chars_bytes b') w))"

text \<open>
  A line of the index cut into name, version, source and what is left at the
  place the count is read from: the third separator has been overwritten by a
  terminator there.
\<close>

definition parse_index_line :: "string \<Rightarrow> (string \<times> string \<times> string \<times> char list) option" where
  "parse_index_line line =
     (let name = takeWhile (\<lambda>c. c \<noteq> CHR ''|'') line; r1 = dropWhile (\<lambda>c. c \<noteq> CHR ''|'') line in
      if r1 = [] then None
      else let version = takeWhile (\<lambda>c. c \<noteq> CHR ''|'') (tl r1); r2 = dropWhile (\<lambda>c. c \<noteq> CHR ''|'') (tl r1) in
        if r2 = [] then None
        else let src = takeWhile (\<lambda>c. c \<noteq> CHR ''|'') (tl r2); r3 = dropWhile (\<lambda>c. c \<noteq> CHR ''|'') (tl r2)
          in Some (name, version, src, if r3 = [] then r3 else NUL # tl r3))"

definition filled_package :: "package_entry \<Rightarrow> char list \<Rightarrow> char list \<Rightarrow> char list \<Rightarrow> nat \<Rightarrow> package_entry" where
  "filled_package e nm ver src files =
     \<lparr>p_name = package_copy_text (p_name e) nm, p_version = package_copy_text (p_version e) ver,
      p_source = package_copy_text (p_source e) src, p_installed_files = files, p_used = True\<rparr>"

function load_packages :: "char list \<Rightarrow> packages \<Rightarrow> packages" where
  "load_packages s es =
     (if cget s 0 = NUL then es
      else let (raw, rest) = cut_line s; line = package_trim_newline raw in
        if line = [] then load_packages rest es
        else case parse_index_line line of
          None \<Rightarrow> load_packages rest es
        | Some (name, version, src, count) \<Rightarrow>
            (case package_find_free_index es of
               None \<Rightarrow> es
             | Some idx \<Rightarrow> load_packages rest
                 (es[idx := filled_package (es ! idx) name version src (package_parse_size count)])))"
  by pat_completeness auto
termination
proof (relation "measure (\<lambda>(s, es). length s)", goal_cases)
  case (2 s es x raw rest line)
  then show ?case using cut_line_progress [of s] by (simp add: prod_eq_iff)
next
  case (3 s es x raw rest line)
  then show ?case using cut_line_progress [of s] by (simp add: prod_eq_iff)
next
  case (4 s es x raw rest line)
  then show ?case using cut_line_progress [of s] by (simp add: prod_eq_iff)
qed simp

declare load_packages.simps [simp del]

text \<open>The text of a manifest or index file as read: the buffer is cut and terminated.\<close>

definition file_text :: "u8 list \<Rightarrow> u32 \<Rightarrow> char list" where
  "file_text bs sz =
     bytes_chars (take (if unat sz \<ge> PACKAGE_MANIFEST_MAX then PACKAGE_MANIFEST_MAX - 1 else unat sz) bs)"

definition package_load_index :: "'w file_api \<Rightarrow> 'w \<Rightarrow> packages option \<times> 'w" where
  "package_load_index api w =
     (case fa_read api PACKAGE_INDEX_FILE PACKAGE_MANIFEST_MAX w of
        (ReadFailed, w') \<Rightarrow> (Some package_clear_entries, w')
      | (ReadOverrun bs, w') \<Rightarrow> (None, w')
      | (ReadDone bs sz, w') \<Rightarrow> (Some (load_packages (file_text bs sz) package_clear_entries), w'))"

definition package_init :: "'w file_api \<Rightarrow> 'w \<Rightarrow> packages option \<times> 'w" where
  "package_init api w = package_load_index api w"

section \<open>Queries\<close>

definition package_get_stats :: "packages \<Rightarrow> package_stats" where
  "package_get_stats es =
     \<lparr>pk_total_entries = PACKAGE_ENTRY_MAX, pk_used_entries = count_used p_used es\<rparr>"

definition package_list :: "packages \<Rightarrow> nat \<Rightarrow> package_entry list" where
  "package_list es max_entries = (if max_entries = 0 then [] else list_used p_used es max_entries)"

definition package_info :: "char list \<Rightarrow> packages \<Rightarrow> package_entry option" where
  "package_info nm es = map_option ((!) es) (package_find_index es nm)"

section \<open>Manifests\<close>

definition manifest_line :: "char list \<Rightarrow> string \<times> char list" where
  "manifest_line s =
     (let (line, rest) = fill_line (dropWhile (\<lambda>c. c = CR \<or> c = LF) s) PACKAGE_MANIFEST_MAX []
      in (line, if cget rest 0 = LF then tl rest else rest))"

lemma manifest_line_progress: "cget s 0 \<noteq> NUL \<Longrightarrow> length (snd (manifest_line s)) < length s"
  using fill_after_breaks [of s PACKAGE_MANIFEST_MAX]
  by (auto simp: manifest_line_def split_beta Let_def PACKAGE_MANIFEST_MAX_def)

text \<open>The value behind a seven-letter word.\<close>

definition manifest_value :: "string \<Rightarrow> char list" where
  "manifest_value line =
     (let v = package_skip_spaces (drop 7 line) in if cget v 0 = CHR ''='' then tl v else v)"

text \<open>The effect of a line on the name, the version and the header flag.\<close>

definition manifest_step :: "string \<Rightarrow> char list \<times> char list \<times> bool \<Rightarrow> char list \<times> char list \<times> bool" where
  "manifest_step line = (\<lambda>(nm, ver, saw_header).
     if line = [] then (nm, ver, saw_header)
     else if strcmp line ''PKG1'' = 0 then (nm, ver, True)
     else if package_starts_with_word line ''package'' then
       (package_copy_text nm (manifest_value line), ver, saw_header)
     else if package_starts_with_word line ''version'' then
       (nm, package_copy_text ver (manifest_value line), saw_header)
     else (nm, ver, saw_header))"

function parse_manifest_loop :: "char list \<Rightarrow> char list \<times> char list \<times> bool \<Rightarrow> char list \<times> char list \<times> bool" where
  "parse_manifest_loop s st =
     (if cget s 0 = NUL then st
      else let (line, rest) = manifest_line s in parse_manifest_loop rest (manifest_step line st))"
  by pat_completeness auto
termination
proof (relation "measure (\<lambda>(s, st). length s)", goal_cases)
  case (2 s st x line rest)
  then show ?case using manifest_line_progress [of s] by (simp add: prod_eq_iff)
qed simp

declare parse_manifest_loop.simps [simp del]

definition package_parse_manifest :: "char list \<Rightarrow> char list \<Rightarrow> char list \<Rightarrow> bool \<times> char list \<times> char list" where
  "package_parse_manifest manifest nm ver =
     (let (nm', ver', saw_header) = parse_manifest_loop manifest (nm, ver, False)
      in (saw_header \<and> cget nm' 0 \<noteq> NUL, nm', ver'))"

section \<open>Installing and removing\<close>

text \<open>
  The second pass over the manifest writes the files; it stops at a line \<open>end\<close>
  and fails at a malformed file line or a failed write, keeping what it wrote.
\<close>

function install_files :: "'w file_api \<Rightarrow> char list \<Rightarrow> nat \<Rightarrow> 'w \<Rightarrow> nat option \<times> 'w" where
  "install_files api s installed w =
     (if cget s 0 = NUL then (Some installed, w)
      else let (raw, rest) = cut_line s; line = package_trim_newline raw in
        if package_starts_with_word line ''file'' then
          let payload = dropWhile (\<lambda>c. c = CHR '' '' \<or> c = CHR ''='') (drop 4 line);
              sep = dropWhile (\<lambda>c. c \<noteq> CHR ''|'') payload
          in if sep = [] then (None, w)
             else let (r, w') = fa_write api (takeWhile (\<lambda>c. c \<noteq> CHR ''|'') payload) (chars_bytes (tl sep)) w in
               if r \<noteq> 0 then (None, w')
               else if strcmp (take (length line - length sep) line) ''end'' = 0 then (Some (installed + 1), w')
               else install_files api rest (installed + 1) w'
        else if strcmp line ''end'' = 0 then (Some installed, w)
        else install_files api rest installed w)"
  by pat_completeness auto
termination
proof (relation "measure (\<lambda>(api, s, installed, w). length s)", goal_cases)
  case (2 api s installed w x raw rest)
  then show ?case using cut_line_progress [of s] by (simp add: prod_eq_iff)
next
  case (3 api s installed w x raw rest)
  then show ?case using cut_line_progress [of s] by (simp add: prod_eq_iff)
qed simp

declare install_files.simps [simp del]

definition package_record :: "char list \<Rightarrow> char list \<Rightarrow> char list \<Rightarrow> nat \<Rightarrow> packages \<Rightarrow> packages option" where
  "package_record nm ver src files es =
     (case package_find_index es nm of
        Some idx \<Rightarrow> Some (es[idx := filled_package (es ! idx) nm ver src files])
      | None \<Rightarrow>
          (case package_find_free_index es of
             None \<Rightarrow> None
           | Some idx \<Rightarrow> Some (es[idx := filled_package (es ! idx) nm ver src files])))"

definition package_install :: "'w file_api \<Rightarrow> char list \<Rightarrow> packages \<Rightarrow> 'w \<Rightarrow> (int \<times> packages) option \<times> 'w" where
  "package_install api manifest_name es w =
     (if cget manifest_name 0 = NUL then (Some (-1, es), w)
      else case fa_read api manifest_name PACKAGE_MANIFEST_MAX w of
        (ReadFailed, w1) \<Rightarrow> (Some (-1, es), w1)
      | (ReadOverrun bs, w1) \<Rightarrow> (None, w1)
      | (ReadDone bs sz, w1) \<Rightarrow>
          let (ok, nm, ver) = package_parse_manifest (file_text bs sz)
                (zbuf PACKAGE_NAME_MAX) (zbuf PACKAGE_VERSION_MAX)
          in if \<not> ok then (Some (-1, es), w1)
             else case install_files api (file_text bs sz) 0 w1 of
               (None, w2) \<Rightarrow> (Some (-1, es), w2)
             | (Some files, w2) \<Rightarrow>
                 (case package_record nm ver manifest_name files es of
                    None \<Rightarrow> (Some (-1, es), w2)
                  | Some es' \<Rightarrow> (Some (0, es'), package_save_index api es' w2)))"

definition package_remove :: "'w file_api \<Rightarrow> char list \<Rightarrow> packages \<Rightarrow> 'w \<Rightarrow> (int \<times> packages) \<times> 'w" where
  "package_remove api nm es w =
     (case package_find_index es nm of
        None \<Rightarrow> ((-1, es), w)
      | Some idx \<Rightarrow>
          let es' = es[idx := zero_package] in ((0, es'), package_save_index api es' w))"

end
