(* ===== verification/PackageProps.thy ===== *)
theory PackageProps
  imports Package FsProps
begin

text \<open>
  Correctness of the package registry: it is an instance of the registry
  interface, and saving the index and loading it again restores every package,
  in order, except for the number of installed files.
\<close>

section \<open>The registry\<close>

definition pkg_key :: "package_entry \<Rightarrow> string" where
  "pkg_key e = cstr (p_name e)"

interpretation pkg: slot_table p_used pkg_key cstr package_find_index package_find_free_index
proof (rule slot_tableI)
  show "package_find_index es q = first_index (\<lambda>e. p_used e \<and> pkg_key e = cstr q) es" for es q
    by (simp add: package_find_index_def strcmp_0_iff pkg_key_def)
qed (simp add: package_find_free_index_def)

definition pkg_at :: "packages \<Rightarrow> string \<Rightarrow> package_entry option" where
  "pkg_at es = tab_of p_used pkg_key es"

section \<open>The index line of a package\<close>

type_synonym pkg_row = "string \<times> string \<times> string \<times> nat"

definition pkg_row :: "package_entry \<Rightarrow> pkg_row" where
  "pkg_row e = (cstr (p_name e), cstr (p_version e), cstr (p_source e), p_installed_files e)"

definition field_ok :: "string \<Rightarrow> bool" where
  "field_ok s \<longleftrightarrow> NUL \<notin> set s \<and> clean s \<and> CHR ''|'' \<notin> set s"

definition row_ok :: "pkg_row \<Rightarrow> bool" where
  "row_ok = (\<lambda>(n, v, s, c). field_ok n \<and> field_ok v \<and> field_ok s \<and>
     length n < 32 \<and> length v < 16 \<and> length s < 64)"

definition row_body :: "pkg_row \<Rightarrow> string" where
  "row_body = (\<lambda>(n, v, s, c). n @ ''|'' @ v @ ''|'' @ s @ ''|'' @ count_text c)"

definition row_text :: "pkg_row \<Rightarrow> string" where
  "row_text r = row_body r @ [LF]"

definition is_digit :: "char \<Rightarrow> bool" where
  "is_digit c \<longleftrightarrow> 48 \<le> (of_char c :: nat) \<and> (of_char c :: nat) \<le> 57"

lemma count_digits_chars: "\<forall>c \<in> set (count_digits k n). is_digit c"
proof (induction k arbitrary: n)
  case (Suc k)
  have "48 + n mod 10 < 256" by (simp add: less_le_trans [OF mod_less_divisor])
  then have "is_digit (char_of (48 + n mod 10))"
    by (simp add: is_digit_def take_bit_nat_eq_self)
  then show ?case using Suc by auto
qed simp

lemma is_digit_plain: "is_digit c \<Longrightarrow> c \<noteq> NUL \<and> c \<noteq> LF \<and> c \<noteq> CR \<and> c \<noteq> CHR ''|''"
  by (auto simp: is_digit_def)

lemma count_text_ok: "field_ok (count_text n)" "count_text n \<noteq> []"
proof -
  have "\<forall>c \<in> set (count_text n). is_digit c"
    using count_digits_chars [of 16 n] by (auto simp: count_text_def is_digit_def)
  then show "field_ok (count_text n)" using is_digit_plain by (auto simp: field_ok_def clean_def)
  show "count_text n \<noteq> []" using count_digits.simps(2) [of 15 n] by (simp add: count_text_def)
qed

section \<open>Writing\<close>

lemma put_field_fits:
  "length b + length (cstr src) + 1 < PACKAGE_MANIFEST_MAX \<Longrightarrow>
   put_field sep src (b, False) = (b @ cstr src @ [sep], False)"
  by (simp add: put_field_def Let_def append_chars_fits)

lemma put_package_fits:
  assumes "p_used e" "length b + length (row_text (pkg_row e)) < PACKAGE_MANIFEST_MAX"
  shows "put_package e (b, False) = (b @ row_text (pkg_row e), False)"
proof -
  have c: "cstr (count_text n) = count_text n" for n
    using count_text_ok(1) [of n] by (simp add: field_ok_def cstr_id)
  show ?thesis
    using assms by (simp add: put_package_def put_field_fits row_text_def row_body_def pkg_row_def c)
qed

lemma put_packages_fit:
  "length b + length (concat (map (row_text \<circ> pkg_row) (filter p_used es))) < PACKAGE_MANIFEST_MAX \<Longrightarrow>
   fold put_package es (b, False) = (b @ concat (map (row_text \<circ> pkg_row) (filter p_used es)), False)"
proof (induction es arbitrary: b)
  case (Cons e es)
  show ?case
  proof (cases "p_used e")
    case True
    then have "put_package e (b, False) = (b @ row_text (pkg_row e), False)"
      using Cons.prems by (intro put_package_fits) auto
    then show ?thesis using True Cons.IH [of "b @ row_text (pkg_row e)"] Cons.prems by simp
  next
    case False
    then have "put_package e (b, False) = (b, False)" by (simp add: put_package_def)
    then show ?thesis using False Cons by simp
  qed
qed simp

section \<open>Reading\<close>

lemma row_line_facts:
  assumes "row_ok r"
  shows "NUL \<notin> set (row_body r)" "LF \<notin> set (row_body r)" "package_trim_newline (row_body r) = row_body r"
    "row_body r \<noteq> []"
proof -
  obtain n v s c where r: "r = (n, v, s, c)" by (cases r)
  have ok: "field_ok n" "field_ok v" "field_ok s" "field_ok (count_text c)" "count_text c \<noteq> []"
    using assms r count_text_ok by (auto simp: row_ok_def)
  then show "NUL \<notin> set (row_body r)" "LF \<notin> set (row_body r)" "row_body r \<noteq> []"
    by (auto simp: r row_body_def field_ok_def clean_def)
  have "\<not> (hd (rev (row_body r)) = LF \<or> hd (rev (row_body r)) = CR)" "rev (row_body r) \<noteq> []"
  proof -
    have "last (row_body r) = last (count_text c)" using ok(5) by (simp add: r row_body_def)
    moreover have "last (count_text c) \<noteq> LF" "last (count_text c) \<noteq> CR"
      using ok(4) last_in_set [OF ok(5)] by (auto simp: field_ok_def clean_def)
    ultimately show "\<not> (hd (rev (row_body r)) = LF \<or> hd (rev (row_body r)) = CR)" by (simp add: hd_rev)
    show "rev (row_body r) \<noteq> []" using ok(5) by (simp add: r row_body_def)
  qed
  then have "dropWhile (\<lambda>c. c = LF \<or> c = CR) (rev (row_body r)) = rev (row_body r)"
    by (cases "rev (row_body r)") simp_all
  then show "package_trim_newline (row_body r) = row_body r" by (simp add: package_trim_newline_def)
qed

lemma parse_row:
  assumes "row_ok (n, v, s, c)"
  shows "parse_index_line (row_body (n, v, s, c)) = Some (n, v, s, NUL # count_text c)"
proof -
  have "CHR ''|'' \<notin> set n" "CHR ''|'' \<notin> set v" "CHR ''|'' \<notin> set s"
    using assms by (auto simp: row_ok_def field_ok_def)
  then show ?thesis
    using split_at [of "CHR ''|''" n] split_at [of "CHR ''|''" v] split_at [of "CHR ''|''" s]
    by (simp add: parse_index_line_def row_body_def)
qed

definition reloaded :: "pkg_row \<Rightarrow> package_entry" where
  "reloaded = (\<lambda>(n, v, s, c). filled_package zero_package n v s 0)"

lemma parse_size_NUL: "package_parse_size (NUL # t) = 0"
  by (simp add: package_parse_size_def uchar_def)

lemma first_zero:
  assumes "\<forall>e \<in> set done. p_used e"
  shows "package_find_free_index (done @ replicate (Suc m) zero_package) = Some (length done)"
proof -
  have "\<not> p_used zero_package" by (simp add: zero_package_def)
  then show ?thesis
    using assms nth_mem by (auto simp: package_find_free_index_def first_index_Some_iff nth_append)
qed

lemma load_rows:
  assumes "list_all row_ok rows" "length rows \<le> m" "\<forall>e \<in> set done. p_used e"
  shows "load_packages (concat (map row_text rows)) (done @ replicate m zero_package) =
    done @ map reloaded rows @ replicate (m - length rows) zero_package"
  using assms
proof (induction rows arbitrary: m "done")
  case Nil
  then show ?case by (simp add: load_packages.simps)
next
  case (Cons r rows)
  obtain n v s c where r: "r = (n, v, s, c)" by (cases r)
  obtain m' where m: "m = Suc m'" using Cons.prems(2) by (cases m) auto
  have ok: "row_ok (n, v, s, c)" using Cons.prems(1) r by simp
  note f = row_line_facts [OF ok]
  let ?rest = "concat (map row_text rows)"
  let ?es = "done @ replicate m zero_package"
  have "cget (row_body (n, v, s, c) @ LF # ?rest) 0 \<noteq> NUL"
    using f(1,4) by (cases "row_body (n, v, s, c)") auto
  then have "load_packages (row_body (n, v, s, c) @ LF # ?rest) ?es =
      load_packages ?rest (?es[length done := filled_package (?es ! length done) n v s 0])"
    using cut_line_eq [OF f(1,2), of ?rest] f(3,4) parse_row [OF ok] first_zero [OF Cons.prems(3), of m']
    by (subst load_packages.simps) (simp add: m parse_size_NUL)
  also have "?es[length done := filled_package (?es ! length done) n v s 0] =
      (done @ [reloaded r]) @ replicate m' zero_package"
    by (simp add: m r reloaded_def nth_append list_update_append)
  also have "load_packages ?rest \<dots> =
      (done @ [reloaded r]) @ map reloaded rows @ replicate (m' - length rows) zero_package"
    using Cons.prems m by (intro Cons.IH) (auto simp: reloaded_def filled_package_def split_beta)
  finally show ?case by (simp add: r row_text_def m)
qed

section \<open>Through a file store\<close>

definition pkg_rows :: "packages \<Rightarrow> pkg_row list" where
  "pkg_rows es = map pkg_row (filter p_used es)"

definition pkg_storable :: "packages \<Rightarrow> bool" where
  "pkg_storable es \<longleftrightarrow> length es = 12 \<and> list_all row_ok (pkg_rows es) \<and>
     length (concat (map row_text (pkg_rows es))) < PACKAGE_MANIFEST_MAX"

text \<open>A row without its file count.\<close>

definition no_count :: "pkg_row \<Rightarrow> pkg_row" where
  "no_count = (\<lambda>(n, v, s, c). (n, v, s, 0))"

lemma row_reloaded: "row_ok r \<Longrightarrow> pkg_row (reloaded r) = no_count r"
proof -
  assume ok: "row_ok r"
  obtain n v s c where r: "r = (n, v, s, c)" by (cases r)
  have "cstr n = n" "cstr v = v" "cstr s = s" "length n < 32" "length v < 16" "length s < 64"
    using ok r by (auto simp: row_ok_def field_ok_def cstr_id)
  then show ?thesis
    by (simp add: r pkg_row_def reloaded_def filled_package_def no_count_def zero_package_def
        package_copy_text_def cstr_copy_text package_consts)
qed

lemma rows_reloaded:
  assumes "list_all row_ok rows"
  shows "pkg_rows (map reloaded rows @ replicate m zero_package) = map no_count rows"
proof -
  have "filter p_used (map reloaded rows) = map reloaded rows"
    by (auto simp: filter_id_conv reloaded_def filled_package_def split_beta)
  moreover have "filter p_used (replicate m zero_package) = []"
    by (auto simp: filter_empty_conv zero_package_def)
  ultimately show ?thesis using assms row_reloaded by (auto simp: pkg_rows_def list_all_iff)
qed

lemma load_blank_line:
  "load_packages [LF] es = es"
  by (subst load_packages.simps)
    (simp add: cut_line_eq [of "[]" "[]", simplified] package_trim_newline_def load_packages.simps)

context file_store
begin

lemma package_index_reload:
  assumes w: "ready w" and es: "pkg_storable es" and room: "\<forall>n \<le> 2047. room w PACKAGE_INDEX_FILE n"
  obtains es' w2 where "package_load_index api (package_save_index api es w) = (Some es', w2)"
    "pkg_rows es' = map no_count (pkg_rows es)" "ready w2"
proof -
  let ?t = "concat (map row_text (pkg_rows es))"
  let ?b = "if length ?t = 0 then [LF] else ?t"
  let ?d = "chars_bytes ?b"
  have len: "length ?t < 2048" "length ?b \<le> 2047"
    using es by (auto simp: pkg_storable_def PACKAGE_MANIFEST_MAX_def)
  have "fst (fold put_package es ([], False)) = ?t"
    using put_packages_fit [of "[]" es] len(1) by (simp add: pkg_rows_def comp_def PACKAGE_MANIFEST_MAX_def)
  then have save: "package_save_index api es w = snd (fa_write api PACKAGE_INDEX_FILE ?d w)"
    by (simp add: package_save_index_def Let_def)
  have ld: "length ?d \<le> 2047" using len(2) by (simp only: length_chars_bytes)
  then have "nblocks (length ?d) \<le> 4" by (simp add: nblocks_def)
  then have sz: "nblocks (length ?d) * 512 \<le> PACKAGE_MANIFEST_MAX" "nblocks (length ?d) < 256"
      "length ?d \<le> PACKAGE_MANIFEST_MAX" using ld by (simp_all add: PACKAGE_MANIFEST_MAX_def)
  have name: "length (cstr PACKAGE_INDEX_FILE) < 16" by (simp add: PACKAGE_INDEX_FILE_def cstr_Cons)
  obtain w1 bs w2 where rw: "fa_write api PACKAGE_INDEX_FILE ?d w = (0, w1)"
      "fa_read api PACKAGE_INDEX_FILE PACKAGE_MANIFEST_MAX w1 = (ReadDone bs (of_nat (length ?d)), w2)"
      "take (length ?d) bs = ?d" "ready w2"
    using read_back [OF w name sz(3,1,2)] room ld by metis
  have "unat (of_nat (length ?d) :: u32) = length ?d"
    using ld by (simp add: unat_of_nat take_bit_nat_eq_self)
  then have ft: "file_text bs (of_nat (length ?d)) = ?b"
    using rw(3) ld bytes_chars_chars [of ?b] unfolding file_text_def PACKAGE_MANIFEST_MAX_def
    by (simp only: not_le [symmetric] if_False) simp
  define es' where "es' = map reloaded (pkg_rows es) @ replicate (12 - length (pkg_rows es)) zero_package"
  have rows: "list_all row_ok (pkg_rows es)" "length (pkg_rows es) \<le> 12"
    using es length_filter_le [of p_used es] by (auto simp: pkg_storable_def pkg_rows_def)
  have "load_packages ?b package_clear_entries = es'"
  proof (cases "?t = []")
    case True
    then have "pkg_rows es = []" by (cases "pkg_rows es") (auto simp: row_text_def)
    then show ?thesis
      using True load_blank_line by (simp add: es'_def package_clear_entries_def PACKAGE_ENTRY_MAX_def)
  next
    case False
    then have "?b = ?t" by (simp only: length_0_conv if_False)
    then show ?thesis
      using load_rows [OF rows, of "[]"] by (simp only:) (simp add: es'_def package_clear_entries_def PACKAGE_ENTRY_MAX_def)
  qed
  then have "package_load_index api (package_save_index api es w) = (Some es', w2)"
    using rw(1,2) ft by (simp add: package_load_index_def save)
  then show ?thesis using that rows_reloaded [OF rows(1)] rw(4) by (simp add: es'_def)
qed

end

section \<open>Properties\<close>

text \<open>Reloading the package index.  On a mounted file system with room for the file, saving the
registry of packages whose fields hold no separators or line breaks and whose index is shorter
than 2048 bytes and loading it again gives back the same packages in the same order, with the same
names, versions and sources, but with every count of installed files reset to zero: the loader
overwrites the separator in front of the count and then reads the empty string.\<close>

theorem package_reload_loses_counts:
  assumes dev: "block_device dev ok store cap" and ready: "fs_ready dev ok store cap f s"
    and room: "\<forall>n \<le> 2047. fs_room cap f PACKAGE_INDEX_FILE n" and es: "pkg_storable es"
  shows "let (res, w) = package_load_index (fs_api dev) (package_save_index (fs_api dev) es (f, s))
         in \<exists>es'. res = Some es' \<and> pkg_rows es' = map no_count (pkg_rows es)"
proof -
  have st: "file_store (fs_api dev) (\<lambda>(f, s). fs_ready dev ok store cap f s)
      (\<lambda>(f, s). fs_files store f s) (\<lambda>(f, s). fs_room cap f)"
    using dev by (rule block_device.provides_files)
  have "(\<lambda>(f, s). fs_ready dev ok store cap f s) (f, s)"
    "\<forall>n \<le> 2047. (\<lambda>(f, s). fs_room cap f) (f, s) PACKAGE_INDEX_FILE n"
    using ready room by simp_all
  from file_store.package_index_reload [OF st this(1) es this(2)] obtain es' w2 where
    "package_load_index (fs_api dev) (package_save_index (fs_api dev) es (f, s)) = (Some es', w2)"
    "pkg_rows es' = map no_count (pkg_rows es)" .
  then show ?thesis by simp
qed

definition demo_packages :: packages where
  "demo_packages = package_clear_entries
     [3 := filled_package zero_package ''hello'' ''1.0'' ''hello.pkg'' 7]"

lemma package_reload_loses_counts_witness:
  "\<exists>f s. fs_format sim_disk fs_clear_cache (sim_info, sim_drive0) = (0, f, s) \<and>
     pkg_rows demo_packages = [(''hello'', ''1.0'', ''hello.pkg'', 7)] \<and>
     (let (res, w) = package_load_index (fs_api sim_disk) (package_save_index (fs_api sim_disk) demo_packages (f, s))
      in \<exists>es'. res = Some es' \<and> pkg_rows es' = [(''hello'', ''1.0'', ''hello.pkg'', 0)])"
proof -
  from sim_formatted obtain f s where fs: "fs_format sim_disk fs_clear_cache (sim_info, sim_drive0) = (0, f, s)"
    "fs_ready sim_disk sim_ok sim_store (2 ^ 20) f s" "fs_files sim_store f s = Map.empty" .
  note e = free_block_empty [OF fs_readyD(4) [OF fs(2)] fs(3)]
  have room: "\<forall>n \<le> 2047. fs_room (2 ^ 20) f PACKAGE_INDEX_FILE n"
    using e by (auto simp: fs_room_def fs_full_def nblocks_def)
  have d: "pkg_storable demo_packages" "pkg_rows demo_packages = [(''hello'', ''1.0'', ''hello.pkg'', 7)]"
    by code_simp+
  show ?thesis
    using package_reload_loses_counts [OF sim_device fs(2) room d(1)] fs(1) d(2)
    by (intro exI [of _ f] exI [of _ s]) (simp add: no_count_def)
qed

end
