(* ===== verification/Log.thy ===== *)
theory Log
  imports Kio Ring
begin

text \<open>
  The kernel log \<open>kernel/debug/log.c\<close>: a ring of 64 entries that overwrites
  the oldest, a level filter, and the bounded formatter of \<open>log_writef\<close>.  The
  tick of an entry is an argument (the timer's count when the code asks for
  it); what the logger prints is collected in \<open>log_console\<close>.
\<close>

definition LOG_BUFFER_MAX :: nat where "LOG_BUFFER_MAX = 64"
definition LOG_MESSAGE_MAX :: nat where "LOG_MESSAGE_MAX = 128"

lemmas log_consts = LOG_BUFFER_MAX_def LOG_MESSAGE_MAX_def

section \<open>Data\<close>

datatype log_level = LOG_TRACE | LOG_DEBUG | LOG_INFO | LOG_WARN | LOG_ERROR | LOG_PANIC

text \<open>The levels are ordered as the enumeration numbers them.\<close>

primrec level_number :: "log_level \<Rightarrow> nat" where
  "level_number LOG_TRACE = 0"
| "level_number LOG_DEBUG = 1"
| "level_number LOG_INFO = 2"
| "level_number LOG_WARN = 3"
| "level_number LOG_ERROR = 4"
| "level_number LOG_PANIC = 5"

lemma level_number_inj: "level_number a = level_number b \<Longrightarrow> a = b"
  by (cases a; cases b) simp_all

instantiation log_level :: linorder
begin

definition less_eq_log_level :: "log_level \<Rightarrow> log_level \<Rightarrow> bool" where
  "less_eq_log_level a b = (level_number a \<le> level_number b)"

definition less_log_level :: "log_level \<Rightarrow> log_level \<Rightarrow> bool" where
  "less_log_level a b = (level_number a < level_number b)"

instance
  by standard (auto simp: less_eq_log_level_def less_log_level_def dest: level_number_inj)

end

record log_entry =
  l_tick :: u64
  l_level :: log_level
  l_message :: "char list"

record log_stats =
  stats_total :: u32
  stats_stored :: nat
  stats_dropped :: u32
  stats_minimum :: log_level

record log =
  log_buffer :: "log_entry list"
  log_head :: nat
  log_count :: nat
  log_total :: u32
  log_dropped :: u32
  log_minimum_level :: log_level
  log_console :: string

section \<open>Levels\<close>

definition log_level_letter :: "log_level \<Rightarrow> char" where
  "log_level_letter level =
     (case level of LOG_TRACE \<Rightarrow> CHR ''T'' | LOG_DEBUG \<Rightarrow> CHR ''D'' | LOG_INFO \<Rightarrow> CHR ''I''
      | LOG_WARN \<Rightarrow> CHR ''W'' | LOG_ERROR \<Rightarrow> CHR ''E'' | LOG_PANIC \<Rightarrow> CHR ''P'')"

definition log_level_name :: "log_level \<Rightarrow> string" where
  "log_level_name level =
     (case level of LOG_TRACE \<Rightarrow> ''trace'' | LOG_DEBUG \<Rightarrow> ''debug'' | LOG_INFO \<Rightarrow> ''info''
      | LOG_WARN \<Rightarrow> ''warn'' | LOG_ERROR \<Rightarrow> ''error'' | LOG_PANIC \<Rightarrow> ''panic'')"

definition log_init :: "log \<Rightarrow> log" where
  "log_init s = s\<lparr>log_head := 0, log_count := 0, log_total := 0, log_dropped := 0,
     log_minimum_level := LOG_INFO\<rparr>"

definition log_set_minimum_level :: "log_level \<Rightarrow> log \<Rightarrow> log" where
  "log_set_minimum_level level s = s\<lparr>log_minimum_level := level\<rparr>"

definition log_get_minimum_level :: "log \<Rightarrow> log_level" where
  "log_get_minimum_level s = log_minimum_level s"

section \<open>Storing and writing\<close>

definition log_store_entry :: "u64 \<Rightarrow> log_level \<Rightarrow> char list \<Rightarrow> log \<Rightarrow> log" where
  "log_store_entry tick level message s =
     (let entry = log_buffer s ! log_head s;
          entry' = \<lparr>l_tick = tick, l_level = level, l_message = copy_text (l_message entry) message\<rparr>;
          s1 = (if log_count s < LOG_BUFFER_MAX then s\<lparr>log_count := log_count s + 1\<rparr>
                else s\<lparr>log_dropped := log_dropped s + 1\<rparr>)
      in s1\<lparr>log_buffer := (log_buffer s)[log_head s := entry'],
            log_head := (log_head s + 1) mod LOG_BUFFER_MAX, log_total := log_total s + 1\<rparr>)"

definition log_write :: "u64 \<Rightarrow> log_level \<Rightarrow> char list \<Rightarrow> log \<Rightarrow> log" where
  "log_write tick level message s =
     (if level < log_minimum_level s then s
      else let s1 = log_store_entry tick level message s in
        case kprintf (''[%c][%d] %s'' @ [CHR 0x0A])
               [KInt (of_char (log_level_letter level)), KInt (ucast tick), KStr message] of
          None \<Rightarrow> s1
        | Some out \<Rightarrow> s1\<lparr>log_console := log_console s1 @ out\<rparr>)"

section \<open>The bounded formatter\<close>

text \<open>
  A buffer and the position of the next character; the position runs past the
  end of the buffer, the writes stop one byte before it.
\<close>

definition log_append_char :: "char \<Rightarrow> char list \<times> nat \<Rightarrow> char list \<times> nat" where
  "log_append_char c = (\<lambda>(buffer, pos).
     (if pos + 1 < length buffer then buffer[pos := c] else buffer, pos + 1))"

definition log_append_str :: "char list \<Rightarrow> char list \<times> nat \<Rightarrow> char list \<times> nat" where
  "log_append_str s st = fold log_append_char (cstr s) st"

text \<open>The digits collected in \<open>tmp[32]\<close>, least significant first.\<close>

fun log_digits :: "nat \<Rightarrow> u64 \<Rightarrow> u64 \<Rightarrow> bool \<Rightarrow> string" where
  "log_digits 0 val base uppercase = []"
| "log_digits (Suc room) val base uppercase =
     (if val > 0
      then (let digit = val mod base in
            (if digit < 10 then char_of (48 + unat digit)
             else char_of ((if uppercase then 65 else 97) + (unat digit - 10)))
            # log_digits room (val div base) base uppercase)
      else [])"

definition log_append_uint :: "u64 \<Rightarrow> u32 \<Rightarrow> bool \<Rightarrow> char list \<times> nat \<Rightarrow> char list \<times> nat" where
  "log_append_uint val base uppercase st =
     (if val = 0 then log_append_char (CHR ''0'') st
      else fold log_append_char (rev (log_digits 32 val (ucast base) uppercase)) st)"

definition log_append_int :: "u64 \<Rightarrow> char list \<times> nat \<Rightarrow> char list \<times> nat" where
  "log_append_int val st =
     (if sint val < 0 then log_append_uint (- (val + 1) + 1) 10 False (log_append_char (CHR ''-'') st)
      else log_append_uint val 10 False st)"

text \<open>The loop over the format; \<open>None\<close> is a missing or wrong argument.\<close>

fun log_format_loop :: "char list \<Rightarrow> karg list \<Rightarrow> char list \<times> nat \<Rightarrow> (char list \<times> nat) option" where
  "log_format_loop [] args st = Some st"
| "log_format_loop (c # fmt) args st =
     (if c = NUL then Some st
      else if c \<noteq> CHR ''%'' then log_format_loop fmt args (log_append_char c st)
      else case fmt of [] \<Rightarrow> Some (log_append_char (CHR ''%'') st)
        | s # fmt' \<Rightarrow>
            if s = CHR ''s'' then
              (case args of KStr str # args' \<Rightarrow> log_format_loop fmt' args' (log_append_str str st) | _ \<Rightarrow> None)
            else if s = CHR ''d'' then
              (case args of KInt v # args' \<Rightarrow> log_format_loop fmt' args' (log_append_int (scast v) st) | _ \<Rightarrow> None)
            else if s = CHR ''x'' then
              (case args of KInt v # args' \<Rightarrow> log_format_loop fmt' args' (log_append_uint (ucast v) 16 False st)
               | _ \<Rightarrow> None)
            else if s = CHR ''c'' then
              (case args of KInt v # args' \<Rightarrow>
                 log_format_loop fmt' args' (log_append_char (char_of (unat v)) st) | _ \<Rightarrow> None)
            else if s = CHR ''%'' then log_format_loop fmt' args (log_append_char (CHR ''%'') st)
            else if s = NUL then Some (log_append_char (CHR ''%'') st)
            else log_format_loop fmt' args (log_append_char s (log_append_char (CHR ''%'') st)))"

definition log_format_message :: "char list \<Rightarrow> char list \<Rightarrow> karg list \<Rightarrow> char list option" where
  "log_format_message buffer fmt args =
     (if length buffer = 0 then Some buffer
      else case log_format_loop fmt args (buffer, 0) of
        None \<Rightarrow> None
      | Some (b, pos) \<Rightarrow>
          Some (if pos \<ge> length b then b[length b - 1 := NUL] else b[pos := NUL]))"

definition log_vwritef :: "u64 \<Rightarrow> log_level \<Rightarrow> char list \<Rightarrow> karg list \<Rightarrow> log \<Rightarrow> log option" where
  "log_vwritef tick level fmt args s =
     map_option (\<lambda>buffer. log_write tick level buffer s)
       (log_format_message (zbuf LOG_MESSAGE_MAX) fmt args)"

definition log_writef :: "u64 \<Rightarrow> log_level \<Rightarrow> char list \<Rightarrow> karg list \<Rightarrow> log \<Rightarrow> log option" where
  "log_writef tick level fmt args s = log_vwritef tick level fmt args s"

section \<open>Reading\<close>

definition log_copy_entries :: "nat \<Rightarrow> log \<Rightarrow> log_entry list" where
  "log_copy_entries max_entries s =
     (if max_entries = 0 then []
      else if log_count s = 0 then []
      else let start = (log_head s + LOG_BUFFER_MAX - log_count s) mod LOG_BUFFER_MAX
           in map (\<lambda>k. log_buffer s ! ((start + k) mod LOG_BUFFER_MAX)) [0..<min (log_count s) max_entries])"

definition log_get_stats :: "log \<Rightarrow> log_stats" where
  "log_get_stats s = \<lparr>stats_total = log_total s, stats_stored = log_count s,
     stats_dropped = log_dropped s, stats_minimum = log_minimum_level s\<rparr>"

end
