(* ===== verification/LogProps.thy ===== *)
theory LogProps
  imports Log
begin

text \<open>
  Correctness of the log: the ring is an instance of the overwriting ring
  interface, so a whole run keeps exactly the last 64 accepted messages; the
  bounded formatter computes the same text as the console's, cut to its buffer.
\<close>

section \<open>The ring\<close>

type_synonym log_view = "u64 \<times> log_level \<times> string"

definition entry_view :: "log_entry \<Rightarrow> log_view" where
  "entry_view e = (l_tick e, l_level e, cstr (l_message e))"

definition message_view :: "u64 \<times> log_level \<times> char list \<Rightarrow> log_view" where
  "message_view = (\<lambda>(tick, level, m). (tick, level, take 127 (cstr m)))"

definition log_inv :: "log \<Rightarrow> bool" where
  "log_inv s \<longleftrightarrow> length (log_buffer s) = 64 \<and> log_head s < 64 \<and> log_count s \<le> 64 \<and>
     (\<forall>e \<in> set (log_buffer s). length (l_message e) = 128)"

definition log_contents :: "log \<Rightarrow> log_view list" where
  "log_contents s = map entry_view (ring_list (log_buffer s) (log_head s) (log_count s))"

definition log_push :: "u64 \<times> log_level \<times> char list \<Rightarrow> log \<Rightarrow> log" where
  "log_push = (\<lambda>(tick, level, m) s. log_store_entry tick level m s)"

interpretation logr: overwriting_ring 64 log_inv log_contents message_view log_push
proof
  fix s and x :: "u64 \<times> log_level \<times> char list"
  assume inv: "log_inv s"
  obtain tick level m where x: "x = (tick, level, m)" by (cases x)
  let ?e = "log_buffer s ! log_head s"
  let ?e' = "\<lparr>l_tick = tick, l_level = level, l_message = copy_text (l_message ?e) m\<rparr>"
  have len: "length (l_message ?e) = 128" using inv by (auto simp: log_inv_def)
  then have ne: "l_message ?e \<noteq> []" by auto
  let ?s = "log_push x s"
  have s': "log_buffer ?s = (log_buffer s)[log_head s := ?e']" "log_head ?s = (log_head s + 1) mod 64"
      "log_count ?s = (if log_count s < 64 then log_count s + 1 else log_count s)"
    by (simp_all add: x log_push_def log_store_entry_def Let_def LOG_BUFFER_MAX_def)
  show "log_inv ?s"
    using inv len s' set_update_subset_insert [of "log_buffer s" "log_head s" ?e']
    by (auto simp: log_inv_def)
  have "log_contents ?s = map entry_view (last_n 64 (ring_list (log_buffer s) (log_head s) (log_count s) @ [?e']))"
    using ring_list_push [of 64 "log_buffer s" "log_head s" "log_count s" ?e'] inv s'
    by (simp add: log_contents_def log_inv_def)
  also have "\<dots> = last_n 64 (log_contents s @ [entry_view ?e'])"
    by (simp add: last_n_def drop_map log_contents_def)
  also have "entry_view ?e' = message_view x"
    using len ne by (simp add: entry_view_def message_view_def x cstr_copy_text)
  finally show "log_contents ?s = last_n 64 (log_contents s @ [message_view x])" .
next
  fix s assume "log_inv s"
  then show "length (log_contents s) \<le> 64" by (simp add: log_contents_def log_inv_def)
qed

lemma log_copy_all:
  assumes "log_inv s"
  shows "map entry_view (log_copy_entries n s) = take n (log_contents s)"
proof -
  let ?N = "length (log_buffer s)"
  have N: "?N = 64" using assms by (simp add: log_inv_def)
  have slot: "((log_head s + 64 - log_count s) mod 64 + k) mod 64 = (log_head s + 64 - log_count s + k) mod 64" for k
    by (simp add: mod_add_left_eq)
  have "map (\<lambda>k. log_buffer s ! (((log_head s + 64 - log_count s) mod 64 + k) mod 64)) [0..<min (log_count s) n] =
      take n (ring_list (log_buffer s) (log_head s) (log_count s))"
    unfolding ring_list_def N slot by (simp add: take_map take_upt min_def)
  then show ?thesis
    by (auto simp: log_copy_entries_def log_contents_def ring_list_def Let_def LOG_BUFFER_MAX_def take_map)
qed

section \<open>Runs of the logger\<close>

datatype log_op = SetLevel log_level | Write u64 log_level "char list"

fun log_do :: "log_op \<Rightarrow> log \<Rightarrow> log" where
  "log_do (SetLevel level) s = log_set_minimum_level level s"
| "log_do (Write tick level m) s = log_write tick level m s"

definition log_zero :: log where
  "log_zero = \<lparr>log_buffer = replicate LOG_BUFFER_MAX \<lparr>l_tick = 0, l_level = LOG_TRACE, l_message = zbuf LOG_MESSAGE_MAX\<rparr>,
     log_head = 0, log_count = 0, log_total = 0, log_dropped = 0, log_minimum_level = LOG_INFO, log_console = []\<rparr>"

definition log_run :: "log_op list \<Rightarrow> log" where
  "log_run ops = fold log_do ops (log_init log_zero)"

text \<open>The messages a run accepts: those at or above the level in force.\<close>

fun accepted :: "log_level \<Rightarrow> log_op list \<Rightarrow> (u64 \<times> log_level \<times> char list) list" where
  "accepted lv [] = []"
| "accepted lv (SetLevel l # ops) = accepted l ops"
| "accepted lv (Write tick level m # ops) =
     (if level < lv then accepted lv ops else (tick, level, m) # accepted lv ops)"

definition log_core :: "log \<Rightarrow> log" where
  "log_core s = s\<lparr>log_minimum_level := LOG_INFO, log_console := []\<rparr>"

lemma log_write_core:
  "log_core (log_write tick level m s) =
     (if level < log_minimum_level s then log_core s else log_push (tick, level, m) (log_core s))"
  by (simp add: log_write_def log_core_def log_push_def log_store_entry_def Let_def split: option.splits)

lemma log_write_level: "log_minimum_level (log_write tick level m s) = log_minimum_level s"
  by (simp add: log_write_def log_store_entry_def Let_def split: option.splits)

lemma log_run_core:
  "log_core (fold log_do ops s) = fold log_push (accepted (log_minimum_level s) ops) (log_core s)"
proof (induction ops arbitrary: s)
  case (Cons x ops)
  show ?case
  proof (cases x)
    case (SetLevel l)
    have "log_core (log_set_minimum_level l s) = log_core s"
      by (simp add: log_core_def log_set_minimum_level_def)
    then show ?thesis using Cons SetLevel by (simp add: log_set_minimum_level_def)
  next
    case (Write tick level m)
    then show ?thesis using Cons by (simp add: log_write_core log_write_level)
  qed
qed simp

lemma log_init_core: "log_inv (log_core (log_init log_zero))" "log_contents (log_core (log_init log_zero)) = []"
  by (simp_all add: log_inv_def log_core_def log_init_def log_zero_def log_consts log_contents_def ring_list_def)

lemma log_push_counts:
  "log_inv s \<Longrightarrow> log_total (fold log_push xs s) = log_total s + of_nat (length xs) \<and>
     log_count (fold log_push xs s) = min 64 (log_count s + length xs) \<and>
     log_dropped (fold log_push xs s) = log_dropped s + of_nat (log_count s + length xs - 64)"
proof (induction xs arbitrary: s)
  case Nil
  then show ?case by (simp add: log_inv_def)
next
  case (Cons x xs)
  obtain tick level m where x: "x = (tick, level, m)" by (cases x)
  have c: "log_count s \<le> 64" using Cons.prems by (simp add: log_inv_def)
  have s': "log_total (log_push x s) = log_total s + 1"
      "log_count (log_push x s) = (if log_count s < 64 then log_count s + 1 else log_count s)"
      "log_dropped (log_push x s) = (if log_count s < 64 then log_dropped s else log_dropped s + 1)"
    by (simp_all add: x log_push_def log_store_entry_def Let_def LOG_BUFFER_MAX_def)
  note IH = Cons.IH [OF logr.push_inv [OF Cons.prems], of x]
  show ?case
  proof (cases "log_count s < 64")
    case True
    then show ?thesis using IH s' by simp
  next
    case False
    then have "log_count s = 64" using c by simp
    then show ?thesis using IH s' by simp
  qed
qed

text \<open>C31. The log keeps the newest messages.  After any run of level changes and
writes from start-up, the entries copied out are the newest 64 of the messages
whose level was at or above the minimum in force when they were written, oldest
first and each cut to 127 characters; the statistics count every accepted
message as stored or as dropped.\<close>

theorem log_keeps_last_64:
  "let s = log_run ops; sent = map message_view (accepted LOG_INFO ops) in
     map entry_view (log_copy_entries n s) = take n (last_n 64 sent) \<and>
     stats_stored (log_get_stats s) = min 64 (length sent) \<and>
     stats_dropped (log_get_stats s) = of_nat (length sent - 64) \<and>
     stats_total (log_get_stats s) = of_nat (length sent)"
proof -
  let ?s = "log_run ops" and ?start = "log_core (log_init log_zero)"
  let ?sent = "accepted LOG_INFO ops"
  have "log_minimum_level (log_init log_zero) = LOG_INFO" by (simp add: log_init_def)
  with log_run_core [of ops "log_init log_zero"]
  have core: "log_core ?s = fold log_push ?sent ?start" by (simp only: log_run_def)
  have inv: "log_inv ?start" by (rule log_init_core)
  have s: "log_inv (log_core ?s)" "log_contents (log_core ?s) = last_n 64 (map message_view ?sent)"
    using logr.fold_push_inv [OF inv] logr.fold_push_contents [OF inv] log_init_core(2) core by simp_all
  have "log_copy_entries n ?s = log_copy_entries n (log_core ?s)"
    by (simp add: log_copy_entries_def log_core_def)
  moreover have "log_count (log_core ?s) = log_count ?s" "log_dropped (log_core ?s) = log_dropped ?s"
      "log_total (log_core ?s) = log_total ?s" by (simp_all add: log_core_def)
  moreover have "log_count ?start = 0" "log_dropped ?start = 0" "log_total ?start = 0"
    by (simp_all add: log_core_def log_init_def)
  ultimately show ?thesis
    using log_copy_all [OF s(1), of n] s(2) log_push_counts [OF inv, of ?sent] core
    by (simp add: log_get_stats_def Let_def)
qed

section \<open>The bounded formatter\<close>

text \<open>The formatter's buffer and position after the output \<open>out\<close>.\<close>

definition bounded_output :: "string \<Rightarrow> char list" where
  "bounded_output out = take 127 (out @ replicate 127 NUL) @ [NUL]"

lemma length_bounded_output [simp]: "length (bounded_output out) = 128"
  by (simp add: bounded_output_def)

lemma bounded_output_Nil: "bounded_output [] = zbuf LOG_MESSAGE_MAX"
  using replicate_add [of 127 1 NUL]
  by (simp add: bounded_output_def zbuf_def LOG_MESSAGE_MAX_def replicate_add)

lemma log_append_char_output:
  "log_append_char c (bounded_output out, length out) = (bounded_output (out @ [c]), length (out @ [c]))"
proof (cases "length out < 127")
  case True
  have "(bounded_output out)[length out := c] = bounded_output (out @ [c])"
  proof (rule nth_equalityI)
    fix k assume "k < length ((bounded_output out)[length out := c])"
    then show "(bounded_output out)[length out := c] ! k = bounded_output (out @ [c]) ! k"
      using True by (cases "k < length out"; cases "k = length out"; cases "k < 127")
        (auto simp: bounded_output_def nth_append not_less less_Suc_eq_le)
  qed simp
  then show ?thesis using True by (simp add: log_append_char_def)
next
  case False
  then show ?thesis by (simp add: log_append_char_def bounded_output_def)
qed

lemma log_append_chars_output:
  "fold log_append_char cs (bounded_output out, length out) = (bounded_output (out @ cs), length (out @ cs))"
proof (induction cs arbitrary: out)
  case (Cons c cs)
  then show ?case using Cons.IH [of "out @ [c]"]
    by (simp only: fold_simps log_append_char_output append_assoc append_Cons append_Nil)
qed simp

text \<open>The 64-bit digit loop of the log computes the digits of the 32-bit one.\<close>

lemma log_digits_loop:
  fixes v base :: u32 and w b :: u64
  assumes "unat w = unat v" "unat b = unat base" "2 \<le> unat base" "unat v < unat base ^ room"
  shows "digit_loop room v base up buffer = Some (buffer @ log_digits room w b up)"
  using assms(1,4)
proof (induction room arbitrary: v w buffer)
  case 0
  then have "v = 0" by (simp add: unat_eq_zero)
  then show ?case by simp
next
  case (Suc room)
  show ?case
  proof (cases "v = 0")
    case True
    then have "w = 0" using Suc.prems by (simp add: unat_eq_zero)
    with True show ?thesis by simp
  next
    case False
    then have pos: "0 < v" "0 < w"
      using Suc.prems(1) by (simp_all add: word_less_nat_alt flip: unat_eq_zero)
    have base0: "base \<noteq> 0" using assms(3) by auto
    have d: "unat (w div b) = unat (v div base)" "unat (w mod b) = unat (v mod base)"
      using Suc.prems(1) assms(2) by (simp_all add: unat_div unat_mod)
    have "unat (v div base) < unat base ^ room"
      using Suc.prems(2) assms(3) by (simp add: unat_div less_mult_imp_div_less mult.commute)
    from Suc.IH [OF d(1) this] d(2) pos base0 show ?thesis
      by (simp add: digit_char_def Let_def word_less_nat_alt)
  qed
qed

lemma log_append_uint_output:
  assumes "unat w = unat v" "2 \<le> base"
  shows "\<exists>s. kprint_uint v base up = Some s \<and>
    log_append_uint w base up (bounded_output out, length out) = (bounded_output (out @ s), length (out @ s))"
proof (cases "v = 0")
  case True
  then have "w = 0" using assms by (simp add: unat_eq_zero)
  with True show ?thesis by (simp add: kprint_uint_def log_append_uint_def log_append_char_output)
next
  case False
  then have w: "w \<noteq> 0" using assms(1) by (metis unat_eq_zero)
  have base: "2 \<le> unat base" using assms(2) by (simp add: word_le_nat_alt)
  have "unat v < 2 ^ 32" by (rule order_less_le_trans [OF unsigned_less]) simp
  also have "(2 :: nat) ^ 32 \<le> unat base ^ 32" using base by (intro power_mono) simp_all
  finally have "digit_loop 32 v base up [] = Some (log_digits 32 w (ucast base) up)"
    using log_digits_loop [of w v "ucast base" base 32 up "[]"] assms(1) base
    by (simp add: unsigned_ucast_eq take_bit_nat_eq_self_iff order_less_trans [OF unsigned_less])
  then show ?thesis using False w
    by (simp add: kprint_uint_def log_append_uint_def log_append_chars_output)
qed

lemma scast_long:
  fixes v :: u32
  shows "sint (scast v :: u64) = sint v" and "uint (- (scast v :: u64)) = (- sint v) mod 2 ^ 64"
proof -
  show "sint (scast v :: u64) = sint v"
    by (rule sint_up_scast) (simp add: is_up)
  have "- (scast v :: u64) = word_of_int (- sint v)" by (simp only: scast_eq wi_hom_neg)
  then have "uint (- (scast v :: u64)) = take_bit 64 (- sint v)" by (simp only: uint_word_of_int_eq) simp
  then show "uint (- (scast v :: u64)) = (- sint v) mod 2 ^ 64" by (simp only: take_bit_eq_mod)
qed

lemma log_append_int_output:
  "\<exists>s. kprint_int v = Some s \<and>
    log_append_int (scast v) (bounded_output out, length out) = (bounded_output (out @ s), length (out @ s))"
proof (cases "sint v < 0")
  case True
  have neg: "- (scast v + 1) + 1 = - (scast v :: u64)" by simp
  have "- sint v \<le> 2 ^ 31" using sint_greater_eq [of v] by simp
  moreover have "uint (word_of_int (- sint v) :: u32) = (- sint v) mod 2 ^ 32"
    by (simp only: uint_word_of_int) simp
  ultimately have "uint (- (scast v :: u64)) = uint (word_of_int (- sint v) :: u32)"
    using True by (simp add: mod_pos_pos_trivial scast_long(2))
  then have "unat (- (scast v :: u64)) = unat (word_of_int (- sint v) :: u32)"
    by (simp only: unat_eq_nat_uint)
  then obtain s where "kprint_uint (word_of_int (- sint v)) 10 False = Some s"
      "log_append_uint (- (scast v)) 10 False (bounded_output (out @ ''-''), length (out @ ''-'')) =
        (bounded_output ((out @ ''-'') @ s), length ((out @ ''-'') @ s))"
    using log_append_uint_output [of "- (scast v)" "word_of_int (- sint v)" 10 False "out @ ''-''"] by auto
  moreover have "log_append_int (scast v) (bounded_output out, length out) =
      log_append_uint (- (scast v)) 10 False (bounded_output (out @ ''-''), length (out @ ''-''))"
    using True by (simp only: log_append_int_def scast_long(1) neg log_append_char_output if_True)
  ultimately show ?thesis using True by (simp add: kprint_int_def)
next
  case False
  then have "unat (scast v :: u64) = unat v"
    using scast_long(1) [of v] uint_eq_sint by (metis not_less unat_eq_nat_uint)
  from log_append_uint_output [OF this, of 10 False out]
  show ?thesis using False by (simp add: kprint_int_def log_append_int_def scast_long(1))
qed

lemma log_append_str_output:
  "log_append_str str (bounded_output out, length out) =
     (bounded_output (out @ kputs str), length (out @ kputs str))"
  by (simp only: log_append_str_def kputs_def log_append_chars_output)

lemma log_append_uint_value:
  "kprint_uint v 16 False = Some s \<Longrightarrow>
     log_append_uint (ucast v) 16 False (bounded_output out, length out) = (bounded_output (out @ s), length (out @ s))"
proof -
  have "unat (ucast v :: u64) = unat v"
    by (simp add: unsigned_ucast_eq take_bit_nat_eq_self_iff order_less_trans [OF unsigned_less])
  then show "kprint_uint v 16 False = Some s \<Longrightarrow>
      log_append_uint (ucast v) 16 False (bounded_output out, length out) = (bounded_output (out @ s), length (out @ s))"
    using log_append_uint_output [of "ucast v" v 16 False out] by auto
qed

lemma log_append_int_value:
  "kprint_int v = Some s \<Longrightarrow>
     log_append_int (scast v) (bounded_output out, length out) = (bounded_output (out @ s), length (out @ s))"
  using log_append_int_output [of v out] by auto

lemma kprint_total: "\<exists>s. kprint_int v = Some s" "\<exists>s. kprint_uint v 16 False = Some s"
  using kprint_int_spec [of v] kprint_uint_spec [of 16 v False] by auto

definition output_pair :: "string \<Rightarrow> char list \<times> nat" where
  "output_pair out = (bounded_output out, length out)"

lemmas output_step =
  log_append_char_output [folded output_pair_def] log_append_str_output [folded output_pair_def]

lemma log_format_loop_output:
  "log_format_loop fmt args (output_pair out) = map_option (\<lambda>r. output_pair (out @ r)) (kprintf fmt args)"
proof (induction "length fmt" arbitrary: fmt args out rule: less_induct)
  case less
  note step = output_step option.map_comp o_def
  show ?case
  proof (cases fmt)
    case Nil
    then show ?thesis by simp
  next
    case (Cons c fmt1)
    show ?thesis
    proof (cases "c = NUL \<or> c \<noteq> CHR ''%'' \<or> fmt1 = []")
      case True
      then show ?thesis
        using less [of fmt1 args "out @ [c]"] by (auto simp: Cons step)
    next
      case False
      then obtain d fmt' where fmt: "fmt = CHR ''%'' # d # fmt'" using Cons by (cases fmt1) auto
      have IH: "log_format_loop fmt' args' (output_pair out') =
          map_option (\<lambda>r. output_pair (out' @ r)) (kprintf fmt' args')" for args' out'
        using less [of fmt'] fmt by simp
      obtain iv xv where "\<And>v. kprint_int v = Some (iv v)" "\<And>v. kprint_uint v 16 False = Some (xv v)"
        using kprint_total by metis
      then have v: "kprint_int v = Some (iv v)" "kprint_uint v 16 False = Some (xv v)"
          "log_append_int (scast v) (output_pair out) = output_pair (out @ iv v)"
          "log_append_uint (ucast v) 16 False (output_pair out) = output_pair (out @ xv v)" for v
        by (simp_all only: output_pair_def log_append_int_value log_append_uint_value)
      show ?thesis
      proof (cases "d \<in> set ''sdxc''")
        case True
        then have "d = CHR ''s'' \<or> d = CHR ''d'' \<or> d = CHR ''x'' \<or> d = CHR ''c''" by simp
        then show ?thesis
          using IH by (elim disjE) (simp_all add: fmt step v split: list.split karg.split)
      next
        case False
        then show ?thesis using IH [of _ "out @ _"] by (simp add: fmt step)
      qed
    qed
  qed
qed

text \<open>C35. The two formatters agree.  The bounded formatter of the log, with its own
64-bit digit loop, leaves in its 128-byte buffer exactly the text that the
console's formatter prints for the same format and arguments, cut to 127
characters and terminated by zeros, for every format and argument list
(undefined for the same ones): the buffer is never written past its end.\<close>

theorem log_format_is_bounded_kprintf:
  "log_format_message (zbuf LOG_MESSAGE_MAX) fmt args =
     map_option (\<lambda>out. take 127 (out @ replicate 127 NUL) @ [NUL]) (kprintf fmt args)"
proof -
  have zero: "(bounded_output out)[i := NUL] = bounded_output out" if "length out \<le> i \<or> i = 127" for out i
  proof (rule nth_equalityI)
    fix k assume "k < length ((bounded_output out)[i := NUL])"
    then show "(bounded_output out)[i := NUL] ! k = bounded_output out ! k"
      using that by (cases "k = i"; cases "k < 127")
        (auto simp: bounded_output_def nth_append not_less less_Suc_eq_le)
  qed simp
  have "log_format_message (zbuf LOG_MESSAGE_MAX) fmt args = map_option bounded_output (kprintf fmt args)"
    using log_format_loop_output [of fmt args "[]"]
    by (auto simp: log_format_message_def bounded_output_Nil output_pair_def zero zbuf_def LOG_MESSAGE_MAX_def
        split: option.splits)
  then show ?thesis by (simp add: bounded_output_def [abs_def])
qed

end
