(* ===== verification/Service.thy ===== *)
theory Service
  imports Log SlotTable
begin

text \<open>
  The startup services \<open>kernel/service/service.c\<close>: a registry of services that
  are started and stopped by name, each change being reported through the
  kernel log.  The table and the log are passed as state; the timer's count at
  the time of a call is an argument.  Null arguments are not represented.
\<close>

definition SERVICE_NAME_MAX :: nat where "SERVICE_NAME_MAX = 32"
definition SERVICE_DESC_MAX :: nat where "SERVICE_DESC_MAX = 64"
definition SERVICE_ENTRY_MAX :: nat where "SERVICE_ENTRY_MAX = 16"

lemmas service_consts = SERVICE_NAME_MAX_def SERVICE_DESC_MAX_def SERVICE_ENTRY_MAX_def

section \<open>Data\<close>

datatype service_state = SERVICE_STOPPED | SERVICE_RUNNING | SERVICE_FAILED

record service_entry =
  s_name :: "char list"
  s_description :: "char list"
  s_enabled :: bool
  s_state :: service_state
  s_last_started_tick :: u64
  s_last_stopped_tick :: u64
  s_start_count :: u32
  s_stop_count :: u32

record service_stats =
  sv_total_services :: nat
  sv_enabled_services :: nat
  sv_running_services :: nat

type_synonym services = "service_entry list"

definition zero_service :: service_entry where
  "zero_service = \<lparr>s_name = zbuf SERVICE_NAME_MAX, s_description = zbuf SERVICE_DESC_MAX,
     s_enabled = False, s_state = SERVICE_STOPPED, s_last_started_tick = 0, s_last_stopped_tick = 0,
     s_start_count = 0, s_stop_count = 0\<rparr>"

section \<open>Registration\<close>

definition service_copy_text :: "char list \<Rightarrow> char list \<Rightarrow> char list" where
  "service_copy_text dest src = copy_text dest src"

definition live_service :: "service_entry \<Rightarrow> bool" where
  "live_service e \<longleftrightarrow> cget (s_name e) 0 \<noteq> NUL"

definition service_find :: "services \<Rightarrow> char list \<Rightarrow> nat option" where
  "service_find ss nm = first_index (\<lambda>e. live_service e \<and> strcmp (s_name e) nm = 0) ss"

definition service_register :: "char list \<Rightarrow> char list \<Rightarrow> bool \<Rightarrow> services \<Rightarrow> services" where
  "service_register nm description en ss =
     (case first_index (\<lambda>e. \<not> live_service e) ss of
        None \<Rightarrow> ss
      | Some i \<Rightarrow> ss[i := \<lparr>s_name = service_copy_text (s_name (ss ! i)) nm,
          s_description = service_copy_text (s_description (ss ! i)) description,
          s_enabled = en, s_state = SERVICE_STOPPED, s_last_started_tick = 0, s_last_stopped_tick = 0,
          s_start_count = 0, s_stop_count = 0\<rparr>])"

definition service_init :: services where
  "service_init =
     service_register ''shell-ready'' ''shell readiness marker'' True
       (service_register ''clock'' ''timer bookkeeping hook'' True
         (service_register ''logger'' ''kernel logging hook'' True
           (replicate SERVICE_ENTRY_MAX zero_service)))"

definition service_state_name :: "service_state \<Rightarrow> string" where
  "service_state_name st =
     (case st of SERVICE_STOPPED \<Rightarrow> ''stopped'' | SERVICE_RUNNING \<Rightarrow> ''running'' | SERVICE_FAILED \<Rightarrow> ''failed'')"

section \<open>Hooks\<close>

definition service_run_hook :: "u64 \<Rightarrow> char list \<Rightarrow> log \<Rightarrow> int \<times> log" where
  "service_run_hook tick nm l =
     (0, if strcmp nm ''logger'' = 0 then log_write tick LOG_INFO ''service logger started'' l
         else if strcmp nm ''clock'' = 0 then log_write tick LOG_INFO ''service clock started'' l
         else if strcmp nm ''shell-ready'' = 0 then log_write tick LOG_INFO ''service shell-ready started'' l
         else l)"

definition service_stop_hook :: "u64 \<Rightarrow> char list \<Rightarrow> log \<Rightarrow> int \<times> log" where
  "service_stop_hook tick nm l =
     (0, if strcmp nm ''logger'' = 0 then log_write tick LOG_INFO ''service logger stopped'' l
         else if strcmp nm ''clock'' = 0 then log_write tick LOG_INFO ''service clock stopped'' l
         else if strcmp nm ''shell-ready'' = 0 then log_write tick LOG_INFO ''service shell-ready stopped'' l
         else l)"

section \<open>Starting and stopping\<close>

definition service_mark_running :: "u64 \<Rightarrow> nat \<Rightarrow> services \<Rightarrow> int \<times> services" where
  "service_mark_running tick idx ss =
     (0, ss[idx := (ss ! idx)\<lparr>s_state := SERVICE_RUNNING, s_last_started_tick := tick,
        s_start_count := s_start_count (ss ! idx) + 1\<rparr>])"

definition service_mark_stopped :: "u64 \<Rightarrow> nat \<Rightarrow> services \<Rightarrow> int \<times> services" where
  "service_mark_stopped tick idx ss =
     (0, ss[idx := (ss ! idx)\<lparr>s_state := SERVICE_STOPPED, s_last_stopped_tick := tick,
        s_stop_count := s_stop_count (ss ! idx) + 1\<rparr>])"

definition service_start :: "u64 \<Rightarrow> char list \<Rightarrow> services \<times> log \<Rightarrow> int \<times> services \<times> log" where
  "service_start tick nm = (\<lambda>(ss, l).
     case service_find ss nm of
       None \<Rightarrow> (-1, ss, l)
     | Some idx \<Rightarrow>
         let (r, l') = service_run_hook tick (s_name (ss ! idx)) l in
         if r \<noteq> 0 then (-1, ss[idx := (ss ! idx)\<lparr>s_state := SERVICE_FAILED\<rparr>], l')
         else let (r', ss') = service_mark_running tick idx ss in (r', ss', l'))"

definition service_stop :: "u64 \<Rightarrow> char list \<Rightarrow> services \<times> log \<Rightarrow> int \<times> services \<times> log" where
  "service_stop tick nm = (\<lambda>(ss, l).
     case service_find ss nm of
       None \<Rightarrow> (-1, ss, l)
     | Some idx \<Rightarrow>
         if s_state (ss ! idx) \<noteq> SERVICE_RUNNING then (0, ss, l)
         else let (r, l') = service_stop_hook tick (s_name (ss ! idx)) l in
           if r \<noteq> 0 then (-1, ss[idx := (ss ! idx)\<lparr>s_state := SERVICE_FAILED\<rparr>], l')
           else let (r', ss') = service_mark_stopped tick idx ss in (r', ss', l'))"

definition service_restart :: "u64 \<Rightarrow> char list \<Rightarrow> services \<times> log \<Rightarrow> int \<times> services \<times> log" where
  "service_restart tick nm st =
     (let (r, st') = service_stop tick nm st in
      if r \<noteq> 0 then (-1, st') else service_start tick nm st')"

definition service_enable :: "char list \<Rightarrow> services \<Rightarrow> int \<times> services" where
  "service_enable nm ss =
     (case service_find ss nm of
        None \<Rightarrow> (-1, ss)
      | Some idx \<Rightarrow> (0, ss[idx := (ss ! idx)\<lparr>s_enabled := True\<rparr>]))"

definition service_disable :: "char list \<Rightarrow> services \<Rightarrow> int \<times> services" where
  "service_disable nm ss =
     (case service_find ss nm of
        None \<Rightarrow> (-1, ss)
      | Some idx \<Rightarrow> (0, ss[idx := (ss ! idx)\<lparr>s_enabled := False\<rparr>]))"

definition startup_step :: "u64 \<Rightarrow> nat \<Rightarrow> services \<times> log \<Rightarrow> services \<times> log" where
  "startup_step tick i = (\<lambda>(ss, l).
     if cget (s_name (ss ! i)) 0 = NUL \<or> \<not> s_enabled (ss ! i) then (ss, l)
     else snd (service_start tick (s_name (ss ! i)) (ss, l)))"

definition service_startup_all :: "u64 \<Rightarrow> services \<times> log \<Rightarrow> services \<times> log" where
  "service_startup_all tick st = fold (startup_step tick) [0..<SERVICE_ENTRY_MAX] st"

section \<open>Queries\<close>

definition service_list :: "services \<Rightarrow> nat \<Rightarrow> service_entry list" where
  "service_list ss max_entries = (if max_entries = 0 then [] else list_used live_service ss max_entries)"

definition service_info :: "char list \<Rightarrow> services \<Rightarrow> service_entry option" where
  "service_info nm ss = map_option ((!) ss) (service_find ss nm)"

definition service_get_stats :: "services \<Rightarrow> service_stats" where
  "service_get_stats ss =
     \<lparr>sv_total_services = count_used live_service ss,
      sv_enabled_services = count_used (\<lambda>e. live_service e \<and> s_enabled e) ss,
      sv_running_services = count_used (\<lambda>e. live_service e \<and> s_state e = SERVICE_RUNNING) ss\<rparr>"

section \<open>The registry interface\<close>

definition service_find_free :: "services \<Rightarrow> nat option" where
  "service_find_free ss = first_index (\<lambda>e. \<not> live_service e) ss"

interpretation svc: slot_table live_service "\<lambda>e. cstr (s_name e)" cstr service_find service_find_free
  by (rule slot_tableI) (simp_all add: service_find_def service_find_free_def strcmp_0_iff)

text \<open>
  What the registry promises: a name is registered or not, and a registered
  service is enabled or not and running or not.
\<close>

type_synonym service_map = "string \<Rightarrow> (bool \<times> bool) option"

definition svc_status :: "service_entry \<Rightarrow> bool \<times> bool" where
  "svc_status e = (s_enabled e, s_state e = SERVICE_RUNNING)"

definition svc_map :: "services \<Rightarrow> service_map" where
  "svc_map ss nm = map_option svc_status (tab_of live_service (\<lambda>e. cstr (s_name e)) ss nm)"

definition svc_ok :: "services \<Rightarrow> bool" where
  "svc_ok ss \<longleftrightarrow> length ss = SERVICE_ENTRY_MAX \<and> keys_distinct live_service (\<lambda>e. cstr (s_name e)) ss \<and>
     (\<forall>e \<in> set ss. s_state e \<noteq> SERVICE_FAILED)"

text \<open>An update of the found service that keeps its name.\<close>

lemma svc_update:
  assumes ok: "svc_ok ss" and f: "service_find ss nm = Some idx"
    and e: "s_name e = s_name (ss ! idx)" "s_state e \<noteq> SERVICE_FAILED"
  shows "svc_ok (ss[idx := e])" and "svc_map (ss[idx := e]) = (svc_map ss)(cstr nm \<mapsto> svc_status e)"
    and "svc_map ss (cstr nm) = Some (svc_status (ss ! idx))" and "idx < length ss"
proof -
  have d: "keys_distinct live_service (\<lambda>e. cstr (s_name e)) ss" using ok by (simp add: svc_ok_def)
  note hit = svc.find_slot_hit [OF f]
  have k: "live_service e" "cstr (s_name e) = cstr nm" using hit e by (auto simp: live_service_def)
  note o = svc.overwrite_slot [OF d f k]
  show "svc_ok (ss[idx := e])"
    using ok o(1) e(2) set_update_subset_insert [of ss idx e] by (auto simp: svc_ok_def)
  show "svc_map (ss[idx := e]) = (svc_map ss)(cstr nm \<mapsto> svc_status e)"
    by (rule ext) (simp add: svc_map_def o(2))
  show "svc_map ss (cstr nm) = Some (svc_status (ss ! idx))"
    by (simp add: svc_map_def svc.find_slot_Some_tab [OF f])
  show "idx < length ss" using hit by simp
qed

lemma svc_missing: "service_find ss nm = None \<longleftrightarrow> svc_map ss (cstr nm) = None"
  by (simp add: svc.find_slot_None_iff svc_map_def)

end
