(* ===== verification/ServiceProps.thy ===== *)
theory ServiceProps
  imports Service
begin

text \<open>
  Correctness of the service registry: every operation, and so every run from
  start-up, does to the table what a map from names to the two flags would do.
\<close>

section \<open>The specification\<close>

datatype svc_op = Start "char list" | Stop "char list" | Restart "char list"
  | Enable "char list" | Disable "char list" | StartupAll

fun svc_do :: "u64 \<Rightarrow> svc_op \<Rightarrow> services \<times> log \<Rightarrow> int \<times> services \<times> log" where
  "svc_do tick (Start nm) st = service_start tick nm st"
| "svc_do tick (Stop nm) st = service_stop tick nm st"
| "svc_do tick (Restart nm) st = service_restart tick nm st"
| "svc_do tick (Enable nm) st = (let (r, ss) = service_enable nm (fst st) in (r, ss, snd st))"
| "svc_do tick (Disable nm) st = (let (r, ss) = service_disable nm (fst st) in (r, ss, snd st))"
| "svc_do tick StartupAll st = (0, service_startup_all tick st)"

definition svc_change :: "(bool \<times> bool \<Rightarrow> bool \<times> bool) \<Rightarrow> char list \<Rightarrow> service_map \<Rightarrow> int \<times> service_map" where
  "svc_change g nm m = (case m (cstr nm) of None \<Rightarrow> (-1, m) | Some x \<Rightarrow> (0, m(cstr nm \<mapsto> g x)))"

fun svc_spec :: "svc_op \<Rightarrow> service_map \<Rightarrow> int \<times> service_map" where
  "svc_spec (Start nm) m = svc_change (\<lambda>(en, run). (en, True)) nm m"
| "svc_spec (Stop nm) m = svc_change (\<lambda>(en, run). (en, False)) nm m"
| "svc_spec (Restart nm) m = svc_change (\<lambda>(en, run). (en, True)) nm m"
| "svc_spec (Enable nm) m = svc_change (\<lambda>(en, run). (True, run)) nm m"
| "svc_spec (Disable nm) m = svc_change (\<lambda>(en, run). (False, run)) nm m"
| "svc_spec StartupAll m = (0, \<lambda>nm. map_option (\<lambda>(en, run). (en, run \<or> en)) (m nm))"

section \<open>Each operation\<close>

definition implements :: "int \<times> services \<times> log \<Rightarrow> int \<times> service_map \<Rightarrow> bool" where
  "implements x y \<longleftrightarrow> svc_ok (fst (snd x)) \<and> fst x = fst y \<and> svc_map (fst (snd x)) = snd y"

lemma implementsI: "svc_ok ss \<Longrightarrow> r = r' \<Longrightarrow> svc_map ss = m \<Longrightarrow> implements (r, ss, l) (r', m)"
  by (simp add: implements_def)

lemma start_implements:
  "svc_ok ss \<Longrightarrow> implements (service_start tick nm (ss, l)) (svc_spec (Start nm) (svc_map ss))"
  using svc_update [of ss nm _ "(ss ! _)\<lparr>s_state := SERVICE_RUNNING, s_last_started_tick := tick,
      s_start_count := s_start_count (ss ! _) + 1\<rparr>"] svc_missing [of ss nm]
  by (auto simp: service_start_def service_run_hook_def service_mark_running_def svc_change_def
      svc_status_def intro!: implementsI split: option.splits)

lemma stop_implements:
  assumes ok: "svc_ok ss"
  shows "implements (service_stop tick nm (ss, l)) (svc_spec (Stop nm) (svc_map ss))"
proof (cases "service_find ss nm")
  case None
  then show ?thesis using ok svc_missing [of ss nm]
    by (simp add: service_stop_def svc_change_def implementsI)
next
  case (Some idx)
  note u = svc_update [OF ok Some]
  show ?thesis
  proof (cases "s_state (ss ! idx) = SERVICE_RUNNING")
    case True
    then show ?thesis
      using Some u [of "(ss ! idx)\<lparr>s_state := SERVICE_STOPPED, s_last_stopped_tick := tick,
          s_stop_count := s_stop_count (ss ! idx) + 1\<rparr>"]
      by (auto simp: service_stop_def service_stop_hook_def service_mark_stopped_def svc_change_def
          svc_status_def intro!: implementsI)
  next
    case False
    then have "svc_map ss (cstr nm) = Some (s_enabled (ss ! idx), False)"
      by (simp add: svc_map_def svc.find_slot_Some_tab [OF Some] svc_status_def)
    moreover from this have "(svc_map ss)(cstr nm \<mapsto> (s_enabled (ss ! idx), False)) = svc_map ss"
      by (simp add: fun_upd_idem)
    ultimately show ?thesis using False Some ok
      by (simp add: service_stop_def svc_change_def implementsI)
  qed
qed

lemma restart_implements:
  assumes "svc_ok ss"
  shows "implements (service_restart tick nm (ss, l)) (svc_spec (Restart nm) (svc_map ss))"
proof -
  obtain r ss' l' where s: "service_stop tick nm (ss, l) = (r, ss', l')" by (cases "service_stop tick nm (ss, l)")
  from stop_implements [OF assms, of tick nm l] s
  have i: "svc_ok ss'" "r = fst (svc_spec (Stop nm) (svc_map ss))"
      "svc_map ss' = snd (svc_spec (Stop nm) (svc_map ss))"
    by (simp_all add: implements_def)
  show ?thesis
  proof (cases "svc_map ss (cstr nm)")
    case None
    then show ?thesis using s i by (simp add: service_restart_def svc_change_def implements_def)
  next
    case (Some x)
    then have "svc_spec (Restart nm) (svc_map ss) = svc_spec (Start nm) (svc_map ss')"
      using i by (simp add: svc_change_def split_beta)
    moreover have "service_restart tick nm (ss, l) = service_start tick nm (ss', l')"
      using Some s i by (simp add: service_restart_def svc_change_def)
    ultimately show ?thesis using start_implements [OF i(1)] by simp
  qed
qed

lemma enable_implements:
  assumes ok: "svc_ok ss"
  shows "implements (let (r, ss') = service_enable nm ss in (r, ss', l)) (svc_spec (Enable nm) (svc_map ss))"
    and "implements (let (r, ss') = service_disable nm ss in (r, ss', l)) (svc_spec (Disable nm) (svc_map ss))"
proof -
  have set: "svc_ok (ss[idx := (ss ! idx)\<lparr>s_enabled := b\<rparr>]) \<and>
      svc_map (ss[idx := (ss ! idx)\<lparr>s_enabled := b\<rparr>]) =
        (svc_map ss)(cstr nm \<mapsto> (b, s_state (ss ! idx) = SERVICE_RUNNING)) \<and>
      svc_map ss (cstr nm) = Some (s_enabled (ss ! idx), s_state (ss ! idx) = SERVICE_RUNNING)"
    if f: "service_find ss nm = Some idx" for idx b
  proof -
    have "s_state (ss ! idx) \<noteq> SERVICE_FAILED" using ok svc.find_slot_hit [OF f] by (simp add: svc_ok_def)
    then show ?thesis using svc_update [OF ok f, of "(ss ! idx)\<lparr>s_enabled := b\<rparr>"] by (simp add: svc_status_def)
  qed
  show "implements (let (r, ss') = service_enable nm ss in (r, ss', l)) (svc_spec (Enable nm) (svc_map ss))"
    using ok set svc_missing [of ss nm]
    by (cases "service_find ss nm") (simp_all add: service_enable_def svc_change_def implementsI)
  show "implements (let (r, ss') = service_disable nm ss in (r, ss', l)) (svc_spec (Disable nm) (svc_map ss))"
    using ok set svc_missing [of ss nm]
    by (cases "service_find ss nm") (simp_all add: service_disable_def svc_change_def implementsI)
qed

section \<open>Starting all enabled services\<close>

definition started :: "u64 \<Rightarrow> service_entry \<Rightarrow> service_entry" where
  "started tick e = (if live_service e \<and> s_enabled e
     then e\<lparr>s_state := SERVICE_RUNNING, s_last_started_tick := tick, s_start_count := s_start_count e + 1\<rparr>
     else e)"

lemma startup_prefix:
  assumes ok: "svc_ok ss"
  shows "k \<le> SERVICE_ENTRY_MAX \<Longrightarrow>
    svc_ok (fst (fold (startup_step tick) [0..<k] (ss, l))) \<and>
    fst (fold (startup_step tick) [0..<k] (ss, l)) = map (started tick) (take k ss) @ drop k ss"
proof (induction k)
  case 0
  then show ?case using ok by simp
next
  case (Suc k)
  obtain ss' l' where st: "fold (startup_step tick) [0..<k] (ss, l) = (ss', l')"
    by (cases "fold (startup_step tick) [0..<k] (ss, l)")
  then have ok': "svc_ok ss'" and ss': "ss' = map (started tick) (take k ss) @ drop k ss"
    using Suc.IH Suc.prems unfolding st by auto
  have len: "length ss = SERVICE_ENTRY_MAX" using ok by (simp add: svc_ok_def)
  have k: "k < length ss" using Suc.prems len by simp
  then have nth: "ss' ! k = ss ! k" "length ss' = length ss" by (simp_all add: ss' nth_append)
  have "ss'[k := x] = map (started tick) (take k ss) @ x # drop (Suc k) ss" for x
    using k by (simp add: ss' list_update_append Cons_nth_drop_Suc [symmetric])
  then have upd: "ss'[k := started tick (ss ! k)] = map (started tick) (take (Suc k) ss) @ drop (Suc k) ss"
    using k by (simp add: take_Suc_conv_app_nth)
  have "svc_ok (fst (startup_step tick k (ss', l'))) \<and>
      fst (startup_step tick k (ss', l')) = ss'[k := started tick (ss ! k)]"
  proof (cases "live_service (ss ! k) \<and> s_enabled (ss ! k)")
    case True
    then have f: "service_find ss' (s_name (ss ! k)) = Some k"
      using ok' k nth by (intro svc.find_slot_nth) (auto simp: svc_ok_def)
    have "fst (startup_step tick k (ss', l')) = ss'[k := started tick (ss ! k)]"
      using True f nth by (simp add: startup_step_def service_start_def service_run_hook_def
          service_mark_running_def live_service_def started_def)
    moreover have "svc_ok (ss'[k := started tick (ss ! k)])"
      using True nth by (intro svc_update(1) [OF ok' f]) (simp_all add: started_def)
    ultimately show ?thesis by simp
  next
    case False
    then have "started tick (ss ! k) = ss' ! k" using nth by (auto simp: started_def)
    then have same: "ss'[k := started tick (ss ! k)] = ss'" by (metis list_update_id)
    have "fst (startup_step tick k (ss', l')) = ss'"
      using False nth by (auto simp: startup_step_def live_service_def)
    then show ?thesis using ok' same by simp
  qed
  then show ?case using st upd by auto
qed

lemma startup_implements:
  assumes ok: "svc_ok ss"
  shows "implements (0, service_startup_all tick (ss, l)) (svc_spec StartupAll (svc_map ss))"
proof -
  let ?r = "service_startup_all tick (ss, l)"
  have "length ss = SERVICE_ENTRY_MAX" using ok by (simp add: svc_ok_def)
  then have r: "svc_ok (fst ?r)" "fst ?r = map (started tick) ss"
    using startup_prefix [OF ok, of SERVICE_ENTRY_MAX tick l] by (auto simp: service_startup_all_def)
  have "svc_map (map (started tick) ss) nm =
      map_option (\<lambda>(en, run). (en, run \<or> en)) (svc_map ss nm)" for nm
  proof -
    have "tab_of live_service (\<lambda>e. cstr (s_name e)) (map (started tick) ss) nm =
        map_option (started tick) (tab_of live_service (\<lambda>e. cstr (s_name e)) ss nm)"
      by (rule tab_of_map) (simp_all add: started_def live_service_def)
    then show ?thesis
      using tab_of_SomeD [of live_service "\<lambda>e. cstr (s_name e)" ss nm]
      by (cases "tab_of live_service (\<lambda>e. cstr (s_name e)) ss nm")
        (auto simp: svc_map_def started_def svc_status_def)
  qed
  then show ?thesis using r by (simp add: implements_def fun_eq_iff)
qed

lemma svc_do_implements:
  assumes "svc_ok (fst st)"
  shows "implements (svc_do tick op st) (svc_spec op (svc_map (fst st)))"
proof (cases op)
  case (Enable nm)
  then show ?thesis using enable_implements(1) [OF assms, of nm "snd st"] by simp
next
  case (Disable nm)
  then show ?thesis using enable_implements(2) [OF assms, of nm "snd st"] by simp
qed (use assms start_implements [of "fst st" tick _ "snd st"] stop_implements [of "fst st" tick _ "snd st"]
      restart_implements [of "fst st" tick _ "snd st"] startup_implements [of "fst st" tick "snd st"] in simp_all)

section \<open>Runs from start-up\<close>

text \<open>The results of a run, in order, and its final state.\<close>

fun svc_run :: "(u64 \<times> svc_op) list \<Rightarrow> services \<times> log \<Rightarrow> int list \<times> services \<times> log" where
  "svc_run [] st = ([], st)"
| "svc_run ((tick, op) # ops) st =
     (let (r, st') = svc_do tick op st; (rs, st'') = svc_run ops st' in (r # rs, st''))"

fun svc_spec_run :: "svc_op list \<Rightarrow> service_map \<Rightarrow> int list \<times> service_map" where
  "svc_spec_run [] m = ([], m)"
| "svc_spec_run (op # ops) m =
     (let (r, m') = svc_spec op m; (rs, m'') = svc_spec_run ops m' in (r # rs, m''))"

definition builtin_services :: service_map where
  "builtin_services = [''logger'' \<mapsto> (True, False), ''clock'' \<mapsto> (True, False), ''shell-ready'' \<mapsto> (True, False)]"

lemma svc_run_refines:
  "svc_ok (fst st) \<Longrightarrow>
     fst (svc_run ops st) = fst (svc_spec_run (map snd ops) (svc_map (fst st))) \<and>
     svc_ok (fst (snd (svc_run ops st))) \<and>
     svc_map (fst (snd (svc_run ops st))) = snd (svc_spec_run (map snd ops) (svc_map (fst st)))"
proof (induction ops arbitrary: st)
  case (Cons x ops)
  obtain tick op where x: "x = (tick, op)" by (cases x)
  obtain r st' where s: "svc_do tick op st = (r, st')" by (cases "svc_do tick op st")
  from svc_do_implements [OF Cons.prems, of tick op] s
  have i: "svc_ok (fst st')" "svc_spec op (svc_map (fst st)) = (r, svc_map (fst st'))"
    by (simp_all add: implements_def prod_eq_iff)
  from Cons.IH [OF i(1)] show ?case by (simp add: x s i(2) split_beta Let_def)
qed simp

lemma service_init_ok: "svc_ok service_init" "svc_map service_init = builtin_services"
proof -
  show ok: "svc_ok service_init"
    unfolding svc_ok_def keys_distinct_iff by (intro conjI) code_simp+
  have "map (\<lambda>e. (cstr (s_name e), svc_status e)) (filter live_service service_init) =
      [(''logger'', (True, False)), (''clock'', (True, False)), (''shell-ready'', (True, False))]"
    by code_simp
  then have "svc_map service_init nm =
      map_of [(''logger'', (True, False)), (''clock'', (True, False)), (''shell-ready'', (True, False))] nm" for nm
    by (simp only: svc_map_def tab_of_map_of)
  then show "svc_map service_init = builtin_services"
    by (intro ext) (simp add: builtin_services_def)
qed

section \<open>Properties\<close>

text \<open>C38. The service registry implements its specification.  Every sequence of starts, stops, restarts,
enables, disables and startups of all enabled services, from the initial table, returns the results
and leaves the registered, enabled and running services that the map from names to the two flags
gives: operations on unknown names fail and change nothing, no other operation fails, no service is
ever marked failed, and starting up runs exactly the enabled services besides those running.\<close>

theorem service_registry_refines:
  "let (rs, ss, l') = svc_run ops (service_init, l) in
     (rs, svc_map ss) = svc_spec_run (map snd ops) builtin_services \<and>
     list_all (\<lambda>e. s_state e \<noteq> SERVICE_FAILED) ss"
proof -
  have ok: "svc_ok (fst (service_init, l))" by (simp add: service_init_ok)
  show ?thesis
    using svc_run_refines [OF ok, of ops]
    by (simp add: split_beta service_init_ok(2) prod_eq_iff svc_ok_def list_all_iff)
qed

end
