(* ===== verification/Arp.thy ===== *)
theory Arp
  imports WordLib Kio
begin

text \<open>
  The link layer \<open>kernel/net/eth.c\<close> and the address cache \<open>kernel/net/arp.c\<close>.
  The network stack has one state, a record that each layer extends with its own
  static variables, so that an operation of a layer says by its type which
  layers it can touch.  Addresses of functions are kept as numbers; the timer's
  count at the time of a call is an argument.  A \<open>NULL\<close> hardware address, where
  the code treats it, is \<open>None\<close>.
\<close>

definition ETH_ADDR_LEN :: nat where "ETH_ADDR_LEN = 6"
definition ETH_PAYLOAD_MAX :: nat where "ETH_PAYLOAD_MAX = 1500"
definition ETH_TYPE_ARP :: u16 where "ETH_TYPE_ARP = 0x0806"
definition ETH_TYPE_IPV4 :: u16 where "ETH_TYPE_IPV4 = 0x0800"

section \<open>Ethernet\<close>

record eth_stats =
  eth_ready_flag :: bool
  eth_mac :: "u8 list"
  tx_frames :: u64
  rx_frames :: u64
  dropped_frames :: u64
  eth_mtu :: u32

record eth =
  g_eth :: eth_stats
  g_rx_handler :: u64

definition copy_mac :: "u8 list option \<Rightarrow> u8 list" where
  "copy_mac src = (case src of None \<Rightarrow> replicate ETH_ADDR_LEN 0 | Some m \<Rightarrow> take ETH_ADDR_LEN m)"

definition default_mac :: "u8 list" where
  "default_mac = [0x52, 0x54, 0x00, 0x12, 0x34, 0x56]"

definition eth_init :: "'a eth_scheme \<Rightarrow> 'a eth_scheme" where
  "eth_init n = n\<lparr>g_eth := \<lparr>eth_ready_flag = True, eth_mac = copy_mac (Some default_mac), tx_frames = 0,
      rx_frames = 0, dropped_frames = 0, eth_mtu = of_nat ETH_PAYLOAD_MAX\<rparr>, g_rx_handler := 0\<rparr>"

definition eth_ready :: "'a eth_scheme \<Rightarrow> bool" where
  "eth_ready n = eth_ready_flag (g_eth n)"

definition eth_get_stats :: "'a eth_scheme \<Rightarrow> eth_stats" where
  "eth_get_stats n = g_eth n"

definition eth_set_rx_handler :: "u64 \<Rightarrow> 'a eth_scheme \<Rightarrow> 'a eth_scheme" where
  "eth_set_rx_handler handler n = n\<lparr>g_rx_handler := handler\<rparr>"

definition eth_set_mac :: "u8 list option \<Rightarrow> 'a eth_scheme \<Rightarrow> 'a eth_scheme" where
  "eth_set_mac mac n = n\<lparr>g_eth := (g_eth n)\<lparr>eth_mac := copy_mac mac\<rparr>\<rparr>"

text \<open>Sending counts the frame; no device is driven.\<close>

definition eth_send :: "u8 list \<Rightarrow> u16 \<Rightarrow> u8 list \<Rightarrow> 'a eth_scheme \<Rightarrow> int \<times> 'a eth_scheme" where
  "eth_send dest_mac ethertype payload n =
     (if \<not> eth_ready n \<or> length payload > ETH_PAYLOAD_MAX
      then (-1, n\<lparr>g_eth := (g_eth n)\<lparr>dropped_frames := dropped_frames (g_eth n) + 1\<rparr>\<rparr>)
      else (0, n\<lparr>g_eth := (g_eth n)\<lparr>tx_frames := tx_frames (g_eth n) + 1\<rparr>\<rparr>))"

section \<open>The address cache\<close>

definition ARP_CACHE_MAX :: nat where "ARP_CACHE_MAX = 32"
definition ARP_TIMEOUT_TICKS :: u32 where "ARP_TIMEOUT_TICKS = 300"

record arp_entry =
  arp_ip :: u32
  arp_mac :: "u8 list"
  arp_last_seen :: u32
  arp_valid :: bool
  arp_permanent :: bool

record arp_stats =
  arp_total :: u32
  arp_valid_count :: u32
  arp_hits :: u32
  arp_misses :: u32
  arp_requests :: u32
  arp_replies :: u32

record arp = eth +
  g_cache :: "arp_entry list"
  g_arp_stats :: arp_stats
  g_local_ip :: u32
  g_local_mac :: "u8 list"

definition zero_arp_entry :: arp_entry where
  "zero_arp_entry = \<lparr>arp_ip = 0, arp_mac = replicate ETH_ADDR_LEN 0, arp_last_seen = 0,
     arp_valid = False, arp_permanent = False\<rparr>"

definition zero_arp_stats :: arp_stats where
  "zero_arp_stats = \<lparr>arp_total = 0, arp_valid_count = 0, arp_hits = 0, arp_misses = 0,
     arp_requests = 0, arp_replies = 0\<rparr>"

definition mac_copy :: "u8 list \<Rightarrow> u8 list" where
  "mac_copy src = take ETH_ADDR_LEN src"

definition find_slot :: "arp_entry list \<Rightarrow> u32 \<Rightarrow> nat" where
  "find_slot cache ip =
     (case first_index (\<lambda>e. arp_valid e \<and> arp_ip e = ip) cache of
        Some i \<Rightarrow> i
      | None \<Rightarrow> (case first_index (\<lambda>e. \<not> arp_valid e) cache of Some i \<Rightarrow> i | None \<Rightarrow> 0))"

definition insert_entry :: "u64 \<Rightarrow> u32 \<Rightarrow> u8 list \<Rightarrow> bool \<Rightarrow> 'a arp_scheme \<Rightarrow> 'a arp_scheme" where
  "insert_entry tick ip mac permanent n =
     n\<lparr>g_cache := (g_cache n)[find_slot (g_cache n) ip :=
        \<lparr>arp_ip = ip, arp_mac = mac_copy mac, arp_last_seen = ucast tick, arp_valid = True,
         arp_permanent = permanent\<rparr>]\<rparr>"

definition arp_init :: "u64 \<Rightarrow> 'a arp_scheme \<Rightarrow> 'a arp_scheme" where
  "arp_init tick n =
     (let n1 = n\<lparr>g_cache := replicate ARP_CACHE_MAX zero_arp_entry, g_arp_stats := zero_arp_stats,
                 g_local_mac := mac_copy default_mac\<rparr>;
          n2 = eth_set_mac (Some (g_local_mac n1)) n1
      in insert_entry tick (g_local_ip n2) (g_local_mac n2) True n2)"

definition arp_age :: "u32 \<Rightarrow> arp_entry \<Rightarrow> arp_entry" where
  "arp_age now e =
     (if \<not> arp_valid e \<or> arp_permanent e then e
      else if now - arp_last_seen e > ARP_TIMEOUT_TICKS then e\<lparr>arp_valid := False\<rparr> else e)"

definition arp_poll :: "u64 \<Rightarrow> 'a arp_scheme \<Rightarrow> 'a arp_scheme" where
  "arp_poll tick n = n\<lparr>g_cache := map (arp_age (ucast tick)) (g_cache n)\<rparr>"

text \<open>The four bytes of an address, as the code stores and prints them.\<close>

definition ip_bytes :: "u32 \<Rightarrow> u8 list" where
  "ip_bytes ip = [ucast (drop_bit 24 ip), ucast (drop_bit 16 ip), ucast (drop_bit 8 ip), ucast ip]"

definition arp_request :: "u8 list \<Rightarrow> u32 \<Rightarrow> u32 \<Rightarrow> u8 list" where
  "arp_request local_mac local_ip target_ip =
     [0x00, 0x01, 0x08, 0x00, 0x06, 0x04, 0x00, 0x01] @ take 6 local_mac @ ip_bytes local_ip @
     replicate 6 0 @ ip_bytes target_ip"

definition arp_send_request :: "u32 \<Rightarrow> 'a arp_scheme \<Rightarrow> 'a arp_scheme" where
  "arp_send_request target_ip n =
     (let n1 = snd (eth_send (replicate 6 0xFF) ETH_TYPE_ARP
                 (arp_request (g_local_mac n) (g_local_ip n) target_ip) n)
      in n1\<lparr>g_arp_stats := (g_arp_stats n1)\<lparr>arp_requests := arp_requests (g_arp_stats n1) + 1\<rparr>\<rparr>)"

text \<open>The hardware address found, or \<open>None\<close> for the result 0.\<close>

definition arp_resolve :: "u32 \<Rightarrow> 'a arp_scheme \<Rightarrow> u8 list option \<times> 'a arp_scheme" where
  "arp_resolve ip n =
     (case first_index (\<lambda>e. arp_valid e \<and> arp_ip e = ip) (g_cache n) of
        Some i \<Rightarrow> (Some (mac_copy (arp_mac (g_cache n ! i))),
          n\<lparr>g_arp_stats := (g_arp_stats n)\<lparr>arp_hits := arp_hits (g_arp_stats n) + 1\<rparr>\<rparr>)
      | None \<Rightarrow> (None, arp_send_request ip
          (n\<lparr>g_arp_stats := (g_arp_stats n)\<lparr>arp_misses := arp_misses (g_arp_stats n) + 1\<rparr>\<rparr>)))"

definition arp_add_static :: "u64 \<Rightarrow> u32 \<Rightarrow> u8 list option \<Rightarrow> 'a arp_scheme \<Rightarrow> 'a arp_scheme" where
  "arp_add_static tick ip mac n =
     (case mac of None \<Rightarrow> n | Some m \<Rightarrow> insert_entry tick ip m True n)"

definition arp_ip_to_str :: "u32 \<Rightarrow> char list \<Rightarrow> char list" where
  "arp_ip_to_str ip out = out[0 := NUL]"

definition arp_get_stats :: "'a arp_scheme \<Rightarrow> arp_stats" where
  "arp_get_stats n = (g_arp_stats n)\<lparr>arp_total := of_nat ARP_CACHE_MAX,
     arp_valid_count := of_nat (count_used arp_valid (g_cache n))\<rparr>"

text \<open>
  Printing: the arguments in the order they are passed; the formatter decides
  which of them it consumes.
\<close>

definition ip_args :: "u32 \<Rightarrow> karg list" where
  "ip_args ip = [KInt (drop_bit 24 ip AND 0xFF), KInt (drop_bit 16 ip AND 0xFF),
     KInt (drop_bit 8 ip AND 0xFF), KInt (ip AND 0xFF)]"

definition arp_line :: "arp_entry \<Rightarrow> string option" where
  "arp_line e =
     (if \<not> arp_valid e then Some []
      else kprintf (''  %u.%u.%u.%u -> %02x:%02x:%02x:%02x:%02x:%02x%s'' @ [CHR 0x0A])
             (ip_args (arp_ip e) @ map (\<lambda>b. KInt (ucast b)) (take 6 (arp_mac e)) @
              [KStr (if arp_permanent e then '' (static)'' else [])]))"

text \<open>The output of a loop that prints one line per element.\<close>

fun print_lines :: "('a \<Rightarrow> string option) \<Rightarrow> 'a list \<Rightarrow> string option" where
  "print_lines f [] = Some []"
| "print_lines f (x # xs) =
     (case f x of None \<Rightarrow> None | Some t \<Rightarrow> map_option (\<lambda>r. t @ r) (print_lines f xs))"

definition arp_print_table :: "'a arp_scheme \<Rightarrow> string option" where
  "arp_print_table n =
     map_option (\<lambda>r. ''ARP table:'' @ [CHR 0x0A] @ r) (print_lines arp_line (g_cache n))"

end
