(* ===== verification/Ipv4.thy ===== *)
theory Ipv4
  imports Arp
begin

text \<open>
  The internet layer \<open>kernel/net/ipv4.c\<close>: routes, dotted-decimal addresses, the
  checksum and sending, with the statistics it keeps.
\<close>

definition IPV4_MAX_ROUTES :: nat where "IPV4_MAX_ROUTES = 8"

record ipv4_route =
  route_valid :: bool
  route_dest :: u32
  route_mask :: u32
  route_gateway :: u32

record ipv4_stats =
  st_ip :: u32
  st_gateway :: u32
  st_subnet :: u32
  st_route_count :: u32
  st_send_count :: u32
  st_drop_count :: u32

record ipv4 = arp +
  g_routes :: "ipv4_route list"
  g_ip_stats :: ipv4_stats
  g_ip :: u32
  g_gateway :: u32
  g_subnet :: u32

definition zero_route :: ipv4_route where
  "zero_route = \<lparr>route_valid = False, route_dest = 0, route_mask = 0, route_gateway = 0\<rparr>"

section \<open>Configuration\<close>

definition route_init_defaults :: "'a ipv4_scheme \<Rightarrow> 'a ipv4_scheme" where
  "route_init_defaults n =
     n\<lparr>g_routes := (replicate IPV4_MAX_ROUTES zero_route)
          [0 := \<lparr>route_valid = True, route_dest = g_ip n, route_mask = g_subnet n, route_gateway = 0\<rparr>,
           1 := \<lparr>route_valid = True, route_dest = 0, route_mask = 0, route_gateway = g_gateway n\<rparr>],
       g_ip_stats := (g_ip_stats n)\<lparr>st_route_count := 2\<rparr>\<rparr>"

definition ipv4_init :: "'a ipv4_scheme \<Rightarrow> 'a ipv4_scheme" where
  "ipv4_init n =
     (let n1 = route_init_defaults (n\<lparr>g_ip_stats := \<lparr>st_ip = 0, st_gateway = 0, st_subnet = 0,
            st_route_count = 0, st_send_count = 0, st_drop_count = 0\<rparr>\<rparr>)
      in n1\<lparr>g_ip_stats := (g_ip_stats n1)\<lparr>st_ip := g_ip n1, st_gateway := g_gateway n1,
            st_subnet := g_subnet n1\<rparr>\<rparr>)"

definition ipv4_poll :: "u64 \<Rightarrow> 'a ipv4_scheme \<Rightarrow> 'a ipv4_scheme" where
  "ipv4_poll tick n = arp_poll tick n"

definition ipv4_set_ip :: "u32 \<Rightarrow> 'a ipv4_scheme \<Rightarrow> 'a ipv4_scheme" where
  "ipv4_set_ip ip n =
     (let n1 = route_init_defaults (n\<lparr>g_ip := ip\<rparr>)
      in n1\<lparr>g_ip_stats := (g_ip_stats n1)\<lparr>st_ip := g_ip n1\<rparr>\<rparr>)"

definition ipv4_set_gateway :: "u32 \<Rightarrow> 'a ipv4_scheme \<Rightarrow> 'a ipv4_scheme" where
  "ipv4_set_gateway gw n =
     (let n1 = route_init_defaults (n\<lparr>g_gateway := gw\<rparr>)
      in n1\<lparr>g_ip_stats := (g_ip_stats n1)\<lparr>st_gateway := g_gateway n1\<rparr>\<rparr>)"

definition ipv4_set_subnet :: "u32 \<Rightarrow> 'a ipv4_scheme \<Rightarrow> 'a ipv4_scheme" where
  "ipv4_set_subnet subnet n =
     (let n1 = route_init_defaults (n\<lparr>g_subnet := subnet\<rparr>)
      in n1\<lparr>g_ip_stats := (g_ip_stats n1)\<lparr>st_subnet := g_subnet n1\<rparr>\<rparr>)"

definition ipv4_get_ip :: "'a ipv4_scheme \<Rightarrow> u32" where "ipv4_get_ip n = g_ip n"
definition ipv4_get_gateway :: "'a ipv4_scheme \<Rightarrow> u32" where "ipv4_get_gateway n = g_gateway n"
definition ipv4_get_subnet :: "'a ipv4_scheme \<Rightarrow> u32" where "ipv4_get_subnet n = g_subnet n"

definition ipv4_is_loopback :: "u32 \<Rightarrow> bool" where
  "ipv4_is_loopback ip \<longleftrightarrow> drop_bit 24 ip = 127"

definition ipv4_is_broadcast :: "u32 \<Rightarrow> bool" where
  "ipv4_is_broadcast ip \<longleftrightarrow> ip = 0xFFFFFFFF"

definition ipv4_is_local :: "'a ipv4_scheme \<Rightarrow> u32 \<Rightarrow> bool" where
  "ipv4_is_local n ip \<longleftrightarrow> ip AND g_subnet n = g_ip n AND g_subnet n"

section \<open>Addresses as text\<close>

text \<open>
  One decimal field: the value and the rest of the string.  The loop leaves as
  soon as the value passes 255, so the 32-bit accumulator never wraps.
\<close>

fun octet_loop :: "char list \<Rightarrow> u32 \<Rightarrow> nat \<Rightarrow> (u32 \<times> nat \<times> char list) option" where
  "octet_loop [] v digits = Some (v, digits, [])"
| "octet_loop (c # s) v digits =
     (if 48 \<le> uchar c \<and> uchar c \<le> 57
      then (let v' = v * 10 + (of_char c - 48) in
            if v' > 255 then None else octet_loop s v' (digits + 1))
      else Some (v, digits, c # s))"

definition parse_octet :: "char list \<Rightarrow> (u32 \<times> char list) option" where
  "parse_octet s =
     (case octet_loop s 0 0 of
        None \<Rightarrow> None
      | Some (v, digits, s') \<Rightarrow> if digits = 0 then None else Some (v, s'))"

text \<open>An octet and the dot behind it.\<close>

definition parse_octet_dot :: "char list \<Rightarrow> (u32 \<times> char list) option" where
  "parse_octet_dot s =
     (case parse_octet s of
        None \<Rightarrow> None
      | Some (v, s') \<Rightarrow> if cget s' 0 = CHR ''.'' then Some (v, tl s') else None)"

definition ipv4_from_str :: "char list \<Rightarrow> u32" where
  "ipv4_from_str s =
     (case parse_octet_dot s of None \<Rightarrow> 0 | Some (a, s1) \<Rightarrow>
      case parse_octet_dot s1 of None \<Rightarrow> 0 | Some (b, s2) \<Rightarrow>
      case parse_octet_dot s2 of None \<Rightarrow> 0 | Some (c, s3) \<Rightarrow>
      case parse_octet s3 of None \<Rightarrow> 0 | Some (d, s4) \<Rightarrow>
        if cget s4 0 \<noteq> NUL then 0
        else push_bit 24 a OR push_bit 16 b OR push_bit 8 c OR d)"

text \<open>The result is left empty; the text goes to the console.\<close>

definition ipv4_to_str :: "u32 \<Rightarrow> char list \<Rightarrow> char list \<times> string option" where
  "ipv4_to_str ip out = (out[0 := NUL], kprintf ''%u.%u.%u.%u'' (ip_args ip))"

section \<open>The checksum\<close>

fun checksum_sum :: "u8 list \<Rightarrow> u32 \<Rightarrow> u32" where
  "checksum_sum [] acc = acc"
| "checksum_sum [a] acc = acc + push_bit 8 (ucast a)"
| "checksum_sum (a # b # bytes) acc = checksum_sum bytes (acc + (push_bit 8 (ucast a) OR ucast b))"

text \<open>The value of one folding step.\<close>

lemma unat_fold_step:
  fixes acc :: u32
  shows "unat ((acc AND 0xFFFF) + drop_bit 16 acc) = unat acc mod 65536 + unat acc div 65536"
proof -
  have a: "unat (acc AND 0xFFFF) = unat acc mod 65536"
  proof -
    have "acc AND 0xFFFF = take_bit 16 acc" by (simp add: take_bit_eq_mask mask_eq_exp_minus_1)
    then show ?thesis by (simp only: unsigned_take_bit_eq) (simp add: take_bit_eq_mod)
  qed
  have b: "unat (drop_bit 16 acc) = unat acc div 65536" by (simp add: drop_bit_eq_div unat_div)
  have "unat acc < 2 ^ 32" by (rule order_less_le_trans [OF unsigned_less]) simp
  then have "unat acc div 65536 < 65536" by (simp add: less_mult_imp_div_less)
  then have "unat acc mod 65536 + unat acc div 65536 < 2 ^ 32"
    using mod_less_divisor [of 65536 "unat acc"] by simp
  then show ?thesis by (simp add: unat_word_ariths a b)
qed

function checksum_fold :: "u32 \<Rightarrow> u32" where
  "checksum_fold acc =
     (if drop_bit 16 acc \<noteq> 0 then checksum_fold ((acc AND 0xFFFF) + drop_bit 16 acc) else acc)"
  by pat_completeness auto
termination
proof (relation "measure unat", goal_cases)
  case (2 acc)
  have "unat (drop_bit 16 acc) \<noteq> 0" using 2 by (simp add: unat_eq_zero)
  then have "0 < unat acc div 65536" by (simp add: drop_bit_eq_div unat_div)
  moreover have "unat acc = 65536 * (unat acc div 65536) + unat acc mod 65536" by simp
  ultimately show ?case unfolding in_measure unat_fold_step by linarith
qed simp

declare checksum_fold.simps [simp del]

definition ipv4_checksum :: "u8 list \<Rightarrow> u16" where
  "ipv4_checksum bytes = ucast (NOT (checksum_fold (checksum_sum bytes 0)))"

section \<open>Routing and sending\<close>

definition route_lookup :: "'a ipv4_scheme \<Rightarrow> u32 \<Rightarrow> u32" where
  "route_lookup n dst_ip =
     (case first_index (\<lambda>r. route_valid r \<and> dst_ip AND route_mask r = route_dest r AND route_mask r) (g_routes n) of
        Some i \<Rightarrow> (let gw = route_gateway (g_routes n ! i) in if gw \<noteq> 0 then gw else dst_ip)
      | None \<Rightarrow> (if g_gateway n \<noteq> 0 then g_gateway n else dst_ip))"

definition ipv4_drop :: "'a ipv4_scheme \<Rightarrow> 'a ipv4_scheme" where
  "ipv4_drop n = n\<lparr>g_ip_stats := (g_ip_stats n)\<lparr>st_drop_count := st_drop_count (g_ip_stats n) + 1\<rparr>\<rparr>"

definition ipv4_send :: "u32 \<Rightarrow> u8 \<Rightarrow> u8 list \<Rightarrow> 'a ipv4_scheme \<Rightarrow> int \<times> 'a ipv4_scheme" where
  "ipv4_send dst_ip protocol payload n =
     (if length payload = 0 \<or> length payload > 1400 then (-1, ipv4_drop n)
      else case arp_resolve (route_lookup n dst_ip) n of
        (None, n1) \<Rightarrow> (-1, ipv4_drop n1)
      | (Some mac, n1) \<Rightarrow>
          let (r, n2) = eth_send mac ETH_TYPE_IPV4 payload n1 in
          if r \<noteq> 0 then (-1, ipv4_drop n2)
          else (0, n2\<lparr>g_ip_stats := (g_ip_stats n2)\<lparr>st_send_count := st_send_count (g_ip_stats n2) + 1\<rparr>\<rparr>))"

definition ipv4_get_stats :: "'a ipv4_scheme \<Rightarrow> ipv4_stats" where
  "ipv4_get_stats n = g_ip_stats n"

definition route_line :: "ipv4_route \<Rightarrow> string option" where
  "route_line r =
     (if \<not> route_valid r then Some []
      else kprintf (''  %u.%u.%u.%u/%u.%u.%u.%u via %u.%u.%u.%u'' @ [CHR 0x0A])
             (ip_args (route_dest r) @ ip_args (route_mask r) @ ip_args (route_gateway r)))"

definition ipv4_route_print :: "'a ipv4_scheme \<Rightarrow> string option" where
  "ipv4_route_print n =
     map_option (\<lambda>r. ''IPv4 routes:'' @ [CHR 0x0A] @ r) (print_lines route_line (g_routes n))"

end
