(* ===== verification/Udp.thy ===== *)
theory Udp
  imports Ipv4 SlotTable
begin

text \<open>
  Ping \<open>kernel/net/icmp.c\<close> and datagrams \<open>kernel/net/udp.c\<close> over the internet
  layer.  The socket table is an instance of the registry interface.  A receive
  callback is kept as the number of its address; nothing in the code calls it.
\<close>

section \<open>Ping\<close>

definition ICMP_TYPE_ECHO_REQUEST :: u8 where "ICMP_TYPE_ECHO_REQUEST = 8"

record icmp_stats =
  icmp_sent :: u32
  icmp_received :: u32
  icmp_replied :: u32
  icmp_dropped :: u32

record icmp = ipv4 +
  g_icmp_stats :: icmp_stats

definition zero_icmp_stats :: icmp_stats where
  "zero_icmp_stats = \<lparr>icmp_sent = 0, icmp_received = 0, icmp_replied = 0, icmp_dropped = 0\<rparr>"

definition icmp_init :: "'a icmp_scheme \<Rightarrow> 'a icmp_scheme" where
  "icmp_init n = n\<lparr>g_icmp_stats := zero_icmp_stats\<rparr>"

definition icmp_reset_stats :: "'a icmp_scheme \<Rightarrow> 'a icmp_scheme" where
  "icmp_reset_stats n = n\<lparr>g_icmp_stats := zero_icmp_stats\<rparr>"

definition icmp_get_stats :: "'a icmp_scheme \<Rightarrow> icmp_stats" where
  "icmp_get_stats n = g_icmp_stats n"

text \<open>The checksum goes into bytes 2 and 3, which are zero while it is computed.\<close>

definition icmp_packet :: "u8 list" where
  "icmp_packet =
     (let packet = [ICMP_TYPE_ECHO_REQUEST, 0, 0, 0, 0x12, 0x34, 0x00, 0x01]; checksum = ipv4_checksum packet
      in packet[2 := ucast (drop_bit 8 checksum), 3 := ucast (checksum AND 0xFF)])"

definition icmp_ping :: "u32 \<Rightarrow> 'a icmp_scheme \<Rightarrow> int \<times> 'a icmp_scheme" where
  "icmp_ping dst_ip n =
     (let (r, n1) = ipv4_send dst_ip 1 icmp_packet n in
      if r \<noteq> 0 then (-1, n1\<lparr>g_icmp_stats := (g_icmp_stats n1)\<lparr>icmp_dropped := icmp_dropped (g_icmp_stats n1) + 1\<rparr>\<rparr>)
      else (0, n1\<lparr>g_icmp_stats := (g_icmp_stats n1)\<lparr>icmp_sent := icmp_sent (g_icmp_stats n1) + 1\<rparr>\<rparr>))"

text \<open>
  The command.  Counting up in an \<open>int\<close> that overflows is undefined and gives
  \<open>None\<close>, as does a format argument that is missing; otherwise the output and
  the new state.
\<close>

fun ping_count :: "char list \<Rightarrow> int \<Rightarrow> int option" where
  "ping_count [] v = Some v"
| "ping_count (c # s) v =
     (if 48 \<le> uchar c \<and> uchar c \<le> 57
      then (let v' = v * 10 + (uchar c - 48) in if v' > 2147483647 then None else ping_count s v')
      else Some v)"

fun ping_loop :: "nat \<Rightarrow> u32 \<Rightarrow> char list \<Rightarrow> u32 \<Rightarrow> 'a icmp_scheme \<Rightarrow> (string \<times> 'a icmp_scheme) option" where
  "ping_loop 0 i target ip n = Some ([], n)"
| "ping_loop (Suc m) i target ip n =
     (let (r, n1) = icmp_ping ip n in
      case kprintf ((if r = 0 then ''ping %s seq=%d sent'' else ''ping %s seq=%d failed'') @ [CHR 0x0A])
             [KStr target, KInt (i + 1)] of
        None \<Rightarrow> None
      | Some out \<Rightarrow> map_option (\<lambda>(rest, n2). (out @ rest, n2)) (ping_loop m (i + 1) target ip n1))"

definition cmd_ping :: "char list list \<Rightarrow> 'a icmp_scheme \<Rightarrow> (string \<times> 'a icmp_scheme) option" where
  "cmd_ping argv n =
     (case argv of
        (_ # target # opts) \<Rightarrow>
          let ip = ipv4_from_str target in
          if ip = 0 then Some (''invalid IP address'' @ [CHR 0x0A], n)
          else (case (case opts of [] \<Rightarrow> Some 0 | c # _ \<Rightarrow> ping_count c 0) of
                  None \<Rightarrow> None
                | Some v \<Rightarrow> ping_loop (nat (if v > 0 then v else 1)) 0 target ip n)
      | _ \<Rightarrow> Some (''usage: ping <ip> [count]'' @ [CHR 0x0A], n))"

section \<open>Datagrams\<close>

definition IP_PROTO_UDP :: u8 where "IP_PROTO_UDP = 17"
definition UDP_MAX_SOCKETS :: nat where "UDP_MAX_SOCKETS = 8"
definition UDP_MAX_PAYLOAD :: nat where "UDP_MAX_PAYLOAD = 1472"
definition UDP_NO_SOCKET :: int where "UDP_NO_SOCKET = -1"

record udp_socket =
  sock_used :: bool
  sock_port :: u16
  sock_callback :: u64

record udp_stats =
  udp_bound_sockets :: u32
  udp_tx_packets :: u32
  udp_rx_packets :: u32
  udp_dropped_packets :: u32

record udp = icmp +
  g_sockets :: "udp_socket list"
  g_udp_stats :: udp_stats
  g_udp_ready :: bool
  g_next_ephemeral :: u16

definition zero_socket :: udp_socket where
  "zero_socket = \<lparr>sock_used = False, sock_port = 0, sock_callback = 0\<rparr>"

definition find_socket_index :: "udp_socket list \<Rightarrow> u16 \<Rightarrow> nat option" where
  "find_socket_index socks port = first_index (\<lambda>k. sock_used k \<and> sock_port k = port) socks"

definition alloc_socket_slot :: "udp_socket list \<Rightarrow> nat option" where
  "alloc_socket_slot socks = first_index (\<lambda>k. \<not> sock_used k) socks"

definition udp_init :: "'a udp_scheme \<Rightarrow> 'a udp_scheme" where
  "udp_init n = n\<lparr>g_sockets := replicate UDP_MAX_SOCKETS zero_socket,
     g_udp_stats := \<lparr>udp_bound_sockets = 0, udp_tx_packets = 0, udp_rx_packets = 0, udp_dropped_packets = 0\<rparr>,
     g_udp_ready := True\<rparr>"

definition udp_poll :: "u64 \<Rightarrow> 'a udp_scheme \<Rightarrow> 'a udp_scheme" where
  "udp_poll tick n = ipv4_poll tick n"

definition udp_bind :: "u16 \<Rightarrow> u64 \<Rightarrow> 'a udp_scheme \<Rightarrow> int \<times> 'a udp_scheme" where
  "udp_bind port cb n =
     (if \<not> g_udp_ready n \<or> port = 0 then (UDP_NO_SOCKET, n)
      else if find_socket_index (g_sockets n) port \<noteq> None then (UDP_NO_SOCKET, n)
      else case alloc_socket_slot (g_sockets n) of
        None \<Rightarrow> (UDP_NO_SOCKET, n)
      | Some i \<Rightarrow> (int i, n\<lparr>g_sockets := (g_sockets n)[i := \<lparr>sock_used = True, sock_port = port, sock_callback = cb\<rparr>],
          g_udp_stats := (g_udp_stats n)\<lparr>udp_bound_sockets := udp_bound_sockets (g_udp_stats n) + 1\<rparr>\<rparr>))"

function auto_bind_loop :: "u16 \<Rightarrow> u64 \<Rightarrow> 'a udp_scheme \<Rightarrow> int \<times> 'a udp_scheme" where
  "auto_bind_loop port cb n =
     (if port = 0 then (UDP_NO_SOCKET, n)
      else let (sid, n1) = udp_bind port cb n in
        if sid \<ge> 0 then (sid, n1\<lparr>g_next_ephemeral := (if port = 65535 then 49152 else port + 1)\<rparr>)
        else if port = 65535 then (UDP_NO_SOCKET, n1)
        else auto_bind_loop (port + 1) cb n1)"
  by pat_completeness auto
termination
proof (relation "measure (\<lambda>(port, cb, n). 65536 - unat port)", goal_cases)
  case (2 port cb n x sid n1)
  have "port \<noteq> 65535" using 2 by simp
  then have "unat port \<noteq> 65535" by (simp add: word_unat_eq_iff)
  moreover have "unat port < 65536" using unsigned_less [of port] by simp
  ultimately have "unat (port + 1) = unat port + 1" by (simp add: unat_word_ariths)
  then show ?case using \<open>unat port < 65536\<close> by simp
qed simp

declare auto_bind_loop.simps [simp del]

definition udp_auto_bind :: "u64 \<Rightarrow> 'a udp_scheme \<Rightarrow> int \<times> 'a udp_scheme" where
  "udp_auto_bind cb n = auto_bind_loop (g_next_ephemeral n) cb n"

definition udp_unbind :: "int \<Rightarrow> 'a udp_scheme \<Rightarrow> 'a udp_scheme" where
  "udp_unbind sid n =
     (if sid < 0 \<or> sid \<ge> int UDP_MAX_SOCKETS then n
      else if sock_used (g_sockets n ! nat sid) then n\<lparr>g_sockets := (g_sockets n)[nat sid := zero_socket]\<rparr>
      else n)"

definition udp_checksum :: "u8 list \<Rightarrow> u16" where
  "udp_checksum bytes = ipv4_checksum bytes"

definition udp_packet :: "u16 \<Rightarrow> u16 \<Rightarrow> u8 list \<Rightarrow> u8 list" where
  "udp_packet src_port dst_port bytes =
     (let udp_len = 8 + of_nat (length bytes) :: u16;
          packet = [ucast (drop_bit 8 src_port), ucast (src_port AND 0xFF),
                    ucast (drop_bit 8 dst_port), ucast (dst_port AND 0xFF),
                    ucast (drop_bit 8 udp_len), ucast (udp_len AND 0xFF), 0, 0] @ bytes;
          checksum = udp_checksum (take (unat udp_len) packet)
      in packet[6 := ucast (drop_bit 8 checksum), 7 := ucast (checksum AND 0xFF)])"

definition udp_drop :: "'a udp_scheme \<Rightarrow> 'a udp_scheme" where
  "udp_drop n = n\<lparr>g_udp_stats := (g_udp_stats n)\<lparr>udp_dropped_packets := udp_dropped_packets (g_udp_stats n) + 1\<rparr>\<rparr>"

definition udp_send :: "int \<Rightarrow> u32 \<Rightarrow> u16 \<Rightarrow> u8 list \<Rightarrow> 'a udp_scheme \<Rightarrow> int \<times> 'a udp_scheme" where
  "udp_send sid dst_ip dst_port bytes n =
     (if sid < 0 \<or> sid \<ge> int UDP_MAX_SOCKETS then (-1, udp_drop n)
      else if \<not> sock_used (g_sockets n ! nat sid) then (-1, udp_drop n)
      else if length bytes > UDP_MAX_PAYLOAD then (-1, udp_drop n)
      else let (r, n1) = ipv4_send dst_ip IP_PROTO_UDP
                           (udp_packet (sock_port (g_sockets n ! nat sid)) dst_port bytes) n in
        if r \<noteq> 0 then (-1, udp_drop n1)
        else (0, n1\<lparr>g_udp_stats := (g_udp_stats n1)\<lparr>udp_tx_packets := udp_tx_packets (g_udp_stats n1) + 1\<rparr>\<rparr>))"

definition udp_get_stats :: "'a udp_scheme \<Rightarrow> udp_stats" where
  "udp_get_stats n = g_udp_stats n"

end
