(* ===== verification/NetProps.thy ===== *)
theory NetProps
  imports Udp
begin

text \<open>
  Correctness of the network stack: the checksum is the internet checksum and
  verifies on the packets that are built, addresses read back as they are
  written, and the socket table never gives a port to two sockets.
\<close>

section \<open>The checksum\<close>

text \<open>The sum of the 16-bit big-endian words of a packet, an odd last byte padded with zero.\<close>

fun pair_sum :: "u8 list \<Rightarrow> nat" where
  "pair_sum [] = 0"
| "pair_sum [a] = 256 * unat a"
| "pair_sum (a # b # bytes) = 256 * unat a + unat b + pair_sum bytes"

lemma u8_less: "unat (a :: u8) < 256"
  using unsigned_less [of a] by simp

lemma unat_pair:
  fixes a b :: u8
  shows "unat (push_bit 8 (ucast a) OR ucast b :: u32) = 256 * unat a + unat b"
    and "unat (push_bit 8 (ucast a) :: u32) = 256 * unat a"
proof -
  have a: "unat a < 256" and b: "unat b < 256" using u8_less by simp_all
  have ua: "unat (ucast a :: u32) = unat a" and ub: "unat (ucast b :: u32) = unat b"
    by (simp_all add: unsigned_ucast_eq take_bit_nat_eq_self_iff order_less_trans [OF unsigned_less])
  have "push_bit 8 (ucast a) = (ucast a :: u32) * 256" by (simp add: push_bit_eq_mult)
  then show p: "unat (push_bit 8 (ucast a) :: u32) = 256 * unat a"
    using a by (simp add: unat_word_ariths ua)
  have "push_bit 8 (ucast a :: u32) OR ucast b = push_bit 8 (ucast a) + ucast b"
    by (rule disjunctive_add [symmetric]) (auto simp: bit_simps dest: bit_imp_le_length)
  then show "unat (push_bit 8 (ucast a) OR ucast b :: u32) = 256 * unat a + unat b"
    using a b by (simp add: unat_word_ariths p ub)
qed

lemma pair_sum_le: "pair_sum bytes \<le> 65535 * ((length bytes + 1) div 2)"
proof (induction bytes rule: pair_sum.induct)
  case (2 a)
  show ?case using u8_less [of a] by simp
next
  case (3 a b bytes)
  then show ?case using u8_less [of a] u8_less [of b] by simp
qed simp

lemma unat_checksum_sum:
  "unat acc + pair_sum bytes < 2 ^ 32 \<Longrightarrow> unat (checksum_sum bytes acc) = unat acc + pair_sum bytes"
  by (induction bytes acc rule: checksum_sum.induct) (simp_all add: unat_pair unat_word_ariths)

text \<open>Folding the carries back is the residue modulo 65535, written as 65535 when it is a multiple.\<close>

definition ones_complement :: "nat \<Rightarrow> nat" where
  "ones_complement n = (if n = 0 then 0 else if n mod 65535 = 0 then 65535 else n mod 65535)"

lemma ones_complement_step: "ones_complement (n mod 65536 + n div 65536) = ones_complement n"
proof -
  have "n = 65536 * (n div 65536) + n mod 65536" by simp
  then have n: "n = (n mod 65536 + n div 65536) + 65535 * (n div 65536)" by linarith
  then have "n mod 65535 = (n mod 65536 + n div 65536) mod 65535" by (metis mod_mult_self2)
  moreover have "n = 0 \<longleftrightarrow> n mod 65536 + n div 65536 = 0" using n by auto
  ultimately show ?thesis by (simp only: ones_complement_def)
qed

lemma ones_complement_small: "n < 65536 \<Longrightarrow> ones_complement n = n"
  by (cases "n = 65535") (auto simp: ones_complement_def)

lemma unat_checksum_fold: "unat (checksum_fold acc) = ones_complement (unat acc)"
proof (induction acc rule: checksum_fold.induct)
  case (1 acc)
  have top: "unat (drop_bit 16 acc) = unat acc div 65536" by (simp add: drop_bit_eq_div unat_div)
  show ?case
  proof (cases "drop_bit 16 acc = 0")
    case True
    then have "unat acc < 65536" using top by (simp add: div_eq_0_iff)
    then show ?thesis using True by (simp add: checksum_fold.simps ones_complement_small)
  next
    case False
    then have "unat (checksum_fold acc) = unat (checksum_fold ((acc AND 0xFFFF) + drop_bit 16 acc))"
      by (subst checksum_fold.simps) simp
    also have "\<dots> = ones_complement (unat acc)"
      using "1.IH" [OF False] by (simp only: unat_fold_step ones_complement_step)
    finally show ?thesis .
  qed
qed

lemma ones_complement_le: "ones_complement n \<le> 65535"
  using mod_less_divisor [of 65535 n] by (simp add: ones_complement_def)

lemma unat_ipv4_checksum:
  assumes "length bytes \<le> 65536"
  shows "unat (ipv4_checksum bytes) = 65535 - ones_complement (pair_sum bytes)"
proof -
  have "65535 * ((length bytes + 1) div 2) \<le> 65535 * 32768" using assms by (intro mult_left_mono) simp_all
  then have "pair_sum bytes < 2 ^ 32" using pair_sum_le [of bytes] by simp
  then have "unat (checksum_fold (checksum_sum bytes 0)) = ones_complement (pair_sum bytes)"
    by (simp add: unat_checksum_fold unat_checksum_sum)
  moreover have "unat (ucast (NOT w) :: u16) = 65535 - unat w" if "unat w \<le> 65535" for w :: u32
  proof -
    have "(ucast (NOT w) :: u16) = NOT (ucast w)" by (rule bit_word_eqI) (simp add: bit_simps)
    also have "\<dots> = - 1 - ucast w" by (simp add: not_eq_complement)
    finally have "unat (ucast (NOT w) :: u16) = unat (- 1 :: u16) - unat (ucast w :: u16)"
      by (simp only: unat_sub [OF word_order.extremum])
    moreover have "unat (ucast w :: u16) = unat w"
      using that by (simp add: unsigned_ucast_eq take_bit_nat_eq_self_iff)
    moreover have "unat (- 1 :: u16) = 65535" by (simp add: unsigned_minus_1_eq_mask mask_eq_exp_minus_1)
    ultimately show ?thesis by simp
  qed
  ultimately show ?thesis using ones_complement_le [of "pair_sum bytes"] by (simp add: ipv4_checksum_def)
qed

lemma pair_sum_append: "even (length pre) \<Longrightarrow> pair_sum (pre @ bytes) = pair_sum pre + pair_sum bytes"
  by (induction pre rule: pair_sum.induct) simp_all

text \<open>The two bytes a 16-bit value is stored as.\<close>

lemma be16_bytes:
  fixes v :: u16
  shows "unat (ucast (drop_bit 8 v) :: u8) = unat v div 256"
    and "unat (ucast (v AND 0xFF) :: u8) = unat v mod 256"
proof -
  have v: "unat v < 65536" using unsigned_less [of v] by simp
  have "unat (drop_bit 8 v) = unat v div 256" by (simp add: drop_bit_eq_div unat_div)
  then show "unat (ucast (drop_bit 8 v) :: u8) = unat v div 256"
    using v by (simp only: unsigned_ucast_eq) (simp add: take_bit_eq_mod less_mult_imp_div_less)
  have "v AND 0xFF = take_bit 8 v" by (simp add: take_bit_eq_mask mask_eq_exp_minus_1)
  then have "unat (v AND 0xFF) = unat v mod 256"
    by (simp only: unsigned_take_bit_eq) (simp add: take_bit_eq_mod)
  then show "unat (ucast (v AND 0xFF) :: u8) = unat v mod 256"
    by (simp only: unsigned_ucast_eq) (simp add: take_bit_eq_mod)
qed

lemma be16_value:
  fixes v :: u16
  shows "256 * unat (ucast (drop_bit 8 v) :: u8) + unat (ucast (v AND 0xFF) :: u8) = unat v"
  unfolding be16_bytes by (rule mult_div_mod_eq)

lemma ones_complement_congruent: "\<exists>k. n = ones_complement n + 65535 * k"
proof (cases "n mod 65535 = 0")
  case True
  then obtain q where q: "n = 65535 * q" by (auto elim: dvdE)
  then show ?thesis
    by (cases q) (auto simp: ones_complement_def)
next
  case False
  then have "n = ones_complement n + 65535 * (n div 65535)" by (auto simp: ones_complement_def)
  then show ?thesis by blast
qed

lemma checksum_verifies:
  assumes "even (length pre)" and "length pre + 2 + length post \<le> 65536"
  shows "let c = ipv4_checksum (pre @ [0, 0] @ post) in
    ipv4_checksum (pre @ [ucast (drop_bit 8 c), ucast (c AND 0xFF)] @ post) = 0"
proof -
  define c where "c = ipv4_checksum (pre @ [0, 0] @ post)"
  let ?S = "pair_sum pre + pair_sum post"
  have c: "unat c = 65535 - ones_complement ?S"
    using unat_ipv4_checksum [of "pre @ [0, 0] @ post"] assms by (simp add: c_def pair_sum_append)
  have S: "pair_sum (pre @ [ucast (drop_bit 8 c), ucast (c AND 0xFF)] @ post) = ?S + unat c"
    using assms be16_value [of c] by (simp add: pair_sum_append)
  obtain k where k: "?S = ones_complement ?S + 65535 * k" using ones_complement_congruent by blast
  have "?S + unat c = 65535 * (k + 1)"
    using k c ones_complement_le [of ?S] by simp
  then have "ones_complement (?S + unat c) = 65535" by (simp only: ones_complement_def) simp
  then have "unat (ipv4_checksum (pre @ [ucast (drop_bit 8 c), ucast (c AND 0xFF)] @ post)) = 0"
    using unat_ipv4_checksum [of "pre @ [ucast (drop_bit 8 c), ucast (c AND 0xFF)] @ post"] assms S
    by simp
  then show ?thesis by (simp only: Let_def c_def [symmetric]) (simp only: unat_eq_zero)
qed

text \<open>The 16-bit field at an offset of a packet.\<close>

definition field16 :: "u8 list \<Rightarrow> nat \<Rightarrow> nat" where
  "field16 p i = 256 * unat (p ! i) + unat (p ! (i + 1))"

text \<open>C28. The packets that are sent verify.  A datagram of at most 1472 bytes is built
with its source port, destination port and total length in the header, followed by the
data unchanged, and with the internet checksum that makes the checksum of the whole
packet zero.  A ping hands the lower layer an echo request: eight bytes, type 8, code 0,
identifier 1234 (hexadecimal) and always sequence number 1, whose checksum verifies too.\<close>

theorem packets_verify:
  assumes "length bytes \<le> UDP_MAX_PAYLOAD"
  shows "(let p = udp_packet src_port dst_port bytes in
      ipv4_checksum p = 0 \<and> length p = 8 + length bytes \<and> field16 p 0 = unat src_port \<and>
      field16 p 2 = unat dst_port \<and> field16 p 4 = length p \<and> drop 8 p = bytes) \<and>
    ipv4_checksum icmp_packet = 0 \<and> length icmp_packet = 8 \<and> icmp_packet ! 0 = 8 \<and> icmp_packet ! 1 = 0 \<and>
    field16 icmp_packet 4 = 0x1234 \<and> field16 icmp_packet 6 = 1 \<and>
    fst (icmp_ping dst n) = (if fst (ipv4_send dst 1 icmp_packet n) = 0 then 0 else -1)"
proof -
  let ?len = "8 + of_nat (length bytes) :: u16"
  let ?pre = "[ucast (drop_bit 8 src_port), ucast (src_port AND 0xFF), ucast (drop_bit 8 dst_port),
      ucast (dst_port AND 0xFF), ucast (drop_bit 8 ?len), ucast (?len AND 0xFF)] :: u8 list"
  have len: "length bytes \<le> 1472" using assms by (simp add: UDP_MAX_PAYLOAD_def)
  then have ul: "unat ?len = 8 + length bytes"
    by (simp add: unat_word_ariths unat_of_nat take_bit_nat_eq_self)
  define c where "c = ipv4_checksum (?pre @ [0, 0] @ bytes)"
  have p: "udp_packet src_port dst_port bytes =
      ?pre @ [ucast (drop_bit 8 c), ucast (c AND 0xFF)] @ bytes"
    using ul by (simp add: udp_packet_def udp_checksum_def Let_def c_def numeral_eq_Suc)
  have "ipv4_checksum (udp_packet src_port dst_port bytes) = 0"
    using checksum_verifies [of ?pre bytes] len unfolding p c_def by (simp add: Let_def)
  then have "let p = udp_packet src_port dst_port bytes in
      ipv4_checksum p = 0 \<and> length p = 8 + length bytes \<and> field16 p 0 = unat src_port \<and>
      field16 p 2 = unat dst_port \<and> field16 p 4 = length p \<and> drop 8 p = bytes"
    using be16_value [of src_port] be16_value [of dst_port] be16_value [of ?len] ul
    by (simp add: p field16_def)
  moreover have "ipv4_checksum icmp_packet = 0" "length icmp_packet = 8" "icmp_packet ! 0 = 8"
    "icmp_packet ! 1 = 0" "field16 icmp_packet 4 = 0x1234" "field16 icmp_packet 6 = 1" by code_simp+
  moreover have "fst (icmp_ping dst n) = (if fst (ipv4_send dst 1 icmp_packet n) = 0 then 0 else -1)"
    by (simp add: icmp_ping_def split_beta Let_def)
  ultimately show ?thesis by blast
qed

lemma packets_verify_witness:
  "let p = udp_packet 49152 53 [1, 2, 3] in
     ipv4_checksum p = 0 \<and> length p = 11 \<and> field16 p 0 = 49152 \<and> field16 p 2 = 53 \<and>
     field16 p 4 = 11 \<and> drop 8 p = [1, 2, 3]"
  using packets_verify [of "[1, 2, 3]" 49152 53 0 "undefined :: unit icmp_scheme"] by (simp add: UDP_MAX_PAYLOAD_def Let_def)

section \<open>Addresses as text\<close>

lemma digit_facts:
  assumes "c \<in> set ''0123456789''"
  shows "48 \<le> uchar c \<and> uchar c \<le> 57" and "(of_char c - 48 :: u32) = of_nat (digit_value c)"
    and "digit_value c \<le> 9"
proof -
  have "\<forall>c \<in> set ''0123456789''. (48 \<le> uchar c \<and> uchar c \<le> 57) \<and>
      (of_char c - 48 :: u32) = of_nat (digit_value c) \<and> digit_value c \<le> 9"
    by code_simp
  then show "48 \<le> uchar c \<and> uchar c \<le> 57" "(of_char c - 48 :: u32) = of_nat (digit_value c)"
      "digit_value c \<le> 9"
    using assms by blast+
qed

text \<open>The loop reads a numeral of value at most 255 up to the first other character.\<close>

definition stops_number :: "char list \<Rightarrow> bool" where
  "stops_number s \<longleftrightarrow> s = [] \<or> \<not> (48 \<le> uchar (hd s) \<and> uchar (hd s) \<le> 57)"

lemma numeral_grows: "v \<le> foldl (\<lambda>acc c. acc * 10 + digit_value c) v ds"
proof (induction ds arbitrary: v)
  case (Cons d ds)
  have "v \<le> v * 10 + digit_value d" by simp
  also have "\<dots> \<le> foldl (\<lambda>acc c. acc * 10 + digit_value c) (v * 10 + digit_value d) ds" by (rule Cons.IH)
  finally show ?case by simp
qed simp

lemma octet_loop_digits:
  assumes "set ds \<subseteq> set ''0123456789''" and "stops_number rest"
    and "foldl (\<lambda>acc c. acc * 10 + digit_value c) (unat v) ds \<le> 255"
  shows "octet_loop (ds @ rest) v n =
    Some (of_nat (foldl (\<lambda>acc c. acc * 10 + digit_value c) (unat v) ds), n + length ds, rest)"
  using assms(1,3)
proof (induction ds arbitrary: v n)
  case Nil
  then show ?case using assms(2) by (cases rest) (auto simp: stops_number_def)
next
  case (Cons d ds)
  have d: "d \<in> set ''0123456789''" using Cons.prems by simp
  let ?v = "v * 10 + (of_char d - 48)"
  have le: "unat v * 10 + digit_value d \<le> 255"
    using Cons.prems numeral_grows [of "unat v * 10 + digit_value d" ds] by simp
  have uv: "unat ?v = unat v * 10 + digit_value d"
    unfolding digit_facts(2) [OF d] using le digit_facts(3) [OF d]
    by (simp add: unat_word_ariths unat_of_nat take_bit_nat_eq_self)
  then have "\<not> ?v > 255" using le by (simp add: word_less_nat_alt)
  then show ?case
    using Cons.IH [of ?v "n + 1"] Cons.prems digit_facts(1) [OF d] uv by (simp add: Let_def)
qed

lemma parse_octet_numeral:
  assumes "decimal_numeral ds" "numeral_value 10 ds = unat v" "unat v \<le> 255" "stops_number rest"
  shows "parse_octet (ds @ rest) = Some (v, rest)"
  using assms octet_loop_digits [of ds rest 0 0]
  by (simp add: parse_octet_def decimal_numeral_def numeral_value_def)

lemma ip_join:
  fixes ip :: u32
  shows "push_bit 24 (drop_bit 24 ip AND 0xFF) OR push_bit 16 (drop_bit 16 ip AND 0xFF) OR
    push_bit 8 (drop_bit 8 ip AND 0xFF) OR (ip AND 0xFF) = ip"
proof (rule bit_word_eqI)
  fix n assume "n < LENGTH(32)"
  then have "n < 32" by simp
  have ff: "(0xFF :: u32) = mask 8" by (simp add: mask_eq_exp_minus_1)
  show "bit (push_bit 24 (drop_bit 24 ip AND 0xFF) OR push_bit 16 (drop_bit 16 ip AND 0xFF) OR
      push_bit 8 (drop_bit 8 ip AND 0xFF) OR (ip AND 0xFF)) n = bit ip n"
    unfolding ff using \<open>n < 32\<close>
    by (cases "n < 8"; cases "n < 16"; cases "n < 24") (auto simp: bit_simps)
qed

lemma kprint_octet:
  assumes "v = w AND 0xFF"
  obtains ds where "kprint_int v = Some ds" "decimal_numeral ds" "numeral_value 10 ds = unat v"
    "unat v \<le> 255"
proof -
  have "v = take_bit 8 w" using assms by (simp add: take_bit_eq_mask mask_eq_exp_minus_1)
  then have "unat v = unat w mod 256" by (simp only: unsigned_take_bit_eq) (simp add: take_bit_eq_mod)
  then have u: "unat v \<le> 255" using mod_less_divisor [of 256 "unat w"] by simp
  have "0 \<le> sint v"
  proof -
    have "uint v \<le> 255" "- 2147483648 \<le> uint v"
      using u order_trans [OF _ uint_ge_0, of "- 2147483648"] by (simp_all only: unat_eq_nat_uint) simp_all
    then have "sint v = uint v" by (simp only: sint_uint) (rule signed_take_bit_int_eq_self, simp_all)
    then show ?thesis by simp
  qed
  then have "kprint_int v = kprint_uint v 10 False" by (simp add: kprint_int_def)
  then show ?thesis using that kprint_uint_decimal [of v False] u by auto
qed

text \<open>C39. Dotted-decimal addresses read back.  The four decimal fields of any address,
separated by dots, are parsed to that address; but the conversion the kernel's printers use is
not one of the formatter's: what they print is the same for every address.\<close>

theorem ipv4_text_roundtrip:
  "(\<exists>t. kprintf ''%d.%d.%d.%d'' (ip_args ip) = Some t \<and> ipv4_from_str t = ip) \<and>
   snd (ipv4_to_str ip out) = Some ''%u.%u.%u.%u''"
proof -
  let ?v = "\<lambda>k. drop_bit k ip AND 0xFF"
  obtain a where a: "kprint_int (?v 24) = Some a" "decimal_numeral a" "numeral_value 10 a = unat (?v 24)" "unat (?v 24) \<le> 255"
    by (rule kprint_octet [OF refl])
  obtain b where b: "kprint_int (?v 16) = Some b" "decimal_numeral b" "numeral_value 10 b = unat (?v 16)" "unat (?v 16) \<le> 255"
    by (rule kprint_octet [OF refl])
  obtain c where c: "kprint_int (?v 8) = Some c" "decimal_numeral c" "numeral_value 10 c = unat (?v 8)" "unat (?v 8) \<le> 255"
    by (rule kprint_octet [OF refl])
  obtain d where d: "kprint_int (ip AND 0xFF) = Some d" "decimal_numeral d" "numeral_value 10 d = unat (ip AND 0xFF)" "unat (ip AND 0xFF) \<le> 255"
    by (rule kprint_octet [OF refl])
  let ?t = "a @ CHR ''.'' # b @ CHR ''.'' # c @ CHR ''.'' # d"
  have "kprintf ''%d.%d.%d.%d'' (ip_args ip) = Some ?t"
    by (simp add: ip_args_def a b c d)
  moreover have dot: "stops_number (CHR ''.'' # r)" for r by (simp add: stops_number_def uchar_def)
  have "ipv4_from_str ?t = ip"
    using parse_octet_numeral [OF a(2-4) dot] parse_octet_numeral [OF b(2-4) dot]
      parse_octet_numeral [OF c(2-4) dot] parse_octet_numeral [OF d(2-4), of "[]"] ip_join [of ip]
    by (simp add: ipv4_from_str_def parse_octet_dot_def stops_number_def)
  moreover have "snd (ipv4_to_str ip out) = Some ''%u.%u.%u.%u''"
    by (simp add: ipv4_to_str_def)
  ultimately show ?thesis by blast
qed

section \<open>The socket table\<close>

interpretation udps: slot_table sock_used sock_port "\<lambda>port. port" find_socket_index alloc_socket_slot
  by (rule slot_tableI) (simp_all add: find_socket_index_def alloc_socket_slot_def)

text \<open>The port of every open socket, by socket number.\<close>

definition sock_map :: "'a udp_scheme \<Rightarrow> nat \<Rightarrow> u16 option" where
  "sock_map n i = (if i < length (g_sockets n) \<and> sock_used (g_sockets n ! i)
     then Some (sock_port (g_sockets n ! i)) else None)"

definition udp_ok :: "'a udp_scheme \<Rightarrow> bool" where
  "udp_ok n \<longleftrightarrow> length (g_sockets n) = UDP_MAX_SOCKETS \<and> g_udp_ready n \<and>
     keys_distinct sock_used sock_port (g_sockets n) \<and> (\<forall>k \<in> set (g_sockets n). sock_used k \<longrightarrow> sock_port k \<noteq> 0)"

definition open_sockets :: "'a udp_scheme \<Rightarrow> nat" where
  "open_sockets n = count_used sock_used (g_sockets n)"

lemma sock_map_update:
  "i < length (g_sockets n) \<Longrightarrow> g_sockets n' = (g_sockets n)[i := k] \<Longrightarrow>
   sock_map n' = (sock_map n)(i := if sock_used k then Some (sock_port k) else None)"
  by (auto simp: sock_map_def fun_eq_iff)

lemma find_socket_None: "find_socket_index (g_sockets n) port = None \<longleftrightarrow> (\<forall>i. sock_map n i \<noteq> Some port)"
  by (auto simp: find_socket_index_def first_index_None_iff sock_map_def all_set_conv_all_nth)

lemma alloc_None: "alloc_socket_slot (g_sockets n) = None \<longleftrightarrow> open_sockets n = length (g_sockets n)"
proof -
  have "alloc_socket_slot (g_sockets n) = None \<longleftrightarrow> filter sock_used (g_sockets n) = g_sockets n"
    by (auto simp: alloc_socket_slot_def first_index_None_iff filter_id_conv)
  also have "\<dots> \<longleftrightarrow> open_sockets n = length (g_sockets n)"
    by (metis count_used_def filter_id_conv length_filter_less open_sockets_def less_irrefl)
  finally show ?thesis .
qed

lemma bind_cases:
  assumes ok: "udp_ok n"
  obtains (refused) "udp_bind port cb n = (-1, n)"
      "\<not> (port \<noteq> 0 \<and> (\<forall>i. sock_map n i \<noteq> Some port) \<and> open_sockets n < UDP_MAX_SOCKETS)"
  | (bound) i n' where "udp_bind port cb n = (int i, n')" "i < UDP_MAX_SOCKETS" "sock_map n i = None"
      "sock_map n' = (sock_map n)(i \<mapsto> port)" "udp_ok n'"
      "port \<noteq> 0 \<and> (\<forall>i. sock_map n i \<noteq> Some port) \<and> open_sockets n < UDP_MAX_SOCKETS"
proof (cases "port = 0 \<or> find_socket_index (g_sockets n) port \<noteq> None \<or> alloc_socket_slot (g_sockets n) = None")
  case True
  then have "udp_bind port cb n = (-1, n)"
    by (auto simp: udp_bind_def UDP_NO_SOCKET_def)
  moreover have "\<not> (port \<noteq> 0 \<and> (\<forall>i. sock_map n i \<noteq> Some port) \<and> open_sockets n < UDP_MAX_SOCKETS)"
    using True ok find_socket_None [of n port] alloc_None [of n] by (auto simp: udp_ok_def)
  ultimately show ?thesis by (rule refused)
next
  case False
  then obtain i where i: "alloc_socket_slot (g_sockets n) = Some i" by auto
  from False have f: "find_socket_index (g_sockets n) port = None" by auto
  note free = udps.find_free_hit [OF i]
  have len: "length (g_sockets n) = UDP_MAX_SOCKETS" using ok by (simp add: udp_ok_def)
  let ?k = "\<lparr>sock_used = True, sock_port = port, sock_callback = cb\<rparr>"
  obtain n' where n': "udp_bind port cb n = (int i, n')" "g_sockets n' = (g_sockets n)[i := ?k]"
      "g_udp_ready n' = g_udp_ready n"
    using False i f ok by (auto simp: udp_bind_def udp_ok_def)
  have "keys_distinct sock_used sock_port ((g_sockets n)[i := ?k])"
    using ok by (intro udps.insert_slot(1) [OF _ f i]) (simp_all add: udp_ok_def)
  then have "udp_ok n'"
    using ok n' False set_update_subset_insert [of "g_sockets n" i ?k] by (auto simp: udp_ok_def)
  moreover have "sock_map n' = (sock_map n)(i \<mapsto> port)" using sock_map_update [OF _ n'(2)] free by simp
  moreover have "sock_map n i = None" using free by (simp add: sock_map_def)
  moreover have "open_sockets n < UDP_MAX_SOCKETS"
    using alloc_None [of n] i count_used_le [of sock_used "g_sockets n"] len by (simp add: open_sockets_def)
  ultimately show ?thesis
    using False n'(1) free len f find_socket_None [of n port] by (intro bound) auto
qed

lemma bind_ok: "udp_ok n \<Longrightarrow> udp_ok (snd (udp_bind port cb n))"
  by (rule bind_cases [of n port cb]) simp_all

lemma udp_ok_cong:
  "g_sockets n' = g_sockets n \<Longrightarrow> g_udp_ready n' = g_udp_ready n \<Longrightarrow> udp_ok n \<Longrightarrow> udp_ok n'"
  by (simp add: udp_ok_def)

lemma auto_bind_loop_ok: "udp_ok n \<Longrightarrow> udp_ok (snd (auto_bind_loop port cb n))"
proof (induction port cb n rule: auto_bind_loop.induct)
  case (1 port cb n)
  obtain sid n1 where b: "udp_bind port cb n = (sid, n1)" by (cases "udp_bind port cb n")
  then have ok: "udp_ok n1" using bind_ok [OF "1.prems", of port cb] by simp
  show ?case
  proof (cases "port = 0 \<or> sid \<ge> 0 \<or> port = 65535")
    case True
    then show ?thesis
      using b ok "1.prems" by (subst auto_bind_loop.simps) (auto intro: udp_ok_cong [of _ n1])
  next
    case False
    then have "udp_ok (snd (auto_bind_loop (port + 1) cb n1))" using "1.IH" b ok by auto
    then show ?thesis using False b by (subst auto_bind_loop.simps) simp
  qed
qed

lemma unbind_map:
  assumes "udp_ok n"
  shows "sock_map (udp_unbind sid n) = (if 0 \<le> sid \<and> sid < 8 then (sock_map n)(nat sid := None) else sock_map n)"
    and "udp_ok (udp_unbind sid n)"
proof -
  have len: "length (g_sockets n) = 8" using assms by (simp add: udp_ok_def UDP_MAX_SOCKETS_def)
  show "sock_map (udp_unbind sid n) = (if 0 \<le> sid \<and> sid < 8 then (sock_map n)(nat sid := None) else sock_map n)"
    using len by (auto simp: udp_unbind_def sock_map_def UDP_MAX_SOCKETS_def zero_socket_def fun_eq_iff
        nth_list_update)
  have "keys_distinct sock_used sock_port ((g_sockets n)[i := zero_socket])" for i
    using assms by (intro keys_distinct_update) (auto simp: udp_ok_def zero_socket_def)
  then show "udp_ok (udp_unbind sid n)"
    using assms set_update_subset_insert [of "g_sockets n" "nat sid" zero_socket]
    by (auto simp: udp_unbind_def udp_ok_def zero_socket_def)
qed

lemma send_sockets:
  "g_sockets (snd (udp_send sid ip port bytes n)) = g_sockets n \<and>
   g_udp_ready (snd (udp_send sid ip port bytes n)) = g_udp_ready n"
  by (simp add: udp_send_def udp_drop_def ipv4_send_def ipv4_drop_def arp_resolve_def arp_send_request_def
      eth_send_def Let_def split: option.splits)

datatype udp_op = Bind u16 u64 | AutoBind u64 | Unbind int | Send int u32 u16 "u8 list" | Poll u64

fun udp_do :: "udp_op \<Rightarrow> 'a udp_scheme \<Rightarrow> 'a udp_scheme" where
  "udp_do (Bind port cb) n = snd (udp_bind port cb n)"
| "udp_do (AutoBind cb) n = snd (udp_auto_bind cb n)"
| "udp_do (Unbind sid) n = udp_unbind sid n"
| "udp_do (Send sid ip port bytes) n = snd (udp_send sid ip port bytes n)"
| "udp_do (Poll tick) n = udp_poll tick n"

definition udp_run :: "udp_op list \<Rightarrow> 'a udp_scheme \<Rightarrow> 'a udp_scheme" where
  "udp_run ops n = fold udp_do ops (udp_init n)"

lemma udp_do_ok: "udp_ok n \<Longrightarrow> udp_ok (udp_do op n)"
proof (cases op)
  case (Send sid ip port bytes)
  then show "udp_ok n \<Longrightarrow> ?thesis" using send_sockets [of sid ip port bytes n]
    by (auto intro: udp_ok_cong [of _ n])
next
  case (Poll tick)
  then show "udp_ok n \<Longrightarrow> ?thesis"
    by (auto simp: udp_poll_def ipv4_poll_def arp_poll_def intro: udp_ok_cong [of _ n])
qed (simp_all add: bind_ok udp_auto_bind_def auto_bind_loop_ok unbind_map(2))

lemma udp_run_ok: "udp_ok (udp_run ops n)"
proof -
  have "udp_ok (udp_init n)"
    by (auto simp: udp_ok_def udp_init_def zero_socket_def intro: keys_distinct_none_live)
  moreover have "udp_ok m \<Longrightarrow> udp_ok (fold udp_do ops m)" for m :: "'a udp_scheme"
    by (induction ops arbitrary: m) (simp_all add: udp_do_ok)
  ultimately show ?thesis by (simp add: udp_run_def)
qed

text \<open>C33. Sockets own their ports.  After any run of binds, automatic binds, unbinds, sends
and polls, no two open sockets have the same port and none has port 0; a bind then succeeds
exactly for a port that is not 0 and not taken while fewer than eight sockets are open, and
gives the port to a socket that was closed, changing no other; an unbind closes exactly the
socket it names.\<close>

theorem udp_sockets_own_ports:
  "let n' = udp_run ops n; (r, n'') = udp_bind port cb n' in
     inj_on (sock_map n') (dom (sock_map n')) \<and> (\<forall>i. sock_map n' i \<noteq> Some 0) \<and>
     (if port \<noteq> 0 \<and> (\<forall>i. sock_map n' i \<noteq> Some port) \<and> open_sockets n' < UDP_MAX_SOCKETS
      then \<exists>i < UDP_MAX_SOCKETS. r = int i \<and> sock_map n' i = None \<and> sock_map n'' = (sock_map n')(i \<mapsto> port)
      else r = UDP_NO_SOCKET \<and> n'' = n') \<and>
     sock_map (udp_unbind sid n') =
       (if 0 \<le> sid \<and> sid < 8 then (sock_map n')(nat sid := None) else sock_map n')"
proof -
  have ok: "udp_ok (udp_run ops n)" by (rule udp_run_ok)
  have d: "keys_distinct sock_used sock_port (g_sockets (udp_run ops n))" using ok by (simp add: udp_ok_def)
  have "inj_on (sock_map (udp_run ops n)) (dom (sock_map (udp_run ops n)))"
    using keys_distinctD [OF d] by (auto simp: inj_on_def sock_map_def dom_def split: if_splits)
  moreover have "\<forall>i. sock_map (udp_run ops n) i \<noteq> Some 0" using ok by (auto simp: udp_ok_def sock_map_def)
  moreover note unbind_map(1) [OF ok, of sid]
  ultimately show ?thesis
    by (cases rule: bind_cases [OF ok, of port cb]) (auto simp: Let_def UDP_NO_SOCKET_def split_beta)
qed

text \<open>
  Closing a socket does not lower the count of bound sockets in the statistics, and a datagram of
  1393 to 1472 bytes passes the limit of this layer but never that of the layer below.
\<close>

lemma udp_unbind_keeps_count:
  "udp_bound_sockets (udp_get_stats (udp_unbind sid n)) = udp_bound_sockets (udp_get_stats n)"
  by (simp add: udp_unbind_def udp_get_stats_def)

lemma udp_large_payload_dropped:
  assumes "1392 < length bytes"
  shows "fst (udp_send sid ip port bytes n) = -1"
proof -
  have "length (udp_packet sp port bytes) > 1400" for sp
    using assms by (simp add: udp_packet_def Let_def)
  then show ?thesis by (simp add: udp_send_def ipv4_send_def Let_def)
qed

section \<open>Printing the address cache\<close>

lemma arp_line_valid: "arp_line e = (if arp_valid e then None else Some [])"
  by (simp add: arp_line_def ip_args_def)

text \<open>Printing the address cache is undefined.  The formatter knows neither of the conversions
used for the addresses, so its first string conversion reads the first byte of the address as a
pointer: printing is defined exactly for a cache without valid entries, and never after
initialisation, which enters the local address.\<close>

theorem arp_print_table_undefined:
  "(arp_print_table n = None \<longleftrightarrow> list_ex arp_valid (g_cache n)) \<and>
   arp_print_table (arp_init tick n) = None"
proof -
  have p: "arp_print_table m = None \<longleftrightarrow> list_ex arp_valid (g_cache m)" for m :: "'a arp_scheme"
  proof -
    have "print_lines arp_line es = None \<longleftrightarrow> list_ex arp_valid es" for es
    proof (induction es)
      case (Cons e es)
      then show ?case by (simp add: arp_line_valid)
    qed simp
    then show ?thesis by (simp add: arp_print_table_def)
  qed
  have "list_ex arp_valid (g_cache (arp_init tick n))"
    by (simp add: arp_init_def insert_entry_def find_slot_def zero_arp_entry_def eth_set_mac_def
        ARP_CACHE_MAX_def numeral_eq_Suc)
  with p show ?thesis by blast
qed

section \<open>The tables of the network stack\<close>

text \<open>
  All tables together: the sockets, the address cache, which has one entry per
  address, and the routes.  The initialisations establish it and a ping, the
  only command of the shell that runs the stack, keeps it.
\<close>

definition net_ok :: "'a udp_scheme \<Rightarrow> bool" where
  "net_ok n \<longleftrightarrow> udp_ok n \<and> length (g_cache n) = ARP_CACHE_MAX \<and> keys_distinct arp_valid arp_ip (g_cache n) \<and>
     length (g_routes n) = IPV4_MAX_ROUTES"

lemma ping_tables:
  fixes n :: "'a udp_scheme"
  assumes "icmp_ping ip n = (r, n')"
  shows "g_cache n' = g_cache n" "g_routes n' = g_routes n" "g_sockets n' = g_sockets n" "g_udp_ready n' = g_udp_ready n"
  using assms
  by (auto simp: icmp_ping_def ipv4_send_def ipv4_drop_def arp_resolve_def arp_send_request_def eth_send_def Let_def
      split: option.splits if_splits)

lemma ping_ok: "icmp_ping ip n = (r, n') \<Longrightarrow> net_ok n \<Longrightarrow> net_ok n'"
  using ping_tables [of ip n r n'] by (simp add: net_ok_def udp_ok_def)

lemma ping_loop_ok: "ping_loop m i target ip n = Some (t, n') \<Longrightarrow> net_ok n \<Longrightarrow> net_ok n'"
proof (induction m arbitrary: i n t)
  case (Suc m)
  obtain r n1 where p: "icmp_ping ip n = (r, n1)" by fastforce
  then obtain t' where "ping_loop m (i + 1) target ip n1 = Some (t', n')"
    using Suc.prems(1) by (auto split: option.splits)
  then show ?case using Suc.IH Suc.prems(2) ping_ok [OF p] by blast
qed simp

lemma cmd_ping_ok: "cmd_ping argv n = Some (t, n') \<Longrightarrow> net_ok n \<Longrightarrow> net_ok n'"
  by (auto simp: cmd_ping_def Let_def simp del: ping_loop.simps dest: ping_loop_ok split: list.splits if_splits option.splits)

lemma net_boots: "net_ok (udp_init (icmp_init (ipv4_init (arp_init tick (eth_init n)))))"
proof -
  let ?n = "udp_init (icmp_init (ipv4_init (arp_init tick (eth_init n))))"
  have "udp_ok ?n" using udp_run_ok [of "[]"] by (simp add: udp_run_def)
  moreover obtain i e where c: "g_cache ?n = (replicate ARP_CACHE_MAX zero_arp_entry)[i := e]"
    by (simp add: udp_init_def icmp_init_def ipv4_init_def route_init_defaults_def arp_init_def insert_entry_def
        eth_set_mac_def Let_def)
  have "keys_distinct arp_valid arp_ip (replicate ARP_CACHE_MAX zero_arp_entry)"
    by (rule keys_distinct_none_live) (simp add: zero_arp_entry_def)
  then have "keys_distinct arp_valid arp_ip (g_cache ?n)"
    unfolding c by (rule keys_distinct_update) (simp add: zero_arp_entry_def)
  moreover have "length (g_cache ?n) = ARP_CACHE_MAX" unfolding c by simp
  moreover have "length (g_routes ?n) = IPV4_MAX_ROUTES"
    by (simp add: udp_init_def icmp_init_def ipv4_init_def route_init_defaults_def Let_def)
  ultimately show ?thesis by (simp add: net_ok_def)
qed

end
