(* ===== verification/Framebuffer.thy ===== *)
theory Framebuffer
  imports WordLib
begin

text \<open>
  The software framebuffer \<open>src/gui/framebuffer.c\<close>.  Its state is a record that
  every module of the graphical layer extends with its own static variables, so
  that the type of an operation says what it can change; drawing takes and
  returns that state.  The index of a pixel is computed in 32-bit arithmetic, as
  in the code.
\<close>

definition FB_WIDTH :: u32 where "FB_WIDTH = 320"
definition FB_HEIGHT :: u32 where "FB_HEIGHT = 200"
definition FB_BYTES_PER_PIXEL :: u32 where "FB_BYTES_PER_PIXEL = 4"

lemmas fb_consts = FB_WIDTH_def FB_HEIGHT_def FB_BYTES_PER_PIXEL_def

section \<open>State and operations\<close>

record fb_info =
  fi_width :: u32
  fi_height :: u32
  fi_pitch :: u32
  fi_bytes_per_pixel :: u32
  fi_pixel_count :: u32
  fi_ready :: bool
  fi_background :: u32
  fi_foreground :: u32

record fb =
  fb_backing :: "u32 list"
  fb_state :: fb_info

definition fb_zero :: fb where
  "fb_zero = \<lparr>fb_backing = replicate (unat (FB_WIDTH * FB_HEIGHT)) 0,
     fb_state = \<lparr>fi_width = 0, fi_height = 0, fi_pitch = 0, fi_bytes_per_pixel = 0, fi_pixel_count = 0,
       fi_ready = False, fi_background = 0, fi_foreground = 0\<rparr>\<rparr>"

definition fb_sync_state :: "'a fb_scheme \<Rightarrow> 'a fb_scheme" where
  "fb_sync_state g = g\<lparr>fb_state := (fb_state g)\<lparr>fi_width := FB_WIDTH, fi_height := FB_HEIGHT,
     fi_pitch := FB_WIDTH * FB_BYTES_PER_PIXEL, fi_bytes_per_pixel := FB_BYTES_PER_PIXEL,
     fi_pixel_count := FB_WIDTH * FB_HEIGHT, fi_ready := True\<rparr>\<rparr>"

definition fb_clear :: "u32 \<Rightarrow> 'a fb_scheme \<Rightarrow> 'a fb_scheme" where
  "fb_clear color g =
     g\<lparr>fb_backing := fold (\<lambda>i b. b[i := color]) [0..<unat (fi_pixel_count (fb_state g))] (fb_backing g),
       fb_state := (fb_state g)\<lparr>fi_background := color\<rparr>\<rparr>"

definition fb_init :: "'a fb_scheme \<Rightarrow> 'a fb_scheme" where
  "fb_init g =
     (let g1 = fb_sync_state (g\<lparr>fb_state := (fb_state g)\<lparr>fi_ready := False,
            fi_background := 0xFF000000, fi_foreground := 0xFFFFFFFF\<rparr>\<rparr>)
      in fb_clear (fi_background (fb_state g1)) g1)"

definition fb_ready :: "'a fb_scheme \<Rightarrow> bool" where
  "fb_ready g = fi_ready (fb_state g)"

definition fb_get_info :: "'a fb_scheme \<Rightarrow> fb_info" where
  "fb_get_info g = fb_state g"

definition fb_put_pixel :: "u32 \<Rightarrow> u32 \<Rightarrow> u32 \<Rightarrow> 'a fb_scheme \<Rightarrow> int \<times> 'a fb_scheme" where
  "fb_put_pixel x y color g =
     (if \<not> fi_ready (fb_state g) \<or> x \<ge> fi_width (fb_state g) \<or> y \<ge> fi_height (fb_state g) then (-1, g)
      else (0, g\<lparr>fb_backing := (fb_backing g)[unat (y * fi_width (fb_state g) + x) := color]\<rparr>))"

text \<open>One row of a rectangle, and its rows.\<close>

definition fill_row :: "u32 \<Rightarrow> u32 \<Rightarrow> u32 \<Rightarrow> u32 \<Rightarrow> u32 \<Rightarrow> u32 list \<Rightarrow> u32 list" where
  "fill_row width x x_end color row b =
     fold (\<lambda>col b. b[unat (row * width + of_nat col) := color]) [unat x..<unat x_end] b"

definition fill_rows :: "u32 \<Rightarrow> u32 \<Rightarrow> u32 \<Rightarrow> u32 \<Rightarrow> u32 \<Rightarrow> u32 \<Rightarrow> u32 list \<Rightarrow> u32 list" where
  "fill_rows width x x_end y y_end color b =
     fold (\<lambda>row. fill_row width x x_end color (of_nat row)) [unat y..<unat y_end] b"

definition fb_fill_rect :: "u32 \<Rightarrow> u32 \<Rightarrow> u32 \<Rightarrow> u32 \<Rightarrow> u32 \<Rightarrow> 'a fb_scheme \<Rightarrow> int \<times> 'a fb_scheme" where
  "fb_fill_rect x y width height color g =
     (if \<not> fi_ready (fb_state g) \<or> width = 0 \<or> height = 0 then (-1, g)
      else let x_end = x + width; y_end = y + height in
        if x \<ge> fi_width (fb_state g) \<or> y \<ge> fi_height (fb_state g) then (-1, g)
        else if x_end > fi_width (fb_state g) \<or> y_end > fi_height (fb_state g) then (-1, g)
        else (0, g\<lparr>fb_backing := fill_rows (fi_width (fb_state g)) x x_end y y_end color (fb_backing g)\<rparr>))"

text \<open>A call whose result is not looked at.\<close>

definition fb_rect :: "u32 \<Rightarrow> u32 \<Rightarrow> u32 \<Rightarrow> u32 \<Rightarrow> u32 \<Rightarrow> 'a fb_scheme \<Rightarrow> 'a fb_scheme" where
  "fb_rect x y width height color g = snd (fb_fill_rect x y width height color g)"

text \<open>The multiples of the tile below a bound, as the two loops of the pattern visit them.\<close>

definition tiles :: "u32 \<Rightarrow> u32 \<Rightarrow> u32 list" where
  "tiles tile bound = map (\<lambda>k. of_nat k * tile) [0..<(unat bound + unat tile - 1) div unat tile]"

definition demo_tile :: "u32 \<Rightarrow> u32 \<Rightarrow> u32 \<Rightarrow> 'a fb_scheme \<Rightarrow> 'a fb_scheme" where
  "demo_tile tile y x g =
     (let odd = (x div tile + y div tile) AND 1; color = (if odd \<noteq> 0 then 0xFF2D8CFF else 0xFF16324F)
      in fb_rect x y tile tile color g)"

definition fb_demo_pattern :: "'a fb_scheme \<Rightarrow> 'a fb_scheme" where
  "fb_demo_pattern g =
     (if \<not> fi_ready (fb_state g) then g
      else let g1 = fb_clear 0xFF101820 g;
               g2 = fold (\<lambda>y. fold (demo_tile 20 y) (tiles 20 (fi_width (fb_state g1))))
                      (tiles 20 (fi_height (fb_state g1))) g1
           in fb_rect 20 80 260 30 0xFFD94F70
                (fb_rect 160 20 120 40 0xFF70C1B3 (fb_rect 20 20 120 40 0xFFE8B04C g2)))"

definition fb_pixels :: "'a fb_scheme \<Rightarrow> u32 list" where
  "fb_pixels g = fb_backing g"

section \<open>What a rectangle paints\<close>

definition fb_ok :: "'a fb_scheme \<Rightarrow> bool" where
  "fb_ok g \<longleftrightarrow> length (fb_backing g) = 64000 \<and> fi_width (fb_state g) = 320 \<and>
     fi_height (fb_state g) = 200 \<and> fi_pixel_count (fb_state g) = 64000 \<and> fi_ready (fb_state g)"

definition pixel :: "'a fb_scheme \<Rightarrow> nat \<Rightarrow> nat \<Rightarrow> u32" where
  "pixel g col row = fb_backing g ! (row * 320 + col)"

lemma fold_update_length [simp]: "length (fold (\<lambda>i b. b[h i := color]) is b) = length b"
  by (induction "is" arbitrary: b) simp_all

lemma fold_update_nth:
  "k < length b \<Longrightarrow> fold (\<lambda>i b. b[h i := color]) is b ! k = (if k \<in> h ` set is then color else b ! k)"
  by (induction "is" arbitrary: b) (auto simp: nth_list_update)

lemma pixel_index:
  assumes "col < 320" "row < 200"
  shows "unat (of_nat row * 320 + of_nat col :: u32) = row * 320 + col"
proof -
  have "row * 320 + col < 2 ^ 32" using assms by simp
  then have "unat (of_nat (row * 320 + col) :: u32) = row * 320 + col"
    by (simp only: unat_of_nat) (simp add: take_bit_nat_eq_self)
  then show ?thesis by (simp add: add.commute mult.commute)
qed

lemma fill_row_facts:
  assumes "length b = 64000" "unat x_end \<le> 320" "row < 200"
  shows "length (fill_row 320 x x_end color (of_nat row) b) = 64000"
    and "k < 64000 \<Longrightarrow> fill_row 320 x x_end color (of_nat row) b ! k =
      (if k div 320 = row \<and> unat x \<le> k mod 320 \<and> k mod 320 < unat x_end then color else b ! k)"
proof -
  show "length (fill_row 320 x x_end color (of_nat row) b) = 64000" using assms by (simp add: fill_row_def)
  assume k: "k < 64000"
  have img: "(\<lambda>col. unat (of_nat row * 320 + of_nat col :: u32)) ` set [unat x..<unat x_end] =
      (\<lambda>col. row * 320 + col) ` set [unat x..<unat x_end]"
    using assms by (intro image_cong refl pixel_index) auto
  have memb: "k \<in> (\<lambda>col. row * 320 + col) ` set [unat x..<unat x_end] \<longleftrightarrow>
      k div 320 = row \<and> unat x \<le> k mod 320 \<and> k mod 320 < unat x_end" (is "?l \<longleftrightarrow> ?r")
  proof
    assume ?l
    then obtain col where "k = row * 320 + col" "col \<in> set [unat x..<unat x_end]" by blast
    then show ?r using assms(2) by simp
  next
    assume ?r
    then have "k = row * 320 + k mod 320" by (metis div_mult_mod_eq)
    then show ?l using \<open>?r\<close> by auto
  qed
  then show "fill_row 320 x x_end color (of_nat row) b ! k =
      (if k div 320 = row \<and> unat x \<le> k mod 320 \<and> k mod 320 < unat x_end then color else b ! k)"
    using k assms(1) by (simp only: fill_row_def fold_update_nth img memb)
qed

lemma fill_rows_facts:
  assumes "length b = 64000" "unat x_end \<le> 320" "unat y_end \<le> 200"
  shows "length (fill_rows 320 x x_end y y_end color b) = 64000 \<and>
    (\<forall>k < 64000. fill_rows 320 x x_end y y_end color b ! k =
      (if unat y \<le> k div 320 \<and> k div 320 < unat y_end \<and> unat x \<le> k mod 320 \<and> k mod 320 < unat x_end
       then color else b ! k))"
proof -
  have "length (fold (\<lambda>row. fill_row 320 x x_end color (of_nat row)) [unat y..<m] b) = 64000 \<and>
    (\<forall>k < 64000. fold (\<lambda>row. fill_row 320 x x_end color (of_nat row)) [unat y..<m] b ! k =
      (if unat y \<le> k div 320 \<and> k div 320 < m \<and> unat x \<le> k mod 320 \<and> k mod 320 < unat x_end
       then color else b ! k))" if "m \<le> 200" for m
    using that
  proof (induction m)
    case (Suc m)
    show ?case
    proof (cases "unat y \<le> m")
      case True
      let ?b = "fold (\<lambda>row. fill_row 320 x x_end color (of_nat row)) [unat y..<m] b"
      have IH: "length ?b = 64000" "\<forall>k < 64000. ?b ! k =
          (if unat y \<le> k div 320 \<and> k div 320 < m \<and> unat x \<le> k mod 320 \<and> k mod 320 < unat x_end
           then color else b ! k)"
        using Suc by auto
      have m: "m < 200" using Suc.prems by simp
      have "fold (\<lambda>row. fill_row 320 x x_end color (of_nat row)) [unat y..<Suc m] b =
          fill_row 320 x x_end color (of_nat m) ?b" using True by simp
      moreover have "length (fill_row 320 x x_end color (of_nat m) ?b) = 64000"
        by (rule fill_row_facts(1) [OF IH(1) assms(2) m])
      moreover have "fill_row 320 x x_end color (of_nat m) ?b ! k =
          (if unat y \<le> k div 320 \<and> k div 320 < Suc m \<and> unat x \<le> k mod 320 \<and> k mod 320 < unat x_end
           then color else b ! k)" if "k < 64000" for k
        using fill_row_facts(2) [OF IH(1) assms(2) m that, of x color] IH(2) that True
        by (auto simp: less_Suc_eq)
      ultimately show ?thesis by simp
    next
      case False
      then show ?thesis using assms(1) by auto
    qed
  qed (use assms(1) in auto)
  from this [OF assms(3)] show ?thesis unfolding fill_rows_def .
qed

lemma fb_fill_rect_ok: "fb_ok g \<Longrightarrow> fb_ok (snd (fb_fill_rect x y w h color g))"
  using fill_rows_facts [of "fb_backing g" "x + w" "y + h" x y color]
  by (auto simp: fb_ok_def fb_fill_rect_def Let_def word_less_nat_alt word_le_nat_alt)

lemma fb_rect_ok [simp]: "fb_ok g \<Longrightarrow> fb_ok (fb_rect x y w h color g)"
  by (simp add: fb_rect_def fb_fill_rect_ok)

lemma fb_clear_ok [simp]: "fb_ok g \<Longrightarrow> fb_ok (fb_clear color g)"
  using fold_update_length [of "\<lambda>i. i"] by (simp add: fb_ok_def fb_clear_def)

lemma fb_init_ok: "length (fb_backing g) = 64000 \<Longrightarrow> fb_ok (fb_init g)"
  using fold_update_length [of "\<lambda>i. i"]
  by (simp add: fb_ok_def fb_init_def fb_clear_def fb_sync_state_def Let_def fb_consts)

text \<open>C36. Filling a rectangle.  On the initialised framebuffer a rectangle with both sides at least
1 that lies on the screen is painted: exactly its pixels take the colour and every other pixel keeps
its own.  The call returns 0 exactly when the sides are not zero, the corner is on the screen and the
far edges, taken modulo 2 to the 32, are too; otherwise it returns -1.  Without wrap-around that is
when the rectangle fits.  With wrap-around it still returns 0 whenever the wrapped edges pass, and
then, as always when the rectangle does not fit, nothing is painted.\<close>

theorem fb_fill_rect_exact:
  assumes "fb_ok g" and "col < 320" and "row < 200"
  shows "let (r, g') = fb_fill_rect x y w h color g;
      fits = (0 < w \<and> 0 < h \<and> unat x + unat w \<le> 320 \<and> unat y + unat h \<le> 200) in
    pixel g' col row =
      (if fits \<and> unat x \<le> col \<and> col < unat x + unat w \<and> unat y \<le> row \<and> row < unat y + unat h
       then color else pixel g col row) \<and>
    r = (if 0 < w \<and> 0 < h \<and> unat x < 320 \<and> unat y < 200 \<and>
           (unat x + unat w) mod 2 ^ 32 \<le> 320 \<and> (unat y + unat h) mod 2 ^ 32 \<le> 200 then 0 else -1) \<and>
    (if fits then r = 0
     else if unat x + unat w < 2 ^ 32 \<and> unat y + unat h < 2 ^ 32 then r = -1 \<and> g' = g
     else fb_backing g' = fb_backing g)"
proof -
  note ok = assms(1) [unfolded fb_ok_def]
  define xe ye where "xe = unat (x + w)" and "ye = unat (y + h)"
  let ?fits = "0 < w \<and> 0 < h \<and> unat x + unat w \<le> 320 \<and> unat y + unat h \<le> 200"
  let ?acc = "0 < w \<and> 0 < h \<and> unat x < 320 \<and> unat y < 200 \<and> xe \<le> 320 \<and> ye \<le> 200"
  let ?k = "row * 320 + col"
  obtain r g' where c: "fb_fill_rect x y w h color g = (r, g')" by (cases "fb_fill_rect x y w h color g")
  have refused: "r = -1 \<and> g' = g" if "\<not> ?acc"
    using c that ok
    by (auto simp: fb_fill_rect_def Let_def xe_def ye_def word_le_nat_alt word_less_nat_alt unat_eq_zero
        not_less split: if_splits)
  have accepted: "r = 0 \<and> fb_backing g' = fill_rows 320 x (x + w) y (y + h) color (fb_backing g)" if ?acc
    using c that ok
    by (auto simp: fb_fill_rect_def Let_def xe_def ye_def word_le_nat_alt word_less_nat_alt unat_eq_zero
        not_less split: if_splits)
  have code: "r = (if 0 < w \<and> 0 < h \<and> unat x < 320 \<and> unat y < 200 \<and>
      (unat x + unat w) mod 2 ^ 32 \<le> 320 \<and> (unat y + unat h) mod 2 ^ 32 \<le> 200 then 0 else -1)"
    using refused accepted unfolding xe_def ye_def unat_word_ariths by (cases ?acc) (auto simp: xe_def ye_def unat_word_ariths)
  have k: "?k < 64000" "?k div 320 = row" "?k mod 320 = col" using assms(2,3) by simp_all
  have painted: "fb_backing g' ! i = (if unat y \<le> i div 320 \<and> i div 320 < ye \<and> unat x \<le> i mod 320 \<and> i mod 320 < xe
      then color else fb_backing g ! i)" if ?acc "i < 64000" for i
    using fill_rows_facts [of "fb_backing g" "x + w" "y + h" x y color] ok that accepted
    by (simp add: xe_def ye_def)
  show ?thesis
  proof (cases ?fits)
    case True
    then have e: "xe = unat x + unat w" "ye = unat y + unat h"
      by (simp_all add: xe_def ye_def unat_plus_if')
    have "0 < unat w" "0 < unat h" using True by (simp_all add: word_less_nat_alt)
    with True e have acc: ?acc by simp
    show ?thesis using c True accepted [OF acc] painted [OF acc k(1)] k e code by (simp add: pixel_def Let_def conj_ac)
  next
    case False
    have same: "fb_backing g' = fb_backing g" if wrap: "2 ^ 32 \<le> unat x + unat w \<or> 2 ^ 32 \<le> unat y + unat h"
    proof (cases ?acc)
      case True
      have "unat w < 2 ^ 32" "unat h < 2 ^ 32"
        by (rule order_less_le_trans [OF unsigned_less], simp)+
      then have "2 ^ 32 \<le> unat x + unat w \<Longrightarrow> xe < unat x" "2 ^ 32 \<le> unat y + unat h \<Longrightarrow> ye < unat y"
        by (simp_all add: xe_def ye_def unat_plus_if')
      then have "xe < unat x \<or> ye < unat y" using wrap by blast
      then have "fb_backing g' ! i = fb_backing g ! i" if "i < 64000" for i
        using painted [OF True that] by auto
      moreover have "length (fb_backing g') = 64000"
        using fb_fill_rect_ok [OF assms(1), of x y w h color] c by (simp add: fb_ok_def)
      ultimately show ?thesis using ok by (intro nth_equalityI) simp_all
    qed (use refused in simp)
    show ?thesis
    proof (cases "unat x + unat w < 2 ^ 32 \<and> unat y + unat h < 2 ^ 32")
      case True
      then have "xe = unat x + unat w" "ye = unat y + unat h"
        by (simp_all add: xe_def ye_def unat_plus_if')
      then have "\<not> ?acc" using False by simp
      from refused [OF this] show ?thesis using c True False code by (auto simp: Let_def)
    next
      case wrap: False
      then have "fb_backing g' = fb_backing g" using same by (simp add: not_less disj_commute)
      then show ?thesis using c wrap False code by (auto simp: Let_def pixel_def)
    qed
  qed
qed

lemma fb_zero_ok: "fb_ok (fb_init fb_zero)"
  by (rule fb_init_ok) (simp add: fb_zero_def fb_consts)

lemma fb_fill_rect_exact_witness:
  "(let (r, g') = fb_fill_rect 10 20 5 6 7 (fb_init fb_zero) in
     r = 0 \<and> pixel g' 14 25 = 7 \<and> pixel g' 15 25 = pixel (fb_init fb_zero) 15 25) \<and>
   (let (r, g') = fb_fill_rect 1 20 0xFFFFFFFF 6 7 (fb_init fb_zero) in
     r = 0 \<and> fb_backing g' = fb_backing (fb_init fb_zero))"
  using fb_fill_rect_exact [OF fb_zero_ok, of 14 25 10 20 5 6 7]
    fb_fill_rect_exact [OF fb_zero_ok, of 15 25 10 20 5 6 7]
    fb_fill_rect_exact [OF fb_zero_ok, of 14 25 1 20 "0xFFFFFFFF" 6 7]
  by (simp add: Let_def split_beta)

end
