(* ===== verification/Window.thy ===== *)
theory Window
  imports Framebuffer SlotTable
begin

text \<open>
  The window manager \<open>src/gui/window.c\<close> over the framebuffer: a table of eight
  windows with identifiers that are given out in sequence, an active window,
  and painting.  A \<open>NULL\<close> title, which the code replaces, is \<open>None\<close>.
\<close>

definition WM_MAX_WINDOWS :: nat where "WM_MAX_WINDOWS = 8"
definition WM_TITLE_MAX :: nat where "WM_TITLE_MAX = 24"
definition WM_BORDER_THICKNESS :: u32 where "WM_BORDER_THICKNESS = 2"
definition WM_TITLE_HEIGHT :: u32 where "WM_TITLE_HEIGHT = 18"

lemmas wm_consts = WM_MAX_WINDOWS_def WM_TITLE_MAX_def WM_BORDER_THICKNESS_def WM_TITLE_HEIGHT_def

record wm_window =
  w_used :: bool
  w_id :: u32
  w_x :: u32
  w_y :: u32
  w_width :: u32
  w_height :: u32
  w_border_color :: u32
  w_title_color :: u32
  w_client_color :: u32
  w_title :: "char list"

record wm_stats =
  wm_window_count :: nat
  wm_next_window_id :: u32
  wm_active_window_id :: u32

record wm = fb +
  wm_windows :: "wm_window list"
  wm_state :: wm_stats
  wm_is_ready :: bool

definition zero_window :: wm_window where
  "zero_window = \<lparr>w_used = False, w_id = 0, w_x = 0, w_y = 0, w_width = 0, w_height = 0,
     w_border_color = 0, w_title_color = 0, w_client_color = 0, w_title = zbuf WM_TITLE_MAX\<rparr>"

definition wm_find :: "wm_window list \<Rightarrow> u32 \<Rightarrow> nat option" where
  "wm_find ws wid = first_index (\<lambda>w. w_used w \<and> w_id w = wid) ws"

definition wm_free :: "wm_window list \<Rightarrow> nat option" where
  "wm_free ws = first_index (\<lambda>w. \<not> w_used w) ws"

definition wm_copy_title :: "char list \<Rightarrow> char list option \<Rightarrow> char list" where
  "wm_copy_title dest src = (case src of None \<Rightarrow> dest[0 := NUL] | Some s \<Rightarrow> copy_text dest s)"

definition wm_draw_window :: "wm_window \<Rightarrow> 'a fb_scheme \<Rightarrow> 'a fb_scheme" where
  "wm_draw_window w g =
     (if \<not> w_used w then g
      else let x1 = w_x w + w_width w; y1 = w_y w + w_height w;
          g1 = fb_rect (w_x w) (w_y w) (w_width w) (w_height w) (w_border_color w) g;
          client_x = w_x w + WM_BORDER_THICKNESS; client_y = w_y w + WM_TITLE_HEIGHT;
          client_w = (if w_width w > WM_BORDER_THICKNESS * 2 then w_width w - WM_BORDER_THICKNESS * 2 else 0);
          client_h = (if w_height w > WM_TITLE_HEIGHT + WM_BORDER_THICKNESS
                      then w_height w - WM_TITLE_HEIGHT - WM_BORDER_THICKNESS else 0);
          g2 = (if client_w > 0 \<and> client_h > 0
                then fb_rect client_x client_y client_w client_h (w_client_color w) g1 else g1)
        in if x1 > w_x w \<and> y1 > w_y w
           then let title_w = (if w_width w > WM_BORDER_THICKNESS * 2 then w_width w - WM_BORDER_THICKNESS * 2 else 0)
             in if title_w > 0
                then fb_rect (w_x w + WM_BORDER_THICKNESS) (w_y w + WM_BORDER_THICKNESS) title_w
                       (WM_TITLE_HEIGHT - WM_BORDER_THICKNESS) (w_title_color w) g2
                else g2
           else g2)"

definition wm_init :: "'a wm_scheme \<Rightarrow> 'a wm_scheme" where
  "wm_init g = g\<lparr>wm_windows := replicate WM_MAX_WINDOWS zero_window,
     wm_state := \<lparr>wm_window_count = 0, wm_next_window_id = 1, wm_active_window_id = 0\<rparr>,
     wm_is_ready := fb_ready g\<rparr>"

definition wm_ready :: "'a wm_scheme \<Rightarrow> bool" where
  "wm_ready g \<longleftrightarrow> wm_is_ready g \<and> fb_ready g"

definition new_window :: "u32 \<Rightarrow> char list option \<Rightarrow> u32 \<Rightarrow> u32 \<Rightarrow> u32 \<Rightarrow> u32 \<Rightarrow> wm_window" where
  "new_window wid title x y width height =
     \<lparr>w_used = True, w_id = wid, w_x = x, w_y = y, w_width = width, w_height = height,
      w_border_color = 0xFF1D1F24, w_title_color = 0xFF4C78A8, w_client_color = 0xFFE7E9ED,
      w_title = wm_copy_title (zbuf WM_TITLE_MAX) (Some (case title of None \<Rightarrow> ''window'' | Some t \<Rightarrow> t))\<rparr>"

definition wm_create_window ::
    "char list option \<Rightarrow> u32 \<Rightarrow> u32 \<Rightarrow> u32 \<Rightarrow> u32 \<Rightarrow> 'a wm_scheme \<Rightarrow> u32 \<times> 'a wm_scheme" where
  "wm_create_window title x y width height g =
     (if \<not> wm_ready g \<or> width < 40 \<or> height < 30 then (0, g)
      else case wm_free (wm_windows g) of
        None \<Rightarrow> (0, g)
      | Some i \<Rightarrow>
          let wid = wm_next_window_id (wm_state g) in
          (wid, g\<lparr>wm_windows := (wm_windows g)[i := new_window wid title x y width height],
             wm_state := \<lparr>wm_window_count = wm_window_count (wm_state g) + 1,
               wm_next_window_id = wid + 1,
               wm_active_window_id = (if wm_active_window_id (wm_state g) = 0 then wid
                                      else wm_active_window_id (wm_state g))\<rparr>\<rparr>))"

definition wm_set_active :: "u32 \<Rightarrow> 'a wm_scheme \<Rightarrow> int \<times> 'a wm_scheme" where
  "wm_set_active wid g =
     (if wm_find (wm_windows g) wid = None then (-1, g)
      else (0, g\<lparr>wm_state := (wm_state g)\<lparr>wm_active_window_id := wid\<rparr>\<rparr>))"

definition wm_render :: "'a wm_scheme \<Rightarrow> 'a wm_scheme" where
  "wm_render g =
     (if \<not> wm_ready g then g
      else let g1 = fold (\<lambda>w g. if \<not> w_used w then g else wm_draw_window w g) (wm_windows g) (fb_clear 0xFF101820 g)
        in if wm_active_window_id (wm_state g1) \<noteq> 0
           then case wm_find (wm_windows g1) (wm_active_window_id (wm_state g1)) of
               None \<Rightarrow> g1
             | Some i \<Rightarrow> let active = wm_windows g1 ! i in
                 fb_rect (w_x active) (w_y active) (w_width active) 3 0xFFF2C14E g1
           else g1)"

definition wm_demo_layout :: "'a wm_scheme \<Rightarrow> 'a wm_scheme" where
  "wm_demo_layout g =
     (let g0 = wm_init g in
      if \<not> wm_ready g0 then g0
      else let g1 = snd (wm_create_window (Some ''shell'') 20 20 150 90 g0);
               g2 = snd (wm_create_window (Some ''notes'') 190 35 110 120 g1);
               g3 = snd (wm_create_window (Some ''monitor'') 70 130 180 55 g2)
           in wm_render (g3\<lparr>wm_state := (wm_state g3)\<lparr>wm_active_window_id := 1\<rparr>\<rparr>))"

definition wm_get_stats :: "'a wm_scheme \<Rightarrow> wm_stats" where
  "wm_get_stats g = wm_state g"

definition wm_copy_windows :: "'a wm_scheme \<Rightarrow> nat \<Rightarrow> wm_window list" where
  "wm_copy_windows g max_windows = list_used w_used (wm_windows g) max_windows"

section \<open>Painting leaves the tables alone\<close>

text \<open>
  A painted state is the state before with another picture in the framebuffer;
  the facts of the modules above need only this.
\<close>

definition repainted :: "'a fb_scheme \<Rightarrow> 'a fb_scheme \<Rightarrow> bool" where
  "repainted g g' \<longleftrightarrow> (\<exists>b bg. length b = length (fb_backing g) \<and>
     g' = g\<lparr>fb_backing := b, fb_state := (fb_state g)\<lparr>fi_background := bg\<rparr>\<rparr>)"

lemma repainted_refl [simp]: "repainted g g"
  unfolding repainted_def by (intro exI [of _ "fb_backing g"] exI [of _ "fi_background (fb_state g)"]) simp

lemma repainted_trans: "repainted g g' \<Longrightarrow> repainted g' g'' \<Longrightarrow> repainted g g''"
  unfolding repainted_def by (elim exE conjE) (simp, blast)

lemma fill_rows_length [simp]: "length (fill_rows w x x_end y y_end color b) = length b"
proof -
  have "length (fold (\<lambda>row. fill_row w x x_end color (of_nat row)) rows b) = length b" for rows :: "nat list"
    by (induction rows arbitrary: b) (simp_all add: fill_row_def fold_update_length)
  then show ?thesis by (simp add: fill_rows_def)
qed

lemma repainted_rect: "repainted g (fb_rect x y w h color g)"
  unfolding repainted_def fb_rect_def fb_fill_rect_def Let_def
  by (intro exI [of _ "fb_backing (fb_rect x y w h color g)"] exI [of _ "fi_background (fb_state g)"])
    (simp add: fb_rect_def fb_fill_rect_def Let_def)

lemma repainted_clear: "repainted g (fb_clear color g)"
  unfolding repainted_def fb_clear_def
  by (intro exI conjI) (rule fold_update_length [of "\<lambda>i. i"], rule refl)

lemma repainted_step: "repainted g g' \<Longrightarrow> repainted g (fb_rect x y w h color g')"
  using repainted_trans [OF _ repainted_rect] .

lemma repainted_draw: "repainted g (wm_draw_window w g)"
  by (simp add: wm_draw_window_def Let_def repainted_rect repainted_step)

lemma repainted_fold:
  assumes "\<And>x g. repainted g (f x g)"
  shows "repainted g (fold f xs g)"
proof (induction xs arbitrary: g)
  case (Cons x xs)
  show ?case using repainted_trans [OF assms Cons] by simp
qed simp

lemma repainted_wm:
  "repainted g g' \<Longrightarrow> wm_windows g' = wm_windows g" "repainted g g' \<Longrightarrow> wm_state g' = wm_state g"
  "repainted g g' \<Longrightarrow> wm_is_ready g' = wm_is_ready g" "repainted g g' \<Longrightarrow> fb_ready g' = fb_ready g"
  for g g' :: "'a wm_scheme"
  by (auto simp: repainted_def fb_ready_def)

lemma repainted_render: "repainted g (wm_render g)"
proof -
  let ?g1 = "fold (\<lambda>w g. if \<not> w_used w then g else wm_draw_window w g) (wm_windows g) (fb_clear 0xFF101820 g)"
  have g1: "repainted g ?g1"
    by (rule repainted_trans [OF repainted_clear repainted_fold]) (simp add: repainted_draw)
  then show ?thesis
    by (auto simp: wm_render_def Let_def repainted_step split: option.splits)
qed

section \<open>The window table\<close>

interpretation wmt: slot_table w_used w_id "\<lambda>wid. wid" wm_find wm_free
  by (rule slot_tableI) (simp_all add: wm_find_def wm_free_def)

definition wm_ok :: "'a wm_scheme \<Rightarrow> bool" where
  "wm_ok g \<longleftrightarrow> length (wm_windows g) = WM_MAX_WINDOWS \<and> keys_distinct w_used w_id (wm_windows g) \<and>
     wm_window_count (wm_state g) = count_used w_used (wm_windows g) \<and>
     unat (wm_next_window_id (wm_state g)) = wm_window_count (wm_state g) + 1 \<and>
     (\<forall>w \<in> set (wm_windows g). w_used w \<longrightarrow> 0 < unat (w_id w) \<and> unat (w_id w) \<le> count_used w_used (wm_windows g)) \<and>
     (if wm_window_count (wm_state g) = 0 then wm_active_window_id (wm_state g) = 0
      else wm_find (wm_windows g) (wm_active_window_id (wm_state g)) \<noteq> None)"

lemma wm_init_ok: "wm_ok (wm_init g)"
  by (simp add: wm_ok_def wm_init_def count_used_def zero_window_def keys_distinct_none_live)

lemma wm_ok_repainted: "repainted g g' \<Longrightarrow> wm_ok g \<Longrightarrow> wm_ok g'"
  by (simp add: wm_ok_def repainted_wm)

text \<open>What creating a window does, in both cases.\<close>

lemma create_window_cases:
  assumes ok: "wm_ok g"
  obtains (refused) "wm_create_window title x y width height g = (0, g)"
      "\<not> (wm_ready g \<and> 40 \<le> width \<and> 30 \<le> height \<and> wm_window_count (wm_state g) < WM_MAX_WINDOWS)"
  | (created) i g' where "wm_create_window title x y width height g = (wm_next_window_id (wm_state g), g')"
      "wm_free (wm_windows g) = Some i"
      "wm_windows g' = (wm_windows g)[i := new_window (wm_next_window_id (wm_state g)) title x y width height]"
      "wm_window_count (wm_state g') = wm_window_count (wm_state g) + 1" "wm_ok g'"
      "wm_ready g \<and> 40 \<le> width \<and> 30 \<le> height \<and> wm_window_count (wm_state g) < WM_MAX_WINDOWS"
proof (cases "\<not> wm_ready g \<or> width < 40 \<or> height < 30 \<or> wm_free (wm_windows g) = None")
  case True
  then have "wm_create_window title x y width height g = (0, g)" by (auto simp: wm_create_window_def)
  moreover have "wm_window_count (wm_state g) = WM_MAX_WINDOWS" if "wm_free (wm_windows g) = None"
  proof -
    have "filter w_used (wm_windows g) = wm_windows g" using that by (simp add: wmt.find_free_full)
    then show ?thesis using ok by (simp add: wm_ok_def count_used_def)
  qed
  ultimately show ?thesis using True by (intro refused) auto
next
  case False
  then obtain i where i: "wm_free (wm_windows g) = Some i" by auto
  note free = wmt.find_free_hit [OF i]
  let ?id = "wm_next_window_id (wm_state g)" and ?n = "wm_window_count (wm_state g)"
  let ?w = "new_window ?id title x y width height"
  let ?g = "snd (wm_create_window title x y width height g)"
  have cr: "wm_create_window title x y width height g = (?id, ?g)"
      "wm_windows ?g = (wm_windows g)[i := ?w]" "wm_window_count (wm_state ?g) = ?n + 1"
      "wm_next_window_id (wm_state ?g) = ?id + 1"
      "wm_active_window_id (wm_state ?g) = (if wm_active_window_id (wm_state g) = 0 then ?id
         else wm_active_window_id (wm_state g))"
    using False i by (auto simp: wm_create_window_def Let_def)
  have w: "w_used ?w" "w_id ?w = ?id" by (simp_all add: new_window_def)
  have len: "length (wm_windows g) = 8" and d: "keys_distinct w_used w_id (wm_windows g)"
      and cnt: "?n = count_used w_used (wm_windows g)" and nid: "unat ?id = ?n + 1"
      and ids: "\<forall>w \<in> set (wm_windows g). w_used w \<longrightarrow> 0 < unat (w_id w) \<and> unat (w_id w) \<le> ?n"
    using ok by (auto simp: wm_ok_def WM_MAX_WINDOWS_def)
  have new: "wm_find (wm_windows g) ?id = None"
    unfolding wm_find_def first_index_None_iff using ids nid by fastforce
  have lt: "?n < 8"
    using count_used_lt_if_free [of w_used "wm_windows g" i] i cnt len by (simp add: wm_free_def)
  note ins = wmt.insert_slot [OF d new i w]
  have cnt': "count_used w_used ((wm_windows g)[i := ?w]) = ?n + 1"
    using count_used_update [of i "wm_windows g" w_used ?w] free w cnt by simp
  have nid': "unat (?id + 1) = ?n + 2"
    using nid lt by (simp add: unat_word_ariths)
  have act: "wm_find (wm_windows ?g) (wm_active_window_id (wm_state ?g)) \<noteq> None"
  proof (cases "wm_active_window_id (wm_state g) = 0")
    case True
    then show ?thesis using cr ins(2) by (simp add: wmt.find_slot_None_iff)
  next
    case False
    have "?n \<noteq> 0" using False ok by (auto simp: wm_ok_def split: if_splits)
    then have "wm_find (wm_windows g) (wm_active_window_id (wm_state g)) \<noteq> None"
      using ok by (simp add: wm_ok_def)
    then show ?thesis using False cr ins(2) by (simp add: wmt.find_slot_None_iff)
  qed
  have bound: "\<forall>v \<in> set ((wm_windows g)[i := ?w]). w_used v \<longrightarrow> 0 < unat (w_id v) \<and> unat (w_id v) \<le> ?n + 1"
  proof (intro ballI impI)
    fix v assume v: "v \<in> set ((wm_windows g)[i := ?w])" "w_used v"
    then have "v = ?w \<or> v \<in> set (wm_windows g)" using set_update_subset_insert by fastforce
    then show "0 < unat (w_id v) \<and> unat (w_id v) \<le> ?n + 1" using ids v(2) w(2) nid by auto
  qed
  have "wm_ok ?g"
    using act len ins(1) cnt' nid' bound cr by (simp add: wm_ok_def WM_MAX_WINDOWS_def)
  then show ?thesis using False i cr lt by (intro created) (auto simp: WM_MAX_WINDOWS_def)
qed

lemma create_window_ok: "wm_ok g \<Longrightarrow> wm_ok (snd (wm_create_window title x y width height g))"
  by (rule create_window_cases [of g title x y width height]) simp_all

lemma set_active_ok: "wm_ok g \<Longrightarrow> wm_ok (snd (wm_set_active wid g))"
proof -
  assume ok: "wm_ok g"
  have "wm_window_count (wm_state g) \<noteq> 0" if "wm_find (wm_windows g) wid = Some i" for i
    using ok wmt.find_slot_hit [OF that] by (auto simp: wm_ok_def)
  then show ?thesis using ok by (auto simp: wm_set_active_def wm_ok_def)
qed

section \<open>Runs\<close>

datatype wm_op = Create "char list option" u32 u32 u32 u32 | SetActive u32 | Render | Demo

fun wm_do :: "wm_op \<Rightarrow> 'a wm_scheme \<Rightarrow> 'a wm_scheme" where
  "wm_do (Create title x y width height) g = snd (wm_create_window title x y width height g)"
| "wm_do (SetActive wid) g = snd (wm_set_active wid g)"
| "wm_do Render g = wm_render g"
| "wm_do Demo g = wm_demo_layout g"

lemma demo_ok: "wm_ok (wm_demo_layout g)"
proof (cases "wm_ready (wm_init g)")
  case True
  let ?c = "\<lambda>t x y w h s. snd (wm_create_window (Some t) x y w h s)"
  define g0 where "g0 = wm_init g"
  define g1 where "g1 = ?c ''shell'' 20 20 150 90 g0"
  define g2 where "g2 = ?c ''notes'' 190 35 110 120 g1"
  define g3 where "g3 = ?c ''monitor'' 70 130 180 55 g2"
  have ok: "wm_ok g3" by (simp add: g3_def g2_def g1_def g0_def create_window_ok wm_init_ok)
  have r: "wm_ready g0" using True by (simp add: g0_def)
  have "replicate 8 zero_window = zero_window # replicate 7 zero_window" by (simp add: numeral_eq_Suc)
  then have n0: "wm_windows g0 = zero_window # replicate 7 zero_window" "wm_next_window_id (wm_state g0) = 1"
    by (simp_all add: g0_def wm_init_def WM_MAX_WINDOWS_def)
  have n1: "wm_windows g1 = new_window 1 (Some ''shell'') 20 20 150 90 # replicate 7 zero_window"
      "wm_ready g1" "wm_next_window_id (wm_state g1) = 2"
    using r n0 by (simp_all add: g1_def wm_create_window_def wm_free_def zero_window_def wm_ready_def
        fb_ready_def Let_def)
  have "\<exists>rest. wm_windows g3 = new_window 1 (Some ''shell'') 20 20 150 90 # rest"
    using n1 by (auto simp: g3_def g2_def wm_create_window_def wm_free_def new_window_def Let_def
        split: option.splits)
  then obtain rest where rest: "wm_windows g3 = new_window 1 (Some ''shell'') 20 20 150 90 # rest" by blast
  then have one: "wm_find (wm_windows g3) 1 \<noteq> None" by (simp add: wm_find_def new_window_def)
  have "count_used w_used (wm_windows g3) \<noteq> 0" using rest by (simp add: count_used_def new_window_def)
  then have "wm_ok (g3\<lparr>wm_state := (wm_state g3)\<lparr>wm_active_window_id := 1\<rparr>\<rparr>)"
    using ok one by (simp add: wm_ok_def)
  then have "wm_ok (wm_render (g3\<lparr>wm_state := (wm_state g3)\<lparr>wm_active_window_id := 1\<rparr>\<rparr>))"
    using wm_ok_repainted [OF repainted_render] by blast
  then show ?thesis using True by (simp add: wm_demo_layout_def Let_def g3_def g2_def g1_def g0_def)
next
  case False
  then show ?thesis using wm_init_ok by (simp add: wm_demo_layout_def Let_def)
qed

lemma wm_run_ok: "wm_ok g \<Longrightarrow> wm_ok (fold wm_do ops g)"
proof (induction ops arbitrary: g)
  case (Cons op ops)
  have "wm_ok (wm_do op g)"
    using Cons.prems wm_ok_repainted [OF repainted_render]
    by (cases op) (simp_all add: create_window_ok set_active_ok demo_ok)
  then show ?case using Cons.IH by simp
qed simp

text \<open>C37. The window table.  After any run of creations, activations, paintings and demo layouts from
initialisation, the window count is the number of windows in the table, no two windows share an
identifier, and one of them is the active window unless there is none; a creation then succeeds
exactly when the manager is ready, the size is at least 40 by 30 and fewer than eight windows
exist, and returns an identifier that no window had and that finds the new window.\<close>

theorem window_table_invariant:
  "let g' = fold wm_do ops (wm_init g); (wid, g'') = wm_create_window title x y width height g' in
     wm_window_count (wm_get_stats g') = count_used w_used (wm_windows g') \<and>
     keys_distinct w_used w_id (wm_windows g') \<and>
     (if wm_window_count (wm_get_stats g') = 0 then wm_active_window_id (wm_get_stats g') = 0
      else wm_find (wm_windows g') (wm_active_window_id (wm_get_stats g')) \<noteq> None) \<and>
     (if wm_ready g' \<and> 40 \<le> width \<and> 30 \<le> height \<and> wm_window_count (wm_get_stats g') < WM_MAX_WINDOWS
      then wid \<noteq> 0 \<and> wm_find (wm_windows g') wid = None \<and>
        tab_of w_used w_id (wm_windows g'') =
          (tab_of w_used w_id (wm_windows g'))(wid \<mapsto> new_window wid title x y width height)
      else wid = 0 \<and> g'' = g')"
proof -
  define g' where "g' = fold wm_do ops (wm_init g)"
  have ok: "wm_ok g'" using wm_run_ok [OF wm_init_ok] by (simp add: g'_def)
  let ?id = "wm_next_window_id (wm_state g')"
  have id: "wm_find (wm_windows g') ?id = None" "?id \<noteq> 0"
    using ok by (fastforce simp: wm_ok_def wm_find_def first_index_None_iff)+
  have tab: "tab_of w_used w_id ((wm_windows g')[i := new_window ?id title x y width height]) =
      (tab_of w_used w_id (wm_windows g'))(?id \<mapsto> new_window ?id title x y width height)"
    if "wm_free (wm_windows g') = Some i" for i
    using ok by (intro wmt.insert_slot(2) [OF _ id(1) that]) (simp_all add: wm_ok_def new_window_def)
  show ?thesis
    using ok id tab unfolding g'_def [symmetric] wm_ok_def wm_get_stats_def
    by (cases rule: create_window_cases [OF ok, of title x y width height]) (auto simp: Let_def)
qed

end
