(* ===== verification/Button.thy ===== *)
theory Button
  imports Window
begin

text \<open>
  Push buttons \<open>src/gui/button.c\<close>: a table of sixteen buttons with identifiers
  given out in sequence, one pressed button and painting.
\<close>

definition BTN_MAX_BUTTONS :: nat where "BTN_MAX_BUTTONS = 16"
definition BTN_LABEL_MAX :: nat where "BTN_LABEL_MAX = 24"
definition BTN_PADDING :: u32 where "BTN_PADDING = 4"

record btn_entry =
  b_used :: bool
  b_id :: u32
  b_window_id :: u32
  b_x :: u32
  b_y :: u32
  b_width :: u32
  b_height :: u32
  b_fill_color :: u32
  b_border_color :: u32
  b_pressed_color :: u32
  b_text_color :: u32
  b_pressed :: bool
  b_label :: "char list"

record btn_stats =
  btn_button_count :: nat
  btn_next_button_id :: u32
  btn_pressed_button_id :: u32

record btn = wm +
  btn_buttons :: "btn_entry list"
  btn_state :: btn_stats

definition zero_button :: btn_entry where
  "zero_button = \<lparr>b_used = False, b_id = 0, b_window_id = 0, b_x = 0, b_y = 0, b_width = 0, b_height = 0,
     b_fill_color = 0, b_border_color = 0, b_pressed_color = 0, b_text_color = 0, b_pressed = False,
     b_label = zbuf BTN_LABEL_MAX\<rparr>"

definition btn_find :: "btn_entry list \<Rightarrow> u32 \<Rightarrow> nat option" where
  "btn_find bs bid = first_index (\<lambda>b. b_used b \<and> b_id b = bid) bs"

definition btn_copy_label :: "char list \<Rightarrow> char list option \<Rightarrow> char list" where
  "btn_copy_label dest src = (case src of None \<Rightarrow> dest[0 := NUL] | Some s \<Rightarrow> copy_text dest s)"

definition btn_draw_one :: "btn_entry \<Rightarrow> 'a fb_scheme \<Rightarrow> 'a fb_scheme" where
  "btn_draw_one b g =
     (if \<not> b_used b then g
      else let fill = (if b_pressed b then b_pressed_color b else b_fill_color b);
               g1 = fb_rect (b_x b) (b_y b) (b_width b) (b_height b) (b_border_color b) g
        in if b_width b \<le> 2 \<or> b_height b \<le> 2 then g1
           else let inner_x = b_x b + 1; inner_y = b_y b + 1; inner_w = b_width b - 2; inner_h = b_height b - 2;
                    g2 = fb_rect inner_x inner_y inner_w inner_h fill g1
             in if inner_w > BTN_PADDING * 2 \<and> inner_h > BTN_PADDING * 2
                then fb_rect (inner_x + BTN_PADDING) (inner_y + BTN_PADDING) (inner_w - BTN_PADDING * 2)
                       (inner_h - BTN_PADDING * 2) (b_text_color b) g2
                else g2)"

definition btn_init :: "'a btn_scheme \<Rightarrow> 'a btn_scheme" where
  "btn_init g = g\<lparr>btn_buttons := replicate BTN_MAX_BUTTONS zero_button,
     btn_state := \<lparr>btn_button_count = 0, btn_next_button_id = 1, btn_pressed_button_id = 0\<rparr>\<rparr>"

definition new_button :: "u32 \<Rightarrow> u32 \<Rightarrow> char list option \<Rightarrow> u32 \<Rightarrow> u32 \<Rightarrow> u32 \<Rightarrow> u32 \<Rightarrow> btn_entry" where
  "new_button bid window_id label x y width height =
     \<lparr>b_used = True, b_id = bid, b_window_id = window_id, b_x = x, b_y = y, b_width = width,
      b_height = height, b_fill_color = 0xFFB9C2CF, b_border_color = 0xFF2A2E35,
      b_pressed_color = 0xFF7AA2F7, b_text_color = 0xFFF4F7FA, b_pressed = False,
      b_label = btn_copy_label (zbuf BTN_LABEL_MAX) (Some (case label of None \<Rightarrow> ''button'' | Some l \<Rightarrow> l))\<rparr>"

definition btn_create ::
    "u32 \<Rightarrow> char list option \<Rightarrow> u32 \<Rightarrow> u32 \<Rightarrow> u32 \<Rightarrow> u32 \<Rightarrow> 'a btn_scheme \<Rightarrow> u32 \<times> 'a btn_scheme" where
  "btn_create window_id label x y width height g =
     (if \<not> wm_ready g \<or> \<not> fb_ready g \<or> width < 12 \<or> height < 12 then (0, g)
      else case first_index (\<lambda>b. \<not> b_used b) (btn_buttons g) of
        None \<Rightarrow> (0, g)
      | Some i \<Rightarrow>
          let bid = btn_next_button_id (btn_state g) in
          (bid, g\<lparr>btn_buttons := (btn_buttons g)[i := new_button bid window_id label x y width height],
             btn_state := (btn_state g)\<lparr>btn_next_button_id := bid + 1,
               btn_button_count := btn_button_count (btn_state g) + 1\<rparr>\<rparr>))"

definition btn_set_pressed :: "u32 \<Rightarrow> bool \<Rightarrow> 'a btn_scheme \<Rightarrow> int \<times> 'a btn_scheme" where
  "btn_set_pressed bid pressed g =
     (case btn_find (btn_buttons g) bid of
        None \<Rightarrow> (-1, g)
      | Some i \<Rightarrow> (0, g\<lparr>btn_buttons := (btn_buttons g)[i := (btn_buttons g ! i)\<lparr>b_pressed := pressed\<rparr>],
          btn_state := (btn_state g)\<lparr>btn_pressed_button_id := (if pressed then bid else 0)\<rparr>\<rparr>))"

definition btn_render :: "'a btn_scheme \<Rightarrow> 'a btn_scheme" where
  "btn_render g = fold (\<lambda>b g. if \<not> b_used b then g else btn_draw_one b g) (btn_buttons g) g"

definition btn_demo_layout :: "'a btn_scheme \<Rightarrow> 'a btn_scheme" where
  "btn_demo_layout g =
     (if \<not> wm_ready g \<or> \<not> fb_ready g then g
      else let g0 = wm_demo_layout g;
               (shell, g1) = btn_create 1 (Some ''Shell'') 38 58 52 22 g0;
               (notes, g2) = btn_create 2 (Some ''Notes'') 208 86 56 22 g1;
               (power, g3) = btn_create 3 (Some ''Power'') 112 148 56 22 g2;
               g4 = (if shell \<noteq> 0 then snd (btn_set_pressed shell True g3) else g3)
           in btn_render g4)"

definition btn_get_stats :: "'a btn_scheme \<Rightarrow> btn_stats" where
  "btn_get_stats g = btn_state g"

definition btn_copy_buttons :: "'a btn_scheme \<Rightarrow> nat \<Rightarrow> btn_entry list" where
  "btn_copy_buttons g max_buttons = list_used b_used (btn_buttons g) max_buttons"

lemma repainted_button: "repainted g (btn_draw_one b g)"
  by (simp add: btn_draw_one_def Let_def repainted_rect repainted_step)

end
