(* ===== verification/Menu.thy ===== *)
theory Menu
  imports Button
begin

text \<open>
  Menus \<open>src/gui/menu.c\<close>: a table of eight menus with up to eight items each,
  an active menu and painting.
\<close>

definition MENU_MAX_MENUS :: nat where "MENU_MAX_MENUS = 8"
definition MENU_TITLE_MAX :: nat where "MENU_TITLE_MAX = 24"
definition MENU_ITEM_MAX :: nat where "MENU_ITEM_MAX = 8"
definition MENU_ITEM_TEXT_MAX :: nat where "MENU_ITEM_TEXT_MAX = 24"
definition MENU_BAR_HEIGHT :: u32 where "MENU_BAR_HEIGHT = 22"

record menu_item =
  mi_text :: "char list"
  mi_action_id :: u32

record menu_entry =
  m_used :: bool
  m_id :: u32
  m_window_id :: u32
  m_x :: u32
  m_y :: u32
  m_width :: u32
  m_item_height :: u32
  m_title_color :: u32
  m_item_color :: u32
  m_highlight_color :: u32
  m_title :: "char list"
  m_item_count :: nat
  m_items :: "menu_item list"

record menu_stats =
  menu_menu_count :: nat
  menu_next_menu_id :: u32
  menu_active_menu_id :: u32

record menu = btn +
  menu_items :: "menu_entry list"
  menu_state :: menu_stats
  menu_is_ready :: bool

definition zero_menu :: menu_entry where
  "zero_menu = \<lparr>m_used = False, m_id = 0, m_window_id = 0, m_x = 0, m_y = 0, m_width = 0,
     m_item_height = 0, m_title_color = 0, m_item_color = 0, m_highlight_color = 0,
     m_title = zbuf MENU_TITLE_MAX, m_item_count = 0,
     m_items = replicate MENU_ITEM_MAX \<lparr>mi_text = zbuf MENU_ITEM_TEXT_MAX, mi_action_id = 0\<rparr>\<rparr>"

definition menu_find :: "menu_entry list \<Rightarrow> u32 \<Rightarrow> nat option" where
  "menu_find ms mid = first_index (\<lambda>m. m_used m \<and> m_id m = mid) ms"

definition menu_copy_text :: "char list \<Rightarrow> char list option \<Rightarrow> char list" where
  "menu_copy_text dest src =
     (if length dest = 0 then dest else case src of None \<Rightarrow> dest[0 := NUL] | Some s \<Rightarrow> copy_text dest s)"

definition menu_init :: "'a menu_scheme \<Rightarrow> 'a menu_scheme" where
  "menu_init g = g\<lparr>menu_items := replicate MENU_MAX_MENUS zero_menu,
     menu_state := \<lparr>menu_menu_count = 0, menu_next_menu_id = 1, menu_active_menu_id = 0\<rparr>,
     menu_is_ready := fb_ready g \<and> wm_ready g\<rparr>"

definition menu_ready :: "'a menu_scheme \<Rightarrow> bool" where
  "menu_ready g \<longleftrightarrow> menu_is_ready g \<and> fb_ready g"

definition new_menu :: "u32 \<Rightarrow> u32 \<Rightarrow> char list option \<Rightarrow> u32 \<Rightarrow> u32 \<Rightarrow> u32 \<Rightarrow> menu_entry" where
  "new_menu mid window_id title x y width =
     zero_menu\<lparr>m_used := True, m_id := mid, m_window_id := window_id, m_x := x, m_y := y, m_width := width,
       m_item_height := 18, m_title_color := 0xFF334155, m_item_color := 0xFFE2E8F0,
       m_highlight_color := 0xFF94A3B8,
       m_title := menu_copy_text (zbuf MENU_TITLE_MAX) (Some (case title of None \<Rightarrow> ''menu'' | Some t \<Rightarrow> t))\<rparr>"

definition menu_create ::
    "u32 \<Rightarrow> char list option \<Rightarrow> u32 \<Rightarrow> u32 \<Rightarrow> u32 \<Rightarrow> 'a menu_scheme \<Rightarrow> u32 \<times> 'a menu_scheme" where
  "menu_create window_id title x y width g =
     (if \<not> menu_ready g \<or> width < 60 then (0, g)
      else case first_index (\<lambda>m. \<not> m_used m) (menu_items g) of
        None \<Rightarrow> (0, g)
      | Some i \<Rightarrow>
          let mid = menu_next_menu_id (menu_state g) in
          (mid, g\<lparr>menu_items := (menu_items g)[i := new_menu mid window_id title x y width],
             menu_state := \<lparr>menu_menu_count = menu_menu_count (menu_state g) + 1,
               menu_next_menu_id = mid + 1,
               menu_active_menu_id = (if menu_active_menu_id (menu_state g) = 0 then mid
                                      else menu_active_menu_id (menu_state g))\<rparr>\<rparr>))"

definition menu_add_item :: "u32 \<Rightarrow> char list option \<Rightarrow> u32 \<Rightarrow> 'a menu_scheme \<Rightarrow> int \<times> 'a menu_scheme" where
  "menu_add_item menu_id label action_id g =
     (case menu_find (menu_items g) menu_id of
        None \<Rightarrow> (-1, g)
      | Some i \<Rightarrow>
          let m = menu_items g ! i; k = m_item_count m in
          if k \<ge> MENU_ITEM_MAX then (-1, g)
          else (0, g\<lparr>menu_items := (menu_items g)[i := m\<lparr>
                 m_items := (m_items m)[k := \<lparr>mi_text = menu_copy_text (mi_text (m_items m ! k)) label,
                                               mi_action_id = action_id\<rparr>],
                 m_item_count := k + 1\<rparr>]\<rparr>))"

definition menu_set_active :: "u32 \<Rightarrow> 'a menu_scheme \<Rightarrow> int \<times> 'a menu_scheme" where
  "menu_set_active menu_id g =
     (if menu_find (menu_items g) menu_id = None then (-1, g)
      else (0, g\<lparr>menu_state := (menu_state g)\<lparr>menu_active_menu_id := menu_id\<rparr>\<rparr>))"

definition menu_draw_one :: "menu_entry \<Rightarrow> 'a menu_scheme \<Rightarrow> 'a menu_scheme" where
  "menu_draw_one m g =
     (if \<not> m_used m then g
      else let g1 = fb_rect (m_x m) (m_y m) (m_width m) MENU_BAR_HEIGHT (m_title_color m) g;
               body_h = of_nat (m_item_count m) * m_item_height m;
               g2 = (if body_h > 0 then fb_rect (m_x m) (m_y m + MENU_BAR_HEIGHT) (m_width m) body_h (m_item_color m) g1
                     else g1)
        in if menu_active_menu_id (menu_state g2) = m_id m
           then fb_rect (m_x m) (m_y m) (m_width m) 2 (m_highlight_color m) g2 else g2)"

definition menu_render :: "'a menu_scheme \<Rightarrow> 'a menu_scheme" where
  "menu_render g =
     (if \<not> menu_ready g then g
      else fold (\<lambda>m g. if \<not> m_used m then g else menu_draw_one m g) (menu_items g) g)"

definition menu_demo_layout :: "'a menu_scheme \<Rightarrow> 'a menu_scheme" where
  "menu_demo_layout g =
     (let g0 = menu_init g in
      if \<not> menu_ready g0 then g0
      else let (file_menu, g1) = menu_create 0 (Some ''File'') 20 20 110 g0;
               (edit_menu, g2) = menu_create 0 (Some ''Edit'') 140 20 110 g1;
               g3 = snd (menu_add_item file_menu (Some ''New'') 1 g2);
               g4 = snd (menu_add_item file_menu (Some ''Open'') 2 g3);
               g5 = snd (menu_add_item file_menu (Some ''Save'') 3 g4);
               g6 = snd (menu_add_item edit_menu (Some ''Copy'') 4 g5);
               g7 = snd (menu_add_item edit_menu (Some ''Paste'') 5 g6);
               g8 = g7\<lparr>menu_state := (menu_state g7)\<lparr>menu_active_menu_id := file_menu\<rparr>\<rparr>
           in menu_render (wm_render (fb_clear 0xFF0F172A g8)))"

definition menu_get_stats :: "'a menu_scheme \<Rightarrow> menu_stats" where
  "menu_get_stats g = menu_state g"

definition menu_copy_menus :: "'a menu_scheme \<Rightarrow> nat \<Rightarrow> menu_entry list" where
  "menu_copy_menus g max_menus = list_used m_used (menu_items g) max_menus"

end
