(* ===== verification/Icons.thy ===== *)
theory Icons
  imports Menu
begin

text \<open>
  Desktop icons \<open>src/gui/icons.c\<close>: a table of sixteen icons laid out four to a
  row, a selection, and clicks, where a second click on the selected icon within
  30 ticks launches its command.  Running a shell command is an argument \<open>run\<close>
  of the operations that launch; coordinates of a click are C integers.
\<close>

definition ICONS_MAX_ICONS :: nat where "ICONS_MAX_ICONS = 16"
definition ICONS_LABEL_MAX :: nat where "ICONS_LABEL_MAX = 24"
definition ICON_CELL_W :: u32 where "ICON_CELL_W = 76"
definition ICON_CELL_H :: u32 where "ICON_CELL_H = 84"
definition ICON_GLYPH_W :: u32 where "ICON_GLYPH_W = 48"
definition ICON_GLYPH_H :: u32 where "ICON_GLYPH_H = 48"
definition ICON_PAD :: u32 where "ICON_PAD = 16"
definition ICON_LABEL_H :: u32 where "ICON_LABEL_H = 16"
definition ICON_BG :: u32 where "ICON_BG = 0xFF1D3557"
definition ICON_SELECT :: u32 where "ICON_SELECT = 0xFFF4A261"
definition ICON_TEXT_BG :: u32 where "ICON_TEXT_BG = 0xFF1D3557"

lemmas icon_consts = ICONS_MAX_ICONS_def ICONS_LABEL_MAX_def ICON_CELL_W_def ICON_CELL_H_def
  ICON_PAD_def

record icon =
  i_used :: bool
  i_selected :: bool
  i_id :: u32
  i_x :: u32
  i_y :: u32
  i_width :: u32
  i_height :: u32
  i_color :: u32
  i_label :: "char list"
  i_launch_cmd :: "char list"

record icon_stats =
  icon_icon_count :: nat
  icon_next_icon_id :: u32
  icon_selected_icon_id :: u32

record icons = menu +
  icons_table :: "icon list"
  icon_state :: icon_stats
  icon_ready :: bool
  last_click_tick :: u32

definition zero_icon :: icon where
  "zero_icon = \<lparr>i_used = False, i_selected = False, i_id = 0, i_x = 0, i_y = 0, i_width = 0, i_height = 0,
     i_color = 0, i_label = zbuf ICONS_LABEL_MAX, i_launch_cmd = zbuf ICONS_LABEL_MAX\<rparr>"

definition find_icon :: "icon list \<Rightarrow> u32 \<Rightarrow> nat option" where
  "find_icon ics icn = first_index (\<lambda>i. i_used i \<and> i_id i = icn) ics"

definition clear_selection :: "'a icons_scheme \<Rightarrow> 'a icons_scheme" where
  "clear_selection g = g\<lparr>icons_table := map (\<lambda>i. i\<lparr>i_selected := False\<rparr>) (icons_table g),
     icon_state := (icon_state g)\<lparr>icon_selected_icon_id := 0\<rparr>\<rparr>"

definition draw_label :: "u32 \<Rightarrow> u32 \<Rightarrow> char list \<Rightarrow> 'a fb_scheme \<Rightarrow> 'a fb_scheme" where
  "draw_label x y label g =
     (if min (length (cstr label)) ICONS_LABEL_MAX = 0 then g
      else fb_rect (x + 2) (y + 2) (ICON_CELL_W - 4) (ICON_LABEL_H - 4) ICON_BG
             (fb_rect x y ICON_CELL_W ICON_LABEL_H ICON_TEXT_BG g))"

definition draw_icon :: "icon \<Rightarrow> u32 \<Rightarrow> u32 \<Rightarrow> 'a fb_scheme \<Rightarrow> 'a fb_scheme" where
  "draw_icon ic x y g =
     (let frame = (if i_selected ic then ICON_SELECT else 0xFF0B1320);
          g1 = fb_rect x y ICON_CELL_W ICON_CELL_H frame g;
          g2 = fb_rect (x + 4) (y + 4) ICON_GLYPH_W ICON_GLYPH_H (i_color ic) g1;
          g3 = fb_rect (x + 16) (y + 16) 16 16 0xFFF1FAEE g2
      in draw_label x (y + ICON_GLYPH_H + 4) (i_label ic) g3)"

definition icons_init :: "'a icons_scheme \<Rightarrow> 'a icons_scheme" where
  "icons_init g = g\<lparr>icons_table := replicate ICONS_MAX_ICONS zero_icon,
     icon_state := \<lparr>icon_icon_count = 0, icon_next_icon_id = 1, icon_selected_icon_id = 0\<rparr>,
     last_click_tick := 0, icon_ready := fb_ready g \<and> wm_ready g\<rparr>"

definition icons_ready :: "'a icons_scheme \<Rightarrow> bool" where
  "icons_ready g \<longleftrightarrow> icon_ready g \<and> fb_ready g"

definition icons_copy_text :: "char list \<Rightarrow> char list option \<Rightarrow> char list" where
  "icons_copy_text dest src =
     (if length dest = 0 then dest
      else case src of None \<Rightarrow> dest[0 := NUL] | Some s \<Rightarrow> copy_text dest s)"

definition new_icon :: "u32 \<Rightarrow> nat \<Rightarrow> char list option \<Rightarrow> char list option \<Rightarrow> u32 \<Rightarrow> icon" where
  "new_icon icn count label launch_cmd color =
     \<lparr>i_used = True, i_selected = False, i_id = icn,
      i_x = ICON_PAD + of_nat (count mod 4) * (ICON_CELL_W + ICON_PAD),
      i_y = ICON_PAD + of_nat (count div 4) * (ICON_CELL_H + ICON_PAD),
      i_width = ICON_CELL_W, i_height = ICON_CELL_H, i_color = color,
      i_label = icons_copy_text (zbuf ICONS_LABEL_MAX) (Some (case label of None \<Rightarrow> ''icon'' | Some l \<Rightarrow> l)),
      i_launch_cmd = icons_copy_text (zbuf ICONS_LABEL_MAX) (Some (case launch_cmd of None \<Rightarrow> '''' | Some c \<Rightarrow> c))\<rparr>"

definition icons_add :: "char list option \<Rightarrow> char list option \<Rightarrow> u32 \<Rightarrow> 'a icons_scheme \<Rightarrow> u32 \<times> 'a icons_scheme" where
  "icons_add label launch_cmd color g =
     (case first_index (\<lambda>i. \<not> i_used i) (icons_table g) of
        None \<Rightarrow> (0, g)
      | Some k \<Rightarrow>
          if \<not> icons_ready g then (0, g)
          else let icn = icon_next_icon_id (icon_state g); count = icon_icon_count (icon_state g) in
            (icn, g\<lparr>icons_table := (icons_table g)[k := new_icon icn count label launch_cmd color],
               icon_state := (icon_state g)\<lparr>icon_next_icon_id := icn + 1, icon_icon_count := count + 1\<rparr>\<rparr>))"

definition icons_add_default_icons :: "'a icons_scheme \<Rightarrow> 'a icons_scheme" where
  "icons_add_default_icons g =
     fold (\<lambda>(label, command, color) g. snd (icons_add (Some label) (Some command) color g))
       [(''Terminal'', ''shell'', 0xFF2A9D8F), (''Files'', ''files'', 0xFFE9C46A),
        (''Editor'', ''editor'', 0xFFE76F51), (''Calc'', ''calc'', 0xFF4C78A8),
        (''Settings'', ''settings'', 0xFF8E9AAF), (''System'', ''sysmon'', 0xFFF4A261)] g"

definition icons_render :: "'a icons_scheme \<Rightarrow> 'a icons_scheme" where
  "icons_render g =
     (if \<not> icons_ready g then g
      else fold (\<lambda>i g. if \<not> i_used i then g else draw_icon i (i_x i) (i_y i) g) (icons_table g) g)"

definition in_icon :: "icon \<Rightarrow> int \<Rightarrow> int \<Rightarrow> bool" where
  "in_icon ic x y \<longleftrightarrow> x \<ge> sint (i_x ic) \<and> x < sint (i_x ic + i_width ic) \<and>
     y \<ge> sint (i_y ic) \<and> y < sint (i_y ic + i_height ic)"

definition icons_launch :: "(char list \<Rightarrow> 'a icons_scheme \<Rightarrow> int \<times> 'a icons_scheme) \<Rightarrow> u32 \<Rightarrow>
    'a icons_scheme \<Rightarrow> int \<times> 'a icons_scheme" where
  "icons_launch run icn g =
     (case find_icon (icons_table g) icn of
        None \<Rightarrow> (0, g)
      | Some k \<Rightarrow>
          if cget (i_launch_cmd (icons_table g ! k)) 0 = NUL then (0, g)
          else let (r, g') = run (i_launch_cmd (icons_table g ! k)) g in (if r = 0 then 1 else 0, g'))"

definition icons_handle_click :: "(char list \<Rightarrow> 'a icons_scheme \<Rightarrow> int \<times> 'a icons_scheme) \<Rightarrow> u64 \<Rightarrow>
    int \<Rightarrow> int \<Rightarrow> u8 \<Rightarrow> 'a icons_scheme \<Rightarrow> int \<times> 'a icons_scheme" where
  "icons_handle_click run tick x y button_mask g =
     (if \<not> icons_ready g then (-1, g)
      else if button_mask AND 1 = 0 then (0, g)
      else let now = ucast tick in
        case first_index (\<lambda>i. i_used i \<and> in_icon i x y) (icons_table g) of
          None \<Rightarrow> (0, (clear_selection g)\<lparr>last_click_tick := now\<rparr>)
        | Some k \<Rightarrow>
            let ic = icons_table g ! k in
            if i_selected ic \<and> icon_selected_icon_id (icon_state g) = i_id ic \<and> now - last_click_tick g \<le> 30
            then let (r, g') = icons_launch run (i_id ic) (g\<lparr>last_click_tick := now\<rparr>)
                 in (if r \<noteq> 0 then 2 else 1, g')
            else let g1 = clear_selection g in
              (1, g1\<lparr>icons_table := (icons_table g1)[k := (icons_table g1 ! k)\<lparr>i_selected := True\<rparr>],
                    icon_state := (icon_state g1)\<lparr>icon_selected_icon_id := i_id ic\<rparr>,
                    last_click_tick := now\<rparr>))"

definition icons_get_stats :: "'a icons_scheme \<Rightarrow> icon_stats" where
  "icons_get_stats g = icon_state g"

definition icons_copy :: "'a icons_scheme \<Rightarrow> nat \<Rightarrow> icon list" where
  "icons_copy g max_icons = list_used i_used (icons_table g) max_icons"

definition icons_get :: "'a icons_scheme \<Rightarrow> u32 \<Rightarrow> icon option" where
  "icons_get g icn = map_option ((!) (icons_table g)) (find_icon (icons_table g) icn)"

text \<open>The result code and the buffer.\<close>

definition icons_selected_launch_command :: "char list \<Rightarrow> 'a icons_scheme \<Rightarrow> int \<times> char list" where
  "icons_selected_launch_command out g =
     (if length out = 0 \<or> icon_selected_icon_id (icon_state g) = 0 then (-1, out)
      else case find_icon (icons_table g) (icon_selected_icon_id (icon_state g)) of
        None \<Rightarrow> (-1, out[0 := NUL])
      | Some k \<Rightarrow> (0, icons_copy_text out (Some (i_launch_cmd (icons_table g ! k)))))"

end
