(* ===== verification/Desktop.thy ===== *)
theory Desktop
  imports Icons
begin

text \<open>
  The desktop \<open>src/gui/desktop.c\<close>: its own window, menu and start button, the
  taskbar, and clicks, which it passes on to the icons.  Its own icon table is
  declared and cleared by the code but never filled.
\<close>

definition DESKTOP_MAX_ICONS :: nat where "DESKTOP_MAX_ICONS = 8"
definition DESKTOP_LABEL_MAX :: nat where "DESKTOP_LABEL_MAX = 24"
definition DESKTOP_BG :: u32 where "DESKTOP_BG = 0xFF1D3557"
definition DESKTOP_TASKBAR_BG :: u32 where "DESKTOP_TASKBAR_BG = 0xFF10151F"
definition DESKTOP_TASKBAR_H :: u32 where "DESKTOP_TASKBAR_H = 34"
definition DESKTOP_START_W :: u32 where "DESKTOP_START_W = 84"
definition DESKTOP_CLOCK_W :: u32 where "DESKTOP_CLOCK_W = 72"
definition DESKTOP_ICON_W :: u32 where "DESKTOP_ICON_W = 64"
definition DESKTOP_ICON_H :: u32 where "DESKTOP_ICON_H = 64"

record desktop_icon =
  di_used :: bool
  di_selected :: bool
  di_id :: u32
  di_x :: u32
  di_y :: u32
  di_width :: u32
  di_height :: u32
  di_color :: u32
  di_label :: "char list"
  di_launch_cmd :: "char list"

record desktop_stats =
  ds_icon_count :: nat
  ds_selected_icon_id :: u32
  ds_next_icon_id :: u32
  ds_taskbar_height :: u32

record desktop = icons +
  desktop_icons :: "desktop_icon list"
  desktop_state :: desktop_stats
  desktop_is_ready :: bool
  desktop_menu_id :: u32
  desktop_window_id :: u32
  desktop_start_button_id :: u32

definition zero_desktop_icon :: desktop_icon where
  "zero_desktop_icon = \<lparr>di_used = False, di_selected = False, di_id = 0, di_x = 0, di_y = 0, di_width = 0,
     di_height = 0, di_color = 0, di_label = zbuf DESKTOP_LABEL_MAX, di_launch_cmd = zbuf DESKTOP_LABEL_MAX\<rparr>"

definition desktop_copy_text :: "char list \<Rightarrow> char list option \<Rightarrow> char list" where
  "desktop_copy_text dest src =
     (if length dest = 0 then dest
      else case src of None \<Rightarrow> dest[0 := NUL] | Some s \<Rightarrow> copy_text dest s)"

definition desktop_find_icon :: "desktop_icon list \<Rightarrow> u32 \<Rightarrow> nat option" where
  "desktop_find_icon ics icn = first_index (\<lambda>i. di_used i \<and> di_id i = icn) ics"

definition desktop_clear_selection :: "'a desktop_scheme \<Rightarrow> 'a desktop_scheme" where
  "desktop_clear_selection g = g\<lparr>desktop_icons := map (\<lambda>i. i\<lparr>di_selected := False\<rparr>) (desktop_icons g),
     desktop_state := (desktop_state g)\<lparr>ds_selected_icon_id := 0\<rparr>\<rparr>"

definition desktop_draw_icon :: "desktop_icon \<Rightarrow> u32 \<Rightarrow> u32 \<Rightarrow> 'a desktop_scheme \<Rightarrow> 'a desktop_scheme" where
  "desktop_draw_icon icon x y g =
     (let frame_color = if di_selected icon then 0xFFF4A261 else 0xFF0B1320;
          g1 = fb_rect (x - 2) (y - 2) (DESKTOP_ICON_W + 4) (DESKTOP_ICON_H + 24) frame_color g;
          g2 = fb_rect x y DESKTOP_ICON_W DESKTOP_ICON_H (di_color icon) g1
      in fb_rect (x + 18) (y + 18) 28 28 0xFFE9ECEF g2)"

definition desktop_draw_taskbar :: "'a desktop_scheme \<Rightarrow> 'a desktop_scheme" where
  "desktop_draw_taskbar g =
     (let screen_w = fi_width (fb_get_info g); screen_h = fi_height (fb_get_info g) in
      if screen_h < DESKTOP_TASKBAR_H \<or> screen_w = 0 then g
      else let y = screen_h - DESKTOP_TASKBAR_H;
               g1 = fb_rect 0 y screen_w DESKTOP_TASKBAR_H DESKTOP_TASKBAR_BG g;
               g2 = fb_rect 0 y DESKTOP_START_W DESKTOP_TASKBAR_H 0xFF2A9D8F g1;
               g3 = fb_rect (screen_w - DESKTOP_CLOCK_W) y DESKTOP_CLOCK_W DESKTOP_TASKBAR_H 0xFF243447 g2
        in if desktop_start_button_id g3 \<noteq> 0
           then snd (btn_set_pressed (desktop_start_button_id g3) False g3) else g3)"

definition desktop_init :: "'a desktop_scheme \<Rightarrow> 'a desktop_scheme" where
  "desktop_init g =
     (let info = fb_get_info g;
          g1 = icons_init (g\<lparr>desktop_icons := replicate DESKTOP_MAX_ICONS zero_desktop_icon,
                 desktop_state := (desktop_state g)\<lparr>ds_taskbar_height := DESKTOP_TASKBAR_H\<rparr>,
                 desktop_is_ready := fb_ready g \<and> wm_ready g \<and> menu_ready g,
                 desktop_window_id := 0, desktop_menu_id := 0, desktop_start_button_id := 0\<rparr>)
      in if \<not> desktop_is_ready g1 then g1
         else let (win, g2) = wm_create_window (Some ''desktop'') 8 8
                    (if fi_width info > 16 then fi_width info - 16 else fi_width info)
                    (if fi_height info > 16 then fi_height info - 16 else fi_height info) g1;
                  g3 = g2\<lparr>desktop_window_id := win\<rparr>;
                  (mid, g4) = menu_create win (Some ''Desktop'') 8 8 120 g3;
                  g5 = g4\<lparr>desktop_menu_id := mid\<rparr>;
                  g6 = (if mid \<noteq> 0
                        then snd (menu_add_item mid (Some ''Settings'') 3
                               (snd (menu_add_item mid (Some ''Files'') 2
                                 (snd (menu_add_item mid (Some ''Terminal'') 1 g5)))))
                        else g5);
                  (bid, g7) = btn_create win (Some ''Start'') 4 (fi_height info - DESKTOP_TASKBAR_H + 4) 72 24 g6
              in g7\<lparr>desktop_start_button_id := bid\<rparr>)"

definition desktop_ready :: "'a desktop_scheme \<Rightarrow> bool" where
  "desktop_ready g \<longleftrightarrow> desktop_is_ready g \<and> fb_ready g"

definition desktop_add_icon :: "char list option \<Rightarrow> char list option \<Rightarrow> u32 \<Rightarrow> 'a desktop_scheme \<Rightarrow> u32 \<times> 'a desktop_scheme" where
  "desktop_add_icon label launch_cmd color g = icons_add label launch_cmd color g"

definition desktop_add_default_icons :: "'a desktop_scheme \<Rightarrow> 'a desktop_scheme" where
  "desktop_add_default_icons g = icons_add_default_icons g"

definition desktop_render_taskbar :: "'a desktop_scheme \<Rightarrow> 'a desktop_scheme" where
  "desktop_render_taskbar g = (if \<not> desktop_ready g then g else desktop_draw_taskbar g)"

definition desktop_render :: "'a desktop_scheme \<Rightarrow> 'a desktop_scheme" where
  "desktop_render g =
     (let info = fb_get_info g in
      if \<not> desktop_ready g then g
      else desktop_draw_taskbar (menu_render (icons_render (wm_render
             (fb_rect 0 0 (fi_width info) (fi_height info) DESKTOP_BG g)))))"

definition desktop_handle_click :: "(char list \<Rightarrow> 'a desktop_scheme \<Rightarrow> int \<times> 'a desktop_scheme) \<Rightarrow> u64 \<Rightarrow>
    int \<Rightarrow> int \<Rightarrow> u8 \<Rightarrow> 'a desktop_scheme \<Rightarrow> 'a desktop_scheme" where
  "desktop_handle_click run tick x y button_mask g =
     (let (handled, g1) = icons_handle_click run tick x y button_mask g in
      if handled > 0
      then let stats = icons_get_stats g1 in
        g1\<lparr>desktop_state := (desktop_state g1)\<lparr>ds_icon_count := icon_icon_count stats,
             ds_selected_icon_id := icon_selected_icon_id stats, ds_next_icon_id := icon_next_icon_id stats\<rparr>\<rparr>
      else desktop_clear_selection g1)"

definition desktop_handle_mouse_move :: "int \<Rightarrow> int \<Rightarrow> 'a desktop_scheme \<Rightarrow> 'a desktop_scheme" where
  "desktop_handle_mouse_move x y g = g"

definition desktop_update_clock :: "'a desktop_scheme \<Rightarrow> 'a desktop_scheme" where
  "desktop_update_clock g = desktop_draw_taskbar g"

definition desktop_get_stats :: "'a desktop_scheme \<Rightarrow> desktop_stats" where
  "desktop_get_stats g =
     (let stats = icons_get_stats g in
      (desktop_state g)\<lparr>ds_icon_count := icon_icon_count stats,
        ds_selected_icon_id := icon_selected_icon_id stats, ds_next_icon_id := icon_next_icon_id stats\<rparr>)"

definition desktop_copy_icons :: "'a desktop_scheme \<Rightarrow> nat \<Rightarrow> desktop_icon list" where
  "desktop_copy_icons g max_icons = []"

end
