(* ===== verification/Settings.thy ===== *)
theory Settings
  imports Desktop Config
begin

text \<open>
  The settings window: storage \<open>settings_data.c\<close>, widgets \<open>settings_ui.c\<close>, the
  panel helper \<open>settings_panels.c\<close> and the application \<open>settings.c\<close> of
  \<open>src/gui\<close>.  Values are read from the configuration store, which is an
  argument.  A panel identifier is the number of its enumerator.
\<close>

definition SETTINGS_MAX_PANELS :: nat where "SETTINGS_MAX_PANELS = 5"

abbreviation SETTINGS_PANEL_DISPLAY :: nat where "SETTINGS_PANEL_DISPLAY \<equiv> 0"
abbreviation SETTINGS_PANEL_AUDIO :: nat where "SETTINGS_PANEL_AUDIO \<equiv> 1"
abbreviation SETTINGS_PANEL_NETWORK :: nat where "SETTINGS_PANEL_NETWORK \<equiv> 2"
abbreviation SETTINGS_PANEL_USERS :: nat where "SETTINGS_PANEL_USERS \<equiv> 3"
abbreviation SETTINGS_PANEL_ABOUT :: nat where "SETTINGS_PANEL_ABOUT \<equiv> 4"

record settings_item =
  si_key :: string
  si_value :: "char list"

record settings_panel =
  sp_id :: nat
  sp_title :: string
  sp_item_count :: nat
  sp_items :: "settings_item list"

record settings_stats =
  ss_ready :: bool
  ss_active_panel :: nat
  ss_panel_count :: nat
  ss_render_count :: u32

record settings = desktop +
  sd_panels :: "settings_panel list"
  sd_active_panel :: nat
  sg_stats :: settings_stats
  sg_ready :: bool
  sg_panels :: "settings_panel list"

section \<open>Storage\<close>

definition panel_with :: "nat \<Rightarrow> string \<Rightarrow> string list \<Rightarrow> settings_panel" where
  "panel_with pid title keys =
     \<lparr>sp_id = pid, sp_title = title, sp_item_count = length keys,
      sp_items = map (\<lambda>k. \<lparr>si_key = k, si_value = zbuf 96\<rparr>) keys @
        replicate (8 - length keys) \<lparr>si_key = [], si_value = zbuf 96\<rparr>\<rparr>"

definition default_panels :: "settings_panel list" where
  "default_panels =
     [panel_with SETTINGS_PANEL_DISPLAY ''Display'' [''prompt'', ''editor_tabwidth'', ''loglevel''],
      panel_with SETTINGS_PANEL_AUDIO ''Audio'' [''audio_volume'', ''audio_mute''],
      panel_with SETTINGS_PANEL_NETWORK ''Network'' [''hostname'', ''dns_server''],
      panel_with SETTINGS_PANEL_USERS ''Users'' [''default_user'', ''guest_login''],
      panel_with SETTINGS_PANEL_ABOUT ''About'' [''os_name'', ''os_version'']]"

definition settings_copy_text :: "char list \<Rightarrow> char list option \<Rightarrow> char list" where
  "settings_copy_text dest src =
     (if length dest = 0 then dest
      else case src of None \<Rightarrow> dest[0 := NUL] | Some s \<Rightarrow> copy_text dest s)"

definition refresh_item :: "config \<Rightarrow> settings_item \<Rightarrow> settings_item" where
  "refresh_item c it =
     (let (r, value) = config_get (si_key it) (zbuf 96) c in
      if r = 0 then it\<lparr>si_value := settings_copy_text (si_value it) (Some value)\<rparr>
      else it\<lparr>si_value := (si_value it)[0 := NUL]\<rparr>)"

definition refresh_panel :: "config \<Rightarrow> settings_panel \<Rightarrow> settings_panel" where
  "refresh_panel c p = p\<lparr>sp_items := map (refresh_item c) (take (sp_item_count p) (sp_items p)) @
     drop (sp_item_count p) (sp_items p)\<rparr>"

definition settings_data_refresh_from_config :: "config \<Rightarrow> 'a settings_scheme \<Rightarrow> 'a settings_scheme" where
  "settings_data_refresh_from_config c g = g\<lparr>sd_panels := map (refresh_panel c) (sd_panels g)\<rparr>"

definition settings_data_apply_defaults :: "config \<Rightarrow> 'a settings_scheme \<Rightarrow> 'a settings_scheme" where
  "settings_data_apply_defaults c g = settings_data_refresh_from_config c (g\<lparr>sd_panels := default_panels\<rparr>)"

definition settings_data_init :: "config \<Rightarrow> 'a settings_scheme \<Rightarrow> 'a settings_scheme" where
  "settings_data_init c g =
     settings_data_apply_defaults c (g\<lparr>sd_active_panel := SETTINGS_PANEL_DISPLAY\<rparr>)"

definition settings_data_copy_panels :: "'a settings_scheme \<Rightarrow> nat \<Rightarrow> settings_panel list" where
  "settings_data_copy_panels g max_panels = take max_panels (sd_panels g)"

definition settings_data_active_panel :: "'a settings_scheme \<Rightarrow> settings_panel" where
  "settings_data_active_panel g = sd_panels g ! sd_active_panel g"

definition settings_data_set_active :: "nat \<Rightarrow> 'a settings_scheme \<Rightarrow> 'a settings_scheme" where
  "settings_data_set_active panel g =
     (if panel < SETTINGS_MAX_PANELS then g\<lparr>sd_active_panel := panel\<rparr> else g)"

definition settings_data_active :: "'a settings_scheme \<Rightarrow> nat" where
  "settings_data_active g = sd_active_panel g"

definition settings_panels_build :: "'a settings_scheme \<Rightarrow> nat \<Rightarrow> settings_panel list" where
  "settings_panels_build g max_panels = settings_data_copy_panels g max_panels"

section \<open>Widgets\<close>

definition SETTINGS_BG :: u32 where "SETTINGS_BG = 0xFF112233"
definition SETTINGS_SIDEBAR :: u32 where "SETTINGS_SIDEBAR = 0xFF1E2A38"
definition SETTINGS_PANEL_BG :: u32 where "SETTINGS_PANEL_BG = 0xFF243447"
definition SETTINGS_BORDER :: u32 where "SETTINGS_BORDER = 0xFF0B1320"
definition SETTINGS_ACCENT :: u32 where "SETTINGS_ACCENT = 0xFF4C78A8"
definition SETTINGS_HILITE :: u32 where "SETTINGS_HILITE = 0xFFF4A261"
definition SETTINGS_TEXT_BOX :: u32 where "SETTINGS_TEXT_BOX = 0xFFE9ECEF"

definition settings_ui_draw_frame :: "u32 \<Rightarrow> u32 \<Rightarrow> u32 \<Rightarrow> u32 \<Rightarrow> 'a fb_scheme \<Rightarrow> 'a fb_scheme" where
  "settings_ui_draw_frame x y w h g =
     (let g1 = fb_rect x y w h SETTINGS_BORDER g in
      if w > 2 \<and> h > 2 then fb_rect (x + 1) (y + 1) (w - 2) (h - 2) SETTINGS_BG g1 else g1)"

definition settings_ui_draw_sidebar :: "u32 \<Rightarrow> u32 \<Rightarrow> u32 \<Rightarrow> u32 \<Rightarrow> 'a fb_scheme \<Rightarrow> 'a fb_scheme" where
  "settings_ui_draw_sidebar x y w h g =
     (let bw = (if w > 12 then w - 12 else w) in
      fold (\<lambda>(dy, color). fb_rect (x + 6) (y + dy) bw 18 color)
        [(8, SETTINGS_ACCENT), (34, SETTINGS_HILITE), (60, SETTINGS_ACCENT), (86, SETTINGS_HILITE),
         (112, SETTINGS_ACCENT)]
        (fb_rect x y w h SETTINGS_SIDEBAR g))"

definition draw_item :: "u32 \<Rightarrow> u32 \<Rightarrow> u32 \<Rightarrow> nat \<times> settings_item \<Rightarrow> 'a fb_scheme \<Rightarrow> 'a fb_scheme" where
  "draw_item x y w = (\<lambda>(i, it) g.
     (let row_y = y + 16 + of_nat i * 24;
          g1 = fb_rect (x + 16) row_y (if w > 32 then w - 32 else w) 16 SETTINGS_TEXT_BOX g
      in if cget (si_value it) 0 \<noteq> NUL then fb_rect (x + 20) (row_y + 4) 8 8 SETTINGS_ACCENT g1 else g1))"

definition settings_ui_draw_panel :: "settings_panel \<Rightarrow> u32 \<Rightarrow> u32 \<Rightarrow> u32 \<Rightarrow> u32 \<Rightarrow> 'a fb_scheme \<Rightarrow> 'a fb_scheme" where
  "settings_ui_draw_panel panel x y w h g =
     fold (draw_item x y w) (zip [0..<sp_item_count panel] (sp_items panel)) (fb_rect x y w h SETTINGS_PANEL_BG g)"

section \<open>The application\<close>

definition SETTINGS_VIEW_X :: u32 where "SETTINGS_VIEW_X = 24"
definition SETTINGS_VIEW_Y :: u32 where "SETTINGS_VIEW_Y = 24"
definition SETTINGS_VIEW_W :: u32 where "SETTINGS_VIEW_W = 720"
definition SETTINGS_VIEW_H :: u32 where "SETTINGS_VIEW_H = 500"
definition SETTINGS_SIDEBAR_W :: u32 where "SETTINGS_SIDEBAR_W = 180"

definition settings_copy_panels :: "'a settings_scheme \<Rightarrow> nat \<Rightarrow> settings_panel list" where
  "settings_copy_panels g max_panels = settings_data_copy_panels g max_panels"

definition settings_refresh_stats :: "'a settings_scheme \<Rightarrow> 'a settings_scheme" where
  "settings_refresh_stats g =
     (let ps = settings_copy_panels g SETTINGS_MAX_PANELS in
      g\<lparr>sg_panels := ps, sg_stats := (sg_stats g)\<lparr>ss_ready := sg_ready g,
          ss_active_panel := settings_data_active g, ss_panel_count := length ps\<rparr>\<rparr>)"

definition settings_refresh_from_config :: "config \<Rightarrow> 'a settings_scheme \<Rightarrow> 'a settings_scheme" where
  "settings_refresh_from_config c g = settings_refresh_stats (settings_data_refresh_from_config c g)"

definition settings_apply_defaults :: "config \<Rightarrow> 'a settings_scheme \<Rightarrow> 'a settings_scheme" where
  "settings_apply_defaults c g = settings_refresh_stats (settings_data_apply_defaults c g)"

definition settings_init :: "config \<Rightarrow> 'a settings_scheme \<Rightarrow> 'a settings_scheme" where
  "settings_init c g =
     settings_refresh_stats (settings_refresh_from_config c (settings_data_init c
       (g\<lparr>sg_ready := True, sg_stats := (sg_stats g)\<lparr>ss_render_count := 0\<rparr>\<rparr>)))"

definition settings_ready :: "'a settings_scheme \<Rightarrow> bool" where
  "settings_ready g = sg_ready g"

definition settings_show_panel :: "nat \<Rightarrow> 'a settings_scheme \<Rightarrow> 'a settings_scheme" where
  "settings_show_panel panel g = settings_refresh_stats (settings_data_set_active panel g)"

definition settings_render :: "'a settings_scheme \<Rightarrow> 'a settings_scheme" where
  "settings_render g =
     (if \<not> sg_ready g \<or> \<not> fb_ready g then g
      else let panel_h = SETTINGS_VIEW_H - 2;
               g1 = settings_ui_draw_frame SETTINGS_VIEW_X SETTINGS_VIEW_Y SETTINGS_VIEW_W SETTINGS_VIEW_H g;
               g2 = settings_ui_draw_sidebar (SETTINGS_VIEW_X + 1) (SETTINGS_VIEW_Y + 1) SETTINGS_SIDEBAR_W panel_h g1;
               g3 = settings_ui_draw_panel (settings_data_active_panel g2)
                      (SETTINGS_VIEW_X + SETTINGS_SIDEBAR_W + 1) (SETTINGS_VIEW_Y + 1)
                      (SETTINGS_VIEW_W - SETTINGS_SIDEBAR_W - 2) panel_h g2
           in settings_refresh_stats
                (g3\<lparr>sg_stats := (sg_stats g3)\<lparr>ss_render_count := ss_render_count (sg_stats g3) + 1\<rparr>\<rparr>))"

definition settings_get_stats :: "'a settings_scheme \<Rightarrow> settings_stats" where
  "settings_get_stats g = sg_stats g"

end
