(* ===== verification/FilesView.thy ===== *)
theory FilesView
  imports Settings Fs
begin

text \<open>
  The graphical file explorer \<open>src/gui/files.c\<close>, which draws the directory of
  the file system as tiles.  The file system is an argument.
\<close>

definition FILES_BG :: u32 where "FILES_BG = 0xFF172A3A"
definition FILES_PANEL_BG :: u32 where "FILES_PANEL_BG = 0xFF1F3245"
definition FILES_TILE_BG :: u32 where "FILES_TILE_BG = 0xFF2A3E52"
definition FILES_TILE_SEL :: u32 where "FILES_TILE_SEL = 0xFFF4A261"
definition FILES_TILE_HEAD :: u32 where "FILES_TILE_HEAD = 0xFF4C78A8"
definition FILES_STATUS_BG :: u32 where "FILES_STATUS_BG = 0xFF10151F"
definition FILES_MAX_SHOW :: nat where "FILES_MAX_SHOW = 16"
definition FILES_MARGIN :: u32 where "FILES_MARGIN = 20"
definition FILES_TILE_W :: u32 where "FILES_TILE_W = 92"
definition FILES_TILE_H :: u32 where "FILES_TILE_H = 76"
definition FILES_TILE_GAP :: u32 where "FILES_TILE_GAP = 14"
definition FILES_HEADER_H :: u32 where "FILES_HEADER_H = 28"
definition FILES_STATUS_H :: u32 where "FILES_STATUS_H = 24"

record files_stats =
  fv_ready :: bool
  fv_render_count :: u32
  fv_file_count :: nat
  fv_selected_index :: nat

record files_view = settings +
  fv_stats :: files_stats
  fv_initialised :: bool

definition files_draw_tile :: "u32 \<Rightarrow> u32 \<Rightarrow> u32 \<Rightarrow> bool \<Rightarrow> 'a fb_scheme \<Rightarrow> 'a fb_scheme" where
  "files_draw_tile x y color selected g =
     (let frame = (if selected then FILES_TILE_SEL else FILES_TILE_HEAD);
          g1 = fb_rect x y FILES_TILE_W FILES_TILE_H frame g;
          g2 = fb_rect (x + 4) (y + 4) (FILES_TILE_W - 8) (FILES_TILE_H - 8) color g1
      in fb_rect (x + 26) (y + 20) 20 20 0xFFE9ECEF g2)"

definition files_init :: "fs \<Rightarrow> 'a files_view_scheme \<Rightarrow> 'a files_view_scheme" where
  "files_init f g = g\<lparr>fv_initialised := True,
     fv_stats := \<lparr>fv_ready = fs_mounted f, fv_render_count = 0, fv_file_count = 0, fv_selected_index = 0\<rparr>\<rparr>"

definition files_ready :: "fs \<Rightarrow> 'a files_view_scheme \<Rightarrow> bool" where
  "files_ready f g \<longleftrightarrow> fv_initialised g \<and> fs_mounted f"

text \<open>A tile and the place of the next one.\<close>

definition tile_step :: "u32 \<Rightarrow> nat \<Rightarrow> nat \<times> fs_file_entry \<Rightarrow> u32 \<times> u32 \<times> 'a fb_scheme \<Rightarrow> u32 \<times> u32 \<times> 'a fb_scheme" where
  "tile_step screen_w selected = (\<lambda>(i, e) (x, y, g).
     (let g1 = files_draw_tile x y (if c_used e \<noteq> 0 then FILES_TILE_BG else FILES_STATUS_BG) (i = selected) g;
          x' = x + (FILES_TILE_W + FILES_TILE_GAP)
      in if x' + FILES_TILE_W > screen_w - FILES_MARGIN
         then (FILES_MARGIN + FILES_TILE_GAP, y + (FILES_TILE_H + FILES_TILE_GAP), g1)
         else (x', y, g1)))"

definition files_render :: "fs \<Rightarrow> 'a files_view_scheme \<Rightarrow> 'a files_view_scheme" where
  "files_render f g =
     (if \<not> files_ready f g then g
      else let screen_w = fi_width (fb_get_info g); screen_h = fi_height (fb_get_info g);
               g1 = fb_rect 0 0 screen_w screen_h FILES_BG g;
               g2 = fb_rect FILES_MARGIN FILES_MARGIN (screen_w - FILES_MARGIN * 2) (screen_h - FILES_MARGIN * 2)
                      FILES_PANEL_BG g1;
               g3 = fb_rect FILES_MARGIN FILES_MARGIN (screen_w - FILES_MARGIN * 2) FILES_HEADER_H FILES_TILE_HEAD g2;
               files = take FILES_MAX_SHOW (fs_list_files f FS_FILES_MAX);
               (x, y, g4) = fold (tile_step screen_w (fv_selected_index (fv_stats g3)))
                      (zip [0..<length files] files)
                      (FILES_MARGIN + FILES_TILE_GAP, FILES_MARGIN + FILES_HEADER_H + FILES_TILE_GAP, g3);
               g5 = fb_rect FILES_MARGIN (screen_h - FILES_MARGIN - FILES_STATUS_H) (screen_w - FILES_MARGIN * 2)
                      FILES_STATUS_H FILES_STATUS_BG g4
           in g5\<lparr>fv_stats := (fv_stats g5)\<lparr>fv_file_count := length files,
                fv_render_count := fv_render_count (fv_stats g5) + 1\<rparr>\<rparr>)"

definition files_get_stats :: "'a files_view_scheme \<Rightarrow> files_stats" where
  "files_get_stats g = fv_stats g"

section \<open>What does not fit on the screen\<close>

text \<open>
  A rectangle past the right or lower edge is refused as a whole, so on the
  320 by 200 screen the frame and the background of the settings window and the
  cell of the fourth icon of a row are not painted at all.
\<close>

lemma wide_rect_refused: "fb_ok g \<Longrightarrow> fi_width (fb_state g) < x + w \<Longrightarrow> fb_rect x y w h color g = g"
  by (auto simp: fb_rect_def fb_fill_rect_def Let_def fb_ok_def)

lemma settings_frame_refused:
  "fb_ok g \<Longrightarrow> settings_ui_draw_frame SETTINGS_VIEW_X SETTINGS_VIEW_Y SETTINGS_VIEW_W SETTINGS_VIEW_H g = g"
  by (simp add: settings_ui_draw_frame_def SETTINGS_VIEW_X_def SETTINGS_VIEW_W_def SETTINGS_VIEW_Y_def
      SETTINGS_VIEW_H_def wide_rect_refused fb_ok_def)

lemma fourth_icon_refused:
  assumes "fb_ok g" and "count mod 4 = 3"
  shows "fb_rect (i_x (new_icon icn count label cmd color)) y ICON_CELL_W ICON_CELL_H frame g = g"
  using assms by (intro wide_rect_refused)
    (simp_all add: new_icon_def ICON_PAD_def ICON_CELL_W_def fb_ok_def)

end
