(* ===== verification/GuiInv.thy ===== *)
theory GuiInv
  imports FilesView
begin

text \<open>
  The tables of the graphical modules together: the framebuffer, the windows,
  the buttons, the menus, the icons and the settings panels.  Identifiers are
  given out in sequence in each of them; the invariant below says that the
  counters agree with the tables, and every demonstration and every
  initialisation keeps or establishes it.
\<close>

section \<open>Tables whose identifiers are given out in sequence\<close>

definition issued :: "('e \<Rightarrow> bool) \<Rightarrow> ('e \<Rightarrow> u32) \<Rightarrow> nat \<Rightarrow> 'e list \<Rightarrow> nat \<Rightarrow> u32 \<Rightarrow> bool" where
  "issued live key room es count next_id \<longleftrightarrow>
     length es = room \<and> keys_distinct live key es \<and> count = count_used live es \<and> unat next_id = count + 1 \<and>
     (\<forall>e \<in> set es. live e \<longrightarrow> 0 < unat (key e) \<and> unat (key e) \<le> count)"

lemma issued_none:
  assumes "\<not> live e"
  shows "issued live key n (replicate n e) 0 1"
  using assms by (simp add: issued_def count_used_def keys_distinct_none_live)

lemma issued_insert:
  assumes ok: "issued live key room es count next_id" and free: "first_index (\<lambda>e. \<not> live e) es = Some i"
    and e: "live e" "key e = next_id" and room: "room < 2 ^ 31"
  shows "issued live key room (es[i := e]) (count + 1) (next_id + 1)"
proof -
  have i: "i < length es" "\<not> live (es ! i)" using first_indexD [OF free] by simp_all
  have ids: "\<forall>v \<in> set es. live v \<longrightarrow> 0 < unat (key v) \<and> unat (key v) \<le> count" and nid: "unat next_id = count + 1"
    and cnt: "count = count_used live es" and len: "length es = room"
    using ok unfolding issued_def by blast+
  have "count < room" using count_used_lt_if_free [OF free] cnt len by simp
  then have "unat (next_id + 1) = count + 2" using nid room by (simp add: unat_word_ariths)
  moreover have "key v \<noteq> key e" if "v \<in> set es" "live v" for v
    using ids that nid e by fastforce
  then have "keys_distinct live key (es[i := e])"
    using ok by (intro keys_distinct_update) (simp_all add: issued_def)
  moreover have "count_used live (es[i := e]) = count + 1"
    using count_used_update [OF i(1), of live e] i e cnt by simp
  moreover have "0 < unat (key v) \<and> unat (key v) \<le> count + 1" if "v \<in> set (es[i := e])" "live v" for v
  proof -
    have "v = e \<or> v \<in> set es" using that(1) set_update_subset_insert by fastforce
    then show ?thesis using ids that(2) nid e by auto
  qed
  ultimately show ?thesis using len by (simp add: issued_def)
qed

lemma issued_update:
  assumes ok: "issued live key room es count next_id" and i: "i < length es" "live (es ! i)"
    and e: "live e" "key e = key (es ! i)"
  shows "issued live key room (es[i := e]) count next_id"
proof -
  have d: "keys_distinct live key es" using ok by (simp add: issued_def)
  have "keys_distinct live key (es[i := e])"
    using keys_distinctD [OF d _ i(1) _ i(2)] d e by (intro keys_distinct_update) auto
  moreover have "count_used live (es[i := e]) = count_used live es"
    using count_used_update [OF i(1), of live e] i e by simp
  moreover have "0 < unat (key v) \<and> unat (key v) \<le> count" if "v \<in> set (es[i := e])" "live v" for v
  proof -
    have "v = e \<or> v \<in> set es" using that(1) set_update_subset_insert by fastforce
    then show ?thesis using ok that(2) e i by (auto simp: issued_def)
  qed
  ultimately show ?thesis using ok by (simp add: issued_def)
qed

section \<open>The invariants of the modules\<close>

definition buttons_ok :: "'a btn_scheme \<Rightarrow> bool" where
  "buttons_ok g \<longleftrightarrow> issued b_used b_id BTN_MAX_BUTTONS (btn_buttons g) (btn_button_count (btn_state g))
     (btn_next_button_id (btn_state g))"

definition menus_ok :: "'a menu_scheme \<Rightarrow> bool" where
  "menus_ok g \<longleftrightarrow> issued m_used m_id MENU_MAX_MENUS (menu_items g) (menu_menu_count (menu_state g))
     (menu_next_menu_id (menu_state g)) \<and>
     (\<forall>m \<in> set (menu_items g). m_item_count m \<le> MENU_ITEM_MAX \<and> length (m_items m) = MENU_ITEM_MAX)"

definition icons_ok :: "'a icons_scheme \<Rightarrow> bool" where
  "icons_ok g \<longleftrightarrow> issued i_used i_id ICONS_MAX_ICONS (icons_table g) (icon_icon_count (icon_state g))
     (icon_next_icon_id (icon_state g))"

definition panels_ok :: "'a settings_scheme \<Rightarrow> bool" where
  "panels_ok g \<longleftrightarrow> length (sd_panels g) = SETTINGS_MAX_PANELS \<and> sd_active_panel g < SETTINGS_MAX_PANELS \<and>
     length (sg_panels g) = SETTINGS_MAX_PANELS"

text \<open>The tables of the control layers, and all of them.\<close>

definition controls_ok :: "'a menu_scheme \<Rightarrow> bool" where
  "controls_ok g \<longleftrightarrow> fb_ok g \<and> wm_ok g \<and> buttons_ok g \<and> menus_ok g"

definition gui_ok :: "'a settings_scheme \<Rightarrow> bool" where
  "gui_ok g \<longleftrightarrow> controls_ok g \<and> icons_ok g \<and> panels_ok g"

section \<open>Painting\<close>

lemma repainted_more: "repainted g g' \<Longrightarrow> wm.more g' = wm.more g" for g g' :: "'a wm_scheme"
  by (auto simp: repainted_def)

lemma repainted_fb_ok: "repainted g g' \<Longrightarrow> fb_ok g \<Longrightarrow> fb_ok g'"
  by (auto simp: repainted_def fb_ok_def)

text \<open>What the modules above the window manager keep is beyond its own fields.\<close>

lemma more_buttons: "wm.more g' = wm.more g \<Longrightarrow> buttons_ok g' = buttons_ok g" for g g' :: "'a btn_scheme"
  by (cases g; cases g') (simp add: buttons_ok_def)

lemma more_menus: "wm.more g' = wm.more g \<Longrightarrow> menus_ok g' = menus_ok g" for g g' :: "'a menu_scheme"
  by (cases g; cases g') (simp add: menus_ok_def)

lemma more_icons: "wm.more g' = wm.more g \<Longrightarrow> icons_ok g' = icons_ok g" for g g' :: "'a icons_scheme"
  by (cases g; cases g') (simp add: icons_ok_def)

lemma more_panels: "wm.more g' = wm.more g \<Longrightarrow> panels_ok g' = panels_ok g" for g g' :: "'a settings_scheme"
  by (cases g; cases g') (simp add: panels_ok_def)

lemma controls_more:
  assumes "controls_ok g" "fb_ok g'" "wm_ok g'" "wm.more g' = wm.more g"
  shows "controls_ok g'"
  using assms(1-3) more_buttons [OF assms(4)] more_menus [OF assms(4)] by (simp only: controls_ok_def)

lemma gui_more:
  assumes "gui_ok g" "fb_ok g'" "wm_ok g'" "wm.more g' = wm.more g"
  shows "gui_ok g'"
  using assms(1) controls_more [OF _ assms(2-4)] more_icons [OF assms(4)] more_panels [OF assms(4)]
  by (simp only: gui_ok_def)

lemma controls_repainted:
  assumes "repainted g g'" "controls_ok g"
  shows "controls_ok g'"
  by (rule controls_more [OF assms(2) repainted_fb_ok [OF assms(1)] wm_ok_repainted [OF assms(1)] repainted_more [OF assms(1)]])
     (use assms(2) in \<open>simp_all only: controls_ok_def\<close>)

lemma gui_repainted:
  assumes "repainted g g'" "gui_ok g"
  shows "gui_ok g'"
  by (rule gui_more [OF assms(2) repainted_fb_ok [OF assms(1)] wm_ok_repainted [OF assms(1)] repainted_more [OF assms(1)]])
     (use assms(2) in \<open>simp_all only: gui_ok_def controls_ok_def\<close>)

lemma repainted_pattern: "repainted g (fb_demo_pattern g)"
proof -
  have "repainted g (fold (demo_tile 20 y) xs g)" for y xs and g :: "'a fb_scheme"
    by (rule repainted_fold) (simp add: demo_tile_def Let_def repainted_rect)
  then have "repainted g (fold (\<lambda>y. fold (demo_tile 20 y) xs) ys g)" for xs ys and g :: "'a fb_scheme"
    by (rule repainted_fold)
  then have "repainted g (fold (\<lambda>y. fold (demo_tile 20 y) xs) ys (fb_clear color g))" for xs ys color
    by (rule repainted_trans [OF repainted_clear])
  then show ?thesis by (simp add: fb_demo_pattern_def Let_def repainted_step)
qed

lemma repainted_btn_render: "repainted g (btn_render g)"
  unfolding btn_render_def by (rule repainted_fold) (simp add: repainted_button)

lemma repainted_menu: "repainted g (menu_draw_one m g)"
  by (simp add: menu_draw_one_def Let_def repainted_rect repainted_step)

lemma repainted_menu_render: "repainted g (menu_render g)"
  by (simp add: menu_render_def repainted_fold repainted_menu)

lemma repainted_label: "repainted g g' \<Longrightarrow> repainted g (draw_label x y label g')"
  by (simp add: draw_label_def repainted_step)

lemma repainted_icons_render: "repainted g (icons_render g)"
proof -
  have "repainted g (draw_icon i x y g)" for i x y and g :: "'a icons_scheme"
    by (simp add: draw_icon_def Let_def repainted_label repainted_step repainted_rect)
  then show ?thesis by (simp add: icons_render_def repainted_fold)
qed

lemma repainted_frame: "repainted g (settings_ui_draw_frame x y w h g)"
  by (simp add: settings_ui_draw_frame_def Let_def repainted_rect repainted_step)

lemma repainted_sidebar: "repainted g (settings_ui_draw_sidebar x y w h g)"
  by (simp add: settings_ui_draw_sidebar_def Let_def repainted_rect repainted_step)

lemma repainted_panel: "repainted g (settings_ui_draw_panel p x y w h g)"
proof -
  have "repainted g (draw_item x y w i g)" for i and g :: "'a fb_scheme"
    by (cases i) (simp add: draw_item_def Let_def repainted_rect repainted_step)
  then show ?thesis
    unfolding settings_ui_draw_panel_def
    by (rule repainted_trans [OF repainted_rect repainted_fold])
qed

lemma repainted_tiles:
  "repainted g (snd (snd (fold (tile_step w sel) is (x, y, g))))"
proof (induction "is" arbitrary: x y g)
  case (Cons i "is")
  obtain n e where i: "i = (n, e)" by (cases i)
  obtain x' y' g' where t: "tile_step w sel i (x, y, g) = (x', y', g')" by (metis prod_cases3)
  have "repainted g (files_draw_tile x y c s g)" for c s
    by (simp add: files_draw_tile_def Let_def repainted_rect repainted_step)
  then have "repainted g g'" using t i by (auto simp: tile_step_def Let_def split: if_splits)
  then show ?case using Cons t repainted_trans by simp blast
qed simp

section \<open>Windows\<close>

lemma create_window_more: "wm.more (snd (wm_create_window title x y width height g)) = wm.more g"
  by (simp add: wm_create_window_def Let_def split: option.split)

lemma create_window_fb: "fb_ok g \<Longrightarrow> fb_ok (snd (wm_create_window title x y width height g))"
  by (simp add: wm_create_window_def Let_def fb_ok_def split: option.split)

lemma wm_demo_more: "wm.more (wm_demo_layout g) = wm.more g"
  by (simp add: wm_demo_layout_def Let_def repainted_more [OF repainted_render] create_window_more)
     (simp add: wm_init_def)

lemma wm_demo_fb: "fb_ok g \<Longrightarrow> fb_ok (wm_demo_layout g)"
proof -
  assume "fb_ok g"
  then have g: "fb_ok (wm_init g)" by (simp add: wm_init_def fb_ok_def)
  have r: "fb_ok (wm_render g)" if "fb_ok g" for g :: "'a wm_scheme"
    using repainted_fb_ok [OF repainted_render that] .
  have s: "fb_ok (g\<lparr>wm_state := st\<rparr>)" if "fb_ok g" for g :: "'a wm_scheme" and st
    using that by (simp add: fb_ok_def)
  show ?thesis using g by (auto simp: wm_demo_layout_def Let_def intro!: r s create_window_fb)
qed

lemma create_window_controls: "controls_ok g \<Longrightarrow> controls_ok (snd (wm_create_window title x y width height g))"
  by (rule controls_more [of g])
     (simp_all add: create_window_more create_window_fb create_window_ok controls_ok_def)

lemma wm_demo_controls: "controls_ok g \<Longrightarrow> controls_ok (wm_demo_layout g)"
  by (rule controls_more [of g]) (simp_all add: wm_demo_more wm_demo_fb demo_ok controls_ok_def)

lemma wm_demo_gui: "gui_ok g \<Longrightarrow> gui_ok (wm_demo_layout g)"
  by (rule gui_more [of g]) (simp_all add: wm_demo_more wm_demo_fb demo_ok controls_ok_def gui_ok_def)

section \<open>Buttons and menus\<close>

text \<open>A module's update of its own fields is no concern of the others.\<close>

lemma own_fields [simp]:
  "fb_ok (g\<lparr>btn_buttons := bs, btn_state := bt\<rparr>) = fb_ok g" "wm_ok (g\<lparr>btn_buttons := bs, btn_state := bt\<rparr>) = wm_ok g"
  "menus_ok (m\<lparr>btn_buttons := bs, btn_state := bt\<rparr>) = menus_ok m"
  "fb_ok (m\<lparr>menu_items := ms\<rparr>) = fb_ok m" "wm_ok (m\<lparr>menu_items := ms\<rparr>) = wm_ok m"
  "buttons_ok (m\<lparr>menu_items := ms\<rparr>) = buttons_ok m"
  "fb_ok (m\<lparr>menu_state := mt\<rparr>) = fb_ok m" "wm_ok (m\<lparr>menu_state := mt\<rparr>) = wm_ok m"
  "buttons_ok (m\<lparr>menu_state := mt\<rparr>) = buttons_ok m"
  for g :: "'a btn_scheme" and m :: "'b menu_scheme"
  by (simp_all add: fb_ok_def wm_ok_def menus_ok_def buttons_ok_def)

lemma above_fields [simp]:
  "icons_ok (g\<lparr>btn_buttons := bs, btn_state := bt\<rparr>) = icons_ok g"
  "panels_ok (p\<lparr>btn_buttons := bs, btn_state := bt\<rparr>) = panels_ok p"
  "icons_ok (g\<lparr>menu_items := ms\<rparr>) = icons_ok g" "icons_ok (g\<lparr>menu_state := mt\<rparr>) = icons_ok g"
  "panels_ok (p\<lparr>menu_items := ms\<rparr>) = panels_ok p" "panels_ok (p\<lparr>menu_state := mt\<rparr>) = panels_ok p"
  for g :: "'a icons_scheme" and p :: "'b settings_scheme"
  by (simp_all add: icons_ok_def panels_ok_def)

lemma btn_init_ok: "fb_ok g \<Longrightarrow> wm_ok g \<Longrightarrow> fb_ok (btn_init g) \<and> wm_ok (btn_init g) \<and> buttons_ok (btn_init g)"
  using issued_none [of b_used zero_button b_id BTN_MAX_BUTTONS]
  by (simp add: btn_init_def) (simp add: buttons_ok_def zero_button_def)

lemma btn_create_cases:
  obtains "btn_create win label x y w h g = (0, g)"
  | i e where "btn_create win label x y w h g = (btn_next_button_id (btn_state g),
        g\<lparr>btn_buttons := (btn_buttons g)[i := e], btn_state := (btn_state g)\<lparr>
           btn_next_button_id := btn_next_button_id (btn_state g) + 1,
           btn_button_count := btn_button_count (btn_state g) + 1\<rparr>\<rparr>)"
      "first_index (\<lambda>b. \<not> b_used b) (btn_buttons g) = Some i" "b_used e" "b_id e = btn_next_button_id (btn_state g)"
  using new_button_def [of "btn_next_button_id (btn_state g)" win label x y w h]
  by (cases "\<not> wm_ready g \<or> \<not> fb_ready g \<or> w < 12 \<or> h < 12"; cases "first_index (\<lambda>b. \<not> b_used b) (btn_buttons g)")
     (simp_all add: btn_create_def Let_def)

lemma btn_create_ok: "buttons_ok g \<Longrightarrow> buttons_ok (snd (btn_create win label x y w h g))"
proof (cases rule: btn_create_cases [of win label x y w h g])
  case (2 i e)
  then show "buttons_ok g \<Longrightarrow> ?thesis"
    using issued_insert [where live = b_used and key = b_id, OF _ 2(2-4)] by (simp add: buttons_ok_def BTN_MAX_BUTTONS_def)
qed simp

lemma btn_create_controls: "controls_ok g \<Longrightarrow> controls_ok (snd (btn_create win label x y w h g))"
  using btn_create_ok [of g win label x y w h]
  by (cases rule: btn_create_cases [of win label x y w h g]) (simp_all add: controls_ok_def)

lemma btn_create_gui: "gui_ok g \<Longrightarrow> gui_ok (snd (btn_create win label x y w h g))"
  using btn_create_controls [of g win label x y w h]
  by (cases rule: btn_create_cases [of win label x y w h g]) (simp_all add: gui_ok_def)

lemma btn_pressed_cases:
  obtains "btn_set_pressed bid p g = (-1, g)"
  | i t where "btn_set_pressed bid p g = (0, g\<lparr>btn_buttons := (btn_buttons g)[i := (btn_buttons g ! i)\<lparr>b_pressed := p\<rparr>],
        btn_state := (btn_state g)\<lparr>btn_pressed_button_id := t\<rparr>\<rparr>)" "i < length (btn_buttons g)" "b_used (btn_buttons g ! i)"
  using first_indexD [of "\<lambda>b. b_used b \<and> b_id b = bid" "btn_buttons g"]
  by (cases "btn_find (btn_buttons g) bid") (auto simp: btn_set_pressed_def btn_find_def)

lemma btn_pressed_ok: "buttons_ok g \<Longrightarrow> buttons_ok (snd (btn_set_pressed bid p g))"
proof (cases rule: btn_pressed_cases [of bid p g])
  case (2 i t)
  then show "buttons_ok g \<Longrightarrow> ?thesis"
    using issued_update [where live = b_used and key = b_id and e = "(btn_buttons g ! i)\<lparr>b_pressed := p\<rparr>", OF _ 2(2,3)] by (simp add: buttons_ok_def)
qed simp

lemma btn_pressed_controls: "controls_ok g \<Longrightarrow> controls_ok (snd (btn_set_pressed bid p g))"
  using btn_pressed_ok [of g bid p]
  by (cases rule: btn_pressed_cases [of bid p g]) (simp_all add: controls_ok_def)

lemma btn_pressed_gui: "gui_ok g \<Longrightarrow> gui_ok (snd (btn_set_pressed bid p g))"
  using btn_pressed_controls [of g bid p]
  by (cases rule: btn_pressed_cases [of bid p g]) (simp_all add: gui_ok_def)

lemma menu_init_controls: "fb_ok g \<Longrightarrow> wm_ok g \<Longrightarrow> buttons_ok g \<Longrightarrow> controls_ok (menu_init g)"
  using issued_none [of m_used zero_menu m_id MENU_MAX_MENUS]
  by (simp add: controls_ok_def menu_init_def fb_ok_def wm_ok_def buttons_ok_def menus_ok_def zero_menu_def)

lemma menu_create_ok: "menus_ok g \<Longrightarrow> menus_ok (snd (menu_create win title x y w g))"
proof -
  assume ok: "menus_ok g"
  let ?e = "new_menu (menu_next_menu_id (menu_state g)) win title x y w"
  have e: "m_used ?e" "m_id ?e = menu_next_menu_id (menu_state g)" "m_item_count ?e = 0" "length (m_items ?e) = MENU_ITEM_MAX"
    by (simp_all add: new_menu_def zero_menu_def)
  show ?thesis
  proof (cases "first_index (\<lambda>m. \<not> m_used m) (menu_items g)")
    case (Some i)
    then show ?thesis
      using ok e issued_insert [where live = m_used and key = m_id, OF _ Some e(1,2)] set_update_subset_insert [of "menu_items g" i ?e]
      by (auto simp: menus_ok_def menu_create_def Let_def MENU_MAX_MENUS_def)
  qed (use ok in \<open>simp add: menu_create_def\<close>)
qed

lemma menu_create_controls: "controls_ok g \<Longrightarrow> controls_ok (snd (menu_create win title x y w g))"
  using menu_create_ok [of g win title x y w]
  by (auto simp: controls_ok_def menu_create_def Let_def split: option.split)

lemma menu_create_above:
  "icons_ok g \<Longrightarrow> icons_ok (snd (menu_create win title x y w g))"
  "panels_ok p \<Longrightarrow> panels_ok (snd (menu_create win title x y w p))"
  by (auto simp: menu_create_def Let_def split: option.split)

lemma menu_add_item_ok: "menus_ok g \<Longrightarrow> menus_ok (snd (menu_add_item mid label action g))"
proof -
  assume ok: "menus_ok g"
  show ?thesis
  proof (cases "menu_find (menu_items g) mid")
    case (Some i)
    have i: "i < length (menu_items g)" "m_used (menu_items g ! i)"
      using first_indexD [OF Some [unfolded menu_find_def]] by simp_all
    let ?m = "menu_items g ! i"
    have m: "length (m_items ?m) = MENU_ITEM_MAX" using ok i by (simp add: menus_ok_def)
    have "menus_ok (g\<lparr>menu_items := (menu_items g)[i := ?m\<lparr>m_items := (m_items ?m)[k := e], m_item_count := k + 1\<rparr>]\<rparr>)"
      if "k < MENU_ITEM_MAX" for k e
    proof -
      let ?e = "?m\<lparr>m_items := (m_items ?m)[k := e], m_item_count := k + 1\<rparr>"
      show ?thesis
        using ok issued_update [where live = m_used and key = m_id and e = ?e, OF _ i] i(2) m that set_update_subset_insert [of "menu_items g" i ?e]
        by (auto simp: menus_ok_def)
    qed
    then show ?thesis using Some ok by (simp add: menu_add_item_def Let_def)
  qed (use ok in \<open>simp add: menu_add_item_def\<close>)
qed

lemma menu_add_item_controls: "controls_ok g \<Longrightarrow> controls_ok (snd (menu_add_item mid label action g))"
  using menu_add_item_ok [of g mid label action]
  by (auto simp: controls_ok_def menu_add_item_def Let_def split: option.split)

lemma menu_add_item_above:
  "icons_ok g \<Longrightarrow> icons_ok (snd (menu_add_item mid label action g))"
  "panels_ok p \<Longrightarrow> panels_ok (snd (menu_add_item mid label action p))"
  by (auto simp: menu_add_item_def Let_def split: option.split)

lemma menu_gui:
  "gui_ok g \<Longrightarrow> gui_ok (snd (menu_create win title x y w g))"
  "gui_ok g \<Longrightarrow> gui_ok (snd (menu_add_item mid label action g))"
  by (simp_all add: gui_ok_def menu_create_controls menu_create_above menu_add_item_controls menu_add_item_above)

section \<open>Icons, the desktop and the applications\<close>

lemma icons_init_ok: "controls_ok g \<Longrightarrow> controls_ok (icons_init g) \<and> icons_ok (icons_init g)"
  using issued_none [of i_used zero_icon i_id ICONS_MAX_ICONS]
  by (simp add: icons_init_def controls_ok_def fb_ok_def wm_ok_def buttons_ok_def menus_ok_def icons_ok_def zero_icon_def)

lemma icons_add_keeps:
  "controls_ok g \<Longrightarrow> controls_ok (snd (icons_add label cmd color g))"
  "icons_ok g \<Longrightarrow> icons_ok (snd (icons_add label cmd color g))"
proof -
  have "controls_ok (g\<lparr>icons_table := t, icon_state := st\<rparr>) = controls_ok g" for t st
    by (simp add: controls_ok_def fb_ok_def wm_ok_def buttons_ok_def menus_ok_def)
  then show "controls_ok g \<Longrightarrow> controls_ok (snd (icons_add label cmd color g))"
    by (simp add: icons_add_def Let_def split: option.split)
  assume ok: "icons_ok g"
  let ?e = "new_icon (icon_next_icon_id (icon_state g)) (icon_icon_count (icon_state g)) label cmd color"
  have e: "i_used ?e" "i_id ?e = icon_next_icon_id (icon_state g)" by (simp_all add: new_icon_def)
  show "icons_ok (snd (icons_add label cmd color g))"
  proof (cases "first_index (\<lambda>i. \<not> i_used i) (icons_table g)")
    case (Some i)
    then show ?thesis
      using ok e issued_insert [where live = i_used and key = i_id, OF _ Some e]
      by (simp add: icons_ok_def icons_add_def Let_def ICONS_MAX_ICONS_def)
  qed (use ok in \<open>simp add: icons_add_def\<close>)
qed

lemma default_icons_keep:
  "controls_ok g \<Longrightarrow> controls_ok (icons_add_default_icons g)" "icons_ok g \<Longrightarrow> icons_ok (icons_add_default_icons g)"
  by (simp_all add: icons_add_default_icons_def icons_add_keeps)

lemma btn_demo_gui: "gui_ok g \<Longrightarrow> gui_ok (btn_demo_layout g)"
  by (auto simp: btn_demo_layout_def Let_def case_prod_beta
      intro!: gui_repainted [OF repainted_btn_render] btn_pressed_gui btn_create_gui wm_demo_gui)

lemma menu_init_gui: "gui_ok g \<Longrightarrow> gui_ok (menu_init g)"
proof -
  assume ok: "gui_ok g"
  then have "controls_ok (menu_init g)" by (intro menu_init_controls) (simp_all add: gui_ok_def controls_ok_def)
  then show ?thesis using ok by (simp add: gui_ok_def icons_ok_def panels_ok_def menu_init_def)
qed

lemma menu_demo_gui: "gui_ok g \<Longrightarrow> gui_ok (menu_demo_layout g)"
proof -
  have act: "gui_ok (g\<lparr>menu_state := (menu_state g)\<lparr>menu_active_menu_id := a\<rparr>\<rparr>)" if "gui_ok g" for g :: "'a settings_scheme" and a
    using that by (simp add: gui_ok_def controls_ok_def) (simp add: menus_ok_def)
  assume "gui_ok g"
  then show ?thesis
    by (auto simp: menu_demo_layout_def Let_def case_prod_beta
        intro!: gui_repainted [OF repainted_menu_render] gui_repainted [OF repainted_render]
          gui_repainted [OF repainted_clear] act menu_gui menu_init_gui)
qed

lemma taskbar_gui: "gui_ok g \<Longrightarrow> gui_ok (desktop_draw_taskbar g)"
  by (auto simp: desktop_draw_taskbar_def Let_def intro!: btn_pressed_gui gui_repainted [OF repainted_rect])

lemma desktop_render_gui: "gui_ok g \<Longrightarrow> gui_ok (desktop_render g)"
  by (auto simp: desktop_render_def Let_def intro!: taskbar_gui gui_repainted [OF repainted_menu_render]
      gui_repainted [OF repainted_icons_render] gui_repainted [OF repainted_render] gui_repainted [OF repainted_rect])

lemma refresh_stats_ok:
  "length (sd_panels g) = SETTINGS_MAX_PANELS \<Longrightarrow> sd_active_panel g < SETTINGS_MAX_PANELS \<Longrightarrow>
     panels_ok (settings_refresh_stats g)"
  "controls_ok (settings_refresh_stats g) = controls_ok g" "icons_ok (settings_refresh_stats g) = icons_ok g"
  by (simp_all add: settings_refresh_stats_def Let_def panels_ok_def settings_copy_panels_def
      settings_data_copy_panels_def controls_ok_def fb_ok_def wm_ok_def buttons_ok_def menus_ok_def icons_ok_def)

lemma settings_render_gui: "gui_ok g \<Longrightarrow> gui_ok (settings_render g)"
proof -
  assume ok: "gui_ok g"
  have st: "gui_ok (settings_refresh_stats (g\<lparr>sg_stats := t\<rparr>))" if "gui_ok g" for g :: "'a settings_scheme" and t
  proof -
    have "controls_ok (g\<lparr>sg_stats := t\<rparr>) = controls_ok g" "icons_ok (g\<lparr>sg_stats := t\<rparr>) = icons_ok g"
      by (simp_all add: controls_ok_def fb_ok_def wm_ok_def buttons_ok_def menus_ok_def icons_ok_def)
    moreover have "panels_ok (settings_refresh_stats (g\<lparr>sg_stats := t\<rparr>))"
      using that by (intro refresh_stats_ok) (simp_all add: gui_ok_def panels_ok_def)
    ultimately show ?thesis using that by (simp add: gui_ok_def refresh_stats_ok)
  qed
  show ?thesis
    using ok by (auto simp: settings_render_def Let_def intro!: st gui_repainted [OF repainted_panel]
        gui_repainted [OF repainted_sidebar] gui_repainted [OF repainted_frame])
qed

text \<open>The initialisation of the settings application after the desktop's.\<close>

lemma settings_init_gui: "controls_ok g \<Longrightarrow> icons_ok g \<Longrightarrow> gui_ok (settings_init c g)"
proof -
  have rest: "controls_ok (settings_data_refresh_from_config c g) = controls_ok g"
    "icons_ok (settings_data_refresh_from_config c g) = icons_ok g"
    "controls_ok (settings_data_init c g) = controls_ok g" "icons_ok (settings_data_init c g) = icons_ok g"
    "controls_ok (g\<lparr>sg_ready := r, sg_stats := t\<rparr>) = controls_ok g" "icons_ok (g\<lparr>sg_ready := r, sg_stats := t\<rparr>) = icons_ok g"
    for c and g :: "'a settings_scheme" and r t
    by (simp_all add: settings_data_init_def settings_data_apply_defaults_def settings_data_refresh_from_config_def
        controls_ok_def fb_ok_def wm_ok_def buttons_ok_def menus_ok_def icons_ok_def)
  have "panels_ok (settings_init c g)"
    unfolding settings_init_def
    by (rule refresh_stats_ok) (simp_all add: settings_refresh_from_config_def settings_refresh_stats_def Let_def
        settings_data_init_def settings_data_apply_defaults_def settings_data_refresh_from_config_def
        default_panels_def SETTINGS_MAX_PANELS_def)
  then show "controls_ok g \<Longrightarrow> icons_ok g \<Longrightarrow> gui_ok (settings_init c g)"
    by (simp add: gui_ok_def settings_init_def settings_refresh_from_config_def refresh_stats_ok rest)
qed

lemma files_gui:
  fixes g :: "'a files_view_scheme"
  shows "gui_ok g \<Longrightarrow> gui_ok (files_init f g)" "gui_ok g \<Longrightarrow> gui_ok (files_render f g)"
proof -
  have st: "gui_ok (g\<lparr>fv_stats := t\<rparr>) = gui_ok g" "gui_ok (g\<lparr>fv_initialised := b\<rparr>) = gui_ok g"
    for g :: "'a files_view_scheme" and t b
    by (simp_all add: gui_ok_def controls_ok_def fb_ok_def wm_ok_def buttons_ok_def menus_ok_def icons_ok_def panels_ok_def)
  have fold: "gui_ok (snd (snd (fold (tile_step w sel) is (x, y, g))))" if "gui_ok g" for w sel "is" x y and g :: "'a files_view_scheme"
    using gui_repainted [OF repainted_tiles that] .
  show "gui_ok g \<Longrightarrow> gui_ok (files_init f g)" by (simp add: files_init_def st)
  show "gui_ok g \<Longrightarrow> gui_ok (files_render f g)"
    by (auto simp: files_render_def Let_def case_prod_beta st intro!: gui_repainted [OF repainted_rect] fold)
qed

section \<open>The start of the desktop\<close>

text \<open>Before the settings application starts, its panels are not there yet.\<close>

definition desk_ok :: "'a icons_scheme \<Rightarrow> bool" where
  "desk_ok g \<longleftrightarrow> controls_ok g \<and> icons_ok g"

lemma desk_repainted:
  assumes "repainted g g'" "desk_ok g"
  shows "desk_ok g'"
  using controls_repainted [OF assms(1)] more_icons [OF repainted_more [OF assms(1)]] assms(2)
  by (simp only: desk_ok_def)

lemma desk_steps:
  "desk_ok g \<Longrightarrow> desk_ok (snd (btn_set_pressed bid p g))"
  "desk_ok g \<Longrightarrow> desk_ok (snd (btn_create win label x y w h g))"
  "desk_ok g \<Longrightarrow> desk_ok (snd (menu_create win label x y w g))"
  "desk_ok g \<Longrightarrow> desk_ok (snd (menu_add_item mid label action g))"
  "desk_ok g \<Longrightarrow> desk_ok (snd (wm_create_window label x y w h g))"
  using btn_pressed_controls [of g bid p] btn_create_controls [of g win label x y w h]
    more_icons [OF create_window_more [of label x y w h g]]
  by (cases rule: btn_pressed_cases [of bid p g]; cases rule: btn_create_cases [of win label x y w h g];
      simp add: desk_ok_def menu_create_controls menu_create_above menu_add_item_controls menu_add_item_above
        create_window_controls)+

lemma desk_fields [simp]:
  "desk_ok (g\<lparr>desktop_window_id := i\<rparr>) = desk_ok g" "desk_ok (g\<lparr>desktop_menu_id := i\<rparr>) = desk_ok g"
  "desk_ok (g\<lparr>desktop_start_button_id := i\<rparr>) = desk_ok g"
  by (simp_all add: desk_ok_def controls_ok_def fb_ok_def wm_ok_def buttons_ok_def menus_ok_def icons_ok_def)

lemma desktop_init_ok:
  assumes "controls_ok g"
  shows "desk_ok (desktop_init g)"
proof -
  let ?g = "g\<lparr>desktop_icons := replicate DESKTOP_MAX_ICONS zero_desktop_icon,
      desktop_state := (desktop_state g)\<lparr>ds_taskbar_height := DESKTOP_TASKBAR_H\<rparr>,
      desktop_is_ready := fb_ready g \<and> wm_ready g \<and> menu_ready g,
      desktop_window_id := 0, desktop_menu_id := 0, desktop_start_button_id := 0\<rparr>"
  have "controls_ok ?g = controls_ok g"
    by (simp add: controls_ok_def fb_ok_def wm_ok_def buttons_ok_def menus_ok_def)
  then have "desk_ok (icons_init ?g)" using assms icons_init_ok [of ?g] by (simp add: desk_ok_def)
  then show ?thesis
    unfolding desktop_init_def Let_def case_prod_beta
    by (auto simp: Let_def intro!: desk_steps)
qed

lemma start_desktop_ok:
  assumes "controls_ok g"
  shows "desk_ok (desktop_render (desktop_add_default_icons (desktop_init g)))"
proof -
  have bar: "desk_ok (desktop_draw_taskbar g)" if "desk_ok g" for g :: "'a desktop_scheme"
    using that by (auto simp: desktop_draw_taskbar_def Let_def intro!: desk_steps desk_repainted [OF repainted_rect])
  have "desk_ok (desktop_render g)" if "desk_ok g" for g :: "'a desktop_scheme"
    using that by (auto simp: desktop_render_def Let_def intro!: bar desk_repainted [OF repainted_menu_render]
      desk_repainted [OF repainted_icons_render] desk_repainted [OF repainted_render] desk_repainted [OF repainted_rect])
  then show ?thesis
    using desktop_init_ok [OF assms] by (simp add: desk_ok_def desktop_add_default_icons_def default_icons_keep)
qed

lemma gui_boots:
  fixes g :: "'a files_view_scheme"
  assumes "length (fb_backing g) = 64000"
  shows "gui_ok (files_init f (settings_init c (desktop_render (desktop_add_default_icons (desktop_init
    (menu_init (btn_init (wm_init (fb_init g)))))))))"
proof -
  have "fb_ok (wm_init (fb_init g))" using fb_init_ok [OF assms] by (simp add: wm_init_def fb_ok_def)
  then have "controls_ok (menu_init (btn_init (wm_init (fb_init g))))"
    using btn_init_ok wm_init_ok by (intro menu_init_controls) blast+
  then show ?thesis
    using start_desktop_ok unfolding desk_ok_def by (intro files_gui settings_init_gui) blast+
qed

end
