(* ===== verification/Console.thy ===== *)
theory Console
  imports Kio Kstring TextLines FileStore
begin

text \<open>
  The terminal the shell, the editor and the browser run on.  The input is the
  sequence of values the polls of \<open>keyboard_getchar\<close> (and, in the shell,
  \<open>kio_getchar\<close> after it) return, a negative value meaning that no character
  was pending; the output is the sequence of texts printed and of screen
  operations.  A program that reads past the end of the input is waiting, and
  undefined behaviour is the status \<open>Faulty\<close>, after which nothing is claimed.
\<close>

datatype con_event = Put string | Clear_screen | Set_color nat nat

datatype con_status = Running | Waiting | Halted | User_mode u64 u64 | Faulty

record console =
  con_in :: "int list"
  con_out :: "con_event list"
  con_status :: con_status

record 'w terminal = console +
  t_world :: 'w

definition emit :: "con_event \<Rightarrow> 'a console_scheme \<Rightarrow> 'a console_scheme" where
  "emit ev c = c\<lparr>con_out := con_out c @ [ev]\<rparr>"

definition stop :: "con_status \<Rightarrow> 'a console_scheme \<Rightarrow> 'a console_scheme" where
  "stop st c = c\<lparr>con_status := st\<rparr>"

text \<open>A call of \<open>kprintf\<close>, and a sequence of calls with the same form.\<close>

definition say :: "char list \<Rightarrow> karg list \<Rightarrow> 'a console_scheme \<Rightarrow> 'a console_scheme" where
  "say fmt args c =
     (case kprintf fmt args of None \<Rightarrow> stop Faulty c | Some s \<Rightarrow> emit (Put s) c)"

definition say_lines :: "char list list \<Rightarrow> 'a console_scheme \<Rightarrow> 'a console_scheme" where
  "say_lines fmts c = fold (\<lambda>fmt. say fmt []) fmts c"

text \<open>Integer arguments: \<open>(int32_t)\<close> of a count and of a 64-bit value.\<close>

definition KNat :: "nat \<Rightarrow> karg" where
  "KNat n = KInt (of_nat n)"

definition KBool :: "bool \<Rightarrow> karg" where
  "KBool b = KInt (if b then 1 else 0)"

definition KWide :: "u64 \<Rightarrow> karg" where
  "KWide v = KInt (ucast v)"

definition kio_set_color :: "nat \<Rightarrow> nat \<Rightarrow> 'a console_scheme \<Rightarrow> 'a console_scheme" where
  "kio_set_color fg bg c = emit (Set_color fg bg) c"

definition VGA_COLOR_BLACK :: nat where "VGA_COLOR_BLACK = 0"
definition VGA_COLOR_LIGHT_GREY :: nat where "VGA_COLOR_LIGHT_GREY = 7"
definition VGA_COLOR_LIGHT_GREEN :: nat where "VGA_COLOR_LIGHT_GREEN = 10"
definition VGA_COLOR_LIGHT_CYAN :: nat where "VGA_COLOR_LIGHT_CYAN = 11"
definition VGA_COLOR_LIGHT_MAGENTA :: nat where "VGA_COLOR_LIGHT_MAGENTA = 13"

section \<open>Reading a line\<close>

text \<open>
  The loop of the three line readers: no key is ignored, a newline ends the
  line, a backspace removes the last character, a printable character is kept
  and echoed while the buffer has room.  Only the shell takes a tab, as a
  space.  The results are the line (\<open>None\<close> when the input ends first), what was
  echoed and the rest of the input.
\<close>

fun key_loop :: "bool \<Rightarrow> nat \<Rightarrow> int list \<Rightarrow> string \<Rightarrow> string option \<times> con_event list \<times> int list" where
  "key_loop tabs max_len [] buf = (None, [], [])"
| "key_loop tabs max_len (k # ks) buf =
     (if k < 0 then key_loop tabs max_len ks buf
      else if k = 10 then (Some buf, [Put [LF]], ks)
      else if k = 8 then
        (if buf \<noteq> []
         then (case key_loop tabs max_len ks (butlast buf) of (l, out, rest) \<Rightarrow> (l, Put [CHR 0x08] # out, rest))
         else key_loop tabs max_len ks buf)
      else
        (let ch = (if tabs \<and> k = 9 then 32 else k)
         in if 32 \<le> ch \<and> ch \<le> 126 \<and> length buf + 1 < max_len
            then (case key_loop tabs max_len ks (buf @ [char_of (nat ch)]) of
                    (l, out, rest) \<Rightarrow> (l, Put [char_of (nat ch)] # out, rest))
            else key_loop tabs max_len ks buf))"

definition read_line :: "bool \<Rightarrow> nat \<Rightarrow> 'a console_scheme \<Rightarrow> string option \<times> 'a console_scheme" where
  "read_line tabs max_len c =
     (case key_loop tabs max_len (con_in c) [] of
        (l, out, rest) \<Rightarrow>
          (l, c\<lparr>con_in := rest, con_out := con_out c @ out,
               con_status := (if l = None then Waiting else con_status c)\<rparr>))"

section \<open>Facts about the terminal\<close>

lemma key_loop_shorter:
  "key_loop tabs n ks buf = (Some l, out, rest) \<Longrightarrow> length rest < length ks"
  by (induction tabs n ks buf arbitrary: l out rest rule: key_loop.induct)
     (auto simp: Let_def less_Suc_eq split: if_splits prod.splits)

lemma read_line_shorter:
  "read_line tabs n c = (Some l, c') \<Longrightarrow> length (con_in c') < length (con_in c)"
  by (auto simp: read_line_def dest: key_loop_shorter split: prod.splits)

text \<open>A line fits its buffer and holds printable characters only.\<close>

definition printable :: "char \<Rightarrow> bool" where
  "printable c \<longleftrightarrow> 32 \<le> uchar c \<and> uchar c \<le> 126"

lemma printable_char_of: "32 \<le> k \<Longrightarrow> k \<le> 126 \<Longrightarrow> printable (char_of (nat k))"
  by (simp add: printable_def uchar_def of_char_of take_bit_eq_mod)

lemma key_loop_line:
  "key_loop tabs n ks buf = (Some l, out, rest) \<Longrightarrow> length buf < n \<Longrightarrow> list_all printable buf \<Longrightarrow>
   length l < n \<and> list_all printable l"
proof (induction tabs n ks buf arbitrary: l out rest rule: key_loop.induct)
  case (2 tabs n k ks buf)
  have "list_all printable (butlast buf)" using "2.prems"(3) by (auto simp: list_all_iff dest: in_set_butlastD)
  then show ?case using 2
    by (auto simp: Let_def printable_char_of split: if_splits prod.splits)
qed simp

lemma printable_not_control [simp]: "\<not> printable NUL" "\<not> printable LF" "\<not> printable CR"
  by (simp_all add: printable_def uchar_def)

lemma printable_clean: "list_all printable s \<Longrightarrow> clean s \<and> NUL \<notin> set s"
  using printable_not_control by (fastforce simp: list_all_iff clean_def)

lemma console_emit [simp]:
  "con_in (emit ev c) = con_in c" "con_status (emit ev c) = con_status c"
  "con_out (emit ev c) = con_out c @ [ev]"
  by (simp_all add: emit_def)

lemma console_stop [simp]:
  "con_in (stop st c) = con_in c" "con_status (stop st c) = st" "con_out (stop st c) = con_out c"
  by (simp_all add: stop_def)

lemma con_in_say [simp]: "con_in (say fmt args c) = con_in c"
  by (simp add: say_def split: option.split)

lemma con_in_say_lines [simp]: "con_in (say_lines fmts c) = con_in c"
  unfolding say_lines_def by (induction fmts arbitrary: c) simp_all

lemma con_in_set_color [simp]: "con_in (kio_set_color fg bg c) = con_in c"
  by (simp add: kio_set_color_def)

lemma terminal_world_keep [simp]:
  "t_world (emit ev c) = t_world c" "t_world (stop st c) = t_world c"
  by (simp_all add: emit_def stop_def)

lemma t_world_say [simp]: "t_world (say fmt args c) = t_world c"
  by (simp add: say_def split: option.split)

lemma t_world_say_lines [simp]: "t_world (say_lines fmts c) = t_world c"
  unfolding say_lines_def by (induction fmts arbitrary: c) simp_all

lemma t_world_set_color [simp]: "t_world (kio_set_color fg bg c) = t_world c"
  by (simp add: kio_set_color_def)

section \<open>Output that is always defined\<close>

lemma kprintf_no_args: "CHR ''%'' \<notin> set fmt \<Longrightarrow> kprintf fmt [] = Some (cstr fmt)"
  by (induction fmt) (auto simp: cstr_Cons)

lemma say_lines_plain:
  "list_all (\<lambda>fmt. CHR ''%'' \<notin> set fmt) fmts \<Longrightarrow>
   say_lines fmts c = c\<lparr>con_out := con_out c @ map (\<lambda>fmt. Put (cstr fmt)) fmts\<rparr>"
proof (induction fmts arbitrary: c)
  case (Cons fmt fmts)
  then show ?case using Cons.IH [of "say fmt [] c"]
    by (simp add: say_lines_def say_def kprintf_no_args emit_def)
qed (simp add: say_lines_def)

end
