(* ===== verification/Editor.thy ===== *)
theory Editor
  imports Console
begin

text \<open>
  The line editor \<open>kernel/editor/editor.c\<close>: a buffer of 32 lines of 64 bytes
  with a cursor, loaded from and saved to a file, and the command loop.  The
  state record is the C structure; a line is its 64-byte array.
\<close>

definition EDITOR_MAX_LINES :: nat where "EDITOR_MAX_LINES = 32"
definition EDITOR_LINE_MAX :: nat where "EDITOR_LINE_MAX = 64"
definition EDITOR_FILE_MAX :: nat where "EDITOR_FILE_MAX = EDITOR_MAX_LINES * EDITOR_LINE_MAX"

lemmas editor_consts = EDITOR_MAX_LINES_def EDITOR_LINE_MAX_def EDITOR_FILE_MAX_def

record editor_state =
  ed_lines :: "char list list"
  ed_line_count :: nat
  ed_cursor :: nat
  ed_path :: "char list"
  ed_dirty :: bool

definition zero_editor :: editor_state where
  "zero_editor = \<lparr>ed_lines = replicate EDITOR_MAX_LINES (zbuf EDITOR_LINE_MAX), ed_line_count = 0,
     ed_cursor = 0, ed_path = zbuf FS_NAME_MAX, ed_dirty = False\<rparr>"

definition editor_print_help :: "'a console_scheme \<Rightarrow> 'a console_scheme" where
  "editor_print_help = say_lines
     [''Editor commands:\<newline>'',
      ''  show          Show current buffer\<newline>'',
      ''  i <text>      Insert a line at the cursor\<newline>'',
      ''  a <text>      Append a line after the cursor\<newline>'',
      ''  d             Delete the current line\<newline>'',
      ''  n             Move cursor to next line\<newline>'',
      ''  p             Move cursor to previous line\<newline>'',
      ''  s             Save to disk\<newline>'',
      ''  wq            Save and quit\<newline>'',
      ''  q             Quit without saving\<newline>'',
      ''  help          Show this help text\<newline>'']"

definition editor_starts_with_word :: "char list \<Rightarrow> char list \<Rightarrow> bool" where
  "editor_starts_with_word line word =
     (let n = strlen word in
      if memcmp line word n \<noteq> 0 then False else cget line n = NUL \<or> cget line n = CHR '' '')"

definition editor_set_status :: "'a console_scheme \<Rightarrow> 'a console_scheme" where
  "editor_set_status c =
     kio_set_color VGA_COLOR_LIGHT_GREY VGA_COLOR_BLACK
       (say ''editor> '' [] (kio_set_color VGA_COLOR_LIGHT_GREEN VGA_COLOR_BLACK c))"

definition editor_readline :: "'a console_scheme \<Rightarrow> string option \<times> 'a console_scheme" where
  "editor_readline = read_line False EDITOR_LINE_MAX"

section \<open>Loading and showing\<close>

definition editor_reset :: "char list \<Rightarrow> editor_state" where
  "editor_reset path = zero_editor\<lparr>ed_path := copy_text (zbuf FS_NAME_MAX) path\<rparr>"

text \<open>The loop over the file's characters: line, position, lines.\<close>

definition set_char :: "nat \<Rightarrow> nat \<Rightarrow> char \<Rightarrow> char list list \<Rightarrow> char list list" where
  "set_char line pos c ls = ls[line := (ls ! line)[pos := c]]"

fun load_loop :: "char list \<Rightarrow> nat \<Rightarrow> nat \<Rightarrow> char list list \<Rightarrow> nat \<times> nat \<times> char list list" where
  "load_loop [] line pos ls = (line, pos, ls)"
| "load_loop (c # text) line pos ls =
     (if \<not> line < EDITOR_MAX_LINES then (line, pos, ls)
      else if c = CR then load_loop text line pos ls
      else if c = LF then load_loop text (line + 1) 0 (set_char line pos NUL ls)
      else if pos + 1 < EDITOR_LINE_MAX then load_loop text line (pos + 1) (set_char line pos c ls)
      else load_loop text line pos ls)"

definition editor_fill :: "char list \<Rightarrow> editor_state \<Rightarrow> editor_state" where
  "editor_fill text ed =
     (case load_loop text 0 0 (ed_lines ed) of (line, pos, ls) \<Rightarrow>
        let ls' = (if line < EDITOR_MAX_LINES then set_char line pos NUL ls else ls);
            n = (if line < EDITOR_MAX_LINES \<and> (0 < pos \<or> line = 0) then line + 1 else line)
        in ed\<lparr>ed_lines := ls', ed_line_count := n, ed_cursor := 0\<rparr>)"

definition editor_load ::
    "'w file_api \<Rightarrow> editor_state \<Rightarrow> ('w, 'a) terminal_scheme \<Rightarrow> editor_state \<times> ('w, 'a) terminal_scheme" where
  "editor_load api ed t =
     (case fa_read api (ed_path ed) EDITOR_FILE_MAX (t_world t) of
        (ReadFailed, w) \<Rightarrow> (ed, say ''[editor] new file: %s\<newline>'' [KStr (ed_path ed)] (t\<lparr>t_world := w\<rparr>))
      | (ReadOverrun _, w) \<Rightarrow> (ed, stop Faulty (t\<lparr>t_world := w\<rparr>))
      | (ReadDone bs n, w) \<Rightarrow>
          let ed' = editor_fill (bytes_chars (take (unat n) bs)) ed
          in (ed', say ''[editor] loaded %d lines from %s\<newline>''
                [KNat (ed_line_count ed'), KStr (ed_path ed')] (t\<lparr>t_world := w\<rparr>)))"

definition editor_show :: "editor_state \<Rightarrow> 'a console_scheme \<Rightarrow> 'a console_scheme" where
  "editor_show ed c =
     (let c1 = say ''----- %s -----\<newline>'' [KStr (ed_path ed)] c
      in if ed_line_count ed = 0 then say ''(empty)\<newline>'' [] c1
         else fold (\<lambda>i. say (if i = ed_cursor ed then ''>%d: %s\<newline>'' else '' %d: %s\<newline>'')
                [KNat (i + 1), KStr (ed_lines ed ! i)]) [0..<ed_line_count ed] c1)"

section \<open>Editing\<close>

text \<open>The loops that copy lines one place down and one place up.\<close>

definition open_gap :: "nat \<Rightarrow> nat \<Rightarrow> 'b list \<Rightarrow> 'b list" where
  "open_gap a n ls = fold (\<lambda>i ls. ls[i := ls ! (i - 1)]) (rev [a + 1..<n + 1]) ls"

definition close_gap :: "nat \<Rightarrow> nat \<Rightarrow> 'b list \<Rightarrow> 'b list" where
  "close_gap a m ls = fold (\<lambda>i ls. ls[i := ls ! (i + 1)]) [a..<m] ls"

definition editor_insert_line ::
    "char list \<Rightarrow> editor_state \<times> 'a console_scheme \<Rightarrow> editor_state \<times> 'a console_scheme" where
  "editor_insert_line t = (\<lambda>(ed, c).
     let insert_at = ed_cursor ed in
     if EDITOR_MAX_LINES \<le> ed_line_count ed then (ed, say ''[editor] buffer full\<newline>'' [] c)
     else
       let ls = open_gap insert_at (ed_line_count ed) (ed_lines ed)
       in (ed\<lparr>ed_lines := ls[insert_at := copy_text (ls ! insert_at) t],
             ed_line_count := ed_line_count ed + 1, ed_cursor := insert_at, ed_dirty := True\<rparr>, c))"

definition editor_append_line ::
    "char list \<Rightarrow> editor_state \<times> 'a console_scheme \<Rightarrow> editor_state \<times> 'a console_scheme" where
  "editor_append_line t = (\<lambda>(ed, c).
     if EDITOR_MAX_LINES \<le> ed_line_count ed then (ed, say ''[editor] buffer full\<newline>'' [] c)
     else editor_insert_line t (ed\<lparr>ed_cursor := ed_line_count ed\<rparr>, c))"

definition editor_delete_line :: "editor_state \<times> 'a console_scheme \<Rightarrow> editor_state \<times> 'a console_scheme" where
  "editor_delete_line = (\<lambda>(ed, c).
     if ed_line_count ed = 0 then (ed, say ''[editor] nothing to delete\<newline>'' [] c)
     else
       let ls = close_gap (ed_cursor ed) (ed_line_count ed - 1) (ed_lines ed);
           n = ed_line_count ed - 1
       in (ed\<lparr>ed_lines := ls[n := zbuf EDITOR_LINE_MAX], ed_line_count := n,
             ed_cursor := (if n \<le> ed_cursor ed \<and> 0 < ed_cursor ed then ed_cursor ed - 1 else ed_cursor ed),
             ed_dirty := True\<rparr>, c))"

definition editor_text :: "editor_state \<Rightarrow> string" where
  "editor_text ed =
     (let body = fold (\<lambda>i buffer.
          let b = append_chars EDITOR_FILE_MAX (ed_lines ed ! i) buffer
          in if length b + 1 < EDITOR_FILE_MAX then b @ [LF] else b) [0..<ed_line_count ed] []
      in if body = [] then [LF] else body)"

definition editor_save ::
    "'w file_api \<Rightarrow> editor_state \<Rightarrow> ('w, 'a) terminal_scheme \<Rightarrow> int \<times> ('w, 'a) terminal_scheme" where
  "editor_save api ed t =
     (case fa_write api (ed_path ed) (chars_bytes (editor_text ed)) (t_world t) of (r, w) \<Rightarrow>
        if r \<noteq> 0 then (-1, say ''[editor] save failed\<newline>'' [] (t\<lparr>t_world := w\<rparr>))
        else (0, say ''[editor] saved %s\<newline>'' [KStr (ed_path ed)] (t\<lparr>t_world := w\<rparr>)))"

section \<open>The command loop\<close>

text \<open>One command line: the flag says that the editor returns.\<close>

definition after_word :: "char list \<Rightarrow> char list" where
  "after_word line = dropWhile (\<lambda>c. c = CHR '' '') (drop 1 line)"

definition editor_command ::
    "'w file_api \<Rightarrow> string \<Rightarrow> editor_state \<times> ('w, 'a) terminal_scheme \<Rightarrow>
     bool \<times> editor_state \<times> ('w, 'a) terminal_scheme" where
  "editor_command api line = (\<lambda>(ed, t).
     if strcmp line ''help'' = 0 then (False, ed, editor_print_help t)
     else if strcmp line ''show'' = 0 then (False, ed, editor_show ed t)
     else if strcmp line ''n'' = 0 then
       (False, if ed_cursor ed + 1 < ed_line_count ed then ed\<lparr>ed_cursor := ed_cursor ed + 1\<rparr> else ed, t)
     else if strcmp line ''p'' = 0 then
       (False, if 0 < ed_cursor ed then ed\<lparr>ed_cursor := ed_cursor ed - 1\<rparr> else ed, t)
     else if strcmp line ''d'' = 0 then (False, editor_delete_line (ed, t))
     else if strcmp line ''s'' = 0 then
       (case editor_save api ed t of (_, t') \<Rightarrow> (False, ed\<lparr>ed_dirty := False\<rparr>, t'))
     else if strcmp line ''wq'' = 0 then (case editor_save api ed t of (r, t') \<Rightarrow> (r = 0, ed, t'))
     else if strcmp line ''q'' = 0 then
       (if ed_dirty ed
        then (False, ed, say ''[editor] unsaved changes; type wq to save and quit\<newline>'' [] t)
        else (True, ed, t))
     else if editor_starts_with_word line ''i'' then (False, editor_insert_line (after_word line) (ed, t))
     else if editor_starts_with_word line ''a'' then (False, editor_append_line (after_word line) (ed, t))
     else if cget line 0 = NUL then (False, ed, t)
     else (False, ed, say ''[editor] unknown command: %s\<newline>'' [KStr line] t))"

lemma con_in_edit [simp]:
  "con_in (snd (editor_insert_line s st)) = con_in (snd st)"
  "con_in (snd (editor_append_line s st)) = con_in (snd st)"
  "con_in (snd (editor_delete_line st)) = con_in (snd st)"
  by (simp_all add: editor_insert_line_def editor_append_line_def editor_delete_line_def Let_def split: prod.split)

lemma con_in_fold_say:
  "con_in (fold (\<lambda>i. say (f i) (g i)) xs c) = con_in c"
  by (induction xs arbitrary: c) simp_all

lemma con_in_show [simp]: "con_in (editor_show ed c) = con_in c"
  by (simp add: editor_show_def Let_def con_in_fold_say)

lemma con_in_save [simp]: "con_in (snd (editor_save api ed t)) = con_in t"
  by (simp add: editor_save_def split: prod.split)

lemma con_in_help [simp]: "con_in (editor_print_help c) = con_in c"
  by (simp add: editor_print_help_def)

lemma con_in_command:
  "con_in (snd (snd (editor_command api line (ed, t)))) = con_in t"
  unfolding editor_command_def prod.case by (simp only: if_distrib [of "\<lambda>r. con_in (snd (snd r))"] snd_conv
    con_in_edit con_in_save con_in_help con_in_show con_in_say case_prod_beta if_cancel)

lemma editor_turn_shorter:
  assumes "(x, t') = editor_readline (editor_set_status t)" "x = Some l"
    "(fin, y) = editor_command api l (ed, t')" "(ed', t'') = y"
  shows "length (con_in t'') < length (con_in t)"
proof -
  have cmd: "editor_command api l (ed, t') = (fin, ed', t'')"
    and rd: "read_line False EDITOR_LINE_MAX (editor_set_status t) = (Some l, t')"
    using assms by (simp_all add: editor_readline_def)
  have "con_in t'' = con_in t'" using con_in_command [of api l ed t'] by (simp only: cmd snd_conv)
  moreover have "length (con_in t') < length (con_in (editor_set_status t))"
    using rd by (rule read_line_shorter)
  ultimately show ?thesis by (simp add: editor_set_status_def)
qed

function editor_loop ::
    "'w file_api \<Rightarrow> editor_state \<times> ('w, 'a) terminal_scheme \<Rightarrow> editor_state \<times> ('w, 'a) terminal_scheme" where
  "editor_loop api (ed, t) =
     (case editor_readline (editor_set_status t) of
        (None, t') \<Rightarrow> (ed, t')
      | (Some line, t') \<Rightarrow>
          (case editor_command api line (ed, t') of (finished, ed', t'') \<Rightarrow>
             if finished then (ed', t'') else editor_loop api (ed', t'')))"
  by pat_completeness auto
termination
  by (relation "measure (\<lambda>(api, ed, t). length (con_in t))", simp)
     (unfold in_measure prod.case, erule (3) editor_turn_shorter)

declare editor_loop.simps [simp del]

definition editor_run ::
    "'w file_api \<Rightarrow> char list \<Rightarrow> ('w, 'a) terminal_scheme \<Rightarrow> ('w, 'a) terminal_scheme" where
  "editor_run api path t =
     (if cget path 0 = NUL then say ''usage: edit <file>\<newline>'' [] t
      else case editor_load api (editor_reset path) t of (ed, t1) \<Rightarrow>
        if con_status t1 = Faulty then t1 else snd (editor_loop api (ed, editor_print_help t1)))"

end
