(* ===== verification/EditorProps.thy ===== *)
theory EditorProps
  imports Editor FsProps
begin

text \<open>
  Correctness of the editor: the buffer refines a document (a list of lines and
  a cursor), a whole typed session leaves the edited document in its file, and
  a saved document is read back unchanged.
\<close>

section \<open>The document\<close>

type_synonym document = "string list \<times> nat"

definition doc :: "editor_state \<Rightarrow> document" where
  "doc ed = (map cstr (take (ed_line_count ed) (ed_lines ed)), ed_cursor ed)"

definition row_ok :: "char list \<Rightarrow> bool" where
  "row_ok row \<longleftrightarrow> length row = 64 \<and> terminated row \<and> clean (cstr row)"

definition ed_ok :: "editor_state \<Rightarrow> bool" where
  "ed_ok ed \<longleftrightarrow> length (ed_lines ed) = 32 \<and> list_all row_ok (ed_lines ed) \<and> ed_line_count ed \<le> 32 \<and>
     (ed_cursor ed < ed_line_count ed \<or> ed_cursor ed = 0)"

lemma row_ok_zbuf: "row_ok (zbuf 64)"
  by (simp add: row_ok_def terminated_zbuf clean_def)

lemma clean_take: "clean s \<Longrightarrow> clean (take n s)"
  by (auto simp: clean_def dest: in_set_takeD)

lemma clean_cstr: "clean s \<Longrightarrow> clean (cstr s)"
  unfolding clean_def cstr_def by (auto dest: set_takeWhileD)

lemma row_ok_copy: "row_ok row \<Longrightarrow> clean s \<Longrightarrow> row_ok (copy_text row s) \<and> cstr (copy_text row s) = take 63 (cstr s)"
  using terminated_copy_text [of row s] cstr_copy_text [of row s]
  by (cases "row = []") (auto simp: row_ok_def clean_take clean_cstr)

lemma ed_okD:
  assumes "ed_ok ed"
  shows "length (ed_lines ed) = 32" "ed_line_count ed \<le> 32" "i < 32 \<Longrightarrow> row_ok (ed_lines ed ! i)"
  using assms by (simp_all add: ed_ok_def list_all_length)

lemma doc_length: "ed_ok ed \<Longrightarrow> length (fst (doc ed)) = ed_line_count ed"
  by (simp add: doc_def ed_ok_def)

lemma doc_nth: "ed_ok ed \<Longrightarrow> i < ed_line_count ed \<Longrightarrow> fst (doc ed) ! i = cstr (ed_lines ed ! i)"
  by (simp add: doc_def ed_ok_def)

section \<open>The copying loops\<close>

lemma open_gap:
  assumes "n < length ls"
  shows "length (open_gap a n ls) = length ls"
    and "k < length ls \<Longrightarrow> open_gap a n ls ! k = (if a < k \<and> k \<le> n then ls ! (k - 1) else ls ! k)"
proof -
  have "length (open_gap a n ls) = length ls \<and>
     (\<forall>k < length ls. open_gap a n ls ! k = (if a < k \<and> k \<le> n then ls ! (k - 1) else ls ! k))"
    using assms
  proof (induction n arbitrary: ls)
    case (Suc n)
    show ?case
    proof (cases "a + 1 \<le> Suc n")
      case True
      then have "rev [a + 1..<Suc n + 1] = Suc n # rev [a + 1..<n + 1]" by simp
      then have "open_gap a (Suc n) ls = open_gap a n (ls[Suc n := ls ! n])"
        unfolding open_gap_def by (simp only: fold_simps comp_apply) simp
      then show ?thesis using True Suc.IH [of "ls[Suc n := ls ! n]"] Suc.prems
        by (auto simp: nth_list_update not_le dest: le_antisym [OF Suc_leI])
    qed (auto simp: open_gap_def)
  qed (auto simp: open_gap_def)
  then show "length (open_gap a n ls) = length ls"
    and "k < length ls \<Longrightarrow> open_gap a n ls ! k = (if a < k \<and> k \<le> n then ls ! (k - 1) else ls ! k)"
    by simp_all
qed

lemma close_gap:
  assumes "m < length ls"
  shows "length (close_gap a m ls) = length ls"
    and "k < length ls \<Longrightarrow> close_gap a m ls ! k = (if a \<le> k \<and> k < m then ls ! (k + 1) else ls ! k)"
proof -
  have "length (close_gap a m ls) = length ls \<and>
     (\<forall>k < length ls. close_gap a m ls ! k = (if a \<le> k \<and> k < m then ls ! (k + 1) else ls ! k))"
    unfolding close_gap_def using assms by (induction m) (auto simp: nth_list_update less_Suc_eq)
  then show "length (close_gap a m ls) = length ls"
    and "k < length ls \<Longrightarrow> close_gap a m ls ! k = (if a \<le> k \<and> k < m then ls ! (k + 1) else ls ! k)"
    by simp_all
qed

section \<open>Edits\<close>

datatype edit = Insert_line string | Append_line string | Delete_line | Next_line | Previous_line

fun doc_edit :: "edit \<Rightarrow> document \<Rightarrow> document" where
  "doc_edit (Insert_line s) (ls, cur) =
     (if 32 \<le> length ls then (ls, cur) else (take cur ls @ [take 63 s] @ drop cur ls, cur))"
| "doc_edit (Append_line s) (ls, cur) =
     (if 32 \<le> length ls then (ls, cur) else (ls @ [take 63 s], length ls))"
| "doc_edit Delete_line (ls, cur) =
     (if ls = [] then (ls, cur)
      else (take cur ls @ drop (cur + 1) ls, if length ls - 1 \<le> cur \<and> 0 < cur then cur - 1 else cur))"
| "doc_edit Next_line (ls, cur) = (ls, if cur + 1 < length ls then cur + 1 else cur)"
| "doc_edit Previous_line (ls, cur) = (ls, if 0 < cur then cur - 1 else cur)"

lemma insert_refines:
  assumes ok: "ed_ok ed \<or> ed_ok (ed\<lparr>ed_cursor := 0\<rparr>) \<and> ed_cursor ed = ed_line_count ed" and s: "clean s"
    and e: "editor_insert_line s (ed, c) = (ed', c')"
  shows "ed_ok ed' \<or> 32 \<le> ed_line_count ed" "doc ed' = doc_edit (Insert_line (cstr s)) (doc ed)"
    "32 \<le> ed_line_count ed \<Longrightarrow> ed' = ed" "ed_path ed' = ed_path ed"
proof -
  have ln: "length (ed_lines ed) = 32" "ed_line_count ed \<le> 32" "\<And>i. i < 32 \<Longrightarrow> row_ok (ed_lines ed ! i)"
    and cur: "ed_cursor ed \<le> ed_line_count ed"
    using ok by (auto simp: ed_ok_def list_all_length)
  let ?n = "ed_line_count ed" and ?a = "ed_cursor ed"
  let ?ls = "open_gap ?a ?n (ed_lines ed)"
  have "(ed_ok ed' \<or> 32 \<le> ?n) \<and> doc ed' = doc_edit (Insert_line (cstr s)) (doc ed) \<and>
    (32 \<le> ?n \<longrightarrow> ed' = ed) \<and> ed_path ed' = ed_path ed"
  proof (cases "32 \<le> ?n")
    case True
    then show ?thesis using e ln by (simp add: editor_insert_line_def editor_consts doc_def)
  next
    case False
    have up: "length ?ls = 32" "\<And>k. k < 32 \<Longrightarrow> ?ls ! k = (if ?a < k \<and> k \<le> ?n then ed_lines ed ! (k - 1) else ed_lines ed ! k)"
      using open_gap [of ?n "ed_lines ed"] False ln by simp_all
    let ?r = "copy_text (?ls ! ?a) s"
    have r: "row_ok ?r" "cstr ?r = take 63 (cstr s)"
      using row_ok_copy [of "?ls ! ?a" s] up(2) [of ?a] ln(3) cur False s by auto
    have ed': "ed' = ed\<lparr>ed_lines := ?ls[?a := ?r], ed_line_count := ?n + 1, ed_cursor := ?a, ed_dirty := True\<rparr>"
      using e False by (simp add: editor_insert_line_def editor_consts Let_def)
    have rows: "row_ok (?ls[?a := ?r] ! k)" if "k < 32" for k
      using that up ln(3) [of k] ln(3) [of "k - 1"] r by (cases "k = ?a") auto
    then have "ed_ok ed'" using up(1) cur False by (simp add: ed' ed_ok_def list_all_length)
    moreover have "map cstr (take (?n + 1) (?ls[?a := ?r])) =
        take ?a (map cstr (take ?n (ed_lines ed))) @ [take 63 (cstr s)] @ drop ?a (map cstr (take ?n (ed_lines ed)))"
    proof (rule nth_equalityI)
      fix k assume "k < length (map cstr (take (?n + 1) (?ls[?a := ?r])))"
      then have k: "k < ?n + 1" "k < 32" using up(1) False by auto
      then show "map cstr (take (?n + 1) (?ls[?a := ?r])) ! k =
          (take ?a (map cstr (take ?n (ed_lines ed))) @ [take 63 (cstr s)] @ drop ?a (map cstr (take ?n (ed_lines ed)))) ! k"
        using up ln cur False r(2)
        by (cases "k < ?a"; cases "k = ?a") (auto simp: nth_append nth_list_update min_def nth_Cons')
    qed (use up(1) ln cur False in auto)
    ultimately show ?thesis using ln False by (simp add: ed' doc_def)
  qed
  then show "ed_ok ed' \<or> 32 \<le> ed_line_count ed" "doc ed' = doc_edit (Insert_line (cstr s)) (doc ed)"
    "32 \<le> ed_line_count ed \<Longrightarrow> ed' = ed" "ed_path ed' = ed_path ed" by simp_all
qed

lemma delete_refines:
  assumes ok: "ed_ok ed" and e: "editor_delete_line (ed, c) = (ed', c')"
  shows "ed_ok ed' \<and> doc ed' = doc_edit Delete_line (doc ed) \<and> ed_path ed' = ed_path ed"
proof (cases "ed_line_count ed = 0")
  case True
  then show ?thesis using e ok ed_okD [OF ok] by (simp add: editor_delete_line_def doc_def)
next
  case False
  note ln = ed_okD [OF ok]
  let ?n = "ed_line_count ed" and ?a = "ed_cursor ed"
  let ?ls = "close_gap ?a (?n - 1) (ed_lines ed)"
  have a: "?a < ?n" using ok False by (auto simp: ed_ok_def)
  have dn: "length ?ls = 32" "\<And>k. k < 32 \<Longrightarrow> ?ls ! k = (if ?a \<le> k \<and> k < ?n - 1 then ed_lines ed ! (k + 1) else ed_lines ed ! k)"
    using close_gap [of "?n - 1" "ed_lines ed"] False ln by simp_all
  have ed': "ed' = ed\<lparr>ed_lines := ?ls[?n - 1 := zbuf 64], ed_line_count := ?n - 1,
      ed_cursor := (if ?n - 1 \<le> ?a \<and> 0 < ?a then ?a - 1 else ?a), ed_dirty := True\<rparr>"
    using e False by (simp add: editor_delete_line_def editor_consts Let_def)
  have rows: "row_ok (?ls[?n - 1 := zbuf 64] ! k)" if "k < 32" for k
    using that dn ln(2) ln(3) [of k] ln(3) [of "k + 1"] row_ok_zbuf by (cases "k = ?n - 1") auto
  have "ed_ok ed'" using rows dn(1) ln(2) a by (auto simp: ed' ed_ok_def list_all_length)
  moreover have "map cstr (take (?n - 1) (?ls[?n - 1 := zbuf 64])) =
      take ?a (map cstr (take ?n (ed_lines ed))) @ drop (?a + 1) (map cstr (take ?n (ed_lines ed)))"
  proof (rule nth_equalityI)
    fix k assume "k < length (map cstr (take (?n - 1) (?ls[?n - 1 := zbuf 64])))"
    then have k: "k < ?n - 1" "k < 32" using dn(1) ln(2) by auto
    then show "map cstr (take (?n - 1) (?ls[?n - 1 := zbuf 64])) ! k =
        (take ?a (map cstr (take ?n (ed_lines ed))) @ drop (?a + 1) (map cstr (take ?n (ed_lines ed)))) ! k"
      using dn ln(1,2) a by (cases "k < ?a") (auto simp: nth_append)
  qed (use dn ln a in auto)
  moreover have "map cstr (take ?n (ed_lines ed)) \<noteq> []" using False ln by auto
  ultimately show ?thesis using ln(1,2) by (simp add: ed' doc_def)
qed

section \<open>Typed commands\<close>

text \<open>The line that is typed for an edit; the text of an insertion begins after its spaces.\<close>

fun edit_line :: "edit \<Rightarrow> string" where
  "edit_line (Insert_line s) = ''i '' @ s"
| "edit_line (Append_line s) = ''a '' @ s"
| "edit_line Delete_line = ''d''"
| "edit_line Next_line = ''n''"
| "edit_line Previous_line = ''p''"

fun plain_edit :: "edit \<Rightarrow> bool" where
  "plain_edit (Insert_line s) = (list_all printable s \<and> length s < 62 \<and> (s \<noteq> [] \<longrightarrow> hd s \<noteq> CHR '' ''))"
| "plain_edit (Append_line s) = (list_all printable s \<and> length s < 62 \<and> (s \<noteq> [] \<longrightarrow> hd s \<noteq> CHR '' ''))"
| "plain_edit _ = True"

lemma drop_spaces_plain: "s = [] \<or> hd s \<noteq> CHR '' '' \<Longrightarrow> dropWhile (\<lambda>c. c = CHR '' '') s = s"
  by (cases s) auto

lemma insert_command:
  "list_all printable s \<Longrightarrow> s = [] \<or> hd s \<noteq> CHR '' '' \<Longrightarrow>
   editor_command api (''i '' @ s) (ed, t) = (False, editor_insert_line s (ed, t))"
  "list_all printable s \<Longrightarrow> s = [] \<or> hd s \<noteq> CHR '' '' \<Longrightarrow>
   editor_command api (''a '' @ s) (ed, t) = (False, editor_append_line s (ed, t))"
  using printable_clean [of s] cstr_id [of s]
  by (simp_all add: editor_command_def strcmp_0_iff cstr_Cons editor_starts_with_word_def memcmp_0_iff
      strlen_def after_word_def drop_spaces_plain Let_def)

lemma append_refines:
  assumes ok: "ed_ok ed" and s: "clean s" and e: "editor_append_line s (ed, c) = (ed', c')"
  shows "ed_ok ed' \<and> doc ed' = doc_edit (Append_line (cstr s)) (doc ed) \<and> ed_path ed' = ed_path ed"
proof (cases "32 \<le> ed_line_count ed")
  case True
  then show ?thesis using e ok ed_okD [OF ok] by (simp add: editor_append_line_def editor_consts doc_def)
next
  case False
  let ?ed = "ed\<lparr>ed_cursor := ed_line_count ed\<rparr>"
  have "editor_insert_line s (?ed, c) = (ed', c')" using e False by (simp add: editor_append_line_def editor_consts)
  moreover have "ed_ok (?ed\<lparr>ed_cursor := 0\<rparr>)" using ok by (simp add: ed_ok_def)
  ultimately show ?thesis
    using insert_refines [of ?ed s c ed' c'] s False ed_okD [OF ok] by (auto simp: doc_def)
qed

lemma command_refines:
  assumes ok: "ed_ok ed" and pl: "plain_edit e"
    and cmd: "editor_command api (edit_line e) (ed, t) = (fin, ed', t')"
  shows "\<not> fin \<and> ed_ok ed' \<and> doc ed' = doc_edit e (doc ed) \<and> ed_path ed' = ed_path ed"
proof (cases e)
  case (Insert_line s)
  then have s: "list_all printable s" "s = [] \<or> hd s \<noteq> CHR '' ''" and c: "clean s" "cstr s = s"
    using pl printable_clean [of s] cstr_id [of s] by auto
  have "fin = False" "editor_insert_line s (ed, t) = (ed', t')"
    using cmd Insert_line insert_command(1) [OF s, of api ed t] by simp_all
  then show ?thesis using insert_refines [of ed s t ed' t'] ok c Insert_line by auto
next
  case (Append_line s)
  then have s: "list_all printable s" "s = [] \<or> hd s \<noteq> CHR '' ''" and c: "clean s" "cstr s = s"
    using pl printable_clean [of s] cstr_id [of s] by auto
  have "fin = False" "editor_append_line s (ed, t) = (ed', t')"
    using cmd Append_line insert_command(2) [OF s, of api ed t] by simp_all
  then show ?thesis using append_refines [OF ok c(1)] c Append_line by auto
next
  case Delete_line
  then have "fin = False" "editor_delete_line (ed, t) = (ed', t')"
    using cmd by (simp_all add: editor_command_def strcmp_0_iff cstr_Cons)
  then show ?thesis using delete_refines [OF ok] Delete_line by auto
next
  case Next_line
  then have "fin = False" "ed' = (if ed_cursor ed + 1 < ed_line_count ed then ed\<lparr>ed_cursor := ed_cursor ed + 1\<rparr> else ed)"
    using cmd by (simp_all add: editor_command_def strcmp_0_iff cstr_Cons)
  then show ?thesis using ok ed_okD [OF ok] Next_line by (auto simp: doc_def ed_ok_def)
next
  case Previous_line
  then have "fin = False" "ed' = (if 0 < ed_cursor ed then ed\<lparr>ed_cursor := ed_cursor ed - 1\<rparr> else ed)"
    using cmd by (simp_all add: editor_command_def strcmp_0_iff cstr_Cons)
  then show ?thesis using ok ed_okD [OF ok] Previous_line by (auto simp: doc_def ed_ok_def)
qed

section \<open>Typing\<close>

definition key_codes :: "string \<Rightarrow> int list" where
  "key_codes s = map uchar s @ [10]"

lemma char_of_uchar [simp]: "char_of (nat (uchar c)) = c"
  by (simp add: uchar_def)

lemma key_loop_typed:
  "list_all printable s \<Longrightarrow> length buf + length s < n \<Longrightarrow>
   key_loop False n (key_codes s @ rest) buf = (Some (buf @ s), map (\<lambda>c. Put [c]) s @ [Put [LF]], rest)"
proof (induction s arbitrary: buf)
  case (Cons c s)
  then have "32 \<le> uchar c" "uchar c \<le> 126" by (simp_all add: printable_def)
  then show ?case using Cons by (simp add: key_codes_def Let_def)
qed (simp add: key_codes_def)

lemma editor_prompt [simp]:
  "editor_set_status t = t\<lparr>con_out := con_out t @ [Set_color 10 0, Put ''editor> '', Set_color 7 0]\<rparr>"
  by (simp add: editor_set_status_def kio_set_color_def say_def emit_def VGA_COLOR_BLACK_def
      VGA_COLOR_LIGHT_GREEN_def VGA_COLOR_LIGHT_GREY_def)

lemma editor_loop_typed:
  fixes t :: "('w, 'a) terminal_scheme"
  assumes "con_in t = key_codes s @ rest" "list_all printable s" "length s < 64"
  obtains t' where "editor_readline (editor_set_status t) = (Some s, t')" "con_in t' = rest"
    "t_world t' = t_world t" "con_status t' = con_status t"
proof -
  have "key_loop False 64 (con_in t) [] = (Some s, map (\<lambda>c. Put [c]) s @ [Put [LF]], rest)"
    using key_loop_typed [of s "[]" 64 rest] assms by simp
  then show ?thesis
    by (intro that [of "t\<lparr>con_in := rest, con_out := con_out t @ [Set_color 10 0, Put ''editor> '', Set_color 7 0] @
          map (\<lambda>c. Put [c]) s @ [Put [LF]]\<rparr>"])
       (simp_all add: editor_readline_def read_line_def editor_consts)
qed

lemma edit_line_short: "plain_edit e \<Longrightarrow> list_all printable (edit_line e) \<and> length (edit_line e) < 64"
  by (cases e) (simp_all add: printable_def uchar_def)

lemma command_terminal:
  assumes pl: "plain_edit e" and cmd: "editor_command api (edit_line e) (ed, t) = (fin, ed', t')"
  shows "con_in t' = con_in t \<and> t_world t' = t_world t \<and> con_status t' = con_status t"
proof (cases e)
  case (Insert_line s)
  then have s: "list_all printable s" "s = [] \<or> hd s \<noteq> CHR '' ''" using pl by auto
  have "editor_insert_line s (ed, t) = (ed', t')"
    using cmd Insert_line insert_command(1) [OF s, of api ed t] by simp
  then show ?thesis by (auto simp: editor_insert_line_def Let_def say_def split: if_splits)
next
  case (Append_line s)
  then have s: "list_all printable s" "s = [] \<or> hd s \<noteq> CHR '' ''" using pl by auto
  have "editor_append_line s (ed, t) = (ed', t')"
    using cmd Append_line insert_command(2) [OF s, of api ed t] by simp
  then show ?thesis by (auto simp: editor_append_line_def editor_insert_line_def Let_def say_def split: if_splits)
next
  case Delete_line
  then have "editor_delete_line (ed, t) = (ed', t')"
    using cmd by (simp add: editor_command_def strcmp_0_iff cstr_Cons)
  then show ?thesis by (auto simp: editor_delete_line_def Let_def say_def split: if_splits)
qed (use cmd in \<open>simp_all add: editor_command_def strcmp_0_iff cstr_Cons\<close>)

text \<open>Typing a list of edits runs them on the document and leaves the rest of the input.\<close>

lemma editor_loop_edits:
  fixes t :: "('w, 'a) terminal_scheme"
  assumes "ed_ok ed" "list_all plain_edit es"
    "con_in t = concat (map (\<lambda>e. key_codes (edit_line e)) es) @ rest"
  obtains ed' t' where "editor_loop api (ed, t) = editor_loop api (ed', t')" "ed_ok ed'"
    "doc ed' = fold doc_edit es (doc ed)" "ed_path ed' = ed_path ed" "con_in t' = rest"
    "t_world t' = t_world t" "con_status t' = con_status t"
  using assms
proof (induction es arbitrary: ed t thesis)
  case Nil
  then show ?case by simp
next
  case (Cons e es)
  then have pl: "plain_edit e" and inp: "con_in t = key_codes (edit_line e) @ concat (map (\<lambda>e. key_codes (edit_line e)) es) @ rest"
    by simp_all
  from edit_line_short [OF pl] editor_loop_typed [OF inp] obtain t1 where
    t1: "editor_readline (editor_set_status t) = (Some (edit_line e), t1)"
      "con_in t1 = concat (map (\<lambda>e. key_codes (edit_line e)) es) @ rest" "t_world t1 = t_world t"
      "con_status t1 = con_status t" by blast
  obtain fin ed2 t2 where cmd: "editor_command api (edit_line e) (ed, t1) = (fin, ed2, t2)"
    by (cases "editor_command api (edit_line e) (ed, t1)") auto
  note r = command_refines [OF Cons.prems(2) pl cmd] command_terminal [OF pl cmd]
  have "editor_loop api (ed, t) = editor_loop api (ed2, t2)"
    using t1(1) cmd r by (subst editor_loop.simps) (simp del: editor_prompt)
  moreover have "con_in t2 = concat (map (\<lambda>e. key_codes (edit_line e)) es) @ rest" using r t1 by simp
  ultimately show ?case
    using Cons.IH [of ed2 t2] Cons.prems r t1 by (metis fold_simps(2) list.pred_inject(2))
qed

section \<open>The saved text\<close>

definition lines_text :: "string list \<Rightarrow> string" where
  "lines_text ls = concat (map (\<lambda>l. l @ [LF]) ls)"

definition doc_text :: "document \<Rightarrow> string" where
  "doc_text = (\<lambda>(ls, cur). if ls = [] then [LF] else take 2047 (lines_text ls))"

lemma take_take_append: "take n (take n xs @ ys) = take n (xs @ ys)"
  by (cases "length xs < n") simp_all

lemma append_chars_take:
  "length buf \<le> 2047 \<Longrightarrow> append_chars 2048 src buf = take 2047 (buf @ cstr src)"
proof (induction src arbitrary: buf)
  case (Cons c src)
  then show ?case by (cases "length buf < 2047") (auto simp: cstr_Cons take_Cons')
qed simp

lemma editor_text_doc: "ed_ok ed \<Longrightarrow> editor_text ed = doc_text (doc ed)"
proof -
  assume ok: "ed_ok ed"
  let ?f = "\<lambda>i buffer. let b = append_chars 2048 (ed_lines ed ! i) buffer
      in if length b + 1 < 2048 then b @ [LF] else b"
  have step: "?f i b = take 2047 (b @ cstr (ed_lines ed ! i) @ [LF])" if "length b \<le> 2047" for i b
    using append_chars_take [OF that, of "ed_lines ed ! i"] take_take_append [of 2047 "b @ cstr (ed_lines ed ! i)" "[LF]"]
    by (auto simp: Let_def min_def)
  have "fold ?f [0..<n] [] = take 2047 (lines_text (map (\<lambda>i. cstr (ed_lines ed ! i)) [0..<n]))" for n
  proof (induction n)
    case (Suc n)
    have "fold ?f [0..<Suc n] [] = ?f n (fold ?f [0..<n] [])" by simp
    also have "\<dots> = take 2047 (fold ?f [0..<n] [] @ cstr (ed_lines ed ! n) @ [LF])"
      by (rule step) (unfold Suc, simp)
    also have "\<dots> = take 2047 (lines_text (map (\<lambda>i. cstr (ed_lines ed ! i)) [0..<Suc n]))"
      unfolding Suc take_take_append by (simp add: lines_text_def)
    finally show ?case .
  qed (simp add: lines_text_def)
  moreover have "map (\<lambda>i. cstr (ed_lines ed ! i)) [0..<ed_line_count ed] = fst (doc ed)"
    using ok by (intro nth_equalityI) (simp_all add: doc_length doc_nth)
  ultimately have "fold ?f [0..<ed_line_count ed] [] = take 2047 (lines_text (fst (doc ed)))" by metis
  moreover have "lines_text ls = [] \<longleftrightarrow> ls = []" for ls by (cases ls) (simp_all add: lines_text_def)
  ultimately show ?thesis
    by (simp add: editor_text_def editor_consts doc_text_def case_prod_beta Let_def)
qed

section \<open>Loading\<close>

definition row_of :: "string \<Rightarrow> char list" where
  "row_of l = l @ zbuf (64 - length l)"

lemma set_char_row:
  "line < length ls \<Longrightarrow> ls ! line = row_of l \<Longrightarrow> length l < 64 \<Longrightarrow>
   set_char line (length l) c ls = ls[line := l @ c # zbuf (63 - length l)]"
proof -
  assume a: "ls ! line = row_of l" "length l < 64"
  have "64 - length l = Suc (63 - length l)" using a(2) by simp
  then have "(row_of l)[length l := c] = l @ c # zbuf (63 - length l)"
    by (simp add: row_of_def zbuf_def list_update_append)
  then show ?thesis by (simp add: set_char_def a)
qed

lemma load_chars:
  "clean l \<Longrightarrow> line < 32 \<Longrightarrow> line < length ls \<Longrightarrow> ls ! line = row_of l0 \<Longrightarrow> length l0 + length l < 64 \<Longrightarrow>
   load_loop (l @ rest) line (length l0) ls = load_loop rest line (length l0 + length l) (ls[line := row_of (l0 @ l)])"
proof (induction l arbitrary: l0 ls)
  case Nil
  then show ?case using list_update_id [of ls line] by simp
next
  case (Cons c l)
  let ?ls = "ls[line := row_of (l0 @ [c])]"
  have c: "c \<noteq> CR" "c \<noteq> LF" "clean l" using Cons.prems(1) by (auto simp: clean_def)
  have "set_char line (length l0) c ls = ?ls"
    using set_char_row [of line ls l0 c] Cons.prems by (simp add: row_of_def)
  then have "load_loop ((c # l) @ rest) line (length l0) ls = load_loop (l @ rest) line (length (l0 @ [c])) ?ls"
    using Cons.prems c(1,2) by (simp add: editor_consts)
  also have "\<dots> = load_loop rest line (length (l0 @ [c]) + length l) (?ls[line := row_of ((l0 @ [c]) @ l)])"
    using Cons.IH [of ?ls "l0 @ [c]"] Cons.prems c(3) by simp
  finally show ?case by simp
qed

lemma set_char_end: "line < length ls \<Longrightarrow> ls ! line = row_of l \<Longrightarrow> length l < 64 \<Longrightarrow>
   set_char line (length l) NUL ls = ls"
proof -
  assume a: "line < length ls" "ls ! line = row_of l" "length l < 64"
  have "64 - length l = Suc (63 - length l)" using a(3) by simp
  then have "l @ NUL # zbuf (63 - length l) = ls ! line" using a(2) by (simp add: row_of_def zbuf_def)
  then show ?thesis using set_char_row [OF a, of NUL] by simp
qed

lemma load_lines:
  "list_all (\<lambda>l. clean l \<and> length l < 64) ls \<Longrightarrow> line + length ls \<le> 32 \<Longrightarrow> length rows = 32 \<Longrightarrow>
   (\<forall>k < 32. line \<le> k \<longrightarrow> rows ! k = row_of []) \<Longrightarrow>
   \<exists>rows'. load_loop (lines_text ls @ rest) line 0 rows = load_loop rest (line + length ls) 0 rows' \<and>
     length rows' = 32 \<and> (\<forall>k < 32. rows' ! k =
       (if line \<le> k \<and> k < line + length ls then row_of (ls ! (k - line)) else rows ! k))"
proof (induction ls arbitrary: line rows)
  case Nil
  then show ?case by (intro exI [of _ rows]) (auto simp: lines_text_def)
next
  case (Cons l ls)
  let ?rows = "rows[line := row_of l]"
  have l: "clean l" "length l < 64" using Cons.prems by simp_all
  have "load_loop (lines_text (l # ls) @ rest) line 0 rows =
      load_loop (LF # lines_text ls @ rest) line (length l) ?rows"
    using load_chars [of l line rows "[]" "LF # lines_text ls @ rest"] Cons.prems l
    by (simp add: lines_text_def)
  also have "\<dots> = load_loop (lines_text ls @ rest) (line + 1) 0 ?rows"
    using set_char_end [of line ?rows l] Cons.prems l by (simp add: editor_consts)
  finally have *: "load_loop (lines_text (l # ls) @ rest) line 0 rows = load_loop (lines_text ls @ rest) (line + 1) 0 ?rows" .
  have pre: "list_all (\<lambda>l. clean l \<and> length l < 64) ls" "line + 1 + length ls \<le> 32" "length ?rows = 32"
    "\<forall>k < 32. line + 1 \<le> k \<longrightarrow> ?rows ! k = row_of []" using Cons.prems by auto
  from Cons.IH [OF pre] obtain rows' where r: "load_loop (lines_text ls @ rest) (line + 1) 0 ?rows =
        load_loop rest (line + 1 + length ls) 0 rows'" "length rows' = 32"
      "\<forall>k < 32. rows' ! k = (if line + 1 \<le> k \<and> k < line + 1 + length ls then row_of (ls ! (k - (line + 1))) else ?rows ! k)"
    by blast
  have "rows' ! k = (if line \<le> k \<and> k < line + length (l # ls) then row_of ((l # ls) ! (k - line)) else rows ! k)"
    if "k < 32" for k
    using r(3) that Cons.prems(2,3) by (cases "k = line") (auto simp: nth_Cons' )
  then show ?case using * r(1,2) by auto
qed

text \<open>A text of at most 32 lines of at most 63 characters; only its last line break may be cut off.\<close>

definition doc_ok :: "string list \<Rightarrow> bool" where
  "doc_ok ls \<longleftrightarrow> list_all (\<lambda>l. clean l \<and> length l < 64 \<and> NUL \<notin> set l) ls \<and> length ls \<le> 32"

lemma doc_ok_doc: "ed_ok ed \<Longrightarrow> doc_ok (fst (doc ed))"
proof -
  assume ok: "ed_ok ed"
  have "clean (cstr r) \<and> length (cstr r) < 64 \<and> NUL \<notin> set (cstr r)" if "row_ok r" for r
    using that by (auto simp: row_ok_def terminated_def)
  then show ?thesis using ok by (auto simp: doc_ok_def doc_def ed_ok_def list_all_iff dest: in_set_takeD)
qed

lemma length_lines_text: "list_all (\<lambda>l. length l < 64) ls \<Longrightarrow> length (lines_text ls) \<le> 64 * length ls"
  by (induction ls) (auto simp: lines_text_def)

lemma lines_text_snoc: "lines_text (ls @ [l]) = lines_text ls @ l @ [LF]"
  by (simp add: lines_text_def)

lemma cut_text:
  assumes ok: "doc_ok ls" and long: "2047 < length (lines_text ls)"
  obtains ks l where "ls = ks @ [l]" "take 2047 (lines_text ls) = lines_text ks @ l" "l \<noteq> []"
proof -
  have len: "list_all (\<lambda>l. length l < 64) ls" using ok by (auto simp: doc_ok_def list_all_iff)
  have n: "length ls \<le> 32" using ok by (simp add: doc_ok_def)
  have tot: "length (lines_text ls) = 2048" using length_lines_text [OF len] n long by linarith
  have "ls \<noteq> []" using long by (auto simp: lines_text_def)
  then obtain ks l where ls: "ls = ks @ [l]" by (metis append_butlast_last_id)
  have "length (lines_text ks) \<le> 64 * 31"
    using length_lines_text [of ks] len n ls by (auto intro: order_trans)
  then have "l \<noteq> []" using tot by (auto simp: ls lines_text_snoc)
  moreover have "take 2047 (lines_text ls) = lines_text ks @ l"
    using tot by (simp add: ls lines_text_snoc)
  ultimately show ?thesis using that ls by simp
qed

definition fresh :: "editor_state \<Rightarrow> bool" where
  "fresh ed \<longleftrightarrow> ed_lines ed = replicate 32 (zbuf 64)"

lemma rows_doc:
  assumes ok: "doc_ok ls" and rows: "length rows = 32"
    "\<forall>k < 32. rows ! k = (if k < length ls then row_of (ls ! k) else row_of [])"
    and ed: "ed_lines ed = rows" "ed_line_count ed = length ls" "ed_cursor ed = 0"
  shows "doc ed = (ls, 0) \<and> ed_ok ed"
proof -
  have l: "clean (ls ! k) \<and> length (ls ! k) < 64 \<and> NUL \<notin> set (ls ! k)" if "k < length ls" for k
    using ok that by (simp add: doc_ok_def list_all_length)
  have r: "row_ok (row_of l) \<and> cstr (row_of l) = l" if "clean l" "length l < 64" "NUL \<notin> set l" for l
  proof -
    have "64 - length l = Suc (63 - length l)" using that by simp
    then have "row_of l = l @ NUL # zbuf (63 - length l)" by (simp add: row_of_def zbuf_def)
    then show ?thesis using that by (simp add: row_ok_def terminated_def cstr_prefix_NUL)
  qed
  have "row_ok (rows ! k)" if "k < 32" for k
    using rows(2) that r [of "[]"] r [of "ls ! k"] l [of k] by (auto simp: clean_def)
  moreover have "map cstr (take (length ls) rows) = ls"
  proof (rule nth_equalityI)
    fix k assume "k < length (map cstr (take (length ls) rows))"
    then show "map cstr (take (length ls) rows) ! k = ls ! k"
      using rows r [of "ls ! k"] l [of k] by simp
  qed (use ok rows in \<open>simp add: doc_ok_def\<close>)
  ultimately show ?thesis using ok ed rows(1) by (auto simp: doc_def ed_ok_def list_all_length doc_ok_def)
qed

lemma editor_fill_doc:
  assumes ok: "doc_ok ls" and ne: "ls \<noteq> []" and fr: "fresh ed"
  shows "doc (editor_fill (take 2047 (lines_text ls)) ed) = (ls, 0) \<and> ed_ok (editor_fill (take 2047 (lines_text ls)) ed)"
proof -
  have z: "\<forall>k < 32. (0::nat) \<le> k \<longrightarrow> ed_lines ed ! k = row_of []" and len: "length (ed_lines ed) = 32"
    using fr by (simp_all add: fresh_def row_of_def)
  show ?thesis
  proof (cases "2047 < length (lines_text ls)")
    case False
    have pre: "list_all (\<lambda>l. clean l \<and> length l < 64) ls" "0 + length ls \<le> 32"
      using ok by (auto simp: doc_ok_def list_all_iff)
    from load_lines [OF pre len z, of "[]"] obtain rows where r: "load_loop (lines_text ls) 0 0 (ed_lines ed) = (length ls, 0, rows)"
        "length rows = 32" "\<forall>k < 32. rows ! k = (if k < length ls then row_of (ls ! k) else row_of [])"
      using z by auto
    have "set_char (length ls) 0 NUL rows = rows" if "length ls < 32"
      using set_char_end [of "length ls" rows "[]"] that r by simp
    then have "editor_fill (lines_text ls) ed = ed\<lparr>ed_lines := rows, ed_line_count := length ls, ed_cursor := 0\<rparr>"
      using r(1) ne by (simp add: editor_fill_def editor_consts)
    then show ?thesis using rows_doc [OF ok r(2,3)] False by simp
  next
    case True
    from cut_text [OF ok True] obtain ks l where ks: "ls = ks @ [l]" "take 2047 (lines_text ls) = lines_text ks @ l" "l \<noteq> []" .
    have pre: "list_all (\<lambda>l. clean l \<and> length l < 64) ks" "0 + length ks \<le> 32" and l: "clean l" "length l < 64" "length ks < 32"
      using ok by (auto simp: doc_ok_def list_all_iff ks(1))
    from load_lines [OF pre len z, of l] obtain rows where r: "load_loop (lines_text ks @ l) 0 0 (ed_lines ed) = load_loop l (length ks) 0 rows"
        "length rows = 32" "\<forall>k < 32. rows ! k = (if k < length ks then row_of (ks ! k) else row_of [])"
      using z by auto
    let ?rows = "rows[length ks := row_of l]"
    have "load_loop l (length ks) 0 rows = (length ks, length l, ?rows)"
      using load_chars [of l "length ks" rows "[]" "[]"] l r(2,3) by simp
    moreover have "set_char (length ks) (length l) NUL ?rows = ?rows"
      using set_char_end [of "length ks" ?rows l] l r(2) by simp
    ultimately have "editor_fill (lines_text ks @ l) ed = ed\<lparr>ed_lines := ?rows, ed_line_count := length ls, ed_cursor := 0\<rparr>"
      using r(1) ks l by (simp add: editor_fill_def editor_consts)
    moreover have "\<forall>k < 32. ?rows ! k = (if k < length ls then row_of (ls ! k) else row_of [])"
      using r(2,3) l(3) by (auto simp: ks(1) nth_append nth_list_update)
    ultimately show ?thesis using rows_doc [OF ok, of ?rows] ks(2) r(2) by simp
  qed
qed

section \<open>Sessions over a file store\<close>

text \<open>The document a session starts with.\<close>

definition opens_as :: "u8 list option \<Rightarrow> document \<Rightarrow> bool" where
  "opens_as old d =
     (case old of None \<Rightarrow> d = ([], 0)
      | Some dat \<Rightarrow> fst d \<noteq> [] \<and> doc_ok (fst d) \<and> snd d = 0 \<and> dat = chars_bytes (doc_text d))"

lemma doc_text_short: "length (doc_text d) \<le> 2047"
  by (cases d) (simp add: doc_text_def)

lemma nblocks_doc: "n \<le> 2047 \<Longrightarrow> nblocks n * 512 \<le> 2048 \<and> nblocks n < 256"
  using div_le_mono [of "n + 511" 2558 512] by (simp add: nblocks_def)

lemma reset_facts:
  "doc (editor_reset path) = ([], 0)" "ed_ok (editor_reset path)" "fresh (editor_reset path)"
  "cstr (ed_path (editor_reset path)) = take 15 (cstr path)"
  using row_ok_zbuf
  by (simp_all add: editor_reset_def zero_editor_def doc_def ed_ok_def fresh_def editor_consts FS_NAME_MAX_def
      list_all_length cstr_copy_text)

lemma say_loaded:
  "\<exists>out. say ''[editor] loaded %d lines from %s\<newline>'' [KNat n, KStr p] t = emit (Put out) t"
  using kprint_int_spec [of "of_nat n"] by (auto simp: say_def KNat_def)

lemma help_out: "\<exists>out. editor_print_help t = t\<lparr>con_out := con_out t @ out\<rparr>"
  by (rule exI, unfold editor_print_help_def, rule say_lines_plain) simp

lemma editor_text_chars: "bytes_chars (take (unat (of_nat n :: u32)) bs) = s"
  if "take n bs = chars_bytes s" "n \<le> 2047" for s
proof -
  have "unat (of_nat n :: u32) = n" using that(2) by (simp add: unat_of_nat)
  then show ?thesis using that(1) by (simp add: bytes_chars_chars)
qed

context file_store
begin

lemma editor_opens:
  fixes t :: "('w, 'a) terminal_scheme"
  assumes ready: "ready (t_world t)" and op: "opens_as (files (t_world t) (take 15 (cstr path))) d"
  obtains ed t1 where "editor_load api (editor_reset path) t = (ed, t1)" "ed_ok ed" "doc ed = d"
    "ed_path ed = ed_path (editor_reset path)" "ready (t_world t1)" "files (t_world t1) = files (t_world t)"
    "room (t_world t1) = room (t_world t)" "con_in t1 = con_in t" "con_status t1 = con_status t"
proof -
  let ?ed = "editor_reset path"
  obtain res w where rd: "fa_read api (ed_path ?ed) 2048 (t_world t) = (res, w)" by fastforce
  have c: "cstr (ed_path ?ed) = take 15 (cstr path)" by (rule reset_facts(4))
  from read_law [OF ready rd] have w: "ready w" "files w = files (t_world t)" "room w = room (t_world t)"
    and ans: "read_answer (files (t_world t)) (ed_path ?ed) 2048 res" by simp_all
  show ?thesis
  proof (cases "files (t_world t) (take 15 (cstr path))")
    case None
    then have "res = ReadFailed" using ans by (simp add: read_answer_def c)
    then have "editor_load api ?ed t = (?ed, say ''[editor] new file: %s\<newline>'' [KStr (ed_path ?ed)] (t\<lparr>t_world := w\<rparr>))"
      using rd by (simp add: editor_load_def editor_consts)
    moreover have "d = ([], 0)" using op None by (simp add: opens_as_def)
    ultimately show ?thesis
      using that reset_facts [of path] w by (simp add: say_def)
  next
    case (Some dat)
    then have d: "fst d \<noteq> []" "doc_ok (fst d)" "snd d = 0" "dat = chars_bytes (doc_text d)"
      using op by (simp_all add: opens_as_def)
    have len: "length dat \<le> 2047" using doc_text_short [of d] d(4) by simp
    then obtain bs where bs: "take (length dat) bs = dat" "res = ReadDone bs (of_nat (length dat))"
      using ans Some nblocks_doc [OF len] by (auto simp: read_answer_def c split: if_splits)
    let ?fill = "editor_fill (take 2047 (lines_text (fst d))) ?ed"
    have "bytes_chars (take (unat (of_nat (length dat) :: u32)) bs) = doc_text d"
      using editor_text_chars bs(1) d(4) len by metis
    moreover have "doc_text d = take 2047 (lines_text (fst d))" using d(1) by (cases d) (simp add: doc_text_def)
    ultimately have ld: "editor_load api ?ed t = (?fill, say ''[editor] loaded %d lines from %s\<newline>''
        [KNat (ed_line_count ?fill), KStr (ed_path ?fill)] (t\<lparr>t_world := w\<rparr>))"
      using rd bs(2) by (simp add: editor_load_def editor_consts Let_def)
    have "ed_path ?fill = ed_path ?ed" by (simp add: editor_fill_def Let_def split: prod.split)
    moreover have "doc ?fill = d" "ed_ok ?fill"
      using editor_fill_doc [OF d(2,1) reset_facts(3)] d(3) by (simp_all add: prod_eq_iff)
    ultimately show ?thesis
      using that ld w say_loaded [of "ed_line_count ?fill" "ed_path ?fill" "t\<lparr>t_world := w\<rparr>"] by auto
  qed
qed

lemma editor_saves:
  fixes t :: "('w, 'a) terminal_scheme"
  assumes ready: "ready (t_world t)" and ok: "ed_ok ed" and name: "length (cstr (ed_path ed)) < 16"
    and room: "\<forall>n \<le> 2047. room (t_world t) (ed_path ed) n"
  obtains t1 where "editor_save api ed t = (0, t1)" "ready (t_world t1)"
    "files (t_world t1) = (files (t_world t))(cstr (ed_path ed) \<mapsto> chars_bytes (doc_text (doc ed)))"
    "con_in t1 = con_in t" "con_status t1 = con_status t"
proof -
  let ?dat = "chars_bytes (doc_text (doc ed))"
  obtain r w where wr: "fa_write api (ed_path ed) ?dat (t_world t) = (r, w)" by fastforce
  have len: "length ?dat \<le> 2047" using doc_text_short by simp
  then have "length ?dat \<le> 131072" by simp
  from write_law [OF ready name this _ wr] room len
  have "r = 0" "ready w" "files w = (files (t_world t))(cstr (ed_path ed) \<mapsto> ?dat)" by simp_all
  then show ?thesis
    using that wr by (simp add: editor_save_def editor_text_doc [OF ok] say_def)
qed

lemma editor_session:
  fixes t :: "('w, 'a) terminal_scheme"
  assumes ready: "ready (t_world t)" and path: "cstr path \<noteq> []" "length (cstr path) < 16"
    and room: "\<forall>n \<le> 2047. room (t_world t) (copy_text (zbuf 16) path) n"
    and op: "opens_as (files (t_world t) (cstr path)) d"
    and es: "list_all plain_edit es"
    and inp: "con_in t = concat (map (\<lambda>e. key_codes (edit_line e)) es) @ key_codes ''wq'' @ rest"
    and run: "con_status t = Running"
  shows "let t' = editor_run api path t in con_status t' = Running \<and> con_in t' = rest \<and> ready (t_world t') \<and>
    files (t_world t') = (files (t_world t))(cstr path \<mapsto> chars_bytes (doc_text (fold doc_edit es d)))"
proof -
  have tk: "take 15 (cstr path) = cstr path" using path(2) by simp
  from editor_opens [OF ready, of path d] op obtain ed t1 where t1: "editor_load api (editor_reset path) t = (ed, t1)"
      "ed_ok ed" "doc ed = d" "ed_path ed = ed_path (editor_reset path)" "ready (t_world t1)"
      "files (t_world t1) = files (t_world t)" "room (t_world t1) = room (t_world t)" "con_in t1 = con_in t"
      "con_status t1 = con_status t" unfolding tk by metis
  obtain out where h: "editor_print_help t1 = t1\<lparr>con_out := con_out t1 @ out\<rparr>" using help_out by blast
  let ?t2 = "editor_print_help t1"
  have "con_in ?t2 = concat (map (\<lambda>e. key_codes (edit_line e)) es) @ key_codes ''wq'' @ rest"
    using t1(8) inp by simp
  from editor_loop_edits [OF t1(2) es this] obtain ed' t3 where t3: "editor_loop api (ed, ?t2) = editor_loop api (ed', t3)"
      "ed_ok ed'" "doc ed' = fold doc_edit es d" "ed_path ed' = ed_path ed" "con_in t3 = key_codes ''wq'' @ rest"
      "t_world t3 = t_world ?t2" "con_status t3 = con_status ?t2" unfolding t1(3) by metis
  have "list_all printable ''wq'' \<and> length ''wq'' < 64" by (simp add: printable_def uchar_def)
  then obtain t4 where t4: "editor_readline (editor_set_status t3) = (Some ''wq'', t4)" "con_in t4 = rest"
      "t_world t4 = t_world t3" "con_status t4 = con_status t3"
    using editor_loop_typed [OF t3(5)] by blast
  have p: "ed_path ed' = copy_text (zbuf 16) path"
    using t3(4) t1(4) by (simp add: editor_reset_def zero_editor_def FS_NAME_MAX_def)
  then have cp: "cstr (ed_path ed') = cstr path" using path(2) by (simp add: cstr_copy_text)
  have w4: "t_world t4 = t_world t1" using t4(3) t3(6) h by simp
  have "ready (t_world t4)" "\<forall>n \<le> 2047. room (t_world t4) (ed_path ed') n" using t1(5,7) room p w4 by simp_all
  with editor_saves [of t4 ed'] t3(2) cp path(2) obtain t5 where
    t5: "editor_save api ed' t4 = (0, t5)" "ready (t_world t5)"
      "files (t_world t5) = (files (t_world t4))(cstr path \<mapsto> chars_bytes (doc_text (doc ed')))"
      "con_in t5 = con_in t4" "con_status t5 = con_status t4" by metis
  have "editor_command api ''wq'' (ed', t4) = (True, ed', t5)"
    using t5(1) by (simp add: editor_command_def strcmp_0_iff cstr_Cons)
  then have "editor_loop api (ed', t3) = (ed', t5)"
    using t4(1) by (subst editor_loop.simps) (simp del: editor_prompt)
  moreover have "cget path 0 \<noteq> NUL" using path(1) by (simp add: cstr_eq_Nil_iff)
  ultimately have "editor_run api path t = t5" using t1(1,9) t3(1) run by (simp add: editor_run_def)
  then show ?thesis using t5 t4 t3 t1 w4 h run by simp
qed

end

lemma fs_room_cstr: "cstr a = cstr b \<Longrightarrow> fs_room cap f a n = fs_room cap f b n"
  by (simp add: fs_room_def fs_full_def fs_find_entry_def name_equals_iff)

section \<open>Properties\<close>

text \<open>C10. An editing session.  On a mounted file system with room for the file, typing any list of
edit commands and then wq runs the editor to its end, consumes exactly that input, and leaves under
the path the text of the document those edits make, as list operations on lines and a cursor, of
the document the file held (none for a new file); every other file is unchanged.\<close>

theorem editor_session_saves_document:
  fixes t :: "(fs \<times> 's, 'a) terminal_scheme"
  assumes dev: "block_device dev ok store cap" and ready: "fs_ready dev ok store cap f s"
    and path: "cstr path \<noteq> []" "length (cstr path) < 16" and room: "\<forall>n \<le> 2047. fs_room cap f path n"
    and op: "opens_as (fs_files store f s (cstr path)) d" and es: "list_all plain_edit es"
    and t: "t_world t = (f, s)" "con_status t = Running"
      "con_in t = concat (map (\<lambda>e. key_codes (edit_line e)) es) @ key_codes ''wq'' @ rest"
  shows "let t' = editor_run (fs_api dev) path t; (f', s') = t_world t'
    in con_status t' = Running \<and> con_in t' = rest \<and> fs_ready dev ok store cap f' s' \<and>
       fs_files store f' s' = (fs_files store f s)(cstr path \<mapsto> chars_bytes (doc_text (fold doc_edit es d)))"
proof -
  have st: "file_store (fs_api dev) (\<lambda>(f, s). fs_ready dev ok store cap f s)
      (\<lambda>(f, s). fs_files store f s) (\<lambda>(f, s). fs_room cap f)"
    using dev by (rule block_device.provides_files)
  have c: "cstr (copy_text (zbuf 16) path) = cstr path" using path(2) by (simp add: cstr_copy_text)
  have "(\<lambda>(f, s). fs_ready dev ok store cap f s) (t_world t)"
    "\<forall>n \<le> 2047. (\<lambda>(f, s). fs_room cap f) (t_world t) (copy_text (zbuf 16) path) n"
    "opens_as ((\<lambda>(f, s). fs_files store f s) (t_world t) (cstr path)) d"
    using ready room op t(1) fs_room_cstr [OF c] by simp_all
  from file_store.editor_session [OF st this(1) path this(2,3) es t(3,2)]
  show ?thesis by (simp add: Let_def t(1) case_prod_beta)
qed

definition typing :: "int list \<Rightarrow> 'w \<Rightarrow> 'w terminal" where
  "typing keys w = \<lparr>con_in = keys, con_out = [], con_status = Running, t_world = w\<rparr>"

definition demo_edits :: "edit list" where
  "demo_edits = [Append_line ''one'', Append_line ''three'', Insert_line ''two'', Next_line, Delete_line]"

lemma editor_session_saves_document_witness:
  "\<exists>f s. fs_format sim_disk fs_clear_cache (sim_info, sim_drive0) = (0, f, s) \<and>
     (let t = typing (concat (map (\<lambda>e. key_codes (edit_line e)) demo_edits) @ key_codes ''wq'') (f, s);
          (f', s') = t_world (editor_run (fs_api sim_disk) ''notes'' t)
      in fs_files sim_store f' s' ''notes'' = Some (chars_bytes ''one\<newline>two\<newline>''))"
proof -
  from sim_formatted obtain f s where fs: "fs_format sim_disk fs_clear_cache (sim_info, sim_drive0) = (0, f, s)"
    "fs_ready sim_disk sim_ok sim_store (2 ^ 20) f s" "fs_files sim_store f s = Map.empty" .
  note e = free_block_empty [OF fs_readyD(4) [OF fs(2)] fs(3)]
  have n: "cstr ''notes'' = ''notes''" by (simp add: cstr_Cons)
  then have n': "cstr ''notes'' \<noteq> []" "length (cstr ''notes'') < 16" by simp_all
  have room: "\<forall>n \<le> 2047. fs_room (2 ^ 20) f ''notes'' n"
    using e by (auto simp: fs_room_def fs_full_def nblocks_def)
  have op: "opens_as (fs_files sim_store f s (cstr ''notes'')) ([], 0)" using fs(3) by (simp add: opens_as_def)
  have es: "list_all plain_edit demo_edits" by code_simp
  have d: "doc_text (fold doc_edit demo_edits ([], 0)) = ''one\<newline>two\<newline>''" by code_simp
  show ?thesis
    using editor_session_saves_document [OF sim_device fs(2) n' room op es, of
        "typing (concat (map (\<lambda>e. key_codes (edit_line e)) demo_edits) @ key_codes ''wq'') (f, s)" "[]"]
      fs(1) n d
    by (intro exI [of _ f] exI [of _ s]) (simp add: typing_def Let_def case_prod_beta)
qed

text \<open>C32. Saving and reopening.  On a mounted file system with room for the file, saving a
well-formed buffer that holds at least one line succeeds, and opening the path again yields exactly
the same lines, even when all 32 lines are full and the last line break no longer fits the file.\<close>

theorem editor_save_load_roundtrip:
  fixes t :: "(fs \<times> 's, 'a) terminal_scheme"
  assumes dev: "block_device dev ok store cap" and ready: "fs_ready dev ok store cap f s"
    and path: "length (cstr path) < 16" and room: "\<forall>n \<le> 2047. fs_room cap f path n"
    and ed: "ed_ok ed" "0 < ed_line_count ed" "ed_path ed = copy_text (zbuf 16) path"
    and t: "t_world t = (f, s)"
  shows "let (r, t1) = editor_save (fs_api dev) ed t; (ed2, t2) = editor_load (fs_api dev) (editor_reset path) t1
    in r = 0 \<and> ed_ok ed2 \<and> fst (doc ed2) = fst (doc ed) \<and> ed_cursor ed2 = 0"
proof -
  have st: "file_store (fs_api dev) (\<lambda>(f, s). fs_ready dev ok store cap f s)
      (\<lambda>(f, s). fs_files store f s) (\<lambda>(f, s). fs_room cap f)"
    using dev by (rule block_device.provides_files)
  have c: "cstr (ed_path ed) = cstr path" using path ed(3) by (simp add: cstr_copy_text)
  have "(\<lambda>(f, s). fs_ready dev ok store cap f s) (t_world t)" "length (cstr (ed_path ed)) < 16"
    "\<forall>n \<le> 2047. (\<lambda>(f, s). fs_room cap f) (t_world t) (ed_path ed) n"
    using ready room t fs_room_cstr [OF c] path c by simp_all
  from file_store.editor_saves [OF st this(1) ed(1) this(2,3)] obtain t1 where
    t1: "editor_save (fs_api dev) ed t = (0, t1)" "(\<lambda>(f, s). fs_ready dev ok store cap f s) (t_world t1)"
      "(\<lambda>(f, s). fs_files store f s) (t_world t1) =
        ((\<lambda>(f, s). fs_files store f s) (t_world t))(cstr (ed_path ed) \<mapsto> chars_bytes (doc_text (doc ed)))" .
  have "take 15 (cstr path) = cstr path" using path by simp
  moreover have "fst (doc ed) \<noteq> []" using ed(2) doc_length [OF ed(1)] by auto
  moreover have "doc_text (doc ed) = doc_text (fst (doc ed), 0)" by (cases "doc ed") (simp add: doc_text_def)
  ultimately have "opens_as ((\<lambda>(f, s). fs_files store f s) (t_world t1) (take 15 (cstr path))) (fst (doc ed), 0)"
    using t1(3) c doc_ok_doc [OF ed(1)] by (simp add: opens_as_def)
  from file_store.editor_opens [OF st t1(2) this] obtain ed2 t2 where
    "editor_load (fs_api dev) (editor_reset path) t1 = (ed2, t2)" "ed_ok ed2" "doc ed2 = (fst (doc ed), 0)" .
  then show ?thesis using t1(1) by (simp add: doc_def)
qed

lemma editor_save_load_roundtrip_witness:
  "\<exists>f s. fs_format sim_disk fs_clear_cache (sim_info, sim_drive0) = (0, f, s) \<and>
     (let ed = fst (editor_append_line ''hello'' (editor_reset ''a'', typing [] (f, s)));
          (r, t1) = editor_save (fs_api sim_disk) ed (typing [] (f, s));
          (ed2, t2) = editor_load (fs_api sim_disk) (editor_reset ''a'') t1
      in r = 0 \<and> fst (doc ed2) = [''hello''])"
proof -
  from sim_formatted obtain f s where fs: "fs_format sim_disk fs_clear_cache (sim_info, sim_drive0) = (0, f, s)"
    "fs_ready sim_disk sim_ok sim_store (2 ^ 20) f s" "fs_files sim_store f s = Map.empty" .
  note e = free_block_empty [OF fs_readyD(4) [OF fs(2)] fs(3)]
  let ?ed = "fst (editor_append_line ''hello'' (editor_reset ''a'', typing [] (f, s)))"
  obtain c' where ap: "editor_append_line ''hello'' (editor_reset ''a'', typing [] (f, s)) = (?ed, c')"
    by (cases "editor_append_line ''hello'' (editor_reset ''a'', typing [] (f, s))") simp
  have "clean ''hello''" "cstr ''hello'' = ''hello''" by (simp_all add: clean_def cstr_Cons)
  then have ed: "ed_ok ?ed" "doc ?ed = ([''hello''], 0)" "ed_path ?ed = ed_path (editor_reset ''a'')"
    using append_refines [OF reset_facts(2) _ ap] reset_facts(1) [of "''a''"] by simp_all
  have "0 < ed_line_count ?ed" using doc_length [OF ed(1)] ed(2) by simp
  moreover have "ed_path ?ed = copy_text (zbuf 16) ''a''"
    using ed(3) by (simp add: editor_reset_def zero_editor_def FS_NAME_MAX_def)
  moreover have "\<forall>n \<le> 2047. fs_room (2 ^ 20) f ''a'' n" "length (cstr ''a'') < 16"
    using e by (auto simp: fs_room_def fs_full_def nblocks_def cstr_Cons)
  moreover have "t_world (typing [] (f, s)) = (f, s)" by (simp add: typing_def)
  ultimately show ?thesis
    using editor_save_load_roundtrip [OF sim_device fs(2)] ed(1,2) fs(1)
    by (intro exI [of _ f] exI [of _ s]) (fastforce simp: Let_def case_prod_beta)
qed

end
