(* ===== verification/Browser.thy ===== *)
theory Browser
  imports Console FsProps
begin

text \<open>
  The terminal file browser \<open>kernel/browser/browser.c\<close>: listing with a prefix
  filter, metadata, and the preview of a file through a 256-byte buffer.  The
  preview is undefined for every file that is not empty: the read stores whole
  512-byte blocks.
\<close>

definition BROWSER_INPUT_MAX :: nat where "BROWSER_INPUT_MAX = 64"
definition BROWSER_PREVIEW_MAX :: nat where "BROWSER_PREVIEW_MAX = 256"

definition browser_print_prompt :: "'a console_scheme \<Rightarrow> 'a console_scheme" where
  "browser_print_prompt c =
     kio_set_color VGA_COLOR_LIGHT_GREY VGA_COLOR_BLACK
       (say ''browser> '' [] (kio_set_color VGA_COLOR_LIGHT_MAGENTA VGA_COLOR_BLACK c))"

definition browser_readline :: "'a console_scheme \<Rightarrow> string option \<times> 'a console_scheme" where
  "browser_readline = read_line False BROWSER_INPUT_MAX"

definition browser_skip_spaces :: "char list \<Rightarrow> char list" where
  "browser_skip_spaces s = dropWhile (\<lambda>c. c = CHR '' '') s"

definition browser_starts_with :: "char list \<Rightarrow> char list \<Rightarrow> bool" where
  "browser_starts_with t prefix \<longleftrightarrow> (let n = strlen prefix in memcmp t prefix n = 0)"

definition browser_prefix_matches :: "char list \<Rightarrow> char list \<Rightarrow> bool" where
  "browser_prefix_matches name prefix =
     (if cget prefix 0 = NUL then True else browser_starts_with name prefix)"

definition browser_show_files :: "char list \<Rightarrow> (fs \<times> 's, 'a) terminal_scheme \<Rightarrow> (fs \<times> 's, 'a) terminal_scheme" where
  "browser_show_files prefix t =
     (let files = fs_list_files (fst (t_world t)) FS_FILES_MAX;
          some = cget prefix 0 \<noteq> NUL;
          t1 = say ''Files%s%s:\<newline>'' [KStr (if some then '' matching '' else ''''),
                 KStr (if some then prefix else '''')] t
      in if files = [] then say ''(empty)\<newline>'' [] t1
         else fold (\<lambda>e t. if \<not> browser_prefix_matches (c_name e) prefix then t
                else say ''  %s  %d bytes  lba=%d\<newline>''
                       [KStr (c_name e), KInt (c_size_bytes e), KInt (c_start_lba e)] t) files t1)"

definition browser_preview_file ::
    "'s blockdev \<Rightarrow> char list \<Rightarrow> (fs \<times> 's, 'a) terminal_scheme \<Rightarrow> (fs \<times> 's, 'a) terminal_scheme" where
  "browser_preview_file dev name t =
     (if cget name 0 = NUL then say ''usage: open <name>\<newline>'' [] t
      else case fa_read (fs_api dev) name BROWSER_PREVIEW_MAX (t_world t) of
        (ReadFailed, w) \<Rightarrow> say ''open failed: %s\<newline>'' [KStr name] (t\<lparr>t_world := w\<rparr>)
      | (ReadOverrun _, w) \<Rightarrow> stop Faulty (t\<lparr>t_world := w\<rparr>)
      | (ReadDone bs n, w) \<Rightarrow>
          let fin = (if unat n < BROWSER_PREVIEW_MAX then unat n else BROWSER_PREVIEW_MAX - 1)
          in say ''%s\<newline>'' [KStr (bytes_chars (take fin bs))]
               (say ''----- %s -----\<newline>'' [KStr name] (t\<lparr>t_world := w\<rparr>)))"

definition browser_info_file :: "char list \<Rightarrow> (fs \<times> 's, 'a) terminal_scheme \<Rightarrow> (fs \<times> 's, 'a) terminal_scheme" where
  "browser_info_file name t =
     (let files = fs_list_files (fst (t_world t)) FS_FILES_MAX in
      if cget name 0 = NUL then say ''usage: info <name>\<newline>'' [] t
      else case first_index (\<lambda>e. strcmp (c_name e) name = 0) files of
        Some i \<Rightarrow>
          let e = files ! i
          in say ''start lba: %d\<newline>'' [KInt (c_start_lba e)]
               (say ''size: %d bytes\<newline>'' [KInt (c_size_bytes e)] (say ''name: %s\<newline>'' [KStr (c_name e)] t))
      | None \<Rightarrow> say ''info failed: %s\<newline>'' [KStr name] t)"

definition browser_help :: "'a console_scheme \<Rightarrow> 'a console_scheme" where
  "browser_help = say_lines
     [''Browser commands:\<newline>'',
      ''  ls           List visible files\<newline>'',
      ''  filter <p>   Show files matching prefix\<newline>'',
      ''  open <name>  Preview a file\<newline>'',
      ''  info <name>  Show file metadata\<newline>'',
      ''  refresh      Reload the file list\<newline>'',
      ''  q            Quit browser\<newline>'',
      ''  help         Show this help\<newline>'']"

section \<open>The command loop\<close>

text \<open>One command line: whether the browser returns, and the prefix buffer.\<close>

definition browser_command ::
    "'s blockdev \<Rightarrow> string \<Rightarrow> char list \<times> (fs \<times> 's, 'a) terminal_scheme \<Rightarrow>
     bool \<times> char list \<times> (fs \<times> 's, 'a) terminal_scheme" where
  "browser_command dev line = (\<lambda>(prefix, t).
     if strcmp line ''help'' = 0 then (False, prefix, browser_help t)
     else if strcmp line ''ls'' = 0 \<or> strcmp line ''refresh'' = 0 then (False, prefix, browser_show_files prefix t)
     else if browser_starts_with line ''filter'' then
       let prefix' = copy_text prefix (browser_skip_spaces (drop 6 line))
       in (False, prefix', browser_show_files prefix' t)
     else if browser_starts_with line ''open'' then
       (False, prefix, browser_preview_file dev (browser_skip_spaces (drop 4 line)) t)
     else if browser_starts_with line ''info'' then
       (False, prefix, browser_info_file (browser_skip_spaces (drop 4 line)) t)
     else if strcmp line ''q'' = 0 then (True, prefix, t)
     else if cget line 0 = NUL then (False, prefix, t)
     else (False, prefix, say ''unknown browser command: %s\<newline>'' [KStr line] t))"

lemma con_in_browser [simp]:
  "con_in (browser_help c) = con_in c" "con_in (browser_print_prompt c) = con_in c"
  by (simp_all add: browser_help_def browser_print_prompt_def)

lemma con_in_fold_keep:
  "(\<And>x c. con_in (f x c) = con_in c) \<Longrightarrow> con_in (fold f xs c) = con_in c"
  by (induction xs arbitrary: c) simp_all

lemma con_in_show_files [simp]: "con_in (browser_show_files p t) = con_in t"
  by (simp add: browser_show_files_def Let_def con_in_fold_keep)

lemma con_in_preview [simp]: "con_in (browser_preview_file dev name t) = con_in t"
  by (simp add: browser_preview_file_def Let_def split: prod.split read_result.split)

lemma con_in_info [simp]: "con_in (browser_info_file name t) = con_in t"
  by (simp add: browser_info_file_def Let_def split: option.split)

lemma con_in_browser_command: "con_in (snd (snd (browser_command dev line (p, t)))) = con_in t"
  unfolding browser_command_def prod.case Let_def
  by (simp only: if_distrib [of "\<lambda>r. con_in (snd (snd r))"] snd_conv con_in_browser con_in_show_files
      con_in_preview con_in_info con_in_say if_cancel)

lemma browser_turn_shorter:
  assumes "(x, t') = browser_readline (browser_print_prompt t)" "x = Some l"
    "(fin, y) = browser_command dev l (p, t')" "(p', t'') = y"
  shows "length (con_in t'') < length (con_in t)"
proof -
  have cmd: "browser_command dev l (p, t') = (fin, p', t'')"
    and rd: "read_line False BROWSER_INPUT_MAX (browser_print_prompt t) = (Some l, t')"
    using assms by (simp_all add: browser_readline_def)
  have "con_in t'' = con_in t'" using con_in_browser_command [of dev l p t'] by (simp only: cmd snd_conv)
  moreover have "length (con_in t') < length (con_in (browser_print_prompt t))"
    using rd by (rule read_line_shorter)
  ultimately show ?thesis by simp
qed

function browser_loop ::
    "'s blockdev \<Rightarrow> char list \<times> (fs \<times> 's, 'a) terminal_scheme \<Rightarrow> (fs \<times> 's, 'a) terminal_scheme" where
  "browser_loop dev (prefix, t) =
     (case browser_readline (browser_print_prompt t) of
        (None, t') \<Rightarrow> t'
      | (Some line, t') \<Rightarrow>
          (case browser_command dev line (prefix, t') of (finished, prefix', t'') \<Rightarrow>
             if finished \<or> con_status t'' = Faulty then t'' else browser_loop dev (prefix', t'')))"
  by pat_completeness auto
termination
  by (relation "measure (\<lambda>(dev, p, t). length (con_in t))", simp)
     (unfold in_measure prod.case, erule (3) browser_turn_shorter)

declare browser_loop.simps [simp del]

definition browser_run ::
    "'s blockdev \<Rightarrow> char list \<Rightarrow> (fs \<times> 's, 'a) terminal_scheme \<Rightarrow> (fs \<times> 's, 'a) terminal_scheme" where
  "browser_run dev filter_prefix t =
     (if \<not> fs_mounted (fst (t_world t)) then say ''filesystem not mounted\<newline>'' [] t
      else let prefix = copy_text (zbuf BROWSER_INPUT_MAX) filter_prefix
           in browser_loop dev (prefix, browser_show_files prefix (browser_help t)))"

section \<open>The preview\<close>

lemma kprintf_str_line: "kprintf ''%s\<newline>'' [KStr s] = Some (cstr s @ [LF])"
  by (simp add: kputs_def)

text \<open>C30. Previewing a file.  On a mounted file system the preview of a name reports failure for a
name that is not there and for a file of more than 256 bytes, shows an empty file as an empty
line, and writes 512 bytes into its 256-byte buffer for every other file: no file with any content
can be previewed.\<close>

theorem browser_preview_shows_only_empty_files:
  fixes t :: "(fs \<times> 's, 'a) terminal_scheme"
  assumes dev: "block_device dev ok store cap" and ready: "fs_ready dev ok store cap f s"
    and name: "cget name 0 \<noteq> NUL" and t: "t_world t = (f, s)" "con_status t = Running"
  shows "let t' = browser_preview_file dev name t in
    case fs_files store f s (cstr name) of
      None \<Rightarrow> con_status t' = Running \<and> con_out t' = con_out t @ [Put (''open failed: '' @ cstr name @ [LF])]
    | Some dat \<Rightarrow>
        if dat = [] then con_status t' = Running \<and>
          con_out t' = con_out t @ [Put (''----- '' @ cstr name @ '' -----\<newline>''), Put [LF]]
        else if length dat \<le> 256 then con_status t' = Faulty
        else con_status t' = Running \<and> con_out t' = con_out t @ [Put (''open failed: '' @ cstr name @ [LF])]"
proof -
  have st: "file_store (fs_api dev) (\<lambda>(f, s). fs_ready dev ok store cap f s)
      (\<lambda>(f, s). fs_files store f s) (\<lambda>(f, s). fs_room cap f)"
    using dev by (rule block_device.provides_files)
  obtain res w where rd: "fa_read (fs_api dev) name 256 (f, s) = (res, w)" by (cases "fa_read (fs_api dev) name 256 (f, s)") simp
  have "(\<lambda>(f, s). fs_ready dev ok store cap f s) (f, s)" using ready by simp
  from file_store.read_law [OF st this rd]
  have ans: "read_answer (fs_files store f s) name 256 res" by simp
  have failed: "res = ReadFailed \<Longrightarrow> browser_preview_file dev name t =
      emit (Put (''open failed: '' @ cstr name @ [LF])) (t\<lparr>t_world := w\<rparr>)"
    using rd name t(1) by (simp add: browser_preview_file_def BROWSER_PREVIEW_MAX_def say_def kputs_def)
  show ?thesis
  proof (cases "fs_files store f s (cstr name)")
    case None
    then show ?thesis using failed ans t(2) by (simp add: read_answer_def)
  next
    case (Some dat)
    show ?thesis
    proof (cases "dat = [] \<or> 256 < length dat")
      case True
      then show ?thesis
      proof
        assume "dat = []"
        then have "res = ReadDone [] 0" using ans Some by (auto simp: read_answer_def nblocks_def)
        then show ?thesis using rd name t Some \<open>dat = []\<close>
          by (simp add: browser_preview_file_def BROWSER_PREVIEW_MAX_def say_def kputs_def bytes_chars_def)
      next
        assume "256 < length dat"
        then have "res = ReadFailed" using ans Some by (simp add: read_answer_def)
        then show ?thesis using failed Some \<open>256 < length dat\<close> t(2) by auto
      qed
    next
      case False
      then have n: "nblocks (length dat) = 1"
      proof -
        have "512 \<le> length dat + 511" "length dat + 511 < 1024" using False by (cases dat; simp)+
        then show ?thesis by (simp add: nblocks_def div_nat_eqI)
      qed
      then obtain bs where "res = ReadOverrun bs" using ans Some False by (auto simp: read_answer_def)
      then show ?thesis using rd name t Some False
        by (simp add: browser_preview_file_def BROWSER_PREVIEW_MAX_def)
    qed
  qed
qed

definition at_prompt :: "'w \<Rightarrow> 'w terminal" where
  "at_prompt w = \<lparr>con_in = [], con_out = [], con_status = Running, t_world = w\<rparr>"

lemma browser_preview_shows_only_empty_files_witness:
  "\<exists>f s. let (r, w) = fs_write_file sim_disk ''a'' [104, 105] f s
    in r = 0 \<and> con_status (browser_preview_file sim_disk ''a'' (at_prompt w)) = Faulty"
proof -
  from sim_formatted obtain f s where fs: "fs_format sim_disk fs_clear_cache (sim_info, sim_drive0) = (0, f, s)"
    "fs_ready sim_disk sim_ok sim_store (2 ^ 20) f s" "fs_files sim_store f s = Map.empty" .
  note e = free_block_empty [OF fs_readyD(4) [OF fs(2)] fs(3)]
  have n: "cstr ''a'' = ''a''" by (simp add: cstr_Cons)
  have "fs_room (2 ^ 20) f ''a'' (length [104, 105 :: u8])"
    using e by (auto simp: fs_room_def fs_full_def nblocks_def)
  with block_device.fs_write_ready [OF sim_device fs(2), of "''a''" "[104, 105]"] n
  obtain f' s' where w: "fs_write_file sim_disk ''a'' [104, 105] f s = (0, f', s')"
    "fs_ready sim_disk sim_ok sim_store (2 ^ 20) f' s'" "fs_files sim_store f' s' = [''a'' \<mapsto> [104, 105]]"
    using fs(3) by auto
  show ?thesis
    using browser_preview_shows_only_empty_files [OF sim_device w(2), of "''a''" "at_prompt (f', s')"] w(1,3) n
    by (intro exI [of _ f] exI [of _ s]) (simp add: at_prompt_def Let_def)
qed

end
