(* ===== verification/Userspace.thy ===== *)
theory Userspace
  imports Vmm Console
begin

text \<open>
  The ring-3 demonstration \<open>users/userspace.c\<close>: copying the program image into
  its page, mapping the code and the stack page for user mode, and entering it.
  The image is the bytes between the two symbols of the assembly file, and the
  addresses of the two static pages are parameters.  Entering user mode does
  not return: it is the terminal status \<open>User_mode\<close> with the instruction and
  stack pointers that \<open>iretq\<close> loads.
\<close>

definition USER_CODE_VADDR :: u64 where "USER_CODE_VADDR = 0x8000000000"
definition USER_STACK_VADDR :: u64 where "USER_STACK_VADDR = 0x8000200000"
definition USER_STACK_TOP :: u64 where "USER_STACK_TOP = USER_STACK_VADDR + VMM_PAGE_SIZE_2M"

record user_space =
  user_code_page :: "u8 list"
  user_stack_page :: "u8 list"
  userspace_running :: bool

definition PAGE_BYTES :: nat where "PAGE_BYTES = 0x200000"

definition userspace_init ::
    "layout \<Rightarrow> u8 list \<Rightarrow> u64 \<Rightarrow> u64 \<Rightarrow> vmm \<Rightarrow> string + user_space \<times> vmm" where
  "userspace_init l program code_at stack_at m =
     (if PAGE_BYTES < length program then Inl ''User program image too large''
      else
        let u = \<lparr>user_code_page = program @ replicate (PAGE_BYTES - length program) 0,
                 user_stack_page = replicate PAGE_BYTES 0, userspace_running = False\<rparr>
        in case vmm_map_user_2m l USER_CODE_VADDR code_at m of (r, m1) \<Rightarrow>
          if r \<noteq> 0 then Inl ''Failed to map user code page''
          else case vmm_map_user_2m l USER_STACK_VADDR stack_at m1 of (r, m2) \<Rightarrow>
            if r \<noteq> 0 then Inl ''Failed to map user stack page'' else Inr (u, m2))"

definition userspace_enter :: "u64 \<Rightarrow> u64 \<Rightarrow> 'a console_scheme \<Rightarrow> 'a console_scheme" where
  "userspace_enter entry stack_top c = stop (User_mode entry stack_top) c"

definition userspace_run_demo :: "user_space \<times> 'a console_scheme \<Rightarrow> user_space \<times> 'a console_scheme" where
  "userspace_run_demo = (\<lambda>(u, c).
     if userspace_running u then (u, say ''user demo already running\<newline>'' [] c)
     else (u\<lparr>userspace_running := True\<rparr>,
           userspace_enter USER_CODE_VADDR USER_STACK_TOP (say ''entering user mode demo...\<newline>'' [] c)))"

section \<open>What ring 3 can reach\<close>

text \<open>Both static pages are mapped, and the walk over both mappings.\<close>

lemma user_pages:
  "page_of USER_CODE_VADDR = (1, 0, 0)" "page_of USER_STACK_VADDR = (1, 0, 1)"
  "page_of (USER_STACK_TOP - 8) = (1, 0, 1)"
  "USER_CODE_VADDR mod 0x200000 = 0" "USER_STACK_VADDR mod 0x200000 = 0"
  "VMM_IDENTITY_MAP_SIZE \<le> USER_CODE_VADDR" "VMM_IDENTITY_MAP_SIZE \<le> USER_STACK_VADDR"
  by code_simp+

lemma user_pages_mapped:
  assumes l: "layout_ok l" and code: "code_at mod 0x200000 = 0" "code_at < 0x10000000000000"
    and stack: "stack_at mod 0x200000 = 0" "stack_at < 0x10000000000000"
  obtains m1 m2 where "vmm_map_user_2m l USER_CODE_VADDR code_at (vmm_init l) = (0, m1)"
    "vmm_map_user_2m l USER_STACK_VADDR stack_at m1 = (0, m2)"
    "\<forall>a. walk l m2 a =
      (if page_of a = (1, 0, 0) then Some (code_at + (a AND 0x1FFFFF), True)
       else if page_of a = (1, 0, 1) then Some (stack_at + (a AND 0x1FFFFF), True)
       else walk l (vmm_init l) a)"
proof -
  obtain r1 m1 where m1: "vmm_map_user_2m l USER_CODE_VADDR code_at (vmm_init l) = (r1, m1)" by fastforce
  obtain r2 m2 where m2: "vmm_map_user_2m l USER_STACK_VADDR stack_at m1 = (r2, m2)" by fastforce
  have inv: "vmm_inv l m1" using map_user_inv [OF l vmm_init_inv] m1 by (metis snd_conv)
  note w1 = map_user_walk [OF l vmm_init_inv m1 code(2)] and w2 = map_user_walk [OF l inv m2 stack(2)]
  have ok: "r1 = 0" "r2 = 0" using w1 w2 code(1) stack(1) user_pages by simp_all
  have "\<forall>a. walk l m2 a =
      (if page_of a = (1, 0, 0) then Some (code_at + (a AND 0x1FFFFF), True)
       else if page_of a = (1, 0, 1) then Some (stack_at + (a AND 0x1FFFFF), True)
       else walk l (vmm_init l) a)"
    using w1 w2 ok unfolding user_pages by simp
  with m1 m2 ok show thesis by (auto intro: that)
qed

text \<open>C13. The user address space.  With page tables and the two static pages at suitable addresses,
setting up the demonstration after \<open>vmm_init\<close> succeeds exactly when the program image fits its
page; then the program lies at the start of the code page, ring 3 reaches exactly the addresses of
the two pages, both the entry point and the highest word of the stack among them, and the kernel's
identity mapping is as it was and closed to ring 3.\<close>

theorem userspace_reaches_two_pages:
  assumes l: "layout_ok l" and code: "code_at mod 0x200000 = 0" "code_at < 0x10000000000000"
    and stack: "stack_at mod 0x200000 = 0" "stack_at < 0x10000000000000"
  shows "case userspace_init l program code_at stack_at (vmm_init l) of
      Inl _ \<Rightarrow> PAGE_BYTES < length program
    | Inr (u, m) \<Rightarrow> length program \<le> PAGE_BYTES \<and> take (length program) (user_code_page u) = program \<and>
        length (user_code_page u) = PAGE_BYTES \<and> \<not> userspace_running u \<and>
        (\<forall>a. walk l m a =
           (if page_of a = page_of USER_CODE_VADDR then Some (code_at + (a AND 0x1FFFFF), True)
            else if page_of a = page_of (USER_STACK_TOP - 8) then Some (stack_at + (a AND 0x1FFFFF), True)
            else if fst (page_of a) = 0 \<and> fst (snd (page_of a)) = 0
              then Some (of_nat (snd (snd (page_of a))) * 0x200000 + (a AND 0x1FFFFF), False)
            else None))"
proof (cases "PAGE_BYTES < length program")
  case True
  then show ?thesis by (simp add: userspace_init_def)
next
  case False
  obtain m1 m2 where m: "vmm_map_user_2m l USER_CODE_VADDR code_at (vmm_init l) = (0, m1)"
      "vmm_map_user_2m l USER_STACK_VADDR stack_at m1 = (0, m2)"
    and w: "\<forall>a. walk l m2 a =
      (if page_of a = (1, 0, 0) then Some (code_at + (a AND 0x1FFFFF), True)
       else if page_of a = (1, 0, 1) then Some (stack_at + (a AND 0x1FFFFF), True)
       else walk l (vmm_init l) a)"
    by (rule user_pages_mapped [OF assms])
  have w0: "walk l (vmm_init l) a =
      (if fst (page_of a) = 0 \<and> fst (snd (page_of a)) = 0
       then Some (of_nat (snd (snd (page_of a))) * 0x200000 + (a AND 0x1FFFFF), False) else None)" for a
  proof -
    have "snd (snd (page_of a)) < 512" by (simp add: page_of_def index9)
    then show ?thesis
      by (auto simp: walk_eq [OF l vmm_init_inv] walk_spec_def vmm_init_tables empty_table_facts split: prod.split)
  qed
  show ?thesis using False m by (simp add: userspace_init_def w w0 user_pages)
qed

lemma userspace_reaches_two_pages_witness:
  "case userspace_init demo_layout [0x48, 0xC7] 0x600000 0x800000 (vmm_init demo_layout) of
     Inl _ \<Rightarrow> False
   | Inr (u, m) \<Rightarrow> walk demo_layout m 0x8000000001 = Some (0x600001, True) \<and>
       walk demo_layout m 0x80003FFFF8 = Some (0x9FFFF8, True) \<and>
       walk demo_layout m 0xB8000 = Some (0xB8000, False) \<and> walk demo_layout m 0x8000400000 = None"
proof -
  have a: "(0x600000 :: u64) mod 0x200000 = 0" "(0x600000 :: u64) < 0x10000000000000"
      "(0x800000 :: u64) mod 0x200000 = 0" "(0x800000 :: u64) < 0x10000000000000"
    and p: "page_of 0x8000000001 = (1, 0, 0)" "page_of 0x80003FFFF8 = (1, 0, 1)" "page_of 0xB8000 = (0, 0, 0)"
      "page_of 0x8000400000 = (1, 0, 2)" "page_of USER_CODE_VADDR = (1, 0, 0)" "page_of (USER_STACK_TOP - 8) = (1, 0, 1)"
      "0x8000000001 AND (0x1FFFFF :: u64) = 1" "0x80003FFFF8 AND (0x1FFFFF :: u64) = 0x1FFFF8"
      "0xB8000 AND (0x1FFFFF :: u64) = 0xB8000"
    by code_simp+
  have "\<not> PAGE_BYTES < length [0x48, 0xC7 :: u8]" by (simp add: PAGE_BYTES_def)
  then show ?thesis
    using userspace_reaches_two_pages [OF demo_layout_ok a, of "[0x48, 0xC7]"]
    by (auto simp: p split: sum.splits)
qed

end
