(* ===== verification/Shell.thy ===== *)
theory Shell
  imports Editor Browser Userspace Kheap Interrupts Calc Package Service User Udp FilesView Ring
begin

text \<open>
  The command shell \<open>kernel/shell/shell.c\<close>, first part: the state the commands
  work on, which is the state of every kernel component, the history ring, the
  prompt and the line reader, and the helpers of the command bodies.
\<close>

definition SHELL_LINE_MAX :: nat where "SHELL_LINE_MAX = 128"
definition SHELL_HISTORY_MAX :: nat where "SHELL_HISTORY_MAX = 16"

lemmas shell_consts = SHELL_LINE_MAX_def SHELL_HISTORY_MAX_def

text \<open>
  The parameters of a machine: the port buses of the interrupt hardware and of
  the disk, whose ports are disjoint, and the address of the text that the
  \<open>syscall\<close> command passes to the kernel.
\<close>

record ('d, 'e) machine =
  mc_bus :: "'d port_bus"
  mc_disk :: "'e port_bus"
  mc_syscall_text :: u64

record ('d, 'e) shell = "(fs \<times> ata_device_info \<times> 'e) terminal" +
  sh_history :: "char list list"
  sh_history_count :: nat
  sh_history_next :: nat
  sh_kernel :: "'d kernel"
  sh_heap :: heap
  sh_vmm :: vmm
  sh_gui :: files_view
  sh_net :: udp
  sh_log :: log
  sh_config :: config
  sh_packages :: packages
  sh_services :: services
  sh_users :: user_db
  sh_user_space :: user_space

type_synonym ('d, 'e) command = "('d, 'e) shell \<Rightarrow> ('d, 'e) shell"

definition disk_of :: "('d, 'e) machine \<Rightarrow> (ata_device_info \<times> 'e) blockdev" where
  "disk_of mc = ata_blockdev (mc_disk mc)"

definition files_of :: "('d, 'e) machine \<Rightarrow> (fs \<times> ata_device_info \<times> 'e) file_api" where
  "files_of mc = fs_api (disk_of mc)"

definition tick_now :: "('d, 'e) shell \<Rightarrow> u64" where
  "tick_now s = timer_get_ticks (k_timer (sh_kernel s))"

section \<open>History\<close>

definition history_store :: "char list \<Rightarrow> ('d, 'e) command" where
  "history_store line s =
     s\<lparr>sh_history := (sh_history s)[sh_history_next s :=
         copy_text (sh_history s ! sh_history_next s) line],
       sh_history_next := (sh_history_next s + 1) mod SHELL_HISTORY_MAX,
       sh_history_count := (if sh_history_count s < SHELL_HISTORY_MAX
         then sh_history_count s + 1 else sh_history_count s)\<rparr>"

definition shell_history_add :: "char list \<Rightarrow> ('d, 'e) command" where
  "shell_history_add line s = (if cget line 0 = NUL then s else history_store line s)"

definition shell_history_get :: "nat \<Rightarrow> ('d, 'e) shell \<Rightarrow> char list option" where
  "shell_history_get index s =
     (if sh_history_count s \<le> index then None
      else let start = (sh_history_next s + SHELL_HISTORY_MAX - sh_history_count s) mod SHELL_HISTORY_MAX
           in Some (sh_history s ! ((start + index) mod SHELL_HISTORY_MAX)))"

definition shell_history_clear :: "('d, 'e) command" where
  "shell_history_clear s = s\<lparr>sh_history_count := 0, sh_history_next := 0,
     sh_history := replicate SHELL_HISTORY_MAX (zbuf SHELL_LINE_MAX)\<rparr>"

section \<open>Helpers of the command bodies\<close>

definition skip_spaces :: "char list \<Rightarrow> char list" where
  "skip_spaces s = dropWhile (\<lambda>c. c = CHR '' '') s"

definition starts_with_word :: "char list \<Rightarrow> char list \<Rightarrow> bool" where
  "starts_with_word line word =
     (let n = strlen word in
      if memcmp line word n \<noteq> 0 then False else cget line n = NUL \<or> cget line n = CHR '' '')"

text \<open>The length of the word a text begins with.\<close>

definition word_length :: "char list \<Rightarrow> nat" where
  "word_length s = length (takeWhile (\<lambda>c. c \<noteq> CHR '' '') (cstr s))"

text \<open>A pointer that may be null; passing the null pointer to \<open>%s\<close> is undefined.\<close>

fun KPtr :: "char list option \<Rightarrow> karg" where
  "KPtr None = KInt 0"
| "KPtr (Some s) = KStr s"

text \<open>Code after a call that may stop the machine.\<close>

definition proceed :: "('d, 'e) command \<Rightarrow> ('d, 'e) command" where
  "proceed f s = (if con_status s = Running then f s else s)"

text \<open>A loop that prints one line for each element of an array.\<close>

definition say_each :: "('b \<Rightarrow> ('d, 'e) command) \<Rightarrow> 'b list \<Rightarrow> ('d, 'e) command" where
  "say_each f xs s = fold f xs s"

text \<open>A call that may write to the log, whose lines also appear on the console.\<close>

definition with_log :: "(log \<Rightarrow> 'r \<times> log) \<Rightarrow> ('d, 'e) shell \<Rightarrow> 'r \<times> ('d, 'e) shell" where
  "with_log f s =
     (case f ((sh_log s)\<lparr>log_console := []\<rparr>) of
        (r, l) \<Rightarrow> (r, emit (Put (log_console l)) (s\<lparr>sh_log := l\<rparr>)))"

text \<open>A call that prints a text computed elsewhere; \<open>None\<close> is undefined behaviour.\<close>

definition put_text :: "string option \<Rightarrow> ('d, 'e) command" where
  "put_text r s = (case r of None \<Rightarrow> stop Faulty s | Some t \<Rightarrow> emit (Put t) s)"

section \<open>Prompt and line reader\<close>

definition shell_print_prompt :: "('d, 'e) command" where
  "shell_print_prompt s =
     (let s1 = kio_set_color VGA_COLOR_LIGHT_CYAN VGA_COLOR_BLACK s;
          s2 = (case user_get_active_name (sh_users s) (zbuf USER_NAME_MAX) of (r, name) \<Rightarrow>
                  if r = 0 \<and> cget name 0 \<noteq> NUL then say ''%s@'' [KStr name] s1 else s1);
          s3 = (case config_get ''prompt'' (zbuf CONFIG_VALUE_MAX) (sh_config s) of (r, p) \<Rightarrow>
                  if r = 0 \<and> cget p 0 \<noteq> NUL then say ''%s'' [KStr p] s2
                  else say ''acharyaos> '' [] s2)
      in kio_set_color VGA_COLOR_LIGHT_GREY VGA_COLOR_BLACK s3)"

definition shell_readline :: "('d, 'e) shell \<Rightarrow> string option \<times> ('d, 'e) shell" where
  "shell_readline = read_line True SHELL_LINE_MAX"

section \<open>System calls from the kernel\<close>

text \<open>
  The wrappers of \<open>syscall/syscall.c\<close>: raise vector 128 with the number in
  \<open>rax\<close> and the argument in \<open>rdi\<close>, and return what the handler left in \<open>rax\<close>.
\<close>

definition raise_syscall ::
    "('d, 'e) machine \<Rightarrow> u64 \<Rightarrow> u64 \<Rightarrow> ('d, 'e) shell \<Rightarrow> u64 \<times> ('d, 'e) shell" where
  "raise_syscall mc rax rdi s =
     (case idt_dispatch (mc_bus mc) \<lparr>f_rax = rax, f_rdi = rdi, f_vector = 128, f_error_code = 0\<rparr>
            ((sh_kernel s)\<lparr>k_console := []\<rparr>) of
        Returned f k \<Rightarrow> (f_rax f, emit (Put (k_console k)) (s\<lparr>sh_kernel := k\<rparr>))
      | Panicked t \<Rightarrow> (0, stop Halted (emit (Put t) s))
      | _ \<Rightarrow> (0, stop Faulty s))"

definition syscall_write :: "('d, 'e) machine \<Rightarrow> u64 \<Rightarrow> ('d, 'e) command" where
  "syscall_write mc str s = snd (raise_syscall mc 0 str s)"

definition syscall_get_ticks :: "('d, 'e) machine \<Rightarrow> ('d, 'e) shell \<Rightarrow> u64 \<times> ('d, 'e) shell" where
  "syscall_get_ticks mc s = raise_syscall mc 1 0 s"

definition syscall_get_pid :: "('d, 'e) machine \<Rightarrow> ('d, 'e) shell \<Rightarrow> u32 \<times> ('d, 'e) shell" where
  "syscall_get_pid mc s = (case raise_syscall mc 2 0 s of (r, s') \<Rightarrow> (ucast r, s'))"

definition syscall_get_process_count :: "('d, 'e) machine \<Rightarrow> ('d, 'e) shell \<Rightarrow> u32 \<times> ('d, 'e) shell" where
  "syscall_get_process_count mc s = (case raise_syscall mc 3 0 s of (r, s') \<Rightarrow> (ucast r, s'))"

definition syscall_yield :: "('d, 'e) machine \<Rightarrow> ('d, 'e) shell \<Rightarrow> u64 \<times> ('d, 'e) shell" where
  "syscall_yield mc s = raise_syscall mc 4 0 s"

end
