(* ===== verification/ShellStatus.thy ===== *)
theory ShellStatus
  imports Shell
begin

text \<open>
  The command shell, second part: the commands that report on the machine and
  the demonstrations that draw or exercise a component.
\<close>

definition shell_cmd_help :: "('d, 'e) command" where
  "shell_cmd_help = say_lines
     [''Commands:\<newline>'',
      ''  help     Show this command list\<newline>'',
      ''  clear    Clear the VGA text screen\<newline>'',
      ''  echo     Print text after the command\<newline>'',
      ''  mem      Show early heap usage\<newline>'',
      ''  vmem     Show virtual memory mapping status\<newline>'',
      ''  ticks    Show timer interrupt count\<newline>'',
      ''  sched    Show scheduler state\<newline>'',
      ''  ps       Show process table\<newline>'',
      ''  taskmgr  Show combined task manager view\<newline>'',
      ''  spawn    Create demo kernel process metadata\<newline>'',
      ''  syscall  Exercise the syscall path\<newline>'',
      ''  disk     Show ATA disk status\<newline>'',
      ''  disktest Run ATA read/write self-test\<newline>'',
      ''  fs       Show filesystem status\<newline>'',
      ''  ls       List filesystem files\<newline>'',
      ''  cat      Print a filesystem file\<newline>'',
      ''  writefs  Write text to a filesystem file\<newline>'',
      ''  rmfs     Delete a filesystem file\<newline>'',
      ''  edit     Open the text editor\<newline>'',
      ''  calc     Evaluate an integer expression\<newline>'',
      ''  gfxinfo  Show framebuffer status\<newline>'',
      ''  gfxdemo  Draw the framebuffer demo pattern\<newline>'',
      ''  wminfo   Show window manager status\<newline>'',
      ''  wmdemo   Draw the window manager demo layout\<newline>'',
      ''  meninfo  Show menu system status\<newline>'',
      ''  mendemo  Draw the menu demo layout\<newline>'',
      ''  dskinfo  Show desktop status\<newline>'',
      ''  dskdemo  Draw the desktop demo layout\<newline>'',
      ''  iconinfo Show icon subsystem status\<newline>'',
      ''  icondemo Draw the icon demo layout\<newline>'',
      ''  settings Open the settings window\<newline>'',
      ''  settinfo Show settings app status\<newline>'',
      ''  settdemo Draw the settings demo layout\<newline>'',
      ''  files    Open the graphical file explorer\<newline>'',
      ''  fileinfo Show file explorer status\<newline>'',
      ''  filedemo Render the file explorer view\<newline>'',
      ''  ethinfo  Show ethernet status\<newline>'',
      ''  arp      Show ARP table\<newline>'',
      ''  route    Show IPv4 route table\<newline>'',
      ''  ping     Send ICMP echo requests\<newline>'',
      ''  udpinfo  Show UDP status\<newline>'',
      ''  mouse    Show mouse driver status\<newline>'',
      ''  btninfo  Show button control status\<newline>'',
      ''  btndemo  Draw the button demo layout\<newline>'',
      ''  browse   Open the terminal file browser\<newline>'',
      ''  config   Show or change system configuration\<newline>'',
      ''  pkg      Show package installer status\<newline>'',
      ''  pkginfo  Show one installed package\<newline>'',
      ''  install  Install a package manifest\<newline>'',
      ''  remove   Remove an installed package record\<newline>'',
      ''  svc      Show startup services\<newline>'',
      ''  svcinfo  Show one service\<newline>'',
      ''  start    Start a service\<newline>'',
      ''  stop     Stop a service\<newline>'',
      ''  restart  Restart a service\<newline>'',
      ''  enable   Enable a service\<newline>'',
      ''  disable  Disable a service\<newline>'',
      ''  users    Show user accounts\<newline>'',
      ''  whoami   Show active user\<newline>'',
      ''  su       Switch active user\<newline>'',
      ''  adduser  Add a user account\<newline>'',
      ''  deluser  Disable a user account\<newline>'',
      ''  login    Authenticate as a user\<newline>'',
      ''  logout   Clear login state\<newline>'',
      ''  passwd   Set a user password\<newline>'',
      ''  auth     Show authentication status\<newline>'',
      ''  history  Show command history\<newline>'',
      ''  !!       Repeat the last command\<newline>'',
      ''  !n       Repeat history entry n\<newline>'',
      ''  clearhist Clear command history\<newline>'',
      ''  userdemo Launch the ring-3 demo program\<newline>'',
      ''  log      Show recent kernel log entries\<newline>'',
      ''  loglevel Show or change the log level\<newline>'',
      ''  version  Show the current AcharyaOS milestone\<newline>'',
      ''  halt     Stop the CPU\<newline>'']"

section \<open>Memory, time and tasks\<close>

definition cmd_mem :: "('d, 'e) command" where
  "cmd_mem s =
     (let stats = kheap_get_stats (sh_heap s)
      in say ''allocations: %d\<newline>'' [KWide (hs_allocation_count stats)]
         (say ''bytes used: %d\<newline>'' [KWide (hs_bytes_used stats)]
         (say ''heap end: 0x%x\<newline>'' [KWide (hs_heap_end stats)]
         (say ''heap current: 0x%x\<newline>'' [KWide (hs_heap_current stats)]
         (say ''heap start: 0x%x\<newline>'' [KWide (hs_heap_start stats)] s)))))"

definition cmd_vmem :: "('d, 'e) command" where
  "cmd_vmem s =
     (let stats = vmm_get_stats (sh_vmm s)
      in say ''vga virt->phys: 0x%x\<newline>'' [KWide (vmm_translate_identity 0xB8000 (sh_vmm s))]
         (say ''2MiB pages: %d\<newline>'' [KNat (mapped_2m_pages stats)]
         (say ''mapped end: 0x%x\<newline>'' [KWide (mapped_end stats)]
         (say ''mapped start: 0x%x\<newline>'' [KWide (mapped_start stats)]
         (say ''active pml4: 0x%x\<newline>'' [KWide (pml4_address stats)] s)))))"

definition cmd_ticks :: "('d, 'e) command" where
  "cmd_ticks s =
     say ''timer ticks: %d\<newline>'' [KWide (timer_get_ticks (k_timer (sh_kernel s)))]
       (say ''timer frequency: %d Hz\<newline>'' [KInt (timer_get_frequency (k_timer (sh_kernel s)))] s)"

definition cmd_sched :: "('d, 'e) command" where
  "cmd_sched s =
     (let sc = k_sched (sh_kernel s); stats = scheduler_get_stats sc;
          s1 = say ''tasks: %d runnable: %d\<newline>'' [KNat (ss_task_count stats), KNat (ss_runnable_count stats)]
                (say ''current task id: %d\<newline>'' [KInt (ss_current_task_id stats)]
                (say ''scheduler ticks: %d\<newline>'' [KWide (ss_total_ticks stats)] s))
      in say_each (\<lambda>t. say ''  #%d %s slice=%d ticks=%d\<newline>''
             [KInt (task_id t), KPtr (task_name t), KInt (time_slice_ticks t), KWide (ticks_seen t)])
           (scheduler_copy_tasks sc SCHED_MAX_TASKS) s1)"

definition cmd_ps :: "('d, 'e) command" where
  "cmd_ps s =
     (let p = k_procs (sh_kernel s); stats = process_get_stats p;
          s1 = say ''processes: %d ready/running: %d next_pid: %d\<newline>''
                 [KNat (ps_process_count stats), KNat (ps_ready_count stats), KInt (ps_next_pid stats)] s
      in say_each (\<lambda>q. say ''  pid=%d task=%d %s %s born_tick=%d\<newline>''
             [KInt (pid q), KInt (scheduler_task_id q), KStr (process_state_name (process_state q)),
              KPtr (process_name q), KWide (created_at_tick q)])
           (process_copy_table p PROCESS_MAX) s1)"

text \<open>The inner loop of the task manager: the first task with the process's task id.\<close>

definition task_figures :: "sched_task_info list \<Rightarrow> u32 \<Rightarrow> u64 \<times> u32" where
  "task_figures ts tid =
     (case first_index (\<lambda>t. task_id t = tid) ts of
        Some j \<Rightarrow> (ticks_seen (ts ! j), time_slice_ticks (ts ! j)) | None \<Rightarrow> (0, 0))"

definition shell_cmd_taskmgr :: "('d, 'e) command" where
  "shell_cmd_taskmgr s =
     (let p = k_procs (sh_kernel s); sc = k_sched (sh_kernel s);
          pstats = process_get_stats p; sstats = scheduler_get_stats sc;
          ts = scheduler_copy_tasks sc SCHED_MAX_TASKS;
          s1 = say ''PID  TASK  STATE     NAME                 BORN\<newline>'' []
            (say ''scheduler ticks: %d current task id: %d runnable: %d\<newline>''
               [KWide (ss_total_ticks sstats), KInt (ss_current_task_id sstats), KNat (ss_runnable_count sstats)]
            (say ''processes: %d ready/running: %d next_pid: %d\<newline>''
               [KNat (ps_process_count pstats), KNat (ps_ready_count pstats), KInt (ps_next_pid pstats)]
            (say ''Task Manager\<newline>'' [] s)))
      in say_each (\<lambda>q. case task_figures ts (scheduler_task_id q) of (seen, quantum) \<Rightarrow>
             say ''%d %d %s %s %d (slice %d tick %d)\<newline>''
               [KInt (pid q), KInt (scheduler_task_id q), KStr (process_state_name (process_state q)),
                KStr (case process_name q of Some n \<Rightarrow> n | None \<Rightarrow> []), KWide (created_at_tick q),
                KInt quantum, KWide seen])
           (process_copy_table p PROCESS_MAX) s1)"

definition cmd_spawn :: "('d, 'e) command" where
  "cmd_spawn s =
     (let k = sh_kernel s in
      case process_create_kernel (Some ''demo-kernel-task'') 5 (tick_now s) (k_procs k, k_sched k) of
        (r, p, sc) \<Rightarrow>
          let s1 = s\<lparr>sh_kernel := k\<lparr>k_procs := p, k_sched := sc\<rparr>\<rparr>
          in if r < 0 then say ''spawn failed: process or scheduler table full\<newline>'' [] s1
             else say ''created demo process pid=%d\<newline>'' [KInt (word_of_int r)] s1)"

definition cmd_syscall :: "('d, 'e) machine \<Rightarrow> ('d, 'e) command" where
  "cmd_syscall mc s =
     (let s1 = syscall_write mc (mc_syscall_text mc) s;
          s2 = proceed (\<lambda>s. case syscall_get_pid mc s of (r, s') \<Rightarrow>
                 proceed (say ''syscall getpid: %d\<newline>'' [KInt r]) s') s1;
          s3 = proceed (\<lambda>s. case syscall_get_ticks mc s of (r, s') \<Rightarrow>
                 proceed (say ''syscall get_ticks: %d\<newline>'' [KWide r]) s') s2;
          s4 = proceed (\<lambda>s. case syscall_get_process_count mc s of (r, s') \<Rightarrow>
                 proceed (say ''syscall process_count: %d\<newline>'' [KInt r]) s') s3
      in proceed (\<lambda>s. snd (syscall_yield mc s)) s4)"

section \<open>Graphics\<close>

definition cmd_gfxinfo :: "('d, 'e) command" where
  "cmd_gfxinfo s =
     (let info = fb_get_info (sh_gui s) in
      if \<not> fb_ready (sh_gui s) then say ''framebuffer not initialized\<newline>'' [] s
      else say ''bytes/pixel: %d\<newline>'' [KInt (fi_bytes_per_pixel info)]
          (say ''pitch: %d bytes\<newline>'' [KInt (fi_pitch info)]
          (say ''size: %d x %d\<newline>'' [KInt (fi_width info), KInt (fi_height info)]
          (say ''framebuffer ready\<newline>'' [] s))))"

definition draw :: "(files_view \<Rightarrow> files_view) \<Rightarrow> char list \<Rightarrow> ('d, 'e) command" where
  "draw f msg s = say msg [] (s\<lparr>sh_gui := f (sh_gui s)\<rparr>)"

definition cmd_gfxdemo :: "('d, 'e) command" where
  "cmd_gfxdemo = draw fb_demo_pattern ''framebuffer demo pattern drawn\<newline>''"

definition cmd_wminfo :: "('d, 'e) command" where
  "cmd_wminfo s =
     (let stats = wm_get_stats (sh_gui s)
      in say ''windows: %d active: %d next_id: %d\<newline>''
           [KNat (wm_window_count stats), KInt (wm_active_window_id stats), KInt (wm_next_window_id stats)]
         (say ''window manager ready: %d\<newline>'' [KBool (wm_ready (sh_gui s))] s))"

definition cmd_wmdemo :: "('d, 'e) command" where
  "cmd_wmdemo = draw wm_demo_layout ''window manager demo layout drawn\<newline>''"

definition cmd_meninfo :: "('d, 'e) command" where
  "cmd_meninfo s =
     (let stats = menu_get_stats (sh_gui s)
      in say ''menus: %d active_menu: %d next_id: %d\<newline>''
           [KNat (menu_menu_count stats), KInt (menu_active_menu_id stats), KInt (menu_next_menu_id stats)]
         (say ''menus ready: %d\<newline>'' [KBool (menu_ready (sh_gui s))] s))"

definition cmd_mendemo :: "('d, 'e) command" where
  "cmd_mendemo = draw menu_demo_layout ''menu demo layout drawn\<newline>''"

definition cmd_dskinfo :: "('d, 'e) command" where
  "cmd_dskinfo s =
     (let stats = desktop_get_stats (sh_gui s)
      in say ''taskbar height: %d\<newline>'' [KInt (ds_taskbar_height stats)]
         (say ''icons: %d selected: %d next_id: %d\<newline>''
           [KNat (ds_icon_count stats), KInt (ds_selected_icon_id stats), KInt (ds_next_icon_id stats)]
         (say ''desktop ready: %d\<newline>'' [KBool (desktop_ready (sh_gui s))] s)))"

definition cmd_dskdemo :: "('d, 'e) command" where
  "cmd_dskdemo = draw desktop_render ''desktop demo rendered\<newline>''"

definition cmd_iconinfo :: "('d, 'e) command" where
  "cmd_iconinfo s =
     (let stats = icons_get_stats (sh_gui s)
      in say ''icons: %d selected: %d next_id: %d\<newline>''
           [KNat (icon_icon_count stats), KInt (icon_selected_icon_id stats), KInt (icon_next_icon_id stats)]
         (say ''icons ready: %d\<newline>'' [KBool (icons_ready (sh_gui s))] s))"

definition cmd_icondemo :: "('d, 'e) command" where
  "cmd_icondemo = draw icons_render ''icons rendered\<newline>''"

definition cmd_settings :: "('d, 'e) command" where
  "cmd_settings = draw settings_render ''settings window rendered\<newline>''"

definition cmd_settinfo :: "('d, 'e) command" where
  "cmd_settinfo s =
     (let stats = settings_get_stats (sh_gui s)
      in say ''settings panels: %d active: %d renders: %d\<newline>''
           [KNat (ss_panel_count stats), KNat (ss_active_panel stats), KInt (ss_render_count stats)]
         (say ''settings ready: %d\<newline>'' [KBool (settings_ready (sh_gui s))] s))"

definition cmd_settdemo :: "('d, 'e) command" where
  "cmd_settdemo = draw settings_render ''settings demo rendered\<newline>''"

definition cmd_files :: "('d, 'e) command" where
  "cmd_files s = draw (files_render (fst (t_world s))) ''file explorer rendered\<newline>'' s"

definition cmd_fileinfo :: "('d, 'e) command" where
  "cmd_fileinfo s =
     (let stats = files_get_stats (sh_gui s)
      in say ''files visible: %d selected: %d renders: %d\<newline>''
           [KNat (fv_file_count stats), KNat (fv_selected_index stats), KInt (fv_render_count stats)]
         (say ''file explorer ready: %d\<newline>'' [KBool (files_ready (fst (t_world s)) (sh_gui s))] s))"

definition cmd_filedemo :: "('d, 'e) command" where
  "cmd_filedemo s = draw (files_render (fst (t_world s))) ''file explorer demo rendered\<newline>'' s"

definition cmd_btninfo :: "('d, 'e) command" where
  "cmd_btninfo s =
     (let stats = btn_get_stats (sh_gui s)
      in say ''buttons: %d pressed: %d next_id: %d\<newline>''
           [KNat (btn_button_count stats), KInt (btn_pressed_button_id stats), KInt (btn_next_button_id stats)] s)"

definition cmd_btndemo :: "('d, 'e) command" where
  "cmd_btndemo = draw btn_demo_layout ''button demo layout drawn\<newline>''"

section \<open>Network and mouse\<close>

definition cmd_ethinfo :: "('d, 'e) command" where
  "cmd_ethinfo s =
     (let stats = eth_get_stats (sh_net s)
      in say ''tx: %d rx: %d dropped: %d mtu: %d\<newline>''
           [KWide (tx_frames stats), KWide (rx_frames stats), KWide (dropped_frames stats), KInt (eth_mtu stats)]
         (say ''mac: %02x:%02x:%02x:%02x:%02x:%02x\<newline>'' (map (\<lambda>b. KInt (ucast b)) (eth_mac stats))
         (say ''ethernet ready: %d\<newline>'' [KBool (eth_ready (sh_net s))] s)))"

definition cmd_arp :: "('d, 'e) command" where
  "cmd_arp s = put_text (arp_print_table (sh_net s)) s"

definition cmd_route :: "('d, 'e) command" where
  "cmd_route s = put_text (ipv4_route_print (sh_net s)) s"

text \<open>The argument vector of \<open>ping\<close>: at most four words of the copied line.\<close>

fun ping_words :: "nat \<Rightarrow> char list \<Rightarrow> char list list" where
  "ping_words 0 p = []"
| "ping_words (Suc n) p =
     (let q = skip_spaces p in
      if cget q 0 = NUL then []
      else takeWhile (\<lambda>c. c \<noteq> NUL \<and> c \<noteq> CHR '' '') q #
           ping_words n (let r = dropWhile (\<lambda>c. c \<noteq> NUL \<and> c \<noteq> CHR '' '') q
                         in if cget r 0 = CHR '' '' then tl r else r))"

definition cmd_ping_line :: "char list \<Rightarrow> ('d, 'e) command" where
  "cmd_ping_line line s =
     (case cmd_ping (ping_words 4 (take (SHELL_LINE_MAX - 1) (cstr line))) (sh_net s) of
        None \<Rightarrow> stop Faulty s
      | Some (t, n) \<Rightarrow> emit (Put t) (s\<lparr>sh_net := n\<rparr>))"

definition cmd_udpinfo :: "('d, 'e) command" where
  "cmd_udpinfo s =
     (let stats = udp_get_stats (sh_net s)
      in say ''udp sockets: %d tx: %d rx: %d dropped: %d\<newline>''
           [KInt (udp_bound_sockets stats), KInt (udp_tx_packets stats),
            KInt (udp_rx_packets stats), KInt (udp_dropped_packets stats)] s)"

definition cmd_mouse :: "('d, 'e) command" where
  "cmd_mouse s =
     (let m = mouse_get_state (k_mouse (sh_kernel s))
      in say ''position: %d,%d delta: %d,%d\<newline>'' [KInt (mouse_state.m_x m), KInt (mouse_state.m_y m), KInt (scast (m_dx m)), KInt (scast (m_dy m))]
         (say ''packets: %d ready: %d buttons: 0x%x\<newline>''
           [KInt (m_packet_count m), KBool (m_packet_ready m), KInt (ucast (m_buttons m))]
         (say ''mouse ready: %d\<newline>'' [KBool (mouse_ready (k_mouse (sh_kernel s)))] s)))"

section \<open>Disk and calculator\<close>

definition cmd_disk :: "('d, 'e) command" where
  "cmd_disk s =
     (let info = ata_get_info (snd (t_world s)) in
      if \<not> ata_present info then say ''no ATA disk detected on primary master\<newline>'' [] s
      else say ''lba48: %d\<newline>'' [KBool (ata_lba48_supported info)]
          (say ''sectors: %d\<newline>'' [KInt (ata_total_sectors info)]
          (say ''model: %s\<newline>'' [KStr (ata_model info)]
          (say ''ATA disk detected\<newline>'' [] s))))"

definition cmd_disktest :: "('d, 'e) machine \<Rightarrow> ('d, 'e) command" where
  "cmd_disktest mc s =
     (case t_world s of (f, d) \<Rightarrow>
      case ata_disk_self_test (mc_disk mc) d of (r, d') \<Rightarrow>
        say (if r = 0 then ''ATA read/write self-test passed\<newline>'' else ''ATA read/write self-test failed\<newline>'') []
          (s\<lparr>t_world := (f, d')\<rparr>))"

definition calc_get_help :: "'a console_scheme \<Rightarrow> 'a console_scheme" where
  "calc_get_help = say_lines
     [''Calculator usage:\<newline>'', ''  calc <expression>\<newline>'',
      ''Supported operators: + - * / %% and parentheses\<newline>'', ''Examples:\<newline>'',
      ''  calc 2+2\<newline>'', ''  calc (10+5)*3\<newline>'']"

definition cmd_calc :: "char list \<Rightarrow> ('d, 'e) command" where
  "cmd_calc line s =
     (let expr = skip_spaces (drop 4 line) in
      if cget expr 0 = NUL then calc_get_help s
      else case calc_evaluate (Some expr) of
        Val v \<Rightarrow> say ''%d\<newline>'' [KInt (word_of_int v)] s
      | Fail \<Rightarrow> say ''calc error: invalid expression\<newline>'' [] s
      | _ \<Rightarrow> stop Faulty s)"

end
