(* ===== verification/ShellActions.thy ===== *)
theory ShellActions
  imports ShellStatus
begin

text \<open>
  The command shell, third part: the commands that act on files, configuration,
  packages, services, users and the log.  A command receives the whole line and
  takes its arguments from it as the code does.
\<close>

section \<open>Files\<close>

definition cmd_fs :: "('d, 'e) command" where
  "cmd_fs s =
     (let info = fs_get_info (fst (t_world s)) in
      if \<not> i_mounted info then say ''filesystem not mounted\<newline>'' [] s
      else say ''data start lba: %d\<newline>'' [KInt (i_data_start_lba info)]
          (say ''files: %d used: %d\<newline>'' [KInt (i_total_files info), KInt (i_used_files info)]
          (say ''label: %s\<newline>'' [KStr (i_volume_label info)]
          (say ''filesystem mounted\<newline>'' [] s))))"

definition cmd_ls :: "('d, 'e) command" where
  "cmd_ls s =
     (let files = fs_list_files (fst (t_world s)) FS_FILES_MAX
      in say_each (\<lambda>e. say ''%s %d bytes @ lba %d\<newline>''
             [KStr (c_name e), KInt (c_size_bytes e), KInt (c_start_lba e)]) files
           (if files = [] then say ''(empty)\<newline>'' [] s else s))"

definition CAT_BUFFER :: nat where "CAT_BUFFER = FS_BLOCK_SIZE * 4"

definition cmd_cat :: "('d, 'e) machine \<Rightarrow> char list \<Rightarrow> ('d, 'e) command" where
  "cmd_cat mc line s =
     (let name = skip_spaces (drop 3 line) in
      if cget name 0 = NUL then say ''usage: cat <name>\<newline>'' [] s
      else case fa_read (files_of mc) name CAT_BUFFER (t_world s) of
        (ReadFailed, w) \<Rightarrow> say ''cat failed\<newline>'' [] (s\<lparr>t_world := w\<rparr>)
      | (ReadOverrun _, w) \<Rightarrow> stop Faulty (s\<lparr>t_world := w\<rparr>)
      | (ReadDone bs n, w) \<Rightarrow>
          let fin = (if unat n < CAT_BUFFER then unat n else CAT_BUFFER - 1)
          in say ''%s\<newline>'' [KStr (bytes_chars (take fin bs))] (s\<lparr>t_world := w\<rparr>))"

definition cmd_writefs :: "('d, 'e) machine \<Rightarrow> char list \<Rightarrow> ('d, 'e) command" where
  "cmd_writefs mc line s =
     (let name = skip_spaces (drop 7 line); n = word_length name; rest = drop n name in
      if cget name 0 = NUL \<or> cget rest 0 = NUL then say ''usage: writefs <name> <text>\<newline>'' [] s
      else
        let n' = (if FS_NAME_MAX \<le> n then FS_NAME_MAX - 1 else n);
            file_name = take n' name; txt = skip_spaces rest
        in case fa_write (files_of mc) file_name (chars_bytes (take (strlen txt) txt)) (t_world s) of (r, w) \<Rightarrow>
          if r \<noteq> 0 then say ''writefs failed\<newline>'' [] (s\<lparr>t_world := w\<rparr>)
          else say ''wrote %s\<newline>'' [KStr file_name] (s\<lparr>t_world := w\<rparr>))"

definition cmd_rmfs :: "('d, 'e) machine \<Rightarrow> char list \<Rightarrow> ('d, 'e) command" where
  "cmd_rmfs mc line s =
     (let name = skip_spaces (drop 4 line) in
      if cget name 0 = NUL then say ''usage: rmfs <name>\<newline>'' [] s
      else case fa_delete (files_of mc) name (t_world s) of (r, w) \<Rightarrow>
        if r \<noteq> 0 then say ''rmfs failed\<newline>'' [] (s\<lparr>t_world := w\<rparr>)
        else say ''deleted %s\<newline>'' [KStr name] (s\<lparr>t_world := w\<rparr>))"

definition cmd_edit :: "('d, 'e) machine \<Rightarrow> char list \<Rightarrow> ('d, 'e) command" where
  "cmd_edit mc line s =
     (let name = skip_spaces (drop 4 line) in
      if cget name 0 = NUL then say ''usage: edit <name>\<newline>'' [] s else editor_run (files_of mc) name s)"

definition cmd_browse :: "('d, 'e) machine \<Rightarrow> char list \<Rightarrow> ('d, 'e) command" where
  "cmd_browse mc line s = browser_run (disk_of mc) (skip_spaces (drop 6 line)) s"

section \<open>Configuration\<close>

text \<open>The six level names, as the code compares them one after the other.\<close>

definition level_named :: "char list \<Rightarrow> (log_level \<times> string) option" where
  "level_named arg =
     (if strcmp arg ''trace'' = 0 then Some (LOG_TRACE, ''trace'')
      else if strcmp arg ''debug'' = 0 then Some (LOG_DEBUG, ''debug'')
      else if strcmp arg ''info'' = 0 then Some (LOG_INFO, ''info'')
      else if strcmp arg ''warn'' = 0 then Some (LOG_WARN, ''warn'')
      else if strcmp arg ''error'' = 0 then Some (LOG_ERROR, ''error'')
      else if strcmp arg ''panic'' = 0 then Some (LOG_PANIC, ''panic'') else None)"

definition cmd_config :: "('d, 'e) command" where
  "cmd_config s =
     (let stats = config_get_stats (sh_config s)
            \<lparr>total_entries = 0, used_entries = 0, backing_file = zbuf FS_NAME_MAX\<rparr>
      in say_each (\<lambda>e. say ''  %s = %s\<newline>'' [KStr (ckey e), KStr (cvalue e)])
           (config_list (sh_config s) CONFIG_ENTRY_MAX)
           (say ''entries: %d/%d\<newline>'' [KNat (used_entries stats), KNat (total_entries stats)]
           (say ''configuration file: %s\<newline>'' [KStr (backing_file stats)] s)))"

definition cmd_get :: "char list \<Rightarrow> ('d, 'e) command" where
  "cmd_get line s =
     (let key = skip_spaces (drop 3 line) in
      if cget key 0 = NUL then say ''usage: get <key>\<newline>'' [] s
      else case config_get key (zbuf CONFIG_VALUE_MAX) (sh_config s) of (r, v) \<Rightarrow>
        if r \<noteq> 0 then say ''config key not found: %s\<newline>'' [KStr key] s else say ''%s\<newline>'' [KStr v] s)"

definition cmd_set :: "char list \<Rightarrow> ('d, 'e) command" where
  "cmd_set line s =
     (let rest = skip_spaces (drop 3 line); n = word_length rest in
      if n = 0 \<or> cget rest n = NUL then say ''usage: set <key> <value>\<newline>'' [] s
      else
        let n' = (if CONFIG_KEY_MAX \<le> n then CONFIG_KEY_MAX - 1 else n);
            key = take n' rest; v = skip_spaces (drop n' rest)
        in case config_set key v (sh_config s) of (r, c) \<Rightarrow>
          if r \<noteq> 0 then say ''config set failed\<newline>'' [] (s\<lparr>sh_config := c\<rparr>)
          else say ''set %s = %s\<newline>'' [KStr key, KStr v] (s\<lparr>sh_config := c\<rparr>))"

definition cmd_savecfg :: "('d, 'e) machine \<Rightarrow> ('d, 'e) command" where
  "cmd_savecfg mc s =
     (case config_save (files_of mc) (sh_config s) (t_world s) of (r, w) \<Rightarrow>
        say (if r \<noteq> 0 then ''config save failed\<newline>'' else ''configuration saved\<newline>'') [] (s\<lparr>t_world := w\<rparr>))"

text \<open>Setting the log level the configuration names, as at start-up.\<close>

definition apply_loglevel :: "config \<Rightarrow> log \<Rightarrow> log" where
  "apply_loglevel c l =
     (case config_get ''loglevel'' (zbuf 16) c of (r, level) \<Rightarrow>
        if r = 0 then (case level_named level of Some (v, _) \<Rightarrow> log_set_minimum_level v l | None \<Rightarrow> l) else l)"

definition cmd_loadcfg :: "('d, 'e) machine \<Rightarrow> ('d, 'e) command" where
  "cmd_loadcfg mc s =
     (case config_load (files_of mc) (sh_config s) (t_world s) of
        (None, w) \<Rightarrow> stop Faulty (s\<lparr>t_world := w\<rparr>)
      | (Some (r, c), w) \<Rightarrow>
          let s1 = s\<lparr>t_world := w, sh_config := c\<rparr>
          in if r \<noteq> 0 then say ''config load failed\<newline>'' [] s1
             else say ''configuration loaded\<newline>'' [] (s1\<lparr>sh_log := apply_loglevel c (sh_log s1)\<rparr>))"

section \<open>Packages\<close>

definition cmd_pkg :: "('d, 'e) command" where
  "cmd_pkg s =
     (let stats = package_get_stats (sh_packages s)
      in say_each (\<lambda>e. say ''  %s %s files=%d source=%s\<newline>''
             [KStr (p_name e), KStr (p_version e), KNat (p_installed_files e), KStr (p_source e)])
           (package_list (sh_packages s) PACKAGE_ENTRY_MAX)
           (say ''installed packages: %d/%d\<newline>''
             [KNat (pk_used_entries stats), KNat (pk_total_entries stats)] s))"

definition cmd_pkginfo :: "char list \<Rightarrow> ('d, 'e) command" where
  "cmd_pkginfo line s =
     (let name = skip_spaces (drop 7 line) in
      if cget name 0 = NUL then say ''usage: pkginfo <package-name>\<newline>'' [] s
      else case package_info name (sh_packages s) of
        None \<Rightarrow> say ''package not found: %s\<newline>'' [KStr name] s
      | Some e \<Rightarrow> say ''files: %d\<newline>'' [KNat (p_installed_files e)]
          (say ''source: %s\<newline>'' [KStr (p_source e)]
          (say ''version: %s\<newline>'' [KStr (p_version e)]
          (say ''name: %s\<newline>'' [KStr (p_name e)] s))))"

definition cmd_install :: "('d, 'e) machine \<Rightarrow> char list \<Rightarrow> ('d, 'e) command" where
  "cmd_install mc line s =
     (let manifest = skip_spaces (drop 7 line) in
      if cget manifest 0 = NUL then say ''usage: install <manifest-file>\<newline>'' [] s
      else case package_install (files_of mc) manifest (sh_packages s) (t_world s) of
        (None, w) \<Rightarrow> stop Faulty (s\<lparr>t_world := w\<rparr>)
      | (Some (r, es), w) \<Rightarrow>
          let s1 = s\<lparr>t_world := w, sh_packages := es\<rparr>
          in if r \<noteq> 0 then say ''package install failed\<newline>'' [] s1
             else say ''package installed from %s\<newline>'' [KStr manifest] s1)"

definition cmd_remove :: "('d, 'e) machine \<Rightarrow> char list \<Rightarrow> ('d, 'e) command" where
  "cmd_remove mc line s =
     (let name = skip_spaces (drop 6 line) in
      if cget name 0 = NUL then say ''usage: remove <package-name>\<newline>'' [] s
      else case package_remove (files_of mc) name (sh_packages s) (t_world s) of ((r, es), w) \<Rightarrow>
        let s1 = s\<lparr>t_world := w, sh_packages := es\<rparr>
        in if r \<noteq> 0 then say ''package remove failed\<newline>'' [] s1
           else say ''package record removed: %s\<newline>'' [KStr name] s1)"

section \<open>Services\<close>

definition cmd_svc :: "('d, 'e) command" where
  "cmd_svc s =
     (let stats = service_get_stats (sh_services s)
      in say_each (\<lambda>e. say ''  %s [%s] enabled=%d started=%d stopped=%d\<newline>''
             [KStr (s_name e), KStr (service_state_name (s_state e)), KBool (s_enabled e),
              KInt (s_start_count e), KInt (s_stop_count e)])
           (service_list (sh_services s) SERVICE_ENTRY_MAX)
           (say ''services: %d total, %d enabled, %d running\<newline>''
             [KNat (sv_total_services stats), KNat (sv_enabled_services stats), KNat (sv_running_services stats)] s))"

definition cmd_svcinfo :: "char list \<Rightarrow> ('d, 'e) command" where
  "cmd_svcinfo line s =
     (let name = skip_spaces (drop 7 line) in
      if cget name 0 = NUL then say ''usage: svcinfo <service-name>\<newline>'' [] s
      else case service_info name (sh_services s) of
        None \<Rightarrow> say ''service not found: %s\<newline>'' [KStr name] s
      | Some e \<Rightarrow>
          say ''stop count: %d\<newline>'' [KInt (s_stop_count e)]
          (say ''start count: %d\<newline>'' [KInt (s_start_count e)]
          (say ''last stopped: %d\<newline>'' [KWide (s_last_stopped_tick e)]
          (say ''last started: %d\<newline>'' [KWide (s_last_started_tick e)]
          (say ''enabled: %d\<newline>'' [KBool (s_enabled e)]
          (say ''state: %s\<newline>'' [KStr (service_state_name (s_state e))]
          (say ''description: %s\<newline>'' [KStr (s_description e)]
          (say ''name: %s\<newline>'' [KStr (s_name e)] s))))))))"

text \<open>The three commands that run hooks have one shape, and the two that set the enabled flag another.\<close>

definition service_action ::
    "(char list \<Rightarrow> services \<times> log \<Rightarrow> int \<times> services \<times> log) \<Rightarrow> char list \<Rightarrow> char list \<Rightarrow> char list \<Rightarrow>
     char list \<Rightarrow> ('d, 'e) command" where
  "service_action act usage failed done_fmt name s =
     (if cget name 0 = NUL then say usage [] s
      else case with_log (\<lambda>l. case act name (sh_services s, l) of (r, es, l') \<Rightarrow> ((r, es), l')) s of
        ((r, es), s1) \<Rightarrow> say (if r \<noteq> 0 then failed else done_fmt) [KStr name] (s1\<lparr>sh_services := es\<rparr>))"

definition cmd_start :: "char list \<Rightarrow> ('d, 'e) command" where
  "cmd_start line s = service_action (service_start (tick_now s)) ''usage: start <service-name>\<newline>''
     ''service start failed: %s\<newline>'' ''service started: %s\<newline>'' (skip_spaces (drop 5 line)) s"

definition cmd_stop :: "char list \<Rightarrow> ('d, 'e) command" where
  "cmd_stop line s = service_action (service_stop (tick_now s)) ''usage: stop <service-name>\<newline>''
     ''service stop failed: %s\<newline>'' ''service stopped: %s\<newline>'' (skip_spaces (drop 4 line)) s"

definition cmd_restart :: "char list \<Rightarrow> ('d, 'e) command" where
  "cmd_restart line s = service_action (service_restart (tick_now s)) ''usage: restart <service-name>\<newline>''
     ''service restart failed: %s\<newline>'' ''service restarted: %s\<newline>'' (skip_spaces (drop 7 line)) s"

definition service_switch ::
    "(char list \<Rightarrow> services \<Rightarrow> int \<times> services) \<Rightarrow> char list \<Rightarrow> char list \<Rightarrow> char list \<Rightarrow>
     char list \<Rightarrow> ('d, 'e) command" where
  "service_switch act usage failed done_fmt name s =
     (if cget name 0 = NUL then say usage [] s
      else case act name (sh_services s) of (r, es) \<Rightarrow>
        say (if r \<noteq> 0 then failed else done_fmt) [KStr name] (s\<lparr>sh_services := es\<rparr>))"

definition cmd_enable :: "char list \<Rightarrow> ('d, 'e) command" where
  "cmd_enable line s = service_switch service_enable ''usage: enable <service-name>\<newline>''
     ''service enable failed: %s\<newline>'' ''service enabled: %s\<newline>'' (skip_spaces (drop 6 line)) s"

definition cmd_disable :: "char list \<Rightarrow> ('d, 'e) command" where
  "cmd_disable line s = service_switch service_disable ''usage: disable <service-name>\<newline>''
     ''service disable failed: %s\<newline>'' ''service disabled: %s\<newline>'' (skip_spaces (drop 7 line)) s"

end
