(* ===== verification/ShellMain.thy ===== *)
theory ShellMain
  imports ShellActions
begin

text \<open>
  The command shell, last part: the user and log commands, history expansion,
  the dispatch of a line to its command, and the loop.
\<close>

section \<open>Users\<close>

definition empty_user_stats :: user_stats where
  "empty_user_stats = \<lparr>total_users = 0, enabled_users = 0, locked_users = 0, us_active_uid = 0,
     active_username = zbuf USER_NAME_MAX, us_authenticated = False\<rparr>"

definition cmd_users :: "('d, 'e) command" where
  "cmd_users s =
     (let stats = user_get_stats (sh_users s) empty_user_stats
      in say_each (\<lambda>u. say ''  %s [%s] uid=%d enabled=%d name=%s\<newline>''
             [KStr (username u), KStr (user_role_name (role u)), KInt (uid u), KBool (enabled u), KStr (full_name u)])
           (user_list (sh_users s) USER_ENTRY_MAX)
           (say ''users: %d total, %d enabled, active=%s\<newline>''
             [KNat (total_users stats), KNat (enabled_users stats), KStr (active_username stats)] s))"

definition cmd_whoami :: "('d, 'e) command" where
  "cmd_whoami s =
     (case user_get_active (sh_users s) of
        None \<Rightarrow> say ''no active user\<newline>'' [] s
      | Some u \<Rightarrow> say ''%s (%s)\<newline>'' [KStr (username u), KStr (user_role_name (role u))] s)"

definition cmd_auth :: "('d, 'e) command" where
  "cmd_auth s =
     (let stats = user_get_stats (sh_users s) empty_user_stats
      in say ''authenticated: %d active=%s uid=%d\<newline>''
           [KBool (us_authenticated stats), KStr (active_username stats), KInt (us_active_uid stats)] s)"

text \<open>
  The two commands that take a name and a password: both cut the name to its
  buffer and look for the password after the characters kept.
\<close>

definition with_password ::
    "(char list \<Rightarrow> char list \<Rightarrow> user_db \<Rightarrow> int \<times> user_db) \<Rightarrow> char list \<Rightarrow> char list \<Rightarrow> char list \<Rightarrow>
     char list \<Rightarrow> ('d, 'e) command" where
  "with_password act usage failed done_fmt rest s =
     (let n = word_length rest in
      if cget rest 0 = NUL \<or> n = 0 \<or> cget rest n = NUL then say usage [] s
      else
        let n' = (if USER_NAME_MAX \<le> n then USER_NAME_MAX - 1 else n);
            name = take n' rest; password = skip_spaces (drop n' rest)
        in if cget password 0 = NUL then say usage [] s
           else case act name password (sh_users s) of (r, db) \<Rightarrow>
             if r \<noteq> 0 then say failed [] (s\<lparr>sh_users := db\<rparr>)
             else say done_fmt [KStr name] (s\<lparr>sh_users := db\<rparr>))"

definition cmd_login :: "char list \<Rightarrow> ('d, 'e) command" where
  "cmd_login line = with_password user_login ''usage: login <username> <password>\<newline>''
     ''login failed\<newline>'' ''logged in as %s\<newline>'' (skip_spaces (drop 5 line))"

definition cmd_logout :: "('d, 'e) command" where
  "cmd_logout s = say ''logged out\<newline>'' [] (s\<lparr>sh_users := user_logout (sh_users s)\<rparr>)"

definition cmd_passwd :: "char list \<Rightarrow> ('d, 'e) command" where
  "cmd_passwd line = with_password user_set_password ''usage: passwd <username> <password>\<newline>''
     ''passwd failed\<newline>'' ''password updated for %s\<newline>'' (skip_spaces (drop 6 line))"

definition on_user ::
    "(char list \<Rightarrow> user_db \<Rightarrow> int \<times> user_db) \<Rightarrow> char list \<Rightarrow> char list \<Rightarrow> char list \<Rightarrow>
     char list \<Rightarrow> ('d, 'e) command" where
  "on_user act usage failed done_fmt name s =
     (if cget name 0 = NUL then say usage [] s
      else case act name (sh_users s) of (r, db) \<Rightarrow>
        say (if r \<noteq> 0 then failed else done_fmt) [KStr name] (s\<lparr>sh_users := db\<rparr>))"

definition cmd_su :: "char list \<Rightarrow> ('d, 'e) command" where
  "cmd_su line = on_user user_set_active ''usage: su <username>\<newline>''
     ''switch user failed: %s\<newline>'' ''active user is now %s\<newline>'' (skip_spaces (drop 2 line))"

definition cmd_deluser :: "char list \<Rightarrow> ('d, 'e) command" where
  "cmd_deluser line = on_user user_disable ''usage: deluser <username>\<newline>''
     ''deluser failed: %s\<newline>'' ''user disabled: %s\<newline>'' (skip_spaces (drop 7 line))"

definition role_named :: "char list \<Rightarrow> user_role option" where
  "role_named r =
     (if cget r 0 = NUL \<or> strcmp r ''user'' = 0 then Some USER_ROLE_USER
      else if strcmp r ''guest'' = 0 then Some USER_ROLE_GUEST
      else if strcmp r ''admin'' = 0 then Some USER_ROLE_ADMIN else None)"

definition cmd_adduser :: "char list \<Rightarrow> ('d, 'e) command" where
  "cmd_adduser line s =
     (let usage = ''usage: adduser <username> <full name> [guest|user|admin]\<newline>'';
          rest = skip_spaces (drop 7 line); n = word_length rest in
      if cget rest 0 = NUL \<or> n = 0 \<or> cget rest n = NUL then say usage [] s
      else
        let n' = (if USER_NAME_MAX \<le> n then USER_NAME_MAX - 1 else n);
            name = take n' rest; rest2 = skip_spaces (drop n' rest); m = word_length rest2
        in if m = 0 then say usage [] s
           else
             let m' = (if USER_FULL_MAX \<le> m then USER_FULL_MAX - 1 else m)
             in case role_named (skip_spaces (drop m rest2)) of
               None \<Rightarrow> say usage [] s
             | Some r \<Rightarrow> (case user_add name (take m' rest2) r (sh_users s) of (e, db) \<Rightarrow>
                 if e \<noteq> 0 then say ''adduser failed\<newline>'' [] (s\<lparr>sh_users := db\<rparr>)
                 else say ''user added: %s\<newline>'' [KStr name] (s\<lparr>sh_users := db\<rparr>)))"

section \<open>Log, history and the machine\<close>

definition cmd_log :: "('d, 'e) command" where
  "cmd_log s =
     (let es = log_copy_entries LOG_BUFFER_MAX (sh_log s)
      in say_each (\<lambda>e. say ''[%s][%d] %s\<newline>''
             [KStr (log_level_name (l_level e)), KWide (l_tick e), KStr (l_message e)]) es
           (if es = [] then say ''(log buffer empty)\<newline>'' [] s else s))"

definition cmd_loglevel :: "char list \<Rightarrow> ('d, 'e) command" where
  "cmd_loglevel line s =
     (let arg = skip_spaces (drop 8 line) in
      if cget arg 0 = NUL
      then say ''levels: trace debug info warn error panic\<newline>'' []
           (say ''minimum log level: %s\<newline>'' [KStr (log_level_name (log_get_minimum_level (sh_log s)))] s)
      else case level_named arg of
        None \<Rightarrow> say ''usage: loglevel [trace|debug|info|warn|error|panic]\<newline>'' [] s
      | Some (level, name) \<Rightarrow>
          let l = log_set_minimum_level level (sh_log s)
          in say ''minimum log level set to %s\<newline>'' [KStr (log_level_name (log_get_minimum_level l))]
               (s\<lparr>sh_log := l, sh_config := snd (config_set ''loglevel'' name (sh_config s))\<rparr>))"

definition cmd_history :: "('d, 'e) command" where
  "cmd_history s =
     say_each (\<lambda>i. say ''%d %s\<newline>'' [KNat (i + 1), KPtr (shell_history_get i s)]) [0..<sh_history_count s]
       (if sh_history_count s = 0 then say ''(empty)\<newline>'' [] s else s)"

definition cmd_clearhist :: "('d, 'e) command" where
  "cmd_clearhist s = say ''history cleared\<newline>'' [] (shell_history_clear s)"

definition cmd_userdemo :: "('d, 'e) command" where
  "cmd_userdemo s = (case userspace_run_demo (sh_user_space s, s) of (u, s') \<Rightarrow> s'\<lparr>sh_user_space := u\<rparr>)"

definition cmd_echo :: "char list \<Rightarrow> ('d, 'e) command" where
  "cmd_echo line = say ''%s\<newline>'' [KStr (skip_spaces (drop 4 line))]"

definition cmd_halt :: "('d, 'e) command" where
  "cmd_halt s = stop Halted (say ''System halted.\<newline>'' [] s)"

definition cmd_version :: "('d, 'e) command" where
  "cmd_version = say ''AcharyaOS Phase 3, Feature 28 - Mouse Driver\<newline>'' []"

definition cmd_unknown :: "char list \<Rightarrow> ('d, 'e) command" where
  "cmd_unknown line s =
     say ''Type 'help' for available commands.\<newline>'' [] (say ''Unknown command: %s\<newline>'' [KStr line] s)"

section \<open>Dispatch\<close>

text \<open>
  The chain of comparisons as the list of its tests and bodies, in order: a
  line equals a command, or begins with a command word.
\<close>

datatype command_test = Exact string | Word string

definition test_line :: "char list \<Rightarrow> command_test \<Rightarrow> bool" where
  "test_line line t = (case t of Exact w \<Rightarrow> strcmp line w = 0 | Word w \<Rightarrow> starts_with_word line w)"

definition shell_commands :: "('d, 'e) machine \<Rightarrow> (command_test \<times> (char list \<Rightarrow> ('d, 'e) command)) list" where
  "shell_commands mc =
     [(Exact ''help'', \<lambda>_. shell_cmd_help), (Exact ''clear'', \<lambda>_. emit Clear_screen),
      (Exact ''version'', \<lambda>_. cmd_version), (Exact ''mem'', \<lambda>_. cmd_mem), (Exact ''vmem'', \<lambda>_. cmd_vmem),
      (Exact ''ticks'', \<lambda>_. cmd_ticks), (Exact ''sched'', \<lambda>_. cmd_sched), (Exact ''ps'', \<lambda>_. cmd_ps),
      (Exact ''taskmgr'', \<lambda>_. shell_cmd_taskmgr), (Exact ''gfxinfo'', \<lambda>_. cmd_gfxinfo),
      (Exact ''gfxdemo'', \<lambda>_. cmd_gfxdemo), (Exact ''wminfo'', \<lambda>_. cmd_wminfo),
      (Exact ''wmdemo'', \<lambda>_. cmd_wmdemo), (Exact ''meninfo'', \<lambda>_. cmd_meninfo),
      (Exact ''mendemo'', \<lambda>_. cmd_mendemo), (Exact ''dskinfo'', \<lambda>_. cmd_dskinfo),
      (Exact ''dskdemo'', \<lambda>_. cmd_dskdemo), (Exact ''iconinfo'', \<lambda>_. cmd_iconinfo),
      (Exact ''icondemo'', \<lambda>_. cmd_icondemo), (Exact ''settings'', \<lambda>_. cmd_settings),
      (Exact ''settinfo'', \<lambda>_. cmd_settinfo), (Exact ''settdemo'', \<lambda>_. cmd_settdemo),
      (Exact ''files'', \<lambda>_. cmd_files), (Exact ''fileinfo'', \<lambda>_. cmd_fileinfo),
      (Exact ''filedemo'', \<lambda>_. cmd_filedemo), (Exact ''ethinfo'', \<lambda>_. cmd_ethinfo),
      (Exact ''arp'', \<lambda>_. cmd_arp), (Exact ''route'', \<lambda>_. cmd_route), (Word ''ping'', cmd_ping_line),
      (Exact ''udpinfo'', \<lambda>_. cmd_udpinfo), (Exact ''mouse'', \<lambda>_. cmd_mouse),
      (Exact ''btninfo'', \<lambda>_. cmd_btninfo), (Exact ''btndemo'', \<lambda>_. cmd_btndemo),
      (Exact ''spawn'', \<lambda>_. cmd_spawn), (Exact ''syscall'', \<lambda>_. cmd_syscall mc),
      (Exact ''disk'', \<lambda>_. cmd_disk), (Exact ''disktest'', \<lambda>_. cmd_disktest mc), (Exact ''fs'', \<lambda>_. cmd_fs),
      (Exact ''ls'', \<lambda>_. cmd_ls), (Word ''cat'', cmd_cat mc), (Word ''writefs'', cmd_writefs mc),
      (Word ''rmfs'', cmd_rmfs mc), (Word ''edit'', cmd_edit mc), (Word ''calc'', cmd_calc),
      (Word ''browse'', cmd_browse mc), (Exact ''config'', \<lambda>_. cmd_config), (Word ''get'', cmd_get),
      (Word ''set'', cmd_set), (Exact ''savecfg'', \<lambda>_. cmd_savecfg mc), (Exact ''loadcfg'', \<lambda>_. cmd_loadcfg mc),
      (Exact ''pkg'', \<lambda>_. cmd_pkg), (Word ''pkginfo'', cmd_pkginfo), (Word ''install'', cmd_install mc),
      (Word ''remove'', cmd_remove mc), (Exact ''svc'', \<lambda>_. cmd_svc), (Word ''svcinfo'', cmd_svcinfo),
      (Word ''start'', cmd_start), (Word ''stop'', cmd_stop), (Word ''restart'', cmd_restart),
      (Word ''enable'', cmd_enable), (Word ''disable'', cmd_disable), (Exact ''users'', \<lambda>_. cmd_users),
      (Exact ''whoami'', \<lambda>_. cmd_whoami), (Exact ''auth'', \<lambda>_. cmd_auth), (Exact ''history'', \<lambda>_. cmd_history),
      (Exact ''clearhist'', \<lambda>_. cmd_clearhist), (Word ''login'', cmd_login), (Exact ''logout'', \<lambda>_. cmd_logout),
      (Word ''passwd'', cmd_passwd), (Word ''su'', cmd_su), (Word ''adduser'', cmd_adduser),
      (Word ''deluser'', cmd_deluser), (Exact ''userdemo'', \<lambda>_. cmd_userdemo), (Exact ''log'', \<lambda>_. cmd_log),
      (Word ''loglevel'', cmd_loglevel), (Word ''echo'', cmd_echo), (Exact ''halt'', \<lambda>_. cmd_halt)]"

definition shell_dispatch :: "('d, 'e) machine \<Rightarrow> char list \<Rightarrow> ('d, 'e) command" where
  "shell_dispatch mc line s =
     (case find (\<lambda>(t, _). test_line line t) (shell_commands mc) of
        Some (_, act) \<Rightarrow> act line s | None \<Rightarrow> cmd_unknown line s)"

section \<open>A line\<close>

text \<open>The number after an exclamation mark, in 64 bits.\<close>

definition history_number :: "char list \<Rightarrow> u64" where
  "history_number s =
     foldl (\<lambda>index c. index * 10 + (of_int (uchar c) - 48)) 0
       (takeWhile (\<lambda>c. 48 \<le> uchar c \<and> uchar c \<le> 57) s)"

text \<open>
  Expansion: \<open>Inl\<close> when the line asks for a history entry that is not there,
  otherwise the line to run and the line to remember.
\<close>

definition expand_line :: "char list \<Rightarrow> ('d, 'e) shell \<Rightarrow> char list + bool \<times> char list" where
  "expand_line line s =
     (let ln = skip_spaces line in
      if strcmp ln ''!!'' = 0 then
        (case shell_history_get (sh_history_count s - 1) s of
           None \<Rightarrow> Inl ''history empty\<newline>'' | Some e \<Rightarrow> Inr (True, e))
      else if cget ln 0 = CHR ''!'' \<and> 48 \<le> uchar (cget ln 1) \<and> uchar (cget ln 1) \<le> 57 then
        (let index = history_number (tl ln) in
         if index = 0 \<or> sh_history_count s < unat index then Inl ''history entry not found\<newline>''
         else case shell_history_get (unat index - 1) s of
           None \<Rightarrow> Inl ''history entry not found\<newline>'' | Some e \<Rightarrow> Inr (True, e))
      else Inr (False, line))"

definition remembered :: "char list \<Rightarrow> char list \<Rightarrow> bool" where
  "remembered run entry \<longleftrightarrow>
     strcmp run ''history'' \<noteq> 0 \<and> strcmp run ''clearhist'' \<noteq> 0 \<and>
     cget entry 0 \<noteq> NUL \<and> strcmp entry ''history'' \<noteq> 0 \<and> strcmp entry ''clearhist'' \<noteq> 0"

definition shell_execute :: "('d, 'e) machine \<Rightarrow> char list \<Rightarrow> ('d, 'e) command" where
  "shell_execute mc line s =
     (if cget (skip_spaces line) 0 = NUL then s
      else case expand_line line s of
        Inl msg \<Rightarrow> say msg [] s
      | Inr (expanded, entry) \<Rightarrow>
          let s1 = (if expanded then say ''%s\<newline>'' [KStr entry] s else s);
              run = (if expanded \<or> cget line 0 = CHR '' '' then take (SHELL_LINE_MAX - 1) (cstr entry) else line)
          in proceed (\<lambda>s. if remembered run entry then shell_history_add entry s else s)
               (shell_dispatch mc run s1))"

definition shell_run_command :: "('d, 'e) machine \<Rightarrow> char list \<Rightarrow> ('d, 'e) shell \<Rightarrow> int \<times> ('d, 'e) shell" where
  "shell_run_command mc line s =
     (let ln = skip_spaces line in
      if cget ln 0 = NUL then (-1, s) else (0, shell_execute mc ln s))"

end
