(* ===== verification/ShellLoop.thy ===== *)
theory ShellLoop
  imports ShellMain
begin

text \<open>
  The shell's loop.  Every command consumes none of the typed input or, for the
  editor and the browser, some of it, so the loop ends on every finite input.
\<close>

section \<open>Commands and the input\<close>

named_theorems input_simps

lemma proceed_input [input_simps]: "(\<And>s. con_in (f s) = con_in s) \<Longrightarrow> con_in (proceed f s) = con_in s"
  by (simp add: proceed_def)

lemma say_each_input [input_simps]:
  "(\<And>x s. con_in (f x s) = con_in s) \<Longrightarrow> con_in (say_each f xs s) = con_in s"
  unfolding say_each_def by (rule con_in_fold_keep)

lemma with_log_input [input_simps]: "con_in (snd (with_log f s)) = con_in s"
  by (simp add: with_log_def split: prod.split)

lemma put_text_input [input_simps]: "con_in (put_text r s) = con_in s"
  by (simp add: put_text_def split: option.split)

lemma syscall_input [input_simps]: "con_in (snd (raise_syscall mc a b s)) = con_in s"
  by (simp add: raise_syscall_def split: dispatch.split)

lemma status_input [input_simps]:
  "con_in (shell_cmd_help s) = con_in s" "con_in (cmd_version s) = con_in s" "con_in (cmd_mem s) = con_in s"
  "con_in (cmd_vmem s) = con_in s" "con_in (cmd_ticks s) = con_in s" "con_in (cmd_sched s) = con_in s"
  "con_in (cmd_ps s) = con_in s" "con_in (shell_cmd_taskmgr s) = con_in s" "con_in (cmd_spawn s) = con_in s"
  by (simp_all add: shell_cmd_help_def cmd_version_def cmd_mem_def cmd_vmem_def cmd_ticks_def cmd_sched_def
      cmd_ps_def shell_cmd_taskmgr_def cmd_spawn_def Let_def input_simps split: prod.split)

lemma cmd_syscall_input [input_simps]: "con_in (cmd_syscall mc s) = con_in s"
  by (simp add: cmd_syscall_def syscall_write_def syscall_get_pid_def syscall_get_ticks_def
      syscall_get_process_count_def syscall_yield_def Let_def case_prod_beta input_simps)

lemma draw_input [input_simps]: "con_in (draw f msg s) = con_in s"
  by (simp add: draw_def)

lemma graphics_input [input_simps]:
  "con_in (cmd_gfxinfo s) = con_in s" "con_in (cmd_gfxdemo s) = con_in s" "con_in (cmd_wminfo s) = con_in s"
  "con_in (cmd_wmdemo s) = con_in s" "con_in (cmd_meninfo s) = con_in s" "con_in (cmd_mendemo s) = con_in s"
  "con_in (cmd_dskinfo s) = con_in s" "con_in (cmd_dskdemo s) = con_in s" "con_in (cmd_iconinfo s) = con_in s"
  "con_in (cmd_icondemo s) = con_in s" "con_in (cmd_settings s) = con_in s" "con_in (cmd_settinfo s) = con_in s"
  "con_in (cmd_settdemo s) = con_in s" "con_in (cmd_files s) = con_in s" "con_in (cmd_fileinfo s) = con_in s"
  "con_in (cmd_filedemo s) = con_in s" "con_in (cmd_btninfo s) = con_in s" "con_in (cmd_btndemo s) = con_in s"
  by (simp_all add: cmd_gfxinfo_def cmd_gfxdemo_def cmd_wminfo_def cmd_wmdemo_def cmd_meninfo_def cmd_mendemo_def
      cmd_dskinfo_def cmd_dskdemo_def cmd_iconinfo_def cmd_icondemo_def cmd_settings_def cmd_settinfo_def
      cmd_settdemo_def cmd_files_def cmd_fileinfo_def cmd_filedemo_def cmd_btninfo_def cmd_btndemo_def
      Let_def input_simps)

lemma device_input [input_simps]:
  "con_in (cmd_ethinfo s) = con_in s" "con_in (cmd_arp s) = con_in s" "con_in (cmd_route s) = con_in s"
  "con_in (cmd_ping_line line s) = con_in s" "con_in (cmd_udpinfo s) = con_in s" "con_in (cmd_mouse s) = con_in s"
  "con_in (cmd_disk s) = con_in s" "con_in (cmd_disktest mc s) = con_in s"
  by (simp_all add: cmd_ethinfo_def cmd_arp_def cmd_route_def cmd_ping_line_def cmd_udpinfo_def cmd_mouse_def
      cmd_disk_def cmd_disktest_def Let_def input_simps split: option.split prod.split)

lemma cmd_calc_input [input_simps]: "con_in (cmd_calc line s) = con_in s"
  by (simp add: cmd_calc_def calc_get_help_def Let_def split: cres.split)

lemma files_input [input_simps]:
  "con_in (cmd_fs s) = con_in s" "con_in (cmd_ls s) = con_in s" "con_in (cmd_cat mc line s) = con_in s"
  "con_in (cmd_writefs mc line s) = con_in s" "con_in (cmd_rmfs mc line s) = con_in s"
  by (simp_all add: cmd_fs_def cmd_ls_def cmd_cat_def cmd_writefs_def cmd_rmfs_def Let_def input_simps
      split: prod.split read_result.split)

lemma config_input [input_simps]:
  "con_in (cmd_config s) = con_in s" "con_in (cmd_get line s) = con_in s" "con_in (cmd_set line s) = con_in s"
  "con_in (cmd_savecfg mc s) = con_in s" "con_in (cmd_loadcfg mc s) = con_in s"
  by (simp_all add: cmd_config_def cmd_get_def cmd_set_def cmd_savecfg_def cmd_loadcfg_def Let_def input_simps
      split: prod.split option.split)

lemma package_input [input_simps]:
  "con_in (cmd_pkg s) = con_in s" "con_in (cmd_pkginfo line s) = con_in s"
  "con_in (cmd_install mc line s) = con_in s" "con_in (cmd_remove mc line s) = con_in s"
  by (simp_all add: cmd_pkg_def cmd_pkginfo_def cmd_install_def cmd_remove_def Let_def input_simps
      split: prod.split option.split)

lemma service_action_input [input_simps]:
  "con_in (service_action act u a b name s) = con_in s" "con_in (service_switch act' u a b name s) = con_in s"
  by (simp_all add: service_action_def service_switch_def case_prod_beta input_simps)

lemma service_input [input_simps]:
  "con_in (cmd_svc s) = con_in s" "con_in (cmd_svcinfo line s) = con_in s" "con_in (cmd_start line s) = con_in s"
  "con_in (cmd_stop line s) = con_in s" "con_in (cmd_restart line s) = con_in s"
  "con_in (cmd_enable line s) = con_in s" "con_in (cmd_disable line s) = con_in s"
  by (simp_all add: cmd_svc_def cmd_svcinfo_def cmd_start_def cmd_stop_def cmd_restart_def cmd_enable_def
      cmd_disable_def Let_def input_simps split: option.split)

lemma user_action_input [input_simps]:
  "con_in (with_password act u a b r s) = con_in s" "con_in (on_user act' u a b r s) = con_in s"
  by (simp_all add: with_password_def on_user_def Let_def case_prod_beta)

lemma user_input [input_simps]:
  "con_in (cmd_users s) = con_in s" "con_in (cmd_whoami s) = con_in s" "con_in (cmd_auth s) = con_in s"
  "con_in (cmd_login line s) = con_in s" "con_in (cmd_logout s) = con_in s" "con_in (cmd_passwd line s) = con_in s"
  "con_in (cmd_su line s) = con_in s" "con_in (cmd_deluser line s) = con_in s" "con_in (cmd_adduser line s) = con_in s"
  by (simp_all add: cmd_users_def cmd_whoami_def cmd_auth_def cmd_login_def cmd_logout_def cmd_passwd_def
      cmd_su_def cmd_deluser_def cmd_adduser_def Let_def input_simps split: option.split prod.split)

lemma history_input [input_simps]:
  "con_in (shell_history_add line s) = con_in s" "con_in (cmd_log s) = con_in s"
  "con_in (cmd_loglevel line s) = con_in s" "con_in (cmd_history s) = con_in s" "con_in (cmd_clearhist s) = con_in s"
  "con_in (cmd_userdemo s) = con_in s" "con_in (cmd_echo line s) = con_in s" "con_in (cmd_halt s) = con_in s"
  "con_in (cmd_unknown line s) = con_in s"
  by (simp_all add: shell_history_add_def history_store_def cmd_log_def cmd_loglevel_def cmd_history_def cmd_clearhist_def
      shell_history_clear_def cmd_userdemo_def userspace_run_demo_def userspace_enter_def cmd_echo_def cmd_halt_def
      cmd_unknown_def Let_def input_simps split: option.split prod.split)

text \<open>The two interactive programs read some of the input and leave the rest.\<close>

lemma key_loop_rest: "key_loop tabs n ks buf = (l, out, rest) \<Longrightarrow> length rest \<le> length ks"
  by (induction tabs n ks buf arbitrary: l out rest rule: key_loop.induct)
     (fastforce simp: Let_def split: if_splits prod.splits)+

lemma read_line_rest: "read_line tabs n c = (l, c') \<Longrightarrow> length (con_in c') \<le> length (con_in c)"
  by (auto simp: read_line_def dest: key_loop_rest split: prod.splits)

lemma editor_loop_input: "length (con_in (snd (editor_loop api (ed, t)))) \<le> length (con_in t)"
proof (induction api "(ed, t)" arbitrary: ed t rule: editor_loop.induct)
  case (1 api ed t)
  obtain l t1 where r: "editor_readline (editor_set_status t) = (l, t1)" by fastforce
  have len: "length (con_in t1) \<le> length (con_in t)"
    using r read_line_rest [of False EDITOR_LINE_MAX "editor_set_status t"]
    by (fastforce simp: editor_readline_def editor_set_status_def)
  show ?case
  proof (cases l)
    case None
    then show ?thesis using r len by (subst editor_loop.simps) simp
  next
    case (Some line)
    obtain fin ed' t2 where c: "editor_command api line (ed, t1) = (fin, ed', t2)" by (metis prod_cases3)
    then have t2: "con_in t2 = con_in t1" using con_in_command [of api line ed t1] by simp
    have "length (con_in (snd (editor_loop api (ed', t2)))) \<le> length (con_in t2)" if "\<not> fin"
      using "1.hyps" r c Some that by auto
    then show ?thesis using r c len Some t2 by (subst editor_loop.simps) auto
  qed
qed

lemma browser_loop_input: "length (con_in (browser_loop dev (p, t))) \<le> length (con_in t)"
proof (induction dev "(p, t)" arbitrary: p t rule: browser_loop.induct)
  case (1 dev p t)
  obtain l t1 where r: "browser_readline (browser_print_prompt t) = (l, t1)" by fastforce
  have len: "length (con_in t1) \<le> length (con_in t)"
    using r read_line_rest [of False BROWSER_INPUT_MAX "browser_print_prompt t"]
    by (fastforce simp: browser_readline_def)
  show ?case
  proof (cases l)
    case None
    then show ?thesis using r len by (subst browser_loop.simps) simp
  next
    case (Some line)
    obtain fin p' t2 where c: "browser_command dev line (p, t1) = (fin, p', t2)" by (metis prod_cases3)
    then have t2: "con_in t2 = con_in t1" using con_in_browser_command [of dev line p t1] by simp
    have "length (con_in (browser_loop dev (p', t2))) \<le> length (con_in t2)" if "\<not> (fin \<or> con_status t2 = Faulty)"
      using "1.hyps" r c Some that by auto
    then show ?thesis using r c len Some t2 by (subst browser_loop.simps) auto
  qed
qed

lemma editor_load_input: "con_in (snd (editor_load api ed t)) = con_in t"
  by (simp add: editor_load_def Let_def split: prod.split read_result.split)

lemma cmd_edit_input: "length (con_in (cmd_edit mc line s)) \<le> length (con_in s)"
proof -
  have "length (con_in (editor_run api path s)) \<le> length (con_in s)" for api path
  proof -
    obtain ed t1 where ld: "editor_load api (editor_reset path) s = (ed, t1)" by fastforce
    then have "con_in t1 = con_in s" using editor_load_input [of api "editor_reset path" s] by simp
    then show ?thesis
      using ld editor_loop_input [of api ed "editor_print_help t1"] by (simp add: editor_run_def)
  qed
  then show ?thesis by (simp add: cmd_edit_def Let_def)
qed

lemma cmd_browse_input: "length (con_in (cmd_browse mc line s)) \<le> length (con_in s)"
proof -
  let ?p = "copy_text (zbuf BROWSER_INPUT_MAX) (skip_spaces (drop 6 line))"
  show ?thesis
    using browser_loop_input [of "disk_of mc" ?p "browser_show_files ?p (browser_help s)"]
    by (simp add: cmd_browse_def browser_run_def Let_def)
qed

section \<open>Dispatch\<close>

lemma commands_input:
  "list_all (\<lambda>(t, act). \<forall>line s. length (con_in (act line s)) \<le> length (con_in s)) (shell_commands mc)"
  unfolding shell_commands_def
  by (simp add: input_simps cmd_edit_input cmd_browse_input del: con_in_say con_in_say_lines con_in_set_color)

text \<open>What holds of all entries of the table and of the unknown command holds of a dispatch.\<close>

lemma dispatch_all:
  assumes "list_all (\<lambda>(t, act). P act) (shell_commands mc)" "P cmd_unknown"
  obtains act where "P act" "shell_dispatch mc line s = act line s"
proof (cases "find (\<lambda>(t, _). test_line line t) (shell_commands mc)")
  case None
  then show ?thesis using that assms(2) by (simp add: shell_dispatch_def)
next
  case (Some e)
  then have "e \<in> set (shell_commands mc)" by (auto simp: find_Some_iff) (metis nth_mem)
  then show ?thesis using that Some assms(1) by (cases e) (auto simp: shell_dispatch_def list_all_iff)
qed

lemma dispatch_input: "length (con_in (shell_dispatch mc line s)) \<le> length (con_in s)"
proof -
  obtain act where "\<forall>line s. length (con_in (act line s)) \<le> length (con_in s)"
    "shell_dispatch mc line s = act line s"
    using dispatch_all [of "\<lambda>act. \<forall>line s. length (con_in (act line s)) \<le> length (con_in s)", OF commands_input]
    by (metis history_input(9) order_refl)
  then show ?thesis by simp
qed

lemma execute_input: "length (con_in (shell_execute mc line s)) \<le> length (con_in s)"
proof -
  have "length (con_in (proceed (\<lambda>s. if b then shell_history_add e s else s) (shell_dispatch mc run s1))) \<le>
      length (con_in s)" if "con_in s1 = con_in s" for b e run s1
    using dispatch_input [of mc run s1] that by (simp add: proceed_def input_simps)
  then show ?thesis by (auto simp: shell_execute_def Let_def split: sum.split)
qed

section \<open>The loop\<close>

lemma shell_turn_shorter:
  assumes "(x, s') = shell_readline (shell_print_prompt s)" "x = Some line"
  shows "length (con_in (shell_execute mc line s')) < length (con_in s)"
proof -
  have "con_in (shell_print_prompt s) = con_in s"
    by (simp add: shell_print_prompt_def Let_def split: prod.split)
  moreover have "length (con_in s') < length (con_in (shell_print_prompt s))"
    using assms by (intro read_line_shorter [of True SHELL_LINE_MAX _ line]) (simp add: shell_readline_def)
  ultimately show ?thesis using execute_input [of mc line s'] by simp
qed

function shell_loop :: "('d, 'e) machine \<Rightarrow> ('d, 'e) command" where
  "shell_loop mc s =
     (if con_status s \<noteq> Running then s
      else case shell_readline (shell_print_prompt s) of
        (None, s') \<Rightarrow> s' | (Some line, s') \<Rightarrow> shell_loop mc (shell_execute mc line s'))"
  by pat_completeness auto
termination
  by (relation "measure (\<lambda>(mc, s). length (con_in s))", simp)
     (unfold in_measure prod.case, erule (1) shell_turn_shorter)

declare shell_loop.simps [simp del]

definition shell_run :: "('d, 'e) machine \<Rightarrow> ('d, 'e) command" where
  "shell_run mc s =
     shell_loop mc (say ''Type 'help' for commands.\<newline>\<newline>'' []
       (say ''AcharyaOS command shell ready.\<newline>'' [] s))"

end
