(* ===== verification/ShellInv.thy ===== *)
theory ShellInv
  imports ShellLoop ConfigProps PackageProps LogProps ServiceProps EditorProps GuiInv NetProps
begin

text \<open>
  The invariants of the kernel's tables over whole shell sessions: each command
  keeps them, so every line, and every typed input, does.  The tables are those of
  the users, the services, the log, the processes, the configuration, the
  packages, the history, the screen and the network; the directory, which follows
  the disk, has its own invariant in the file system's theories, and the page
  tables, the heap and the interrupt descriptors are in ShellFixed.
\<close>

section \<open>The invariant\<close>

definition config_rows_ok :: "config \<Rightarrow> bool" where
  "config_rows_ok c \<longleftrightarrow> length (config_entries c) = 16 \<and> list_all config_entry_ok (config_entries c)"

definition package_row_ok :: "package_entry \<Rightarrow> bool" where
  "package_row_ok e \<longleftrightarrow> length (p_name e) = 32 \<and> length (p_version e) = 16 \<and> length (p_source e) = 64 \<and>
     (p_used e \<longrightarrow> terminated (p_name e) \<and> terminated (p_version e) \<and> terminated (p_source e))"

definition packages_ok :: "packages \<Rightarrow> bool" where
  "packages_ok es \<longleftrightarrow> length es = 12 \<and> list_all package_row_ok es"

definition history_ok :: "('d, 'e) shell \<Rightarrow> bool" where
  "history_ok s \<longleftrightarrow> length (sh_history s) = 16 \<and> sh_history_next s < 16 \<and> sh_history_count s \<le> 16 \<and>
     list_all (\<lambda>row. length row = 128) (sh_history s)"

definition kernel_inv :: "('d, 'e) shell \<Rightarrow> bool" where
  "kernel_inv s \<longleftrightarrow> user_inv (sh_users s) \<and> svc_ok (sh_services s) \<and> log_inv (sh_log s) \<and>
     proc_inv (k_procs (sh_kernel s), k_sched (sh_kernel s)) \<and> config_rows_ok (sh_config s) \<and>
     packages_ok (sh_packages s) \<and> history_ok s \<and> gui_ok (sh_gui s) \<and> net_ok (sh_net s)"

section \<open>Terminal operations\<close>

text \<open>
  The operations of the terminal leave everything below it alone: the part of a
  shell state beyond the terminal's fields is \<open>terminal.more\<close>.
\<close>

named_theorems more_simps

lemma more_terminal [more_simps]:
  fixes t :: "('w, 'a) terminal_scheme"
  shows "terminal.more (emit ev t) = terminal.more t" "terminal.more (stop st t) = terminal.more t"
    "terminal.more (kio_set_color a b t) = terminal.more t"
  by (simp_all add: emit_def stop_def kio_set_color_def)

lemma more_say [more_simps]:
  fixes t :: "('w, 'a) terminal_scheme"
  shows "terminal.more (say fmt args t) = terminal.more t"
  by (simp add: say_def more_simps split: option.split)

lemma more_fold:
  fixes t :: "('w, 'a) terminal_scheme"
  shows "(\<And>x t. terminal.more (f x t) = terminal.more (t :: ('w, 'a) terminal_scheme)) \<Longrightarrow>
     terminal.more (fold f xs t) = terminal.more t"
  by (induction xs arbitrary: t) simp_all

lemma more_say_lines [more_simps]:
  fixes t :: "('w, 'a) terminal_scheme"
  shows "terminal.more (say_lines fmts t) = terminal.more t"
  unfolding say_lines_def by (rule more_fold) (simp add: more_simps)

lemma more_read_line:
  fixes t :: "('w, 'a) terminal_scheme"
  shows "read_line tabs n t = (l, t') \<Longrightarrow> terminal.more t' = terminal.more t"
  by (auto simp: read_line_def split: prod.splits)

text \<open>The editor and the browser.\<close>

lemma more_help:
  fixes t :: "('w, 'a) terminal_scheme"
  shows "terminal.more (editor_print_help t) = terminal.more t"
  by (simp add: editor_print_help_def more_simps)

lemma more_editor_command:
  fixes t :: "('w, 'a) terminal_scheme"
  shows "terminal.more (snd (snd (editor_command api line (ed, t)))) = terminal.more t"
proof -
  have edit: "terminal.more (snd (editor_insert_line s (ed, t))) = terminal.more t"
    "terminal.more (snd (editor_append_line s (ed, t))) = terminal.more t"
    "terminal.more (snd (editor_delete_line (ed, t))) = terminal.more t"
    "terminal.more (snd (editor_save api ed t)) = terminal.more t"
    "terminal.more (editor_show ed t) = terminal.more t" for s
    by (simp_all add: editor_insert_line_def editor_append_line_def editor_delete_line_def editor_save_def
        editor_show_def more_fold more_simps Let_def split: prod.split)
  show ?thesis
    unfolding editor_command_def prod.case
    by (simp only: if_distrib [of "\<lambda>r. terminal.more (snd (snd r))"] snd_conv edit more_help more_say case_prod_beta if_cancel)
qed

lemma more_editor_loop:
  fixes t :: "('w, 'a) terminal_scheme"
  shows "terminal.more (snd (editor_loop api (ed, t))) = terminal.more t"
proof (induction api "(ed, t)" arbitrary: ed t rule: editor_loop.induct)
  case (1 api ed t)
  obtain l t1 where r: "editor_readline (editor_set_status t) = (l, t1)" by fastforce
  have m: "terminal.more t1 = terminal.more t"
    using r more_read_line [of False EDITOR_LINE_MAX "editor_set_status t" l t1]
    by (simp add: editor_readline_def)
  show ?case
  proof (cases l)
    case None
    then show ?thesis using r m by (subst editor_loop.simps) (simp del: editor_prompt)
  next
    case (Some line)
    obtain fin ed' t2 where c: "editor_command api line (ed, t1) = (fin, ed', t2)" by (metis prod_cases3)
    then have t2: "terminal.more t2 = terminal.more t1" using more_editor_command [of api line ed t1] by simp
    have "terminal.more (snd (editor_loop api (ed', t2))) = terminal.more t2" if "\<not> fin"
      using "1.hyps" r c Some that by auto
    then show ?thesis using r c m Some t2 by (subst editor_loop.simps) (auto simp del: editor_prompt)
  qed
qed

lemma more_editor_run [more_simps]:
  fixes t :: "('w, 'a) terminal_scheme"
  shows "terminal.more (editor_run api path t) = terminal.more t"
proof -
  have "terminal.more (snd (editor_load api ed t)) = terminal.more t" for ed
    by (simp add: editor_load_def Let_def more_simps split: prod.split read_result.split)
  moreover obtain ed t1 where "editor_load api (editor_reset path) t = (ed, t1)" by fastforce
  ultimately have "editor_load api (editor_reset path) t = (ed, t1)" "terminal.more t1 = terminal.more t"
    by (metis snd_conv)+
  then show ?thesis by (simp add: editor_run_def more_editor_loop more_help more_simps)
qed

lemma more_browser_command:
  fixes t :: "(fs \<times> 's, 'a) terminal_scheme"
  shows "terminal.more (snd (snd (browser_command dev line (p, t)))) = terminal.more t"
proof -
  have cmd: "terminal.more (browser_help t) = terminal.more t"
    "terminal.more (browser_show_files q t) = terminal.more t"
    "terminal.more (browser_preview_file dev q t) = terminal.more t"
    "terminal.more (browser_info_file q t) = terminal.more t" for q
    by (simp_all add: browser_help_def browser_show_files_def browser_preview_file_def browser_info_file_def
        more_fold more_simps Let_def split: prod.split read_result.split option.split)
  show ?thesis
    unfolding browser_command_def prod.case Let_def
    by (simp only: if_distrib [of "\<lambda>r. terminal.more (snd (snd r))"] snd_conv cmd more_say if_cancel)
qed

lemma more_browser_loop:
  fixes t :: "(fs \<times> 's, 'a) terminal_scheme"
  shows "terminal.more (browser_loop dev (p, t)) = terminal.more t"
proof (induction dev "(p, t)" arbitrary: p t rule: browser_loop.induct)
  case (1 dev p t)
  obtain l t1 where r: "browser_readline (browser_print_prompt t) = (l, t1)" by fastforce
  have m: "terminal.more t1 = terminal.more t"
    using r more_read_line [of False BROWSER_INPUT_MAX "browser_print_prompt t" l t1]
    by (simp add: browser_readline_def browser_print_prompt_def more_simps)
  show ?case
  proof (cases l)
    case None
    then show ?thesis using r m by (subst browser_loop.simps) simp
  next
    case (Some line)
    obtain fin p' t2 where c: "browser_command dev line (p, t1) = (fin, p', t2)" by (metis prod_cases3)
    then have t2: "terminal.more t2 = terminal.more t1" using more_browser_command [of dev line p t1] by simp
    have "terminal.more (browser_loop dev (p', t2)) = terminal.more t2" if "\<not> (fin \<or> con_status t2 = Faulty)"
      using "1.hyps" r c Some that by auto
    then show ?thesis using r c m Some t2 by (subst browser_loop.simps) auto
  qed
qed

lemma more_browser_run [more_simps]:
  fixes t :: "(fs \<times> 's, 'a) terminal_scheme"
  shows "terminal.more (browser_run dev p t) = terminal.more t"
proof -
  have "terminal.more (browser_show_files q t) = terminal.more t" for q and t :: "(fs \<times> 's, 'a) terminal_scheme"
    by (simp add: browser_show_files_def more_fold more_simps Let_def)
  then show ?thesis by (simp add: browser_run_def browser_help_def Let_def more_browser_loop more_simps)
qed

section \<open>The invariant and updates of the state\<close>

lemma kernel_inv_more: "terminal.more s' = terminal.more s \<Longrightarrow> kernel_inv s' = kernel_inv s"
  for s s' :: "('d, 'e) shell"
  by (cases s; cases s') (simp add: kernel_inv_def history_ok_def)

named_theorems inv_simps

lemma kernel_inv_terminal [inv_simps]:
  fixes s :: "('d, 'e) shell"
  shows "kernel_inv (emit ev s) = kernel_inv s" "kernel_inv (stop st s) = kernel_inv s"
    "kernel_inv (kio_set_color a b s) = kernel_inv s" "kernel_inv (say fmt args s) = kernel_inv s"
    "kernel_inv (say_lines fmts s) = kernel_inv s" "kernel_inv (editor_run api path s) = kernel_inv s"
    "kernel_inv (browser_run dev p s) = kernel_inv s" "kernel_inv (s\<lparr>t_world := w\<rparr>) = kernel_inv s"
  by (rule kernel_inv_more, simp add: more_simps)+

lemma kernel_inv_other [inv_simps]:
  fixes s :: "('d, 'e) shell"
  shows "kernel_inv (s\<lparr>sh_user_space := u\<rparr>) = kernel_inv s"
  by (simp_all add: kernel_inv_def history_ok_def)

lemma kernel_inv_update:
  fixes s :: "('d, 'e) shell"
  assumes "kernel_inv s"
  shows "user_inv db \<Longrightarrow> kernel_inv (s\<lparr>sh_users := db\<rparr>)"
    "svc_ok ss \<Longrightarrow> kernel_inv (s\<lparr>sh_services := ss\<rparr>)"
    "log_inv l \<Longrightarrow> kernel_inv (s\<lparr>sh_log := l\<rparr>)"
    "config_rows_ok c \<Longrightarrow> kernel_inv (s\<lparr>sh_config := c\<rparr>)"
    "packages_ok es \<Longrightarrow> kernel_inv (s\<lparr>sh_packages := es\<rparr>)"
    "proc_inv (k_procs k, k_sched k) \<Longrightarrow> kernel_inv (s\<lparr>sh_kernel := k\<rparr>)"
    "gui_ok g \<Longrightarrow> kernel_inv (s\<lparr>sh_gui := g\<rparr>)"
    "net_ok n \<Longrightarrow> kernel_inv (s\<lparr>sh_net := n\<rparr>)"
  using assms by (simp_all add: kernel_inv_def history_ok_def)

lemma kernel_invD:
  assumes "kernel_inv s"
  shows "user_inv (sh_users s)" "svc_ok (sh_services s)" "log_inv (sh_log s)"
    "proc_inv (k_procs (sh_kernel s), k_sched (sh_kernel s))" "config_rows_ok (sh_config s)"
    "packages_ok (sh_packages s)" "history_ok s" "gui_ok (sh_gui s)" "net_ok (sh_net s)"
  using assms by (simp_all add: kernel_inv_def)

section \<open>Operations of the components\<close>

lemma log_write_inv: "log_inv l \<Longrightarrow> log_inv (log_write tick level m l)"
proof -
  have core: "log_inv (log_core x) = log_inv x" for x by (simp add: log_inv_def log_core_def)
  assume "log_inv l"
  then have "log_inv (log_core (log_write tick level m l))"
    using logr.push_inv [of "log_core l" "(tick, level, m)"] by (simp add: log_write_core core)
  then show ?thesis by (simp add: core)
qed

lemma log_level_inv [inv_simps]:
  "log_inv (log_set_minimum_level v l) = log_inv l" "log_inv (l\<lparr>log_console := t\<rparr>) = log_inv l"
  by (simp_all add: log_inv_def log_set_minimum_level_def)

lemma service_hooks_inv:
  "log_inv l \<Longrightarrow> log_inv (snd (service_run_hook tick nm l)) \<and> log_inv (snd (service_stop_hook tick nm l))"
  by (simp add: service_run_hook_def service_stop_hook_def log_write_inv)

lemma service_ops_inv:
  assumes "svc_ok ss" "log_inv l"
  shows "service_start tick nm (ss, l) = (r, ss', l') \<Longrightarrow> svc_ok ss' \<and> log_inv l'"
    "service_stop tick nm (ss, l) = (r, ss', l') \<Longrightarrow> svc_ok ss' \<and> log_inv l'"
    "service_restart tick nm (ss, l) = (r, ss', l') \<Longrightarrow> svc_ok ss' \<and> log_inv l'"
proof -
  have lg: "log_inv (snd (snd (service_start tick nm (a, b)))) \<and> log_inv (snd (snd (service_stop tick nm (a, b))))"
    if "log_inv b" for a b
    using that service_hooks_inv
    by (simp add: service_start_def service_stop_def service_mark_running_def service_mark_stopped_def
        service_run_hook_def service_stop_hook_def log_write_inv split: option.split)
  show "service_start tick nm (ss, l) = (r, ss', l') \<Longrightarrow> svc_ok ss' \<and> log_inv l'"
    using start_implements [OF assms(1), of tick nm l] lg [OF assms(2), of ss] by (simp add: implements_def)
  show "service_stop tick nm (ss, l) = (r, ss', l') \<Longrightarrow> svc_ok ss' \<and> log_inv l'"
    using stop_implements [OF assms(1), of tick nm l] lg [OF assms(2), of ss] by (simp add: implements_def)
  show "service_restart tick nm (ss, l) = (r, ss', l') \<Longrightarrow> svc_ok ss' \<and> log_inv l'"
  proof -
    assume re: "service_restart tick nm (ss, l) = (r, ss', l')"
    obtain r1 s1 l1 where st: "service_stop tick nm (ss, l) = (r1, s1, l1)" by (metis prod_cases3)
    have "log_inv l1" using lg [OF assms(2), of ss] st by simp
    then have "log_inv l'" using re st lg [of l1 s1] by (auto simp: service_restart_def split: if_splits)
    then show ?thesis using restart_implements [OF assms(1), of tick nm l] re by (simp add: implements_def)
  qed
qed

lemma service_flags_inv: "svc_ok ss \<Longrightarrow> svc_ok (snd (service_enable nm ss)) \<and> svc_ok (snd (service_disable nm ss))"
  using enable_implements [of ss nm undefined] by (simp add: implements_def case_prod_beta)

lemma config_entry_copied:
  assumes "config_entry_ok e"
  shows "cget key 0 \<noteq> NUL \<Longrightarrow> config_entry_ok (e\<lparr>cused := True, ckey := config_copy_text (ckey e) key,
      cvalue := config_copy_text (cvalue e) v\<rparr>)"
    and "cused e \<Longrightarrow> config_entry_ok (e\<lparr>cvalue := config_copy_text (cvalue e) v\<rparr>)"
proof -
  have ne: "ckey e \<noteq> []" "cvalue e \<noteq> []" using assms by (auto simp: config_entry_ok_def)
  show "cget key 0 \<noteq> NUL \<Longrightarrow> config_entry_ok (e\<lparr>cused := True, ckey := config_copy_text (ckey e) key,
      cvalue := config_copy_text (cvalue e) v\<rparr>)"
    using assms ne by (simp add: config_entry_ok_def config_copy_text_def cstr_copy_text ckey_of_def cstr_eq_Nil_iff
        min_less_iff_disj)
  show "cused e \<Longrightarrow> config_entry_ok (e\<lparr>cvalue := config_copy_text (cvalue e) v\<rparr>)"
    using assms ne by (simp add: config_entry_ok_def config_copy_text_def cstr_copy_text ckey_of_def)
qed

text \<open>An update of one row of a table keeps what all rows have.\<close>

lemma list_all_update: "list_all P xs \<Longrightarrow> (i < length xs \<Longrightarrow> P x) \<Longrightarrow> list_all P (xs[i := x])"
  by (cases "i < length xs") (auto simp: list_all_length nth_list_update)

lemma config_set_rows: "config_rows_ok c \<Longrightarrow> config_rows_ok (snd (config_set key v c))"
proof -
  assume ok: "config_rows_ok c"
  let ?es = "config_entries c"
  have row: "config_entry_ok (?es ! i)" if "i < length ?es" for i
    using ok that by (simp add: config_rows_ok_def list_all_length)
  show ?thesis
  proof (cases "cget key 0 = NUL")
    case True
    then show ?thesis using ok by (simp add: config_set_def)
  next
    case key: False
    show ?thesis
    proof (cases "config_find_index ?es key")
      case (Some i)
      then have "i < length ?es" "cused (?es ! i)" using cfg.find_slot_hit [OF Some] by simp_all
      then show ?thesis
        using Some key ok row config_entry_copied(2) [of "?es ! i" v]
        by (simp add: config_set_def Let_def config_rows_ok_def list_all_update)
    next
      case None
      show ?thesis
      proof (cases "config_find_free_index ?es")
        case (Some i)
        then have "i < length ?es" by (auto simp: config_find_free_index_def first_index_Some_iff)
        then show ?thesis
          using Some None key ok row config_entry_copied(1) [of "?es ! i" key v]
          by (simp add: config_set_def Let_def config_rows_ok_def list_all_update)
      qed (use None key ok in \<open>simp add: config_set_def\<close>)
    qed
  qed
qed

lemma config_defaults_rows: "config_rows_ok (config_reset_defaults c)"
proof -
  have zero: "config_entry_ok zero_config_entry"
    by (simp add: config_entry_ok_def zero_config_entry_def config_consts)
  have "config_rows_ok (c\<lparr>config_entries := store_defaults kvs es\<rparr>)"
    if "list_all (\<lambda>(k, v). cget k 0 \<noteq> NUL) kvs" "config_rows_ok (c\<lparr>config_entries := es\<rparr>)" for kvs es
    using that
  proof (induction kvs es rule: store_defaults.induct)
    case (2 k v kvs es)
    have "config_entry_ok \<lparr>ckey = config_copy_text (ckey (es ! i)) k, cvalue = config_copy_text (cvalue (es ! i)) v, cused = True\<rparr>"
      if "i < length es" for i
    proof -
      have "config_entry_ok (es ! i)" using 2 that by (simp add: config_rows_ok_def list_all_length)
      then show ?thesis using config_entry_copied(1) [of "es ! i" k v] 2 by (cases "es ! i") simp
    qed
    then show ?case using 2 by (auto simp: config_rows_ok_def list_all_update split: option.split)
  qed simp
  moreover have "list_all (\<lambda>(k, v). cget k 0 \<noteq> NUL) config_defaults" by (simp add: config_defaults_def)
  moreover have "config_rows_ok (c\<lparr>config_entries := replicate 16 zero_config_entry\<rparr>)"
    using zero by (simp add: config_rows_ok_def list_all_iff)
  ultimately show ?thesis by (simp add: config_reset_defaults_def config_clear_def Let_def config_consts)
qed

lemma config_load_text_rows: "config_rows_ok c \<Longrightarrow> config_rows_ok (config_load_text t c)"
proof (induction t c rule: config_load_text.induct)
  case (1 t c)
  have line: "config_rows_ok (config_load_line l c)" for l
    using "1.prems" by (simp add: config_load_line_def Let_def config_set_rows)
  show ?case
    using 1 line by (subst config_load_text.simps) (auto split: prod.split)
qed

lemma config_load_rows: "config_load api c w = (Some (r, c'), w') \<Longrightarrow> config_rows_ok c'"
  by (auto simp: config_load_def Let_def config_load_text_rows config_defaults_rows split: prod.splits read_result.splits)

lemma filled_package_row:
  assumes "length (p_name e) = 32" "length (p_version e) = 16" "length (p_source e) = 64"
  shows "package_row_ok (filled_package e nm ver src n)"
proof -
  have "p_name e \<noteq> []" "p_version e \<noteq> []" "p_source e \<noteq> []" using assms by auto
  then show ?thesis
    using assms by (simp add: package_row_ok_def filled_package_def package_copy_text_def terminated_copy_text)
qed

lemma packages_ok_store:
  "packages_ok es \<Longrightarrow> packages_ok (es[i := filled_package (es ! i) nm ver src n])"
  "packages_ok es \<Longrightarrow> packages_ok (es[i := zero_package])"
proof -
  have z: "package_row_ok zero_package" by (simp add: package_row_ok_def zero_package_def PACKAGE_NAME_MAX_def
      PACKAGE_VERSION_MAX_def PACKAGE_FILE_MAX_def)
  have row: "i < 12 \<Longrightarrow> package_row_ok (es ! i)" if "packages_ok es" for i
    using that by (simp add: packages_ok_def list_all_length)
  show "packages_ok es \<Longrightarrow> packages_ok (es[i := filled_package (es ! i) nm ver src n])"
    using row [of i] by (auto simp: packages_ok_def package_row_ok_def intro!: list_all_update filled_package_row)
  show "packages_ok es \<Longrightarrow> packages_ok (es[i := zero_package])"
    using z by (simp add: packages_ok_def list_all_update)
qed

lemma package_ops_rows:
  assumes "packages_ok es"
  shows "package_install api m es w = (Some (r, es'), w') \<Longrightarrow> packages_ok es'"
    and "package_remove api nm es w = ((r, es'), w') \<Longrightarrow> packages_ok es'"
  using assms
  by (auto simp: package_install_def package_remove_def package_record_def Let_def packages_ok_store
      split: if_splits prod.splits option.splits read_result.splits)

lemma dispatch_processes:
  assumes "proc_inv (k_procs k, k_sched k)" "idt_dispatch bus f k = Returned f' k'"
  shows "proc_inv (k_procs k', k_sched k')"
  using assms
  by (auto simp: idt_dispatch_def run_handler_def timer_interrupt_handler_def syscall_dispatch_def Let_def
      proc_tick_preserves split: if_splits option.splits handler.splits prod.splits)

end
