(* ===== verification/ShellProps.thy ===== *)
theory ShellProps
  imports ShellInv
begin

text \<open>
  Every command of the shell keeps the invariants of the kernel's tables, and so
  does the loop, whatever is typed.
\<close>

section \<open>Commands that only report, draw or work on files\<close>

lemma say_each_inv [inv_simps]:
  "(\<And>x s. kernel_inv (f x s) = kernel_inv s) \<Longrightarrow> kernel_inv (say_each f xs s) = kernel_inv s"
  unfolding say_each_def by (induction xs arbitrary: s) simp_all

lemma put_text_inv [inv_simps]: "kernel_inv (put_text r s) = kernel_inv s"
  by (simp add: put_text_def inv_simps split: option.split)

lemma status_inv [inv_simps]:
  "kernel_inv (shell_cmd_help s) = kernel_inv s" "kernel_inv (cmd_version s) = kernel_inv s"
  "kernel_inv (cmd_mem s) = kernel_inv s" "kernel_inv (cmd_vmem s) = kernel_inv s"
  "kernel_inv (cmd_ticks s) = kernel_inv s" "kernel_inv (cmd_sched s) = kernel_inv s"
  "kernel_inv (cmd_ps s) = kernel_inv s" "kernel_inv (shell_cmd_taskmgr s) = kernel_inv s"
  by (simp_all add: shell_cmd_help_def cmd_version_def cmd_mem_def cmd_vmem_def cmd_ticks_def cmd_sched_def
      cmd_ps_def shell_cmd_taskmgr_def Let_def inv_simps split: prod.split)

lemma draw_inv: "kernel_inv s \<Longrightarrow> gui_ok (f (sh_gui s)) \<Longrightarrow> kernel_inv (draw f msg s)"
  by (simp add: draw_def inv_simps kernel_inv_update)

lemma graphics_inv [inv_simps]:
  "kernel_inv (cmd_gfxinfo s) = kernel_inv s" "kernel_inv (cmd_wminfo s) = kernel_inv s"
  "kernel_inv (cmd_meninfo s) = kernel_inv s" "kernel_inv (cmd_dskinfo s) = kernel_inv s"
  "kernel_inv (cmd_iconinfo s) = kernel_inv s" "kernel_inv (cmd_settinfo s) = kernel_inv s"
  "kernel_inv (cmd_fileinfo s) = kernel_inv s" "kernel_inv (cmd_btninfo s) = kernel_inv s"
  by (simp_all add: cmd_gfxinfo_def cmd_wminfo_def cmd_meninfo_def cmd_dskinfo_def cmd_iconinfo_def
      cmd_settinfo_def cmd_fileinfo_def cmd_btninfo_def Let_def inv_simps)

lemma drawing_inv:
  assumes "kernel_inv s"
  shows "kernel_inv (cmd_gfxdemo s)" "kernel_inv (cmd_wmdemo s)" "kernel_inv (cmd_mendemo s)"
    "kernel_inv (cmd_dskdemo s)" "kernel_inv (cmd_icondemo s)" "kernel_inv (cmd_settings s)"
    "kernel_inv (cmd_settdemo s)" "kernel_inv (cmd_files s)" "kernel_inv (cmd_filedemo s)" "kernel_inv (cmd_btndemo s)"
proof -
  note g = kernel_invD(8) [OF assms]
  show "kernel_inv (cmd_gfxdemo s)" "kernel_inv (cmd_wmdemo s)" "kernel_inv (cmd_mendemo s)"
    "kernel_inv (cmd_dskdemo s)" "kernel_inv (cmd_icondemo s)" "kernel_inv (cmd_settings s)"
    "kernel_inv (cmd_settdemo s)" "kernel_inv (cmd_files s)" "kernel_inv (cmd_filedemo s)" "kernel_inv (cmd_btndemo s)"
    unfolding cmd_gfxdemo_def cmd_wmdemo_def cmd_mendemo_def cmd_dskdemo_def cmd_icondemo_def cmd_settings_def
      cmd_settdemo_def cmd_files_def cmd_filedemo_def cmd_btndemo_def
    by (rule draw_inv [OF assms], rule gui_repainted [OF repainted_pattern g] wm_demo_gui [OF g] menu_demo_gui [OF g]
        desktop_render_gui [OF g] gui_repainted [OF repainted_icons_render g] settings_render_gui [OF g]
        files_gui(2) [OF g] btn_demo_gui [OF g])+
qed

lemma device_inv [inv_simps]:
  "kernel_inv (cmd_ethinfo s) = kernel_inv s" "kernel_inv (cmd_arp s) = kernel_inv s"
  "kernel_inv (cmd_route s) = kernel_inv s"
  "kernel_inv (cmd_udpinfo s) = kernel_inv s" "kernel_inv (cmd_mouse s) = kernel_inv s"
  "kernel_inv (cmd_disk s) = kernel_inv s" "kernel_inv (cmd_disktest mc s) = kernel_inv s"
  "kernel_inv (cmd_calc line s) = kernel_inv s"
  by (simp_all add: cmd_ethinfo_def cmd_arp_def cmd_route_def cmd_udpinfo_def cmd_mouse_def
      cmd_disk_def cmd_disktest_def cmd_calc_def calc_get_help_def Let_def inv_simps
      split: option.split prod.split cres.split)

lemma ping_inv: "kernel_inv s \<Longrightarrow> kernel_inv (cmd_ping_line line s)"
  using kernel_invD(9) [of s]
  by (auto simp: cmd_ping_line_def inv_simps dest: cmd_ping_ok intro!: kernel_inv_update split: option.split)

lemma files_inv [inv_simps]:
  "kernel_inv (cmd_fs s) = kernel_inv s" "kernel_inv (cmd_ls s) = kernel_inv s"
  "kernel_inv (cmd_cat mc line s) = kernel_inv s" "kernel_inv (cmd_writefs mc line s) = kernel_inv s"
  "kernel_inv (cmd_rmfs mc line s) = kernel_inv s" "kernel_inv (cmd_edit mc line s) = kernel_inv s"
  "kernel_inv (cmd_browse mc line s) = kernel_inv s"
  by (simp_all add: cmd_fs_def cmd_ls_def cmd_cat_def cmd_writefs_def cmd_rmfs_def cmd_edit_def cmd_browse_def
      Let_def inv_simps split: prod.split read_result.split)

lemma listings_inv [inv_simps]:
  "kernel_inv (cmd_config s) = kernel_inv s" "kernel_inv (cmd_get line s) = kernel_inv s"
  "kernel_inv (cmd_savecfg mc s) = kernel_inv s" "kernel_inv (cmd_pkg s) = kernel_inv s"
  "kernel_inv (cmd_pkginfo line s) = kernel_inv s" "kernel_inv (cmd_svc s) = kernel_inv s"
  "kernel_inv (cmd_svcinfo line s) = kernel_inv s" "kernel_inv (cmd_users s) = kernel_inv s"
  "kernel_inv (cmd_whoami s) = kernel_inv s" "kernel_inv (cmd_auth s) = kernel_inv s"
  "kernel_inv (cmd_log s) = kernel_inv s" "kernel_inv (cmd_history s) = kernel_inv s"
  "kernel_inv (cmd_echo line s) = kernel_inv s" "kernel_inv (cmd_halt s) = kernel_inv s"
  "kernel_inv (cmd_unknown line s) = kernel_inv s"
  by (simp_all add: cmd_config_def cmd_get_def cmd_savecfg_def cmd_pkg_def cmd_pkginfo_def cmd_svc_def
      cmd_svcinfo_def cmd_users_def cmd_whoami_def cmd_auth_def cmd_log_def cmd_history_def cmd_echo_def
      cmd_halt_def cmd_unknown_def Let_def inv_simps split: prod.split option.split)

lemma cmd_userdemo_inv [inv_simps]: "kernel_inv (cmd_userdemo s) = kernel_inv s"
  by (simp add: cmd_userdemo_def userspace_run_demo_def userspace_enter_def Let_def inv_simps split: prod.split)

section \<open>Commands that change a table\<close>

lemma cmd_spawn_inv: "kernel_inv s \<Longrightarrow> kernel_inv (cmd_spawn s)"
  using create_preserves [of "k_procs (sh_kernel s)" "k_sched (sh_kernel s)" "Some ''demo-kernel-task''" 5 "tick_now s"]
  by (auto simp: cmd_spawn_def Let_def inv_simps kernel_invD intro!: kernel_inv_update split: prod.split)

lemma raise_syscall_inv:
  assumes "kernel_inv s"
  shows "kernel_inv (snd (raise_syscall mc rax rdi s))"
proof (cases "idt_dispatch (mc_bus mc) \<lparr>f_rax = rax, f_rdi = rdi, f_vector = 128, f_error_code = 0\<rparr>
      ((sh_kernel s)\<lparr>k_console := []\<rparr>)")
  case (Returned f k)
  then have "proc_inv (k_procs k, k_sched k)"
    using dispatch_processes [OF _ Returned] kernel_invD(4) [OF assms] by simp
  then show ?thesis using Returned assms by (simp add: raise_syscall_def inv_simps kernel_inv_update)
qed (simp_all add: raise_syscall_def inv_simps assms)

lemma cmd_syscall_inv: "kernel_inv s \<Longrightarrow> kernel_inv (cmd_syscall mc s)"
proof -
  have go: "kernel_inv (proceed f s)" if "kernel_inv s" "\<And>s. kernel_inv s \<Longrightarrow> kernel_inv (f s)" for f s
    using that by (simp add: proceed_def)
  assume "kernel_inv s"
  then show ?thesis
    unfolding cmd_syscall_def syscall_write_def syscall_get_pid_def syscall_get_ticks_def
      syscall_get_process_count_def syscall_yield_def Let_def case_prod_beta fst_conv snd_conv
    by (intro go) (simp_all add: raise_syscall_inv inv_simps)
qed

lemma config_commands_inv:
  assumes "kernel_inv s"
  shows "kernel_inv (cmd_set line s)" "kernel_inv (cmd_loadcfg mc s)" "kernel_inv (cmd_loglevel line s)"
proof -
  have set: "config_rows_ok c" if "config_set key v (sh_config s) = (r, c)" for key v r c
    using that config_set_rows [OF kernel_invD(5) [OF assms], of key v] by simp
  then show "kernel_inv (cmd_set line s)"
    using assms by (auto simp: cmd_set_def Let_def inv_simps intro!: kernel_inv_update split: prod.split)
  have lv: "log_inv (apply_loglevel c l) = log_inv l" for c l
    by (simp add: apply_loglevel_def inv_simps split: prod.split option.split)
  have "kernel_inv (s\<lparr>t_world := w, sh_config := c\<rparr>)" if "config_rows_ok c" for w c
    using that assms by (intro kernel_inv_update) (simp_all add: inv_simps)
  moreover from this
  have "kernel_inv (s\<lparr>t_world := w, sh_config := c, sh_log := apply_loglevel c (sh_log s)\<rparr>)" if "config_rows_ok c" for w c
    using that assms by (intro kernel_inv_update) (simp_all add: lv inv_simps kernel_invD)
  ultimately show "kernel_inv (cmd_loadcfg mc s)"
    using assms config_load_rows [of "files_of mc" "sh_config s" "t_world s"]
    by (auto simp: cmd_loadcfg_def Let_def inv_simps split: prod.split option.split)
  have "kernel_inv (s\<lparr>sh_log := log_set_minimum_level level (sh_log s),
      sh_config := snd (config_set key v (sh_config s))\<rparr>)" for level key v
    using assms config_set_rows [OF kernel_invD(5) [OF assms]]
    by (intro kernel_inv_update) (simp_all add: kernel_inv_update inv_simps kernel_invD)
  then show "kernel_inv (cmd_loglevel line s)"
    using assms by (auto simp: cmd_loglevel_def Let_def inv_simps split: option.split prod.split)
qed

lemma package_commands_inv:
  assumes "kernel_inv s"
  shows "kernel_inv (cmd_install mc line s)" "kernel_inv (cmd_remove mc line s)"
proof -
  have up: "kernel_inv (s\<lparr>t_world := w, sh_packages := es\<rparr>)" if "packages_ok es" for w es
    using that assms by (intro kernel_inv_update) (simp_all add: inv_simps)
  note ops = package_ops_rows [OF kernel_invD(6) [OF assms]]
  show "kernel_inv (cmd_install mc line s)"
    using assms by (auto simp: cmd_install_def Let_def inv_simps intro!: up dest: ops(1) split: prod.split option.split)
  show "kernel_inv (cmd_remove mc line s)"
    using assms by (auto simp: cmd_remove_def Let_def inv_simps intro!: up dest: ops(2) split: prod.split)
qed

lemma service_action_inv:
  assumes "kernel_inv s"
    and act: "\<And>l r es l'. log_inv l \<Longrightarrow> act name (sh_services s, l) = (r, es, l') \<Longrightarrow> svc_ok es \<and> log_inv l'"
  shows "kernel_inv (service_action act u a b name s)"
proof -
  obtain r es l where r: "act name (sh_services s, (sh_log s)\<lparr>log_console := []\<rparr>) = (r, es, l)"
    by (metis prod_cases3)
  have "svc_ok es \<and> log_inv l" using act [OF _ r] kernel_invD(3) [OF assms(1)] by (simp add: inv_simps)
  then have "kernel_inv (s\<lparr>sh_log := l, sh_services := es\<rparr>)"
    using assms(1) by (intro kernel_inv_update) simp_all
  then have "kernel_inv ((emit ev (s\<lparr>sh_log := l\<rparr>))\<lparr>sh_services := es\<rparr>)" for ev by (simp add: emit_def inv_simps kernel_inv_def history_ok_def)
  then show ?thesis using r assms(1) by (simp add: service_action_def with_log_def inv_simps)
qed

lemma service_switch_inv:
  assumes "kernel_inv s" "svc_ok (snd (act name (sh_services s)))"
  shows "kernel_inv (service_switch act u a b name s)"
  using assms by (auto simp: service_switch_def inv_simps intro!: kernel_inv_update split: prod.split)

lemma service_commands_inv:
  assumes "kernel_inv s"
  shows "kernel_inv (cmd_start line s)" "kernel_inv (cmd_stop line s)" "kernel_inv (cmd_restart line s)"
    "kernel_inv (cmd_enable line s)" "kernel_inv (cmd_disable line s)"
  unfolding cmd_start_def cmd_stop_def cmd_restart_def cmd_enable_def cmd_disable_def
  using service_ops_inv [OF kernel_invD(2) [OF assms]] service_flags_inv [OF kernel_invD(2) [OF assms]] assms
  by (blast intro: service_action_inv service_switch_inv)+

lemma with_password_inv:
  assumes "kernel_inv s" "\<And>n p. user_inv (snd (act n p (sh_users s)))"
  shows "kernel_inv (with_password act u a b rest s)"
proof -
  have "user_inv db" if "act n p (sh_users s) = (r, db)" for n p r db using assms(2) [of n p] that by simp
  then show ?thesis
    using assms(1) by (auto simp: with_password_def Let_def inv_simps intro!: kernel_inv_update split: prod.split)
qed

lemma on_user_inv:
  assumes "kernel_inv s" "user_inv (snd (act name (sh_users s)))"
  shows "kernel_inv (on_user act u a b name s)"
  using assms by (auto simp: on_user_def inv_simps intro!: kernel_inv_update split: prod.split)

lemma user_commands_inv:
  assumes inv: "kernel_inv s"
  shows "kernel_inv (cmd_login line s)" "kernel_inv (cmd_passwd line s)" "kernel_inv (cmd_logout s)"
    "kernel_inv (cmd_su line s)" "kernel_inv (cmd_deluser line s)" "kernel_inv (cmd_adduser line s)"
proof -
  note u = kernel_invD(1) [OF inv]
  show "kernel_inv (cmd_login line s)"
    using user_login_inv [OF u] inv by (auto simp: cmd_login_def intro: with_password_inv)
  show "kernel_inv (cmd_passwd line s)"
    using user_do_inv [OF u, of "SetPassword n p" for n p] inv by (auto simp: cmd_passwd_def intro: with_password_inv)
  show "kernel_inv (cmd_logout s)"
    using user_do_inv [OF u, of Logout] inv by (simp add: cmd_logout_def inv_simps kernel_inv_update)
  show "kernel_inv (cmd_su line s)"
    using user_do_inv [OF u, of "user_op.SetActive n" for n] inv by (auto simp: cmd_su_def intro: on_user_inv)
  show "kernel_inv (cmd_deluser line s)"
    using user_do_inv [OF u, of "DisableUser n" for n] inv by (auto simp: cmd_deluser_def intro: on_user_inv)
  have "kernel_inv (s\<lparr>sh_users := snd (user_add n f r (sh_users s))\<rparr>)" for n f r
    using user_add_inv [OF u] inv by (intro kernel_inv_update)
  then show "kernel_inv (cmd_adduser line s)"
    using inv unfolding cmd_adduser_def Let_def case_prod_beta
    by (simp add: inv_simps if_distrib [of kernel_inv] split: option.split)
qed

lemma history_commands_inv:
  assumes "kernel_inv s"
  shows "kernel_inv (shell_history_add line s)" "kernel_inv (cmd_clearhist s)"
proof -
  have "list_all (\<lambda>row. length row = 128) (sh_history s)" "length (sh_history s) = 16" "sh_history_next s < 16"
    using assms by (simp_all add: kernel_inv_def history_ok_def)
  then have "list_all (\<lambda>row. length row = 128)
      ((sh_history s)[sh_history_next s := copy_text (sh_history s ! sh_history_next s) line])"
    by (intro list_all_update) (auto simp: list_all_length)
  then show "kernel_inv (shell_history_add line s)"
    using assms by (simp add: shell_history_add_def history_store_def kernel_inv_def history_ok_def shell_consts)
  show "kernel_inv (cmd_clearhist s)"
    using assms by (simp add: cmd_clearhist_def inv_simps)
      (simp add: kernel_inv_def shell_history_clear_def history_ok_def shell_consts list_all_length)
qed

section \<open>Sessions\<close>

text \<open>
  A property of the kernel's state that every command of the table keeps, that
  does not depend on the terminal, and that remembering a line keeps.  It then
  holds after every line and after every session.
\<close>

locale command_invariant =
  fixes mc :: "('d, 'e) machine" and I :: "('d, 'e) shell \<Rightarrow> bool"
  assumes commands_keep: "list_all (\<lambda>(t, act). \<forall>line s. I s \<longrightarrow> I (act line s)) (shell_commands mc)"
    and terminal_keeps: "terminal.more s' = terminal.more s \<Longrightarrow> I s \<Longrightarrow> I s'"
    and history_keeps: "I s \<Longrightarrow> I (shell_history_add line s)"
begin

lemma say_keeps: "I s \<Longrightarrow> I (say fmt args s)"
  by (rule terminal_keeps [of _ s]) (simp_all add: more_simps)

lemma dispatch_keeps: "I s \<Longrightarrow> I (shell_dispatch mc line s)"
proof -
  assume I: "I s"
  obtain act where "\<forall>line s. I s \<longrightarrow> I (act line s)" "shell_dispatch mc line s = act line s"
    by (rule dispatch_all [of "\<lambda>act. \<forall>line s. I s \<longrightarrow> I (act line s)" mc, OF commands_keep])
       (auto simp: cmd_unknown_def intro: say_keeps)
  then show ?thesis using I by simp
qed

lemma execute_keeps: "I s \<Longrightarrow> I (shell_execute mc line s)"
proof -
  have *: "I (proceed (\<lambda>s. if b then shell_history_add e s else s) (shell_dispatch mc run s1))"
    if "I s1" for b e run s1
    using dispatch_keeps [OF that, of run] by (simp add: proceed_def history_keeps)
  then show "I s \<Longrightarrow> I (shell_execute mc line s)"
    by (auto simp: shell_execute_def Let_def intro!: * say_keeps split: sum.split)
qed

lemma prompt_keeps:
  assumes "I s" "shell_readline (shell_print_prompt s) = (l, s')"
  shows "I s'"
proof -
  have "terminal.more (shell_print_prompt s) = terminal.more s"
    by (simp add: shell_print_prompt_def Let_def more_simps split: prod.split)
  then have "terminal.more s' = terminal.more s"
    using more_read_line [OF assms(2) [unfolded shell_readline_def]] by simp
  then show ?thesis using assms(1) by (rule terminal_keeps)
qed

lemma loop_keeps: "I s \<Longrightarrow> I (shell_loop mc s)"
proof -
  have "m = mc \<Longrightarrow> I s \<Longrightarrow> I (shell_loop m s)" for m
  proof (induction m s rule: shell_loop.induct)
    case (1 m s)
    obtain l s' where r: "shell_readline (shell_print_prompt s) = (l, s')" by fastforce
    then have "I (shell_execute mc line s')" for line
      using "1.prems"(2) by (blast intro: execute_keeps prompt_keeps)
    then show ?case
      using 1 r prompt_keeps [OF _ r] by (subst shell_loop.simps) (auto split: option.split)
  qed
  then show "I s \<Longrightarrow> I (shell_loop mc s)" by simp
qed

lemma run_keeps: "I s \<Longrightarrow> I (shell_run mc s)"
  by (simp add: shell_run_def loop_keeps say_keeps)

end

lemma commands_inv:
  "list_all (\<lambda>(t, act). \<forall>line s. kernel_inv s \<longrightarrow> kernel_inv (act line s)) (shell_commands mc)"
  unfolding shell_commands_def
  by (simp add: inv_simps drawing_inv ping_inv cmd_spawn_inv cmd_syscall_inv config_commands_inv package_commands_inv
      service_commands_inv user_commands_inv history_commands_inv)

interpretation keeps: command_invariant mc kernel_inv for mc
proof unfold_locales
  show "list_all (\<lambda>(t, act). \<forall>line s. kernel_inv s \<longrightarrow> kernel_inv (act line s)) (shell_commands mc)"
    by (rule commands_inv)
  show "kernel_inv s'" if "terminal.more s' = terminal.more s" "kernel_inv s" for s s' :: "('a, 'b) shell"
    using kernel_inv_more [OF that(1)] that(2) by (rule iffD2)
qed (rule history_commands_inv)

end
