(* ===== verification/ShellFixed.thy ===== *)
theory ShellFixed
  imports ShellProps
begin

text \<open>
  The tables that the boot fixes and no command of the shell changes: the page
  tables, the heap, the interrupt descriptors and their handlers.
\<close>

definition fixed_tables :: "('d, 'e) shell \<Rightarrow> vmm \<times> heap \<times> idt_entry list \<times> handler option list" where
  "fixed_tables s = (sh_vmm s, sh_heap s, k_idt (sh_kernel s), k_handlers (sh_kernel s))"

named_theorems fixed_simps

lemma fixed_more: "terminal.more s' = terminal.more s \<Longrightarrow> fixed_tables s' = fixed_tables s"
  for s s' :: "('d, 'e) shell"
  by (cases s; cases s') (simp add: fixed_tables_def)

lemma fixed_terminal [fixed_simps]:
  fixes s :: "('d, 'e) shell"
  shows "fixed_tables (emit ev s) = fixed_tables s" "fixed_tables (stop st s) = fixed_tables s"
    "fixed_tables (kio_set_color a b s) = fixed_tables s" "fixed_tables (say fmt args s) = fixed_tables s"
    "fixed_tables (say_lines fmts s) = fixed_tables s" "fixed_tables (editor_run api path s) = fixed_tables s"
    "fixed_tables (browser_run dev p s) = fixed_tables s" "fixed_tables (s\<lparr>t_world := w\<rparr>) = fixed_tables s"
  by (rule fixed_more, simp add: more_simps)+

lemma fixed_update [fixed_simps]:
  fixes s :: "('d, 'e) shell"
  shows "fixed_tables (s\<lparr>sh_users := db\<rparr>) = fixed_tables s" "fixed_tables (s\<lparr>sh_services := ss\<rparr>) = fixed_tables s"
    "fixed_tables (s\<lparr>sh_log := l\<rparr>) = fixed_tables s" "fixed_tables (s\<lparr>sh_config := c\<rparr>) = fixed_tables s"
    "fixed_tables (s\<lparr>sh_packages := es\<rparr>) = fixed_tables s" "fixed_tables (s\<lparr>sh_gui := g\<rparr>) = fixed_tables s"
    "fixed_tables (s\<lparr>sh_net := n\<rparr>) = fixed_tables s" "fixed_tables (s\<lparr>sh_user_space := u\<rparr>) = fixed_tables s"
    "k_idt k = k_idt (sh_kernel s) \<Longrightarrow> k_handlers k = k_handlers (sh_kernel s) \<Longrightarrow>
       fixed_tables (s\<lparr>sh_kernel := k\<rparr>) = fixed_tables s"
    "fixed_tables (shell_history_add line s) = fixed_tables s" "fixed_tables (shell_history_clear s) = fixed_tables s"
  by (simp_all add: fixed_tables_def shell_history_add_def shell_history_clear_def history_store_def)

section \<open>The commands\<close>

lemma fixed_say_each [fixed_simps]:
  "(\<And>x s. fixed_tables (f x s) = fixed_tables s) \<Longrightarrow> fixed_tables (say_each f xs s) = fixed_tables s"
  unfolding say_each_def by (induction xs arbitrary: s) simp_all

lemma fixed_helpers [fixed_simps]:
  "fixed_tables (put_text r s) = fixed_tables s" "fixed_tables (draw f msg s) = fixed_tables s"
  "fixed_tables (service_action act u a b name s) = fixed_tables s"
  "fixed_tables (service_switch act2 u a b name s) = fixed_tables s"
  "fixed_tables (with_password act3 u a b rest s) = fixed_tables s"
  "fixed_tables (on_user act4 u a b name s) = fixed_tables s"
  by (simp_all add: put_text_def draw_def service_action_def service_switch_def with_password_def on_user_def
      with_log_def Let_def fixed_simps split: option.split prod.split)

lemma fixed_status:
  "fixed_tables (shell_cmd_help s) = fixed_tables s" "fixed_tables (cmd_version s) = fixed_tables s"
  "fixed_tables (cmd_mem s) = fixed_tables s" "fixed_tables (cmd_vmem s) = fixed_tables s"
  "fixed_tables (cmd_ticks s) = fixed_tables s" "fixed_tables (cmd_sched s) = fixed_tables s"
  "fixed_tables (cmd_ps s) = fixed_tables s" "fixed_tables (shell_cmd_taskmgr s) = fixed_tables s"
  "fixed_tables (cmd_userdemo s) = fixed_tables s"
  by (simp_all add: shell_cmd_help_def cmd_version_def cmd_mem_def cmd_vmem_def cmd_ticks_def cmd_sched_def
      cmd_ps_def shell_cmd_taskmgr_def cmd_userdemo_def userspace_run_demo_def userspace_enter_def
      Let_def fixed_simps split: prod.split)

lemma fixed_graphics:
  "fixed_tables (cmd_gfxinfo s) = fixed_tables s" "fixed_tables (cmd_gfxdemo s) = fixed_tables s"
  "fixed_tables (cmd_wminfo s) = fixed_tables s" "fixed_tables (cmd_wmdemo s) = fixed_tables s"
  "fixed_tables (cmd_meninfo s) = fixed_tables s" "fixed_tables (cmd_mendemo s) = fixed_tables s"
  "fixed_tables (cmd_dskinfo s) = fixed_tables s" "fixed_tables (cmd_dskdemo s) = fixed_tables s"
  "fixed_tables (cmd_iconinfo s) = fixed_tables s" "fixed_tables (cmd_icondemo s) = fixed_tables s"
  "fixed_tables (cmd_settings s) = fixed_tables s" "fixed_tables (cmd_settinfo s) = fixed_tables s"
  "fixed_tables (cmd_settdemo s) = fixed_tables s" "fixed_tables (cmd_files s) = fixed_tables s"
  "fixed_tables (cmd_fileinfo s) = fixed_tables s" "fixed_tables (cmd_filedemo s) = fixed_tables s"
  "fixed_tables (cmd_btninfo s) = fixed_tables s" "fixed_tables (cmd_btndemo s) = fixed_tables s"
  by (simp_all add: cmd_gfxinfo_def cmd_gfxdemo_def cmd_wminfo_def cmd_wmdemo_def cmd_meninfo_def cmd_mendemo_def
      cmd_dskinfo_def cmd_dskdemo_def cmd_iconinfo_def cmd_icondemo_def cmd_settings_def cmd_settinfo_def
      cmd_settdemo_def cmd_files_def cmd_fileinfo_def cmd_filedemo_def cmd_btninfo_def cmd_btndemo_def
      Let_def fixed_simps)

lemma fixed_devices:
  "fixed_tables (cmd_ethinfo s) = fixed_tables s" "fixed_tables (cmd_arp s) = fixed_tables s"
  "fixed_tables (cmd_route s) = fixed_tables s" "fixed_tables (cmd_ping_line line s) = fixed_tables s"
  "fixed_tables (cmd_udpinfo s) = fixed_tables s" "fixed_tables (cmd_mouse s) = fixed_tables s"
  "fixed_tables (cmd_disk s) = fixed_tables s" "fixed_tables (cmd_disktest mc s) = fixed_tables s"
  "fixed_tables (cmd_calc line s) = fixed_tables s"
  by (simp_all add: cmd_ethinfo_def cmd_arp_def cmd_route_def cmd_ping_line_def cmd_udpinfo_def cmd_mouse_def
      cmd_disk_def cmd_disktest_def cmd_calc_def calc_get_help_def Let_def fixed_simps
      split: option.split prod.split cres.split)

lemma fixed_files:
  "fixed_tables (cmd_fs s) = fixed_tables s" "fixed_tables (cmd_ls s) = fixed_tables s"
  "fixed_tables (cmd_cat mc line s) = fixed_tables s" "fixed_tables (cmd_writefs mc line s) = fixed_tables s"
  "fixed_tables (cmd_rmfs mc line s) = fixed_tables s" "fixed_tables (cmd_edit mc line s) = fixed_tables s"
  "fixed_tables (cmd_browse mc line s) = fixed_tables s"
  by (simp_all add: cmd_fs_def cmd_ls_def cmd_cat_def cmd_writefs_def cmd_rmfs_def cmd_edit_def cmd_browse_def
      Let_def fixed_simps split: prod.split read_result.split)

lemma fixed_listings:
  "fixed_tables (cmd_config s) = fixed_tables s" "fixed_tables (cmd_get line s) = fixed_tables s"
  "fixed_tables (cmd_savecfg mc s) = fixed_tables s" "fixed_tables (cmd_pkg s) = fixed_tables s"
  "fixed_tables (cmd_pkginfo line s) = fixed_tables s" "fixed_tables (cmd_svc s) = fixed_tables s"
  "fixed_tables (cmd_svcinfo line s) = fixed_tables s" "fixed_tables (cmd_users s) = fixed_tables s"
  "fixed_tables (cmd_whoami s) = fixed_tables s" "fixed_tables (cmd_auth s) = fixed_tables s"
  "fixed_tables (cmd_log s) = fixed_tables s" "fixed_tables (cmd_history s) = fixed_tables s"
  "fixed_tables (cmd_echo line s) = fixed_tables s" "fixed_tables (cmd_halt s) = fixed_tables s"
  "fixed_tables (cmd_unknown line s) = fixed_tables s" "fixed_tables (cmd_clearhist s) = fixed_tables s"
  by (simp_all add: cmd_config_def cmd_get_def cmd_savecfg_def cmd_pkg_def cmd_pkginfo_def cmd_svc_def
      cmd_svcinfo_def cmd_users_def cmd_whoami_def cmd_auth_def cmd_log_def cmd_history_def cmd_echo_def
      cmd_halt_def cmd_unknown_def cmd_clearhist_def Let_def fixed_simps split: prod.split option.split)

lemma fixed_settings:
  "fixed_tables (cmd_set line s) = fixed_tables s" "fixed_tables (cmd_loadcfg mc s) = fixed_tables s"
  "fixed_tables (cmd_loglevel line s) = fixed_tables s"
  "fixed_tables (cmd_install mc line s) = fixed_tables s" "fixed_tables (cmd_remove mc line s) = fixed_tables s"
  by (simp_all add: cmd_set_def cmd_loadcfg_def cmd_loglevel_def cmd_install_def cmd_remove_def
      Let_def fixed_simps split: option.split prod.split)

lemma fixed_accounts:
  "fixed_tables (cmd_start line s) = fixed_tables s" "fixed_tables (cmd_stop line s) = fixed_tables s"
  "fixed_tables (cmd_restart line s) = fixed_tables s" "fixed_tables (cmd_enable line s) = fixed_tables s"
  "fixed_tables (cmd_disable line s) = fixed_tables s"
  "fixed_tables (cmd_login line s) = fixed_tables s" "fixed_tables (cmd_passwd line s) = fixed_tables s"
  "fixed_tables (cmd_logout s) = fixed_tables s" "fixed_tables (cmd_su line s) = fixed_tables s"
  "fixed_tables (cmd_deluser line s) = fixed_tables s" "fixed_tables (cmd_spawn s) = fixed_tables s"
  by (simp_all add: cmd_start_def cmd_stop_def cmd_restart_def cmd_enable_def cmd_disable_def cmd_login_def
      cmd_passwd_def cmd_logout_def cmd_su_def cmd_deluser_def cmd_spawn_def Let_def fixed_simps
      split: option.split prod.split)

lemma fixed_adduser: "fixed_tables (cmd_adduser line s) = fixed_tables s"
  unfolding cmd_adduser_def Let_def case_prod_beta
  by (simp add: fixed_simps if_distrib [of fixed_tables] split: option.split)

text \<open>A system call runs a handler, and no handler touches the descriptors.\<close>

lemma dispatch_vectors:
  "idt_dispatch bus f k = Returned f' k' \<Longrightarrow> k_idt k' = k_idt k \<and> k_handlers k' = k_handlers k"
  by (auto simp: idt_dispatch_def run_handler_def timer_interrupt_handler_def syscall_dispatch_def Let_def
      split: if_splits option.splits handler.splits prod.splits)

lemma fixed_syscall: "fixed_tables (snd (raise_syscall mc rax rdi s)) = fixed_tables s"
  by (cases "idt_dispatch (mc_bus mc) \<lparr>f_rax = rax, f_rdi = rdi, f_vector = 128, f_error_code = 0\<rparr>
        ((sh_kernel s)\<lparr>k_console := []\<rparr>)")
     (auto simp: raise_syscall_def fixed_simps dest: dispatch_vectors)

lemma fixed_syscalls: "fixed_tables (cmd_syscall mc s) = fixed_tables s"
proof -
  have go: "fixed_tables (proceed f s) = t" if "fixed_tables s = t" "\<And>s. fixed_tables s = t \<Longrightarrow> fixed_tables (f s) = t" for f s t
    using that by (simp add: proceed_def)
  show ?thesis
    unfolding cmd_syscall_def syscall_write_def syscall_get_pid_def syscall_get_ticks_def
      syscall_get_process_count_def syscall_yield_def Let_def case_prod_beta fst_conv snd_conv
    by (intro go) (simp_all add: fixed_syscall fixed_simps)
qed

interpretation fixed: command_invariant mc "\<lambda>s. fixed_tables s = t" for mc t
proof unfold_locales
  show "list_all (\<lambda>(w, act). \<forall>line s. fixed_tables s = t \<longrightarrow> fixed_tables (act line s) = t) (shell_commands mc)"
    unfolding shell_commands_def
    by (simp add: fixed_status fixed_graphics fixed_devices fixed_files fixed_listings fixed_settings fixed_accounts
        fixed_adduser fixed_syscalls fixed_simps)
  show "fixed_tables s' = t" if "terminal.more s' = terminal.more s" "fixed_tables s = t" for s s' :: "('a, 'b) shell"
    using fixed_more [OF that(1)] that(2) by simp
qed (simp add: fixed_simps)

end
