(* ===== verification/Paper.thy ===== *)
theory Paper
  imports Console Vga
begin

text \<open>
  What the text display shows, against a reference that does not scroll: a roll
  of paper of which the screen is the last 25 rows.  Every console event keeps the
  display memory and the cursor in step with the roll.
\<close>

section \<open>The screen as a roll of paper\<close>

text \<open>
  The reference for the display never moves a cell: rows are written on a roll
  that grows by a blank row when the cursor leaves its last one, and the screen
  shows the last 25 rows.  A cell is a character with its colours.
\<close>

record paper =
  pp_rows :: "(char \<times> u8) list list"
  pp_row :: nat
  pp_col :: nat
  pp_color :: u8

definition blank_row :: "u8 \<Rightarrow> (char \<times> u8) list" where
  "blank_row color = replicate 80 (CHR '' '', color)"

definition fresh_paper :: "u8 \<Rightarrow> paper" where
  "fresh_paper color = \<lparr>pp_rows = replicate 25 (blank_row color), pp_row = 0, pp_col = 0, pp_color = color\<rparr>"

definition paper_line :: "paper \<Rightarrow> paper" where
  "paper_line p = p\<lparr>pp_col := 0, pp_row := pp_row p + 1,
     pp_rows := (if pp_row p + 1 = length (pp_rows p) then pp_rows p @ [blank_row (pp_color p)] else pp_rows p)\<rparr>"

definition paper_write :: "char \<Rightarrow> paper \<Rightarrow> paper" where
  "paper_write c p = p\<lparr>pp_rows := (pp_rows p)[pp_row p := (pp_rows p ! pp_row p)[pp_col p := (c, pp_color p)]]\<rparr>"

definition paper_put :: "char \<Rightarrow> paper \<Rightarrow> paper" where
  "paper_put c p =
     (if c = CHR 0x0A then paper_line p
      else if c = CHR 0x0D then p\<lparr>pp_col := 0\<rparr>
      else if c = CHR 0x08 then
        (if pp_col p = 0 then p else paper_write CHR '' '' (p\<lparr>pp_col := pp_col p - 1\<rparr>))
      else if pp_col p = 79 then paper_line (paper_write c p)
      else (paper_write c p)\<lparr>pp_col := pp_col p + 1\<rparr>)"

fun paper_event :: "con_event \<Rightarrow> paper \<Rightarrow> paper" where
  "paper_event (Put str) p = fold paper_put str p"
| "paper_event Clear_screen p = fresh_paper (pp_color p)"
| "paper_event (Set_color fg bg) p = p\<lparr>pp_color := of_nat (bg * 16 + fg mod 16)\<rparr>"

text \<open>The roll after a session that began with the default colours, grey on black.\<close>

definition paper_of :: "con_event list \<Rightarrow> paper" where
  "paper_of evs = fold paper_event evs (fresh_paper 7)"

definition window_start :: "paper \<Rightarrow> nat" where
  "window_start p = length (pp_rows p) - 25"

definition paper_window :: "paper \<Rightarrow> (char \<times> u8) list" where
  "paper_window p = concat (drop (window_start p) (pp_rows p))"

text \<open>A cell of the display memory: the character in the low byte (\<open>char_of\<close> reads it), the colours in the high one.\<close>

definition shown :: "u16 \<Rightarrow> char \<times> u8" where
  "shown w = (char_of (unat w), ucast (drop_bit 8 w))"

lemma shown_cell: "shown (vga_make_cell c a) = (c, a)"
proof -
  have w: "bit (of_char c :: u16) n \<longleftrightarrow> n < 8 \<and> bit (of_char c :: nat) n" for n
    unfolding of_char_def bit_horner_sum_bit_word_iff bit_horner_sum_bit_iff by auto
  have "bit (unat (vga_make_cell c a)) k = bit (of_char c :: nat) k" if "k < 8" for k
    using that w [of k] by (simp add: vga_make_cell_def bit_simps)
  then have "char_of (unat (vga_make_cell c a)) = char_of (of_char c :: nat)"
    by (simp only: char_of_def)
  moreover have "ucast (drop_bit 8 (vga_make_cell c a)) = a"
    by (intro bit_word_eqI) (auto simp: vga_make_cell_def bit_simps w)
  ultimately show ?thesis by (simp add: shown_def)
qed

definition paper_ok :: "paper \<Rightarrow> bool" where
  "paper_ok p \<longleftrightarrow> 25 \<le> length (pp_rows p) \<and> list_all (\<lambda>r. length r = 80) (pp_rows p) \<and>
     window_start p \<le> pp_row p \<and> pp_row p < length (pp_rows p) \<and> pp_col p < 80"

text \<open>The display shows the roll.\<close>

definition displays :: "vga \<Rightarrow> paper \<Rightarrow> bool" where
  "displays v p \<longleftrightarrow> map shown (vga_buffer v) = paper_window p \<and>
     vga_cursor_row v = int (pp_row p - window_start p) \<and> vga_cursor_col v = int (pp_col p) \<and>
     vga_current_color v = pp_color p"

lemma concat_row_update:
  "\<forall>r \<in> set rows. length r = 80 \<Longrightarrow> i < length rows \<Longrightarrow> j < 80 \<Longrightarrow>
   concat (rows[i := (rows ! i)[j := x]]) = (concat rows)[i * 80 + j := x]"
proof (induction rows arbitrary: i)
  case (Cons r rows)
  then show ?case by (cases i) (simp_all add: list_update_append)
qed simp

lemma length_rows: "\<forall>r \<in> set rows. length r = 80 \<Longrightarrow> length (concat rows) = length rows * 80"
  by (induction rows) simp_all

lemma write_displays:
  assumes "paper_ok p" "displays v p"
  shows "paper_ok (paper_write c p)"
    "displays (v\<lparr>vga_buffer := (vga_buffer v)[vga_cell_index v := vga_make_cell c (vga_current_color v)]\<rparr>) (paper_write c p)"
proof -
  let ?rows = "pp_rows p" and ?w = "window_start p"
  have ok: "\<forall>r \<in> set ?rows. length r = 80" "?w \<le> pp_row p" "pp_row p < length ?rows" "pp_col p < 80"
    using assms(1) by (auto simp: paper_ok_def list_all_iff)
  have len: "length (?rows ! pp_row p) = 80" using ok by simp
  have w: "window_start (paper_write c p) = ?w" by (simp add: window_start_def paper_write_def)
  show "paper_ok (paper_write c p)"
    using assms(1) len unfolding paper_ok_def w
    by (auto simp: paper_write_def list_all_length nth_list_update)
  have "vga_cell_index v = (pp_row p - ?w) * 80 + pp_col p"
    using assms(2) by (simp add: displays_def vga_cell_index_def vga_consts nat_add_distrib nat_mult_distrib)
  moreover have "drop ?w (?rows[pp_row p := (?rows ! pp_row p)[pp_col p := x]]) =
      (drop ?w ?rows)[pp_row p - ?w := (drop ?w ?rows ! (pp_row p - ?w))[pp_col p := x]]" for x
    using ok by (simp add: drop_update_swap)
  moreover have "\<forall>r \<in> set (drop ?w ?rows). length r = 80" using ok(1) by (auto dest: in_set_dropD)
  ultimately show "displays (v\<lparr>vga_buffer := (vga_buffer v)[vga_cell_index v := vga_make_cell c (vga_current_color v)]\<rparr>) (paper_write c p)"
    using assms(2) ok concat_row_update [of "drop ?w ?rows" "pp_row p - ?w" "pp_col p" "(c, pp_color p)"] w
    by (simp add: displays_def paper_window_def map_update shown_cell) (simp add: paper_write_def)
qed

lemma line_displays:
  assumes "paper_ok p" "displays v p"
  shows "paper_ok (paper_line p)"
    "let v1 = v\<lparr>vga_cursor_col := 0, vga_cursor_row := vga_cursor_row v + 1\<rparr> in
     displays (if vga_cursor_row v1 \<ge> VGA_ROWS then vga_scroll v1 else v1) (paper_line p)"
proof -
  let ?rows = "pp_rows p" and ?w = "window_start p" and ?L = "paper_line p"
  have ok: "\<forall>r \<in> set ?rows. length r = 80" "?w \<le> pp_row p" "pp_row p < length ?rows" "25 \<le> length ?rows"
    using assms(1) by (auto simp: paper_ok_def list_all_iff)
  have w: "length ?rows = ?w + 25" using ok(4) by (simp add: window_start_def)
  show "paper_ok ?L"
    using ok assms(1) by (auto simp: paper_ok_def paper_line_def window_start_def blank_row_def)
  have row: "vga_cursor_row v = int (pp_row p - ?w)" using assms(2) by (simp add: displays_def)
  let ?v1 = "v\<lparr>vga_cursor_col := 0, vga_cursor_row := vga_cursor_row v + 1\<rparr>"
  show "let v1 = ?v1 in displays (if vga_cursor_row v1 \<ge> VGA_ROWS then vga_scroll v1 else v1) ?L"
  proof (cases "pp_row p + 1 = length ?rows")
    case True
    have len: "length (vga_buffer v) = 2000"
    proof -
      have "length (map shown (vga_buffer v)) = length (concat (drop ?w ?rows))"
        using assms(2) by (simp add: displays_def paper_window_def)
      also have "\<dots> = 25 * 80" using length_rows [of "drop ?w ?rows"] ok(1) w by (auto dest: in_set_dropD)
      finally show ?thesis by simp
    qed
    have big: "vga_cursor_row v + 1 = 25" using True row w by simp
    obtain r rs where dr: "drop ?w ?rows = r # rs" using w by (cases "drop ?w ?rows") auto
    have r: "length r = 80" "drop (Suc ?w) ?rows = rs"
    proof -
      have "r \<in> set (drop ?w ?rows)" by (simp add: dr)
      then show "length r = 80" using ok(1) in_set_dropD by metis
      have "drop (Suc ?w) ?rows = tl (drop ?w ?rows)" by (simp add: drop_Suc tl_drop)
      then show "drop (Suc ?w) ?rows = rs" by (simp add: dr)
    qed
    have L: "pp_rows ?L = ?rows @ [blank_row (pp_color p)]" "pp_row ?L = Suc (pp_row p)" "pp_col ?L = 0"
        "pp_color ?L = pp_color p"
      using True by (simp_all add: paper_line_def)
    have wL: "window_start ?L = Suc ?w" using w by (simp add: L(1) window_start_def)
    have "paper_window ?L = drop 80 (map shown (vga_buffer v)) @ blank_row (pp_color p)"
      using assms(2) dr r w unfolding paper_window_def wL L(1) displays_def by simp
    moreover have "map shown (vga_buffer (vga_scroll ?v1)) = drop 80 (map shown (vga_buffer v)) @ blank_row (pp_color p)"
      using len by (simp add: vga_scroll_buffer drop_map shown_cell blank_row_def) (use assms(2) in \<open>simp add: displays_def\<close>)
    moreover have "vga_cursor_row (vga_scroll ?v1) = int (pp_row ?L - window_start ?L)" "vga_cursor_col (vga_scroll ?v1) = 0"
        "vga_current_color (vga_scroll ?v1) = pp_color p"
      unfolding wL L(2) using assms(2) True w by (simp_all add: vga_scroll_def Let_def vga_consts displays_def)
    ultimately show ?thesis
      using big by (simp add: displays_def vga_consts Let_def L(3,4))
  next
    case False
    then have small: "vga_cursor_row v + 1 < 25" using row w ok(2,3) by simp
    have L: "pp_rows ?L = ?rows" "pp_row ?L = Suc (pp_row p)" "pp_col ?L = 0" "pp_color ?L = pp_color p"
      using False by (simp_all add: paper_line_def)
    have wL: "window_start ?L = ?w" by (simp add: L(1) window_start_def)
    show ?thesis
      using small row ok(2) assms(2) by (simp add: Let_def vga_consts displays_def paper_window_def wL L)
  qed
qed

lemma col_set:
  assumes "paper_ok p" "displays v p" "j < 80"
  shows "paper_ok (p\<lparr>pp_col := j\<rparr>)" "displays (v\<lparr>vga_cursor_col := int j\<rparr>) (p\<lparr>pp_col := j\<rparr>)"
  using assms by (auto simp: paper_ok_def displays_def paper_window_def window_start_def)

text \<open>One character.\<close>

lemma put_displays:
  assumes ok: "paper_ok p" and d: "displays v p"
  shows "paper_ok (paper_put c p)" "displays (fst (vga_putchar bus c (v, x))) (paper_put c p)"
proof -
  have small: "vga_cursor_row v < VGA_ROWS" and col: "vga_cursor_col v = int (pp_col p)" "pp_col p < 80"
    using ok d by (auto simp: paper_ok_def displays_def window_start_def vga_consts)
  let ?w = "v\<lparr>vga_buffer := (vga_buffer v)[vga_cell_index v := vga_make_cell c (vga_current_color v)]\<rparr>"
  note wr = write_displays [OF ok d, of c]
  consider "c = CHR 0x0A" | "c = CHR 0x0D" | "c = CHR 0x08" "pp_col p = 0" | "c = CHR 0x08" "0 < pp_col p"
    | "c \<noteq> CHR 0x0A" "c \<noteq> CHR 0x0D" "c \<noteq> CHR 0x08" "pp_col p = 79"
    | "c \<noteq> CHR 0x0A" "c \<noteq> CHR 0x0D" "c \<noteq> CHR 0x08" "pp_col p \<noteq> 79"
    by blast
  then have "paper_ok (paper_put c p) \<and> displays (fst (vga_putchar bus c (v, x))) (paper_put c p)"
  proof cases
    case 1
    then show ?thesis
      using line_displays [OF ok d] by (simp add: paper_put_def vga_putchar_def vga_advance_def Let_def)
  next
    case 2
    then show ?thesis
      using col_set [OF ok d, of 0] small by (simp add: paper_put_def vga_putchar_def vga_advance_def Let_def)
  next
    case 3
    then show ?thesis
      using ok d small col by (simp add: paper_put_def vga_putchar_def vga_advance_def Let_def)
  next
    case 4
    let ?j = "pp_col p - 1"
    have "int ?j = vga_cursor_col v - 1" using 4 col by simp
    then have s: "paper_ok (p\<lparr>pp_col := ?j\<rparr>)" "displays (v\<lparr>vga_cursor_col := vga_cursor_col v - 1\<rparr>) (p\<lparr>pp_col := ?j\<rparr>)"
      using col_set [OF ok d, of ?j] col(2) by simp_all
    show ?thesis
      using write_displays [OF s, of "CHR '' ''"] 4 col small
      by (simp add: paper_put_def vga_putchar_def vga_advance_def Let_def)
  next
    case 5
    then show ?thesis
      using line_displays [OF wr] col
      by (auto simp: paper_put_def vga_putchar_def vga_advance_def Let_def vga_consts split: if_splits)
  next
    case 6
    then have "pp_col p + 1 < 80" using col(2) by simp
    moreover have "int (pp_col p + 1) = vga_cursor_col v + 1" using col(1) by simp
    ultimately have "paper_ok ((paper_write c p)\<lparr>pp_col := pp_col p + 1\<rparr>)"
        "displays (?w\<lparr>vga_cursor_col := vga_cursor_col v + 1\<rparr>) ((paper_write c p)\<lparr>pp_col := pp_col p + 1\<rparr>)"
      using col_set [OF wr, of "pp_col p + 1"] by (simp_all add: add.commute)
    then show ?thesis
      using 6 col small by (simp add: paper_put_def vga_putchar_def vga_advance_def Let_def vga_consts)
  qed
  then show "paper_ok (paper_put c p)" "displays (fst (vga_putchar bus c (v, x))) (paper_put c p)" by simp_all
qed

text \<open>Clearing and colours.\<close>

lemma fresh_displays:
  assumes "length (vga_buffer v) = 2000"
  shows "paper_ok (fresh_paper (vga_current_color v))"
    "displays (fst (vga_clear bus (v, x))) (fresh_paper (vga_current_color v))"
proof -
  show "paper_ok (fresh_paper (vga_current_color v))"
    by (simp add: paper_ok_def fresh_paper_def window_start_def blank_row_def list_all_length)
  have "concat (replicate n (replicate 80 y)) = replicate (n * 80) y" for n and y :: "char \<times> u8"
    by (induction n) (simp_all add: replicate_add)
  then show "displays (fst (vga_clear bus (v, x))) (fresh_paper (vga_current_color v))"
    using assms
    by (simp add: displays_def fresh_paper_def paper_window_def window_start_def blank_row_def vga_clear_def
        vga_consts Let_def fold_update_const shown_cell)
qed

lemma color_value: "vga_current_color (vga_set_color fg bg v) = of_nat (bg * 16 + fg mod 16)"
proof -
  let ?a = "push_bit 4 (of_nat bg :: u32)" and ?b = "of_nat fg AND 0x0F :: u32"
  have m: "(0x0F :: u32) = mask 4" by (simp add: mask_eq_exp_minus_1)
  have b: "?b = of_nat (fg mod 16)"
  proof -
    have "?b = take_bit 4 (of_nat fg)" unfolding m by (simp only: take_bit_eq_mask)
    also have "\<dots> = of_nat (take_bit 4 fg)" by (rule take_bit_of_nat)
    also have "take_bit 4 fg = fg mod 16" by (simp add: take_bit_eq_mod)
    finally show ?thesis .
  qed
  have "?a AND ?b = 0" unfolding m by (intro bit_word_eqI) (auto simp: bit_simps)
  then have "?a OR ?b = ?a + ?b" by (rule disjunctive_add_eq_or [symmetric])
  also have "\<dots> = of_nat (bg * 16 + fg mod 16)" unfolding b by (simp add: push_bit_eq_mult)
  finally have "ucast (?a OR ?b) = (ucast (of_nat (bg * 16 + fg mod 16) :: u32) :: u8)" by (rule arg_cong)
  also have "\<dots> = of_nat (bg * 16 + fg mod 16)"
    by (simp only: unsigned_of_nat word_of_nat_eq_iff) (simp add: take_bit_take_bit)
  finally show ?thesis by (simp add: vga_set_color_def)
qed

text \<open>A text, and the whole session.\<close>

lemma text_displays:
  assumes step: "\<And>c v x. f c (v, x) = (fst (vga_putchar bus c (v, x)), g c (v, x))"
  shows "paper_ok p \<Longrightarrow> displays v p \<Longrightarrow>
    paper_ok (fold paper_put str p) \<and> displays (fst (fold f str (v, x))) (fold paper_put str p)"
proof (induction str arbitrary: p v x)
  case (Cons c str)
  note pd = put_displays(1) [OF Cons.prems] put_displays(2) [OF Cons.prems, where bus = bus and x = x]
  show ?case using Cons.IH [OF pd] by (simp add: step)
qed simp

end
