(* ===== verification/Screen.thy ===== *)
theory Screen
  imports Paper
begin

text \<open>
  Where the console's output goes: the serial port and the composition of text
  display and serial port in \<open>kernel/lib/kio.c\<close>.  The events of a terminal
  session are played through the display driver and the port bus; what reaches
  the serial line is their text, what the screen shows is the roll of paper.
\<close>

section \<open>The serial port\<close>

definition COM1_PORT :: u16 where "COM1_PORT = 0x3F8"
definition COM1_LINE_STATUS_PORT :: u16 where "COM1_LINE_STATUS_PORT = COM1_PORT + 5"
definition COM1_RX_READY :: u8 where "COM1_RX_READY = 0x01"

lemmas com1_consts = COM1_PORT_def COM1_LINE_STATUS_PORT_def COM1_RX_READY_def

definition serial_init :: "'d port_bus \<Rightarrow> 'd \<Rightarrow> 'd" where
  "serial_init bus d = outbs bus
     [(COM1_PORT + 1, 0x00), (COM1_PORT + 3, 0x80), (COM1_PORT + 0, 0x03), (COM1_PORT + 1, 0x00),
      (COM1_PORT + 3, 0x03), (COM1_PORT + 2, 0xC7), (COM1_PORT + 4, 0x0B)] d"

definition serial_putchar :: "'d port_bus \<Rightarrow> char \<Rightarrow> 'd \<Rightarrow> 'd" where
  "serial_putchar bus c d = outb bus COM1_PORT (of_char c) d"

definition serial_getchar :: "'d port_bus \<Rightarrow> 'd \<Rightarrow> int \<times> 'd" where
  "serial_getchar bus d =
     (let (st, d1) = inb bus COM1_LINE_STATUS_PORT d in
      if st AND COM1_RX_READY = 0 then (-1, d1)
      else let (v, d2) = inb bus COM1_PORT d1 in (uint v, d2))"

section \<open>Display and serial port together\<close>

definition kio_init :: "'d port_bus \<Rightarrow> vga \<times> 'd \<Rightarrow> vga \<times> 'd" where
  "kio_init bus = (\<lambda>(v, d). vga_init bus (v, serial_init bus d))"

definition kputchar :: "'d port_bus \<Rightarrow> char \<Rightarrow> vga \<times> 'd \<Rightarrow> vga \<times> 'd" where
  "kputchar bus c s = (let (v, d) = vga_putchar bus c s in (v, serial_putchar bus c d))"

definition kput_text :: "'d port_bus \<Rightarrow> string \<Rightarrow> vga \<times> 'd \<Rightarrow> vga \<times> 'd" where
  "kput_text bus str s = fold (kputchar bus) str s"

definition kio_getchar :: "'d port_bus \<Rightarrow> 'd \<Rightarrow> int \<times> 'd" where
  "kio_getchar bus d = serial_getchar bus d"

text \<open>The events of a session, played in order.\<close>

fun play_event :: "'d port_bus \<Rightarrow> con_event \<Rightarrow> vga \<times> 'd \<Rightarrow> vga \<times> 'd" where
  "play_event bus (Put str) s = kput_text bus str s"
| "play_event bus Clear_screen s = vga_clear bus s"
| "play_event bus (Set_color fg bg) s = (vga_set_color fg bg (fst s), snd s)"

definition play_events :: "'d port_bus \<Rightarrow> con_event list \<Rightarrow> vga \<times> 'd \<Rightarrow> vga \<times> 'd" where
  "play_events bus evs s = fold (play_event bus) evs s"

text \<open>The characters of a session, without colours and clearing.\<close>

fun event_text :: "con_event \<Rightarrow> string" where
  "event_text (Put str) = str"
| "event_text Clear_screen = []"
| "event_text (Set_color fg bg) = []"

definition transcript :: "con_event list \<Rightarrow> string" where
  "transcript evs = concat (map event_text evs)"

section \<open>What reaches the serial line\<close>

definition serial_sent :: "(u16 \<times> u8) list \<Rightarrow> u8 list" where
  "serial_sent ws = map snd (filter (\<lambda>(p, v). p = COM1_PORT) ws)"

lemma serial_sent_append [simp]: "serial_sent (ws @ vs) = serial_sent ws @ serial_sent vs"
  by (simp add: serial_sent_def)

lemma vga_silent:
  "serial_sent (writes (vga_hw_set_cursor log_bus row col d)) = serial_sent (writes d)"
  "serial_sent (writes (snd (vga_clear log_bus (v, d)))) = serial_sent (writes d)"
  by (simp_all add: vga_hw_set_cursor_def vga_clear_def Let_def log_bus_outbs serial_sent_def vga_consts com1_consts)

lemma kputchar_sent:
  "serial_sent (writes (snd (kputchar log_bus c s))) = serial_sent (writes (snd s)) @ [of_char c]"
  by (cases s) (simp add: kputchar_def vga_putchar_def serial_putchar_def vga_silent Let_def,
      simp add: serial_sent_def)

lemma kput_text_sent:
  "serial_sent (writes (snd (kput_text log_bus str s))) = serial_sent (writes (snd s)) @ map of_char str"
  unfolding kput_text_def by (induction str arbitrary: s) (simp_all add: kputchar_sent)

lemma play_event_sent:
  "serial_sent (writes (snd (play_event log_bus ev s))) =
   serial_sent (writes (snd s)) @ map of_char (event_text ev)"
  by (cases ev; cases s) (simp_all add: kput_text_sent vga_silent)

lemma play_events_sent:
  "serial_sent (writes (snd (play_events log_bus evs s))) =
   serial_sent (writes (snd s)) @ map of_char (transcript evs)"
  unfolding play_events_def transcript_def
  by (induction evs arbitrary: s) (simp_all add: play_event_sent)

section \<open>The screen\<close>

lemma kputchar_inv: "vga_inv (fst s) \<Longrightarrow> vga_inv (fst (kputchar bus c s))"
  using vga_putchar_inv [of "fst s" bus c "snd s"] by (simp add: kputchar_def case_prod_beta Let_def)

lemma play_event_inv: "vga_inv (fst s) \<Longrightarrow> vga_inv (fst (play_event bus ev s))"
proof (cases ev)
  case (Put str)
  moreover have "vga_inv (fst s) \<Longrightarrow> vga_inv (fst (kput_text bus str s))"
    unfolding kput_text_def by (induction str arbitrary: s) (simp_all add: kputchar_inv)
  ultimately show "vga_inv (fst s) \<Longrightarrow> vga_inv (fst (play_event bus ev s))" by simp
next
  case Clear_screen
  then show "vga_inv (fst s) \<Longrightarrow> vga_inv (fst (play_event bus ev s))"
    using vga_step_inv [of s bus VClear] by simp
next
  case (Set_color fg bg)
  then show "vga_inv (fst s) \<Longrightarrow> vga_inv (fst (play_event bus ev s))"
    using vga_step_inv [of s bus "VColor fg bg"] by simp
qed

lemma play_events_inv: "vga_inv (fst s) \<Longrightarrow> vga_inv (fst (play_events bus evs s))"
  unfolding play_events_def by (induction evs arbitrary: s) (simp_all add: play_event_inv)

text \<open>The start of the console as events: the default colours and a cleared screen.\<close>

lemma kio_init_events:
  "kio_init bus (v, d) = play_events bus [Set_color 7 0, Clear_screen] (v, serial_init bus d)"
  by (simp add: kio_init_def vga_init_def play_events_def)

text \<open>Every event keeps the display in step with the roll.\<close>

lemma play_event_displays:
  assumes "vga_inv (fst s)" "paper_ok p" "displays (fst s) p"
  shows "paper_ok (paper_event ev p) \<and> displays (fst (play_event bus ev s)) (paper_event ev p)"
proof (cases ev)
  case (Put str)
  have "kputchar bus c (v, x) = (fst (vga_putchar bus c (v, x)), snd (kputchar bus c (v, x)))" for c v x
    by (simp add: kputchar_def case_prod_beta Let_def)
  from text_displays [where f = "kputchar bus", OF this assms(2,3), where str = str and x = "snd s"] show ?thesis
    using Put by (simp add: kput_text_def)
next
  case Clear_screen
  have c: "vga_current_color (fst s) = pp_color p" using assms(3) by (simp add: displays_def)
  then show ?thesis
    using Clear_screen assms(1) fresh_displays(1) [of "fst s"] fresh_displays(2) [of "fst s" bus "snd s"] by (simp add: vga_inv_def)
next
  case (Set_color fg bg)
  have "vga_buffer (vga_set_color fg bg v) = vga_buffer v" "vga_cursor_row (vga_set_color fg bg v) = vga_cursor_row v"
    "vga_cursor_col (vga_set_color fg bg v) = vga_cursor_col v" for v by (simp_all add: vga_set_color_def)
  then show ?thesis
    using Set_color assms(2,3)
    by (simp add: displays_def paper_ok_def paper_window_def window_start_def color_value)
qed

lemma play_events_displays:
  "vga_inv (fst s) \<Longrightarrow> paper_ok p \<Longrightarrow> displays (fst s) p \<Longrightarrow>
   displays (fst (play_events bus evs s)) (fold paper_event evs p)"
  unfolding play_events_def
proof (induction evs arbitrary: s p)
  case (Cons ev evs)
  then show ?case using play_event_displays [OF Cons.prems, of ev bus] play_event_inv [OF Cons.prems(1)] by simp
qed simp

lemma kio_init_displays:
  assumes "length (vga_buffer v) = 2000"
  shows "paper_ok (fresh_paper 7)" "displays (fst (kio_init bus (v, d))) (fresh_paper 7)"
  using fresh_displays [of "vga_set_color 7 0 v"] assms color_value [of 7 0 v]
  by (simp_all add: kio_init_def vga_init_def vga_set_color_def)

section \<open>Property\<close>

text \<open>C24. Output reaches both devices.  After \<open>kio_init\<close>, whatever a session prints, colours
and clears, the bytes sent to the serial port are exactly the characters printed, in order, after the
one byte of the port's own set-up; and the 2000 cells of the display are, character by character and
colour by colour, the last 25 rows of the roll of paper on which the session is written from the top
without ever moving a row, the cursor at the roll's own position.\<close>

theorem console_reaches_screen_and_serial:
  assumes "length (vga_buffer v0) = 2000" and "(v, d) = play_events log_bus evs (kio_init log_bus (v0, d0))"
  shows "serial_sent (writes d) = serial_sent (writes d0) @ 3 # map of_char (transcript evs) \<and>
    vga_inv v \<and> map shown (vga_buffer v) = paper_window (paper_of evs) \<and>
    vga_cursor_row v = int (pp_row (paper_of evs) - window_start (paper_of evs)) \<and>
    vga_cursor_col v = int (pp_col (paper_of evs)) \<and> vga_current_color v = pp_color (paper_of evs)"
proof -
  let ?s = "kio_init log_bus (v0, d0)"
  have i0: "vga_inv (fst ?s)" using vga_init_inv [OF assms(1)] by (simp add: kio_init_def)
  then have inv: "vga_inv v" using play_events_inv assms(2) by (metis fst_conv)
  have "serial_sent (writes (snd ?s)) = serial_sent (writes d0) @ [3]"
    by (simp add: kio_init_def vga_init_def vga_silent serial_init_def log_bus_outbs)
      (simp add: serial_sent_def com1_consts)
  then have "serial_sent (writes d) = serial_sent (writes d0) @ 3 # map of_char (transcript evs)"
    using play_events_sent [of evs ?s] assms(2) by (metis append.assoc append_Cons append_Nil snd_conv)
  moreover have "displays v (paper_of evs)"
    using play_events_displays [OF i0 kio_init_displays [OF assms(1)]] assms(2) unfolding paper_of_def
    by (metis fst_conv)
  ultimately show ?thesis using inv by (auto simp: displays_def)
qed

lemma console_reaches_screen_and_serial_witness:
  "\<exists>v d. (v, d) = play_events log_bus [Put ''[init] '', Clear_screen, Set_color 10 0, Put ''ok'']
       (kio_init log_bus (\<lparr>vga_buffer = replicate 2000 0, vga_cursor_row = 9, vga_cursor_col = 9,
          vga_current_color = 0\<rparr>, \<lparr>reads = [], writes = []\<rparr>)) \<and>
     serial_sent (writes d) = 3 # map of_char ''[init] ok'' \<and>
     take 3 (map shown (vga_buffer v)) = [(CHR ''o'', 10), (CHR ''k'', 10), (CHR '' '', 7)]"
proof -
  let ?v = "\<lparr>vga_buffer = replicate 2000 0, vga_cursor_row = 9, vga_cursor_col = 9, vga_current_color = 0\<rparr>"
  let ?e = "[Put ''[init] '', Clear_screen, Set_color 10 0, Put ''ok'']"
  obtain v d where s: "(v, d) = play_events log_bus ?e (kio_init log_bus (?v, \<lparr>reads = [], writes = []\<rparr>))"
    by (metis prod.collapse)
  have len: "length (vga_buffer ?v) = 2000" by simp
  note c = console_reaches_screen_and_serial [OF len s]
  have "transcript ?e = ''[init] ok''" by (simp add: transcript_def)
  moreover have "serial_sent [] = []" by (simp add: serial_sent_def)
  ultimately have "serial_sent (writes d) = 3 # map of_char ''[init] ok''" using c by simp
  moreover have "take 3 (paper_window (paper_of ?e)) = [(CHR ''o'', 10), (CHR ''k'', 10), (CHR '' '', 7)]"
    by code_simp
  then have "take 3 (map shown (vga_buffer v)) = [(CHR ''o'', 10), (CHR ''k'', 10), (CHR '' '', 7)]"
    using c by simp
  ultimately show ?thesis using s by (intro exI conjI)
qed

end
