(* ===== verification/Boot.thy ===== *)
theory Boot
  imports ShellProps Screen Gdt Settings
begin

text \<open>
  The kernel's entry point \<open>kernel/kmain.c\<close>: the program image with its static
  storage, the phases of \<open>kmain\<close> in their order, \<open>kernel_panic\<close>, and the shell
  at the end.  The state is the shell's, with the descriptor table and the
  memory of the heap beside it.
\<close>

record ('d, 'e) computer =
  co_shell :: "('d, 'e) shell"
  co_gdt :: gdt_state
  co_memory :: memory

text \<open>
  What the linker and the hardware fix: the machine's buses, the addresses of
  the interrupt stubs, of the descriptor tables and of the pages, the end of the
  kernel image and the user program.
\<close>

record ('d, 'e) platform =
  pf_machine :: "('d, 'e) machine"
  pf_stubs :: "u8 \<Rightarrow> u64"
  pf_tss_at :: u64
  pf_tss_stack_at :: u64
  pf_gdt_at :: u64
  pf_layout :: layout
  pf_kernel_end :: u64
  pf_program :: "u8 list"
  pf_code_at :: u64
  pf_stack_at :: u64

type_synonym ('d, 'e) phase = "('d, 'e) computer \<Rightarrow> ('d, 'e) computer"

section \<open>The program image\<close>

text \<open>Static storage: zero but for the initialisers in the source.\<close>

definition image_gui :: files_view where
  "image_gui =
     \<lparr>fb_backing = fb_backing fb_zero, fb_state = fb_state fb_zero,
      wm_windows = replicate WM_MAX_WINDOWS zero_window,
      wm_state = \<lparr>wm_window_count = 0, wm_next_window_id = 0, wm_active_window_id = 0\<rparr>, wm_is_ready = False,
      btn_buttons = replicate BTN_MAX_BUTTONS zero_button,
      btn_state = \<lparr>btn_button_count = 0, btn_next_button_id = 0, btn_pressed_button_id = 0\<rparr>,
      menu_items = replicate MENU_MAX_MENUS zero_menu,
      menu_state = \<lparr>menu_menu_count = 0, menu_next_menu_id = 0, menu_active_menu_id = 0\<rparr>, menu_is_ready = False,
      icons_table = replicate ICONS_MAX_ICONS zero_icon,
      icon_state = \<lparr>icon_icon_count = 0, icon_next_icon_id = 0, icon_selected_icon_id = 0\<rparr>,
      icon_ready = False, last_click_tick = 0,
      desktop_icons = replicate DESKTOP_MAX_ICONS zero_desktop_icon,
      desktop_state = \<lparr>ds_icon_count = 0, ds_selected_icon_id = 0, ds_next_icon_id = 0, ds_taskbar_height = 0\<rparr>,
      desktop_is_ready = False, desktop_menu_id = 0, desktop_window_id = 0, desktop_start_button_id = 0,
      sd_panels = replicate SETTINGS_MAX_PANELS (panel_with 0 [] []), sd_active_panel = 0,
      sg_stats = \<lparr>ss_ready = False, ss_active_panel = 0, ss_panel_count = 0, ss_render_count = 0\<rparr>,
      sg_ready = False, sg_panels = replicate SETTINGS_MAX_PANELS (panel_with 0 [] []),
      fv_stats = \<lparr>fv_ready = False, fv_render_count = 0, fv_file_count = 0, fv_selected_index = 0\<rparr>,
      fv_initialised = False\<rparr>"

definition image_net :: udp where
  "image_net =
     \<lparr>g_eth = \<lparr>eth_ready_flag = False, eth_mac = replicate ETH_ADDR_LEN 0, tx_frames = 0, rx_frames = 0,
        dropped_frames = 0, eth_mtu = 0\<rparr>, g_rx_handler = 0,
      g_cache = replicate ARP_CACHE_MAX zero_arp_entry, g_arp_stats = zero_arp_stats,
      g_local_ip = 0xC0A80164, g_local_mac = replicate ETH_ADDR_LEN 0,
      g_routes = replicate IPV4_MAX_ROUTES zero_route,
      g_ip_stats = \<lparr>st_ip = 0, st_gateway = 0, st_subnet = 0, st_route_count = 0, st_send_count = 0, st_drop_count = 0\<rparr>,
      g_ip = 0xC0A80164, g_gateway = 0xC0A80101, g_subnet = 0xFFFFFF00,
      g_icmp_stats = zero_icmp_stats, g_sockets = replicate UDP_MAX_SOCKETS zero_socket,
      g_udp_stats = \<lparr>udp_bound_sockets = 0, udp_tx_packets = 0, udp_rx_packets = 0, udp_dropped_packets = 0\<rparr>,
      g_udp_ready = False, g_next_ephemeral = 49152\<rparr>"

definition image_log :: log where
  "image_log =
     \<lparr>log_buffer = replicate LOG_BUFFER_MAX \<lparr>l_tick = 0, l_level = LOG_TRACE, l_message = zbuf LOG_MESSAGE_MAX\<rparr>,
      log_head = 0, log_count = 0, log_total = 0, log_dropped = 0, log_minimum_level = LOG_INFO, log_console = []\<rparr>"

definition image_kernel :: "'d \<Rightarrow> (u64 \<Rightarrow> char) \<Rightarrow> 'd kernel" where
  "image_kernel d texts =
     \<lparr>k_device = d, k_idt = replicate IDT_ENTRY_COUNT empty_gate, k_handlers = replicate IDT_ENTRY_COUNT None,
      k_timer = \<lparr>ticks = 0, configured_frequency = 0\<rparr>,
      k_sched = \<lparr>tasks = replicate SCHED_MAX_TASKS unused_task, task_count = 0, current_index = 0,
        total_ticks = 0, next_task_id = 0, slice_progress = 0\<rparr>,
      k_procs = \<lparr>processes = replicate PROCESS_MAX unused_process, process_count = 0, next_pid = 0, current_pid = 0\<rparr>,
      k_keyboard = keyboard_zero, k_mouse = mouse_zero, k_console = [], k_memory = texts\<rparr>"

text \<open>The computer before \<open>kmain\<close>, with the devices' states and what will be typed.\<close>

definition program_image ::
    "'d \<Rightarrow> 'e \<Rightarrow> (u64 \<Rightarrow> char) \<Rightarrow> gdt_state \<Rightarrow> memory \<Rightarrow> int list \<Rightarrow> ('d, 'e) computer" where
  "program_image d e texts gdt mem keys =
     \<lparr>co_shell =
        \<lparr>con_in = keys, con_out = [], con_status = Running, t_world = (fs_clear_cache, no_ata, e),
         sh_history = replicate SHELL_HISTORY_MAX (zbuf SHELL_LINE_MAX), sh_history_count = 0, sh_history_next = 0,
         sh_kernel = image_kernel d texts,
         sh_heap = \<lparr>heap_start = 0, heap_current = 0, heap_end = 0, allocation_count = 0\<rparr>,
         sh_vmm = \<lparr>kernel_pml4 = empty_table, kernel_pdpt = empty_table, kernel_pd = empty_table,
           user_pdpt = empty_table, user_pd = empty_table, mapped_pages = 0, cr3 = 0\<rparr>,
         sh_gui = image_gui, sh_net = image_net, sh_log = image_log,
         sh_config = \<lparr>config_entries = replicate CONFIG_ENTRY_MAX zero_config_entry,
           config_file_name = copy_text (zbuf FS_NAME_MAX) CONFIG_FILE_NAME\<rparr>,
         sh_packages = replicate PACKAGE_ENTRY_MAX zero_package,
         sh_services = replicate SERVICE_ENTRY_MAX zero_service,
         sh_users = \<lparr>users = replicate USER_ENTRY_MAX zero_user, active_uid = 0, authenticated = False\<rparr>,
         sh_user_space = \<lparr>user_code_page = replicate PAGE_BYTES 0, user_stack_page = replicate PAGE_BYTES 0,
           userspace_running = False\<rparr>\<rparr>,
      co_gdt = gdt, co_memory = mem\<rparr>"

section \<open>Messages and panics\<close>

definition log_line :: "log_level \<Rightarrow> char list \<Rightarrow> ('d, 'e) command" where
  "log_line level msg s = snd (with_log (\<lambda>l. ((), log_write (tick_now s) level msg l)) s)"

definition kernel_panic :: "char list \<Rightarrow> ('d, 'e) command" where
  "kernel_panic msg s =
     stop Halted (say ''\<newline>[PANIC] %s\<newline>[PANIC] System halted.\<newline>'' [KStr msg] (log_line LOG_PANIC msg s))"

text \<open>
  A phase: the log entry, the banner, the work, and the closing word unless the
  work stopped the machine.
\<close>

definition init_step :: "char list \<Rightarrow> char list \<Rightarrow> ('d, 'e) command \<Rightarrow> ('d, 'e) command" where
  "init_step msg banner work s =
     proceed (say ''done.\<newline>'' []) (work (say banner [] (log_line LOG_INFO msg s)))"

definition on_shell :: "('d, 'e) command \<Rightarrow> ('d, 'e) phase" where
  "on_shell f c = c\<lparr>co_shell := f (co_shell c)\<rparr>"

section \<open>Phases\<close>

definition boot_output :: "('d, 'e) command" where
  "boot_output s =
     (let s1 = emit Clear_screen (kio_set_color 7 0 s);
          s2 = s1\<lparr>sh_log := log_init (sh_log s1)\<rparr>
      in say ''------------------------------------------------\<newline>'' [] (log_line LOG_INFO ''AcharyaOS kernel starting'' s2))"

definition boot_gdt :: "('d, 'e) platform \<Rightarrow> ('d, 'e) phase" where
  "boot_gdt pf c =
     on_shell (init_step ''Loading kernel GDT'' ''[init] Loading kernel GDT... '' (\<lambda>s. s)) c
       \<lparr>co_gdt := gdt_init (pf_tss_at pf) (pf_tss_stack_at pf) (pf_gdt_at pf)\<rparr>"

definition boot_text_output :: "('d, 'e) command" where
  "boot_text_output s =
     (let s1 = say ''[init] Text Output driver (drivers/vga) active.\<newline>'' []
                 (log_line LOG_DEBUG ''Text Output driver active'' s);
          s2 = say ''[ ok ] '' [] (kio_set_color VGA_COLOR_LIGHT_GREEN VGA_COLOR_BLACK s1)
      in say ''Color output verified (this line printed in default grey).\<newline>'' []
           (kio_set_color VGA_COLOR_LIGHT_GREY VGA_COLOR_BLACK s2))"

text \<open>Steps on the interrupt hardware's state, which may wait for a device forever.\<close>

definition on_kernel :: "('d kernel \<Rightarrow> 'd kernel) \<Rightarrow> ('d, 'e) command" where
  "on_kernel f s = s\<lparr>sh_kernel := f (sh_kernel s)\<rparr>"

definition start_pic :: "'d port_bus \<Rightarrow> 'd kernel \<Rightarrow> 'd kernel" where
  "start_pic bus k = k\<lparr>k_device := pic_init bus (k_device k)\<rparr>"

definition start_keyboard :: "'d port_bus \<Rightarrow> 'd kernel \<Rightarrow> 'd kernel" where
  "start_keyboard bus k =
     (let k1 = idt_register_handler 33 KEYBOARD_HANDLER k in k1\<lparr>k_device := keyboard_init bus (k_device k1)\<rparr>)"

definition start_mouse :: "'d port_bus \<Rightarrow> ('d, 'e) command" where
  "start_mouse bus s =
     (let k = sh_kernel s in
      case mouse_init bus (k_mouse k, k_device k) of
        None \<Rightarrow> stop Waiting s
      | Some (m, d) \<Rightarrow>
          s\<lparr>sh_kernel := idt_register_handler 44 MOUSE_HANDLER (k\<lparr>k_mouse := m, k_device := d\<rparr>)\<rparr>)"

definition start_timer :: "'d port_bus \<Rightarrow> 'd kernel \<Rightarrow> 'd kernel" where
  "start_timer bus k =
     (case timer_init bus 100 (k_device k) of (t, d) \<Rightarrow>
        idt_register_handler TIMER_VECTOR TIMER_HANDLER (k\<lparr>k_timer := t, k_device := d\<rparr>))"

definition start_processes :: "'d kernel \<Rightarrow> 'd kernel" where
  "start_processes k =
     (case process_init (timer_get_ticks (k_timer k)) (k_sched k) of (p, sc) \<Rightarrow> k\<lparr>k_procs := p, k_sched := sc\<rparr>)"

definition boot_interrupt_lines :: "('d, 'e) platform \<Rightarrow> ('d, 'e) command list" where
  "boot_interrupt_lines pf =
     (let bus = mc_bus (pf_machine pf) in
      [init_step ''Remapping legacy PIC'' ''[init] Remapping legacy PIC... '' (on_kernel (start_pic bus)),
       init_step ''Loading IDT'' ''[init] Loading IDT... '' (on_kernel (idt_init (pf_stubs pf))),
       init_step ''Starting keyboard driver'' ''[init] Starting keyboard driver... '' (on_kernel (start_keyboard bus))])"

text \<open>Steps on the screen's and the network's state.\<close>

definition on_gui :: "(files_view \<Rightarrow> files_view) \<Rightarrow> ('d, 'e) command" where
  "on_gui f s = s\<lparr>sh_gui := f (sh_gui s)\<rparr>"

definition on_net :: "(udp \<Rightarrow> udp) \<Rightarrow> ('d, 'e) command" where
  "on_net f s = s\<lparr>sh_net := f (sh_net s)\<rparr>"

definition start_desktop :: "files_view \<Rightarrow> files_view" where
  "start_desktop g = desktop_render (desktop_add_default_icons (desktop_init g))"

definition boot_graphics :: "('d, 'e) platform \<Rightarrow> ('d, 'e) command list" where
  "boot_graphics pf =
     [init_step ''Starting framebuffer graphics core'' ''[init] Starting framebuffer graphics core... '' (on_gui fb_init),
      init_step ''Starting window manager'' ''[init] Starting window manager... '' (on_gui wm_init),
      init_step ''Starting mouse driver'' ''[init] Starting mouse driver... '' (start_mouse (mc_bus (pf_machine pf))),
      init_step ''Starting button control layer'' ''[init] Starting button control layer... '' (on_gui btn_init),
      init_step ''Starting menu control layer'' ''[init] Starting menu control layer... '' (on_gui menu_init),
      init_step ''Starting desktop environment'' ''[init] Starting desktop environment... '' (on_gui start_desktop),
      init_step ''Starting settings application'' ''[init] Starting settings application... ''
        (\<lambda>s. on_gui (settings_init (sh_config s)) s),
      init_step ''Starting graphical file explorer'' ''[init] Starting graphical file explorer... ''
        (\<lambda>s. on_gui (files_init (fst (t_world s))) s)]"

definition boot_network :: "('d, 'e) command list" where
  "boot_network =
     [init_step ''Starting Ethernet support'' ''[init] Starting Ethernet support... '' (on_net eth_init),
      init_step ''Starting ARP support'' ''[init] Starting ARP support... '' (\<lambda>s. on_net (arp_init (tick_now s)) s),
      init_step ''Starting IPv4 support'' ''[init] Starting IPv4 support... '' (on_net ipv4_init),
      init_step ''Starting ICMP support'' ''[init] Starting ICMP support... '' (on_net icmp_init),
      init_step ''Starting UDP support'' ''[init] Starting UDP support... '' (on_net udp_init)]"

definition start_vmm :: "('d, 'e) platform \<Rightarrow> ('d, 'e) command" where
  "start_vmm pf s =
     (let m = vmm_init (pf_layout pf); s1 = s\<lparr>sh_vmm := m\<rparr>
      in if \<not> vmm_self_test (pf_layout pf) m then kernel_panic ''Virtual memory self-test failed'' s1 else s1)"

definition boot_heap :: "('d, 'e) platform \<Rightarrow> ('d, 'e) phase" where
  "boot_heap pf c =
     (case kheap_self_test (kheap_init (pf_kernel_end pf)) (co_memory c) of
        (r, h, mem) \<Rightarrow>
          on_shell (init_step ''Starting early kernel heap'' ''[init] Starting early kernel heap... ''
            (\<lambda>s. if r = 0 then kernel_panic ''Early heap self-test failed'' (s\<lparr>sh_heap := h\<rparr>)
                 else s\<lparr>sh_heap := h\<rparr>)) c
            \<lparr>co_memory := mem\<rparr>)"

definition boot_tasks :: "('d, 'e) platform \<Rightarrow> ('d, 'e) command list" where
  "boot_tasks pf =
     [init_step ''Starting round-robin scheduler core'' ''[init] Starting round-robin scheduler core... ''
        (on_kernel (\<lambda>k. k\<lparr>k_sched := scheduler_init\<rparr>)),
      init_step ''Creating initial kernel processes'' ''[init] Creating initial kernel processes... ''
        (on_kernel start_processes),
      init_step ''Installing syscall interface'' ''[init] Installing syscall interface... ''
        (on_kernel (syscall_init (pf_stubs pf)))]"

definition start_ata :: "('d, 'e) platform \<Rightarrow> ('d, 'e) command" where
  "start_ata pf s =
     (case t_world s of (f, info, e) \<Rightarrow> s\<lparr>t_world := (f, ata_init (mc_disk (pf_machine pf)) e)\<rparr>)"

definition start_fs :: "('d, 'e) platform \<Rightarrow> ('d, 'e) command" where
  "start_fs pf s = s\<lparr>t_world := fs_init (disk_of (pf_machine pf)) (snd (t_world s))\<rparr>"

definition start_config :: "('d, 'e) platform \<Rightarrow> ('d, 'e) command" where
  "start_config pf s =
     (case config_init (files_of (pf_machine pf)) (sh_config s) (t_world s) of
        (None, w) \<Rightarrow> stop Faulty (s\<lparr>t_world := w\<rparr>)
      | (Some c, w) \<Rightarrow> s\<lparr>t_world := w, sh_config := c, sh_log := apply_loglevel c (sh_log s)\<rparr>)"

definition start_services :: "('d, 'e) command" where
  "start_services s =
     (case with_log (service_startup_all (tick_now s) \<circ> Pair service_init) s of (es, s1) \<Rightarrow> s1\<lparr>sh_services := es\<rparr>)"

definition start_users :: "('d, 'e) command" where
  "start_users s = s\<lparr>sh_users := snd (user_create_default_passwords user_init)\<rparr>"

definition start_user_space :: "('d, 'e) platform \<Rightarrow> ('d, 'e) command" where
  "start_user_space pf s =
     (case package_init (files_of (pf_machine pf)) (t_world s) of
        (None, w) \<Rightarrow> stop Faulty (s\<lparr>t_world := w\<rparr>)
      | (Some es, w) \<Rightarrow>
          let s1 = s\<lparr>t_world := w, sh_packages := es\<rparr>
          in case userspace_init (pf_layout pf) (pf_program pf) (pf_code_at pf) (pf_stack_at pf) (sh_vmm s1) of
            Inl msg \<Rightarrow> kernel_panic msg s1
          | Inr (u, m) \<Rightarrow> s1\<lparr>sh_user_space := u, sh_vmm := m\<rparr>)"

definition boot_storage :: "('d, 'e) platform \<Rightarrow> ('d, 'e) command list" where
  "boot_storage pf =
     [init_step ''Probing ATA disk'' ''[init] Probing ATA disk... '' (start_ata pf),
      init_step ''Mounting filesystem'' ''[init] Mounting filesystem... '' (start_fs pf),
      init_step ''Loading configuration'' ''[init] Loading configuration... '' (start_config pf),
      init_step ''Initializing startup services'' ''[init] Initializing startup services... '' start_services,
      init_step ''Initializing user accounts'' ''[init] Initializing user accounts... '' start_users,
      init_step ''Preparing user-space demo'' ''[init] Preparing user-space demo... '' (start_user_space pf)]"

definition boot_prompt_login :: "('d, 'e) command" where
  "boot_prompt_login s =
     (let s1 = say ''[login] password: guest\<newline>'' [] (say ''[login] username: guest\<newline>'' [] s);
          s2 = s1\<lparr>sh_users := user_logout (snd (user_set_active ''guest'' (sh_users s1)))\<rparr>
      in say ''[login] handing off to shell\<newline>'' [] (say ''[login] welcome, guest\<newline>'' [] s2))"

definition boot_complete :: "('d, 'e) command" where
  "boot_complete s =
     log_line LOG_INFO ''Kernel initialization complete''
       (say ''(Phase 3, Feature 28 - Mouse Driver - now active.)\<newline>\<newline>'' []
       (say ''AcharyaOS kernel initialization complete.\<newline>'' []
       (say ''------------------------------------------------\<newline>'' [] s)))"

section \<open>The entry point\<close>

definition boot_phases :: "('d, 'e) platform \<Rightarrow> ('d, 'e) phase list" where
  "boot_phases pf =
     [on_shell boot_output, boot_gdt pf, on_shell boot_text_output] @
     map on_shell (boot_interrupt_lines pf @ boot_graphics pf @ boot_network @
       [init_step ''Starting PIT timer at 100 Hz'' ''[init] Starting PIT timer at 100 Hz... ''
          (on_kernel (start_timer (mc_bus (pf_machine pf)))),
        init_step ''Installing kernel-owned page tables'' ''[init] Installing kernel-owned page tables... ''
          (start_vmm pf)]) @
     [boot_heap pf] @
     map on_shell (boot_tasks pf @ boot_storage pf @ [boot_prompt_login, boot_complete])"

definition boot_phase :: "('d, 'e) phase \<Rightarrow> ('d, 'e) phase" where
  "boot_phase f c = (if con_status (co_shell c) = Running then f c else c)"

definition boot :: "('d, 'e) platform \<Rightarrow> ('d, 'e) phase" where
  "boot pf c = fold boot_phase (boot_phases pf) c"

definition kmain :: "('d, 'e) platform \<Rightarrow> ('d, 'e) phase" where
  "kmain pf c = boot_phase (on_shell (shell_run (pf_machine pf))) (boot pf c)"

section \<open>The reader of the login prompt\<close>

text \<open>
  \<open>boot_readline\<close>, which nothing calls.  It counts the empty polls of the whole
  line and gives up with an empty line at the ten thousandth.
\<close>

definition BOOT_EMPTY_POLLS :: nat where "BOOT_EMPTY_POLLS = 10000"

fun boot_key_loop :: "nat \<Rightarrow> nat \<Rightarrow> int list \<Rightarrow> string \<Rightarrow> string option \<times> con_event list \<times> int list" where
  "boot_key_loop polls max_len [] buf = (None, [], [])"
| "boot_key_loop polls max_len (k # ks) buf =
     (if k < 0 then
        (if polls + 1 \<ge> BOOT_EMPTY_POLLS then (Some [], [Put [LF]], ks)
         else boot_key_loop (polls + 1) max_len ks buf)
      else if k = 10 then (Some buf, [Put [LF]], ks)
      else if k = 8 then
        (if buf \<noteq> []
         then (case boot_key_loop polls max_len ks (butlast buf) of (l, out, rest) \<Rightarrow> (l, Put [CHR 0x08] # out, rest))
         else boot_key_loop polls max_len ks buf)
      else if 32 \<le> k \<and> k \<le> 126 \<and> length buf + 1 < max_len
        then (case boot_key_loop polls max_len ks (buf @ [char_of (nat k)]) of
                (l, out, rest) \<Rightarrow> (l, Put [char_of (nat k)] # out, rest))
        else boot_key_loop polls max_len ks buf)"

definition boot_readline :: "nat \<Rightarrow> 'a console_scheme \<Rightarrow> string option \<times> 'a console_scheme" where
  "boot_readline max_len c =
     (case boot_key_loop 0 max_len (con_in c) [] of
        (l, out, rest) \<Rightarrow>
          (l, c\<lparr>con_in := rest, con_out := con_out c @ out,
               con_status := (if l = None then Waiting else con_status c)\<rparr>))"

end
