(* ===== verification/BootProps.thy ===== *)
theory BootProps
  imports Boot ShellFixed
begin

text \<open>
  The boot as a whole: on a platform whose devices respond, \<open>kmain\<close> reaches the
  shell, with the interrupt state of \<open>boot_interrupts\<close>, the stored configuration
  and packages, and the invariants of its tables, which every session keeps.
\<close>

section \<open>The state during the boot\<close>

text \<open>
  What is known of the machine between two phases: it runs, and the parts of
  its state that later phases use have the given values.
\<close>

definition booting ::
    "'d kernel \<Rightarrow> fs \<times> ata_device_info \<times> 'e \<Rightarrow> config \<Rightarrow> packages \<Rightarrow> vmm \<Rightarrow> (services \<Rightarrow> bool) \<Rightarrow> user_db \<Rightarrow>
     ('d, 'e) shell \<Rightarrow> bool" where
  "booting k w c es m P db s \<longleftrightarrow>
     con_status s = Running \<and> sh_kernel s = k \<and> t_world s = w \<and> sh_config s = c \<and> sh_packages s = es \<and>
     sh_vmm s = m \<and> P (sh_services s) \<and> sh_users s = db \<and> log_inv (sh_log s) \<and> history_ok s"

lemma log_core_inv: "log_inv (log_core l) = log_inv l"
  by (simp add: log_inv_def log_core_def)

named_theorems booting_simps

lemma booting_emit [booting_simps]:
  "booting k w c es m P db (emit ev s) = booting k w c es m P db s"
  "booting k w c es m P db (kio_set_color fg bg s) = booting k w c es m P db s"
  by (simp_all add: booting_def emit_def kio_set_color_def history_ok_def)

lemma booting_say [booting_simps]:
  "CHR ''%'' \<notin> set fmt \<Longrightarrow> booting k w c es m P db (say fmt [] s) = booting k w c es m P db s"
  by (simp add: say_def kprintf_no_args booting_simps)

lemma booting_with_log:
  assumes "booting k w c es m P db s" "log_inv (snd (f ((sh_log s)\<lparr>log_console := []\<rparr>)))"
  shows "booting k w c es m P db (snd (with_log f s))"
  using assms by (simp add: booting_def with_log_def emit_def history_ok_def case_prod_beta)

lemma booting_log_line: "booting k w c es m P db s \<Longrightarrow> booting k w c es m P db (log_line level msg s)"
  unfolding log_line_def by (rule booting_with_log) (simp_all add: booting_def log_write_inv inv_simps)

section \<open>Chains of phases\<close>

definition leads ::
    "(('d, 'e) shell \<Rightarrow> bool) \<Rightarrow> ('d, 'e) phase list \<Rightarrow> (('d, 'e) shell \<Rightarrow> bool) \<Rightarrow> bool" where
  "leads P fs Q \<longleftrightarrow> (\<forall>c. P (co_shell c) \<longrightarrow> Q (co_shell (fold boot_phase fs c)))"

lemma leads_append: "leads P fs R \<Longrightarrow> leads R gs Q \<Longrightarrow> leads P (fs @ gs) Q"
  by (simp add: leads_def)

lemma leads_single:
  assumes "\<And>s. P s \<Longrightarrow> con_status s = Running \<and> Q (f s)"
  shows "leads P [on_shell f] Q"
  using assms by (simp add: leads_def boot_phase_def on_shell_def)

lemma leads_step:
  assumes "CHR ''%'' \<notin> set banner"
    and "\<And>s. booting k w c es m P db s \<Longrightarrow> booting k' w' c' es' m' P' db' (work s)"
  shows "leads (booting k w c es m P db) [on_shell (init_step msg banner work)] (booting k' w' c' es' m' P' db')"
proof (rule leads_single)
  fix s assume s: "booting k w c es m P db s"
  let ?s = "work (say banner [] (log_line LOG_INFO msg s))"
  have "booting k w c es m P db (say banner [] (log_line LOG_INFO msg s))"
    using s assms(1) by (simp add: booting_simps booting_log_line)
  then have b: "booting k' w' c' es' m' P' db' ?s" by (rule assms(2))
  then have "con_status ?s = Running" by (simp add: booting_def)
  then have "booting k' w' c' es' m' P' db' (init_step msg banner work s)"
    using b by (simp add: init_step_def proceed_def booting_simps)
  then show "con_status s = Running \<and> booting k' w' c' es' m' P' db' (init_step msg banner work s)"
    using s by (simp add: booting_def)
qed

lemma leads_command:
  assumes "\<And>s. booting k w c es m P db s \<Longrightarrow> booting k' w' c' es' m' P' db' (f s)"
  shows "leads (booting k w c es m P db) [on_shell f] (booting k' w' c' es' m' P' db')"
  using assms by (intro leads_single) (simp add: booting_def)

text \<open>Only what a phase does to the shell's state matters.\<close>

lemma leads_shell: "(\<And>c. co_shell (f c) = co_shell (g c)) \<Longrightarrow> leads P [g] Q \<Longrightarrow> leads P [f] Q"
proof -
  assume "\<And>c. co_shell (f c) = co_shell (g c)"
  then have "co_shell (boot_phase f c) = co_shell (boot_phase g c)" for c by (simp add: boot_phase_def)
  then show "leads P [g] Q \<Longrightarrow> leads P [f] Q" by (simp add: leads_def)
qed

lemma leads_keep:
  assumes "list_all (\<lambda>f. leads P [f] P) fs"
  shows "leads P fs P"
  using assms
proof (induction fs)
  case (Cons f fs)
  then show ?case using leads_append [of P "[f]" P fs P] by simp
qed (simp add: leads_def)

section \<open>The phases\<close>

lemma on_gui_booting [booting_simps]: "booting k w c es m P db (on_gui f s) = booting k w c es m P db s"
  by (simp add: on_gui_def booting_def history_ok_def)

lemma on_net_booting [booting_simps]: "booting k w c es m P db (on_net f s) = booting k w c es m P db s"
  by (simp add: on_net_def booting_def history_ok_def)

lemma on_kernel_booting: "booting k w c es m P db s \<Longrightarrow> booting (f k) w c es m P db (on_kernel f s)"
  by (simp add: on_kernel_def booting_def history_ok_def)

lemma output_leads:
  "leads (booting k w c es m P db) [on_shell boot_output, boot_gdt pf, on_shell boot_text_output]
    (booting k w c es m P db)"
proof -
  have "booting k w c es m P db (boot_output s)" if "booting k w c es m P db s" for s
  proof -
    have "booting k w c es m P db (s'\<lparr>sh_log := log_init (sh_log s')\<rparr>)" if "booting k w c es m P db s'" for s'
      using that by (auto simp: booting_def history_ok_def log_inv_def log_init_def)
    then show ?thesis
      using that by (simp add: boot_output_def Let_def booting_simps booting_log_line)
  qed
  moreover have "leads (booting k w c es m P db) [boot_gdt pf] (booting k w c es m P db)"
    by (rule leads_shell [of _ "on_shell (init_step ''Loading kernel GDT'' ''[init] Loading kernel GDT... '' (\<lambda>s. s))"])
       (simp add: boot_gdt_def on_shell_def, rule leads_step, simp_all)
  moreover have "booting k w c es m P db (boot_text_output s)" if "booting k w c es m P db s" for s
    using that by (simp add: boot_text_output_def Let_def booting_simps booting_log_line)
  ultimately show ?thesis
    by (intro leads_keep) (simp add: leads_command)
qed

text \<open>The interrupt hardware.\<close>

lemma lines_lead:
  "leads (booting k w c es m P db) (map on_shell (boot_interrupt_lines pf))
     (booting (start_keyboard (mc_bus (pf_machine pf))
        (idt_init (pf_stubs pf) (start_pic (mc_bus (pf_machine pf)) k))) w c es m P db)"
  unfolding boot_interrupt_lines_def Let_def list.map
  by (rule leads_append [of _ "[_]" _ "[_, _]", unfolded append.simps]
        leads_append [of _ "[_]" _ "[_]", unfolded append.simps] leads_step on_kernel_booting | simp)+

lemma start_mouse_booting:
  assumes "mouse_init bus (k_mouse k, k_device k) = Some (mo, d)" "booting k w c es m P db s"
  shows "booting (idt_register_handler 44 MOUSE_HANDLER (k\<lparr>k_mouse := mo, k_device := d\<rparr>)) w c es m P db
    (start_mouse bus s)"
  using assms by (auto simp: start_mouse_def booting_def history_ok_def Let_def)

lemma gui_leads:
  "CHR ''%'' \<notin> set banner \<Longrightarrow>
   leads (booting k w c es m P db) [on_shell (init_step msg banner (\<lambda>s. on_gui (f s) s))] (booting k w c es m P db)"
  by (rule leads_step) (simp_all add: booting_simps)

lemma net_leads:
  "CHR ''%'' \<notin> set banner \<Longrightarrow>
   leads (booting k w c es m P db) [on_shell (init_step msg banner (\<lambda>s. on_net (f s) s))] (booting k w c es m P db)"
  by (rule leads_step) (simp_all add: booting_simps)

lemma graphics_lead:
  assumes "mouse_init (mc_bus (pf_machine pf)) (k_mouse k, k_device k) = Some (mo, d)"
  shows "leads (booting k w c es m P db) (map on_shell (boot_graphics pf))
    (booting (idt_register_handler 44 MOUSE_HANDLER (k\<lparr>k_mouse := mo, k_device := d\<rparr>)) w c es m P db)"
proof -
  let ?k = "idt_register_handler 44 MOUSE_HANDLER (k\<lparr>k_mouse := mo, k_device := d\<rparr>)"
  have split: "map on_shell (boot_graphics pf) =
      take 2 (map on_shell (boot_graphics pf)) @ [map on_shell (boot_graphics pf) ! 2] @
      drop 3 (map on_shell (boot_graphics pf))"
    by (simp add: boot_graphics_def)
  have "leads (booting k w c es m P db) (take 2 (map on_shell (boot_graphics pf))) (booting k w c es m P db)"
    by (rule leads_keep) (simp add: boot_graphics_def gui_leads)
  moreover have "leads (booting k w c es m P db) [map on_shell (boot_graphics pf) ! 2] (booting ?k w c es m P db)"
    by (simp add: boot_graphics_def, rule leads_step) (simp_all add: start_mouse_booting [OF assms])
  moreover have "leads (booting ?k w c es m P db) (drop 3 (map on_shell (boot_graphics pf))) (booting ?k w c es m P db)"
    by (rule leads_keep) (simp add: boot_graphics_def gui_leads)
  ultimately show ?thesis by (subst split) (blast intro: leads_append)
qed

lemma network_leads:
  "leads (booting k w c es m P db) (map on_shell boot_network) (booting k w c es m P db)"
  by (rule leads_keep) (simp add: boot_network_def net_leads)

text \<open>Memory.\<close>

lemma vmm_leads:
  assumes "layout_ok (pf_layout pf)"
  shows "leads (booting k w c es m P db)
    [on_shell (init_step ''Installing kernel-owned page tables'' ''[init] Installing kernel-owned page tables... ''
       (start_vmm pf))]
    (booting k w c es (vmm_init (pf_layout pf)) P db)"
proof (rule leads_step)
  have "vmm_self_test (pf_layout pf) (vmm_init (pf_layout pf))" by (rule self_test_passes) (rule vmm_init_inv)
  then show "booting k w c es (vmm_init (pf_layout pf)) P db (start_vmm pf s)" if "booting k w c es m P db s" for s
    using that by (simp add: start_vmm_def Let_def booting_def history_ok_def)
qed simp

lemma heap_leads:
  assumes "0 < pf_kernel_end pf" "unat (pf_kernel_end pf) + 1060864 \<le> 2 ^ 64"
  shows "leads (booting k w c es m P db) [boot_heap pf] (booting k w c es m P db)"
proof -
  have "leads (booting k w c es m P db)
      [\<lambda>c. on_shell (init_step ''Starting early kernel heap'' ''[init] Starting early kernel heap... ''
        (\<lambda>s. s\<lparr>sh_heap := fst (snd (kheap_self_test (kheap_init (pf_kernel_end pf)) (co_memory c)))\<rparr>)) c]
      (booting k w c es m P db)"
  proof -
    have "leads (booting k w c es m P db) [on_shell (init_step ''Starting early kernel heap'' ''[init] Starting early kernel heap... ''
        (\<lambda>s. s\<lparr>sh_heap := h\<rparr>))] (booting k w c es m P db)" for h
      by (rule leads_step) (simp_all add: booting_def history_ok_def)
    then show ?thesis by (simp add: leads_def boot_phase_def)
  qed
  then show ?thesis
    by (rule leads_shell [rotated]) (simp add: boot_heap_def on_shell_def case_prod_beta kheap_self_test_passes [OF assms])
qed

text \<open>Tasks and storage.\<close>

lemma tasks_lead:
  "leads (booting k w c es m P db) (map on_shell (boot_tasks pf))
     (booting (syscall_init (pf_stubs pf) (start_processes (k\<lparr>k_sched := scheduler_init\<rparr>))) w c es m P db)"
  unfolding boot_tasks_def list.map
  by (rule leads_append [of _ "[_]" _ "[_, _]", unfolded append.simps]
        leads_append [of _ "[_]" _ "[_]", unfolded append.simps] leads_step on_kernel_booting | simp)+

lemma apply_loglevel_inv [simp]: "log_inv (apply_loglevel c l) = log_inv l"
  by (simp add: apply_loglevel_def inv_simps split: prod.split option.split)

lemma disk_leads:
  "leads (booting k (f, info, e) c es m P db) (map on_shell (take 2 (boot_storage pf)))
     (booting k (fs_init (disk_of (pf_machine pf)) (ata_init (mc_disk (pf_machine pf)) e)) c es m P db)"
proof -
  have "leads (booting k (f, info, e) c es m P db)
      [on_shell (init_step ''Probing ATA disk'' ''[init] Probing ATA disk... '' (start_ata pf))]
      (booting k (f, ata_init (mc_disk (pf_machine pf)) e) c es m P db)"
    by (rule leads_step) (simp_all add: start_ata_def booting_def history_ok_def)
  moreover have "leads (booting k (f, s) c es m P db)
      [on_shell (init_step ''Mounting filesystem'' ''[init] Mounting filesystem... '' (start_fs pf))]
      (booting k (fs_init (disk_of (pf_machine pf)) s) c es m P db)" for s
    by (rule leads_step) (simp_all add: start_fs_def booting_def history_ok_def)
  ultimately show ?thesis
    using leads_append [of _ "[_]" _ "[_]"] by (fastforce simp: boot_storage_def)
qed

lemma config_leads:
  assumes "config_init (files_of (pf_machine pf)) c w = (Some c', w')"
  shows "leads (booting k w c es m P db) [on_shell (boot_storage pf ! 2)] (booting k w' c' es m P db)"
  using assms
  by (simp add: boot_storage_def, intro leads_step) (simp_all add: start_config_def booting_def history_ok_def)

lemma startup_log_inv: "log_inv l \<Longrightarrow> svc_ok ss \<Longrightarrow> log_inv (snd (service_startup_all tick (ss, l)))"
proof -
  have "log_inv (snd st) \<Longrightarrow> log_inv (snd (startup_step tick i st))" for i st
    by (cases st) (simp add: startup_step_def service_start_def service_mark_running_def service_run_hook_def
        log_write_inv split: option.split)
  then have "log_inv (snd st) \<Longrightarrow> log_inv (snd (fold (startup_step tick) is st))" for st "is"
    by (induction "is" arbitrary: st) simp_all
  then show "log_inv l \<Longrightarrow> log_inv (snd (service_startup_all tick (ss, l)))" by (simp add: service_startup_all_def)
qed

text \<open>The services after the boot: those of the initial table, all started.\<close>

definition services_up :: "services \<Rightarrow> bool" where
  "services_up ss \<longleftrightarrow> svc_ok ss \<and>
     svc_map ss = [''logger'' \<mapsto> (True, True), ''clock'' \<mapsto> (True, True), ''shell-ready'' \<mapsto> (True, True)]"

lemma services_lead:
  "leads (booting k w c es m P db) [on_shell (boot_storage pf ! 3)] (booting k w c es m services_up db)"
proof -
  have "snd (svc_spec StartupAll builtin_services) =
      [''logger'' \<mapsto> (True, True), ''clock'' \<mapsto> (True, True), ''shell-ready'' \<mapsto> (True, True)]"
    by (intro ext) (simp add: builtin_services_def)
  then have up: "services_up (fst (service_startup_all tick (service_init, l)))" for tick l
    using startup_implements [OF service_init_ok(1), of tick l] service_init_ok(2)
    by (auto simp: implements_def services_up_def split: prod.splits)
  show ?thesis
  proof (simp add: boot_storage_def, rule leads_step)
    fix s assume s: "booting k w c es m P db s"
    then have "log_inv (snd (service_startup_all (tick_now s) (service_init, (sh_log s)\<lparr>log_console := []\<rparr>)))"
      by (intro startup_log_inv) (simp_all add: booting_def inv_simps service_init_ok)
    then show "booting k w c es m services_up db (start_services s)"
      using s up by (simp add: start_services_def with_log_def booting_def history_ok_def emit_def case_prod_beta)
  qed simp
qed

lemma users_lead:
  "leads (booting k w c es m P db) [on_shell (boot_storage pf ! 4)]
     (booting k w c es m P (snd (user_create_default_passwords user_init)))"
  by (simp add: boot_storage_def, rule leads_step) (simp_all add: start_users_def booting_def history_ok_def)

lemma user_space_leads:
  assumes "package_init (files_of (pf_machine pf)) w = (Some es', w')"
    and "userspace_init (pf_layout pf) (pf_program pf) (pf_code_at pf) (pf_stack_at pf) m = Inr (u, m')"
  shows "leads (booting k w c es m P db) [on_shell (boot_storage pf ! 5)] (booting k w' c es' m' P db)"
  using assms
  by (simp add: boot_storage_def, intro leads_step) (simp_all add: start_user_space_def booting_def history_ok_def)

definition boot_user :: user_db where
  "boot_user = user_run [DefaultPasswords, user_op.SetActive ''guest'', Logout]"

lemma login_leads:
  "leads (booting k w c es m P (snd (user_create_default_passwords user_init)))
     (map on_shell [boot_prompt_login, boot_complete]) (booting k w c es m P boot_user)"
proof -
  have up: "booting k w c es m P db' (s\<lparr>sh_users := db'\<rparr>)" if "booting k w c es m P db s" for s db db'
    using that by (simp add: booting_def history_ok_def)
  have "booting k w c es m P boot_user (boot_prompt_login s)"
    if "booting k w c es m P (snd (user_create_default_passwords user_init)) s" for s
  proof -
    let ?s = "say ''[login] password: guest\<newline>'' [] (say ''[login] username: guest\<newline>'' [] s)"
    have b: "booting k w c es m P (snd (user_create_default_passwords user_init)) ?s"
      using that by (simp add: booting_simps)
    then have "sh_users ?s = snd (user_create_default_passwords user_init)" by (simp add: booting_def)
    then have "user_logout (snd (user_set_active ''guest'' (sh_users ?s))) = boot_user"
      by (simp add: boot_user_def user_run_def)
    then show ?thesis using up [OF b] by (simp add: boot_prompt_login_def Let_def booting_simps)
  qed
  moreover have "booting k w c es m P boot_user (boot_complete s)" if "booting k w c es m P boot_user s" for s
    using that by (simp add: boot_complete_def booting_simps booting_log_line)
  ultimately have "leads (booting k w c es m P (snd (user_create_default_passwords user_init)))
      ([on_shell boot_prompt_login] @ [on_shell boot_complete]) (booting k w c es m P boot_user)"
    by (intro leads_append [of _ _ "booting k w c es m P boot_user"] leads_command)
  then show ?thesis by simp
qed

section \<open>The whole boot\<close>

lemma interrupt_chain:
  assumes "boot_interrupts bus stubs k0 = Some k"
    and "k3 = start_keyboard bus (idt_init stubs (start_pic bus k0))"
  obtains mo d where "mouse_init bus (k_mouse k3, k_device k3) = Some (mo, d)"
    "k = syscall_init stubs (start_processes ((start_timer bus
       (idt_register_handler 44 MOUSE_HANDLER (k3\<lparr>k_mouse := mo, k_device := d\<rparr>)))\<lparr>k_sched := scheduler_init\<rparr>))"
  using assms
  by (auto simp: boot_interrupts_def start_pic_def start_keyboard_def start_timer_def start_processes_def Let_def
      idt_register_handler_def split: option.splits prod.splits)

text \<open>The configuration before it is loaded, and the disk and file system as found.\<close>

definition image_config :: config where
  "image_config = \<lparr>config_entries = replicate CONFIG_ENTRY_MAX zero_config_entry,
     config_file_name = copy_text (zbuf FS_NAME_MAX) CONFIG_FILE_NAME\<rparr>"

definition storage_found :: "('d, 'e) platform \<Rightarrow> 'e \<Rightarrow> fs \<times> ata_device_info \<times> 'e" where
  "storage_found pf e = fs_init (disk_of (pf_machine pf)) (ata_init (mc_disk (pf_machine pf)) e)"

text \<open>What the platform must provide: room, alignment, and devices that answer.\<close>

definition platform_ok :: "('d, 'e) platform \<Rightarrow> bool" where
  "platform_ok pf \<longleftrightarrow> layout_ok (pf_layout pf) \<and> 0 < pf_kernel_end pf \<and> unat (pf_kernel_end pf) + 1060864 \<le> 2 ^ 64 \<and>
     length (pf_program pf) \<le> PAGE_BYTES \<and> pf_code_at pf mod 0x200000 = 0 \<and> pf_code_at pf < 0x10000000000000 \<and>
     pf_stack_at pf mod 0x200000 = 0 \<and> pf_stack_at pf < 0x10000000000000"

lemma user_space_set_up:
  assumes "platform_ok pf"
  obtains u m where "userspace_init (pf_layout pf) (pf_program pf) (pf_code_at pf) (pf_stack_at pf)
      (vmm_init (pf_layout pf)) = Inr (u, m)" "vmm_inv (pf_layout pf) m"
proof -
  have l: "layout_ok (pf_layout pf)" using assms unfolding platform_ok_def by blast
  have "layout_ok (pf_layout pf)" "pf_code_at pf mod 0x200000 = 0" "pf_code_at pf < 0x10000000000000"
      "pf_stack_at pf mod 0x200000 = 0" "pf_stack_at pf < 0x10000000000000"
    using assms unfolding platform_ok_def by blast+
  then obtain m1 m2 where m: "vmm_map_user_2m (pf_layout pf) USER_CODE_VADDR (pf_code_at pf) (vmm_init (pf_layout pf)) = (0, m1)"
      "vmm_map_user_2m (pf_layout pf) USER_STACK_VADDR (pf_stack_at pf) m1 = (0, m2)"
    by (rule user_pages_mapped)
  have "vmm_inv (pf_layout pf) m1" using map_user_inv [OF l vmm_init_inv] m(1) by (metis snd_conv)
  then have "vmm_inv (pf_layout pf) m2" using map_user_inv [OF l] m(2) by (metis snd_conv)
  moreover note m
  moreover have "length (pf_program pf) \<le> PAGE_BYTES" using assms unfolding platform_ok_def by blast
  ultimately show thesis using that by (simp add: userspace_init_def)
qed

lemma storage_leads:
  assumes c: "config_init (files_of (pf_machine pf)) c0 (storage_found pf e) = (Some c, w1)"
    and es: "package_init (files_of (pf_machine pf)) w1 = (Some es, w2)"
    and u: "userspace_init (pf_layout pf) (pf_program pf) (pf_code_at pf) (pf_stack_at pf) m0 = Inr (u, m)"
  shows "leads (booting k (f, info, e) c0 es0 m0 P db) (map on_shell (boot_storage pf))
    (booting k w2 c es m services_up (snd (user_create_default_passwords user_init)))"
proof -
  have split: "map on_shell (boot_storage pf) = map on_shell (take 2 (boot_storage pf)) @
      [on_shell (boot_storage pf ! 2)] @ [on_shell (boot_storage pf ! 3)] @ [on_shell (boot_storage pf ! 4)] @
      [on_shell (boot_storage pf ! 5)]"
    by (simp add: boot_storage_def)
  show ?thesis
    unfolding split
    by (rule leads_append [OF disk_leads leads_append [OF config_leads [OF c [unfolded storage_found_def]]
          leads_append [OF services_lead leads_append [OF users_lead user_space_leads [OF es u]]]]])
qed

lemma boot_leads:
  assumes pf: "platform_ok pf"
    and k: "boot_interrupts (mc_bus (pf_machine pf)) (pf_stubs pf) k0 = Some k"
    and c: "config_init (files_of (pf_machine pf)) c0 (storage_found pf e) = (Some c, w1)"
    and es: "package_init (files_of (pf_machine pf)) w1 = (Some es, w2)"
  shows "\<exists>m. vmm_inv (pf_layout pf) m \<and> leads (booting k0 (fs_clear_cache, no_ata, e) c0 es0 m0 P db) (boot_phases pf)
    (booting k w2 c es m services_up boot_user)"
proof -
  let ?bus = "mc_bus (pf_machine pf)"
  let ?k3 = "start_keyboard ?bus (idt_init (pf_stubs pf) (start_pic ?bus k0))"
  obtain mo d where mo: "mouse_init ?bus (k_mouse ?k3, k_device ?k3) = Some (mo, d)"
    and kk: "k = syscall_init (pf_stubs pf) (start_processes ((start_timer ?bus
       (idt_register_handler 44 MOUSE_HANDLER (?k3\<lparr>k_mouse := mo, k_device := d\<rparr>)))\<lparr>k_sched := scheduler_init\<rparr>))"
    using interrupt_chain [OF k refl] .
  obtain u m where um: "userspace_init (pf_layout pf) (pf_program pf) (pf_code_at pf) (pf_stack_at pf)
      (vmm_init (pf_layout pf)) = Inr (u, m)" and inv: "vmm_inv (pf_layout pf) m"
    using user_space_set_up [OF pf] .
  have timer: "leads (booting k w c es m P db)
      [on_shell (init_step ''Starting PIT timer at 100 Hz'' ''[init] Starting PIT timer at 100 Hz... ''
         (on_kernel (start_timer ?bus)))] (booting (start_timer ?bus k) w c es m P db)" for k :: "'a kernel" and w c es m P db
    by (rule leads_step) (simp_all add: on_kernel_booting)
  have lay: "layout_ok (pf_layout pf)" and top: "0 < pf_kernel_end pf" "unat (pf_kernel_end pf) + 1060864 \<le> 2 ^ 64"
    using pf by (simp_all add: platform_ok_def)
  have phases: "boot_phases pf = [on_shell boot_output, boot_gdt pf, on_shell boot_text_output] @
      map on_shell (boot_interrupt_lines pf) @ map on_shell (boot_graphics pf) @ map on_shell boot_network @
      [on_shell (init_step ''Starting PIT timer at 100 Hz'' ''[init] Starting PIT timer at 100 Hz... ''
         (on_kernel (start_timer ?bus)))] @
      [on_shell (init_step ''Installing kernel-owned page tables'' ''[init] Installing kernel-owned page tables... ''
         (start_vmm pf))] @ [boot_heap pf] @ map on_shell (boot_tasks pf) @ map on_shell (boot_storage pf) @
      map on_shell [boot_prompt_login, boot_complete]"
    by (simp add: boot_phases_def)
  show ?thesis
    unfolding phases kk
    by (rule exI [of _ m], rule conjI [OF inv], rule leads_append [OF output_leads leads_append [OF lines_lead leads_append [OF graphics_lead [OF mo]
          leads_append [OF network_leads leads_append [OF timer leads_append [OF vmm_leads [OF lay]
          leads_append [OF heap_leads [OF top] leads_append [OF tasks_lead leads_append [OF storage_leads [OF c es um]
          login_leads]]]]]]]]])
qed

section \<open>The tables of the screen and of the network\<close>

text \<open>
  These two parts of the state are set up by phases of their own.  The chain
  below follows them alone, through the phases that run.
\<close>

definition displaying :: "(files_view \<Rightarrow> udp \<Rightarrow> bool) \<Rightarrow> ('d, 'e) shell \<Rightarrow> bool" where
  "displaying P s \<longleftrightarrow> (con_status s = Running \<longrightarrow> P (sh_gui s) (sh_net s))"

named_theorems display_simps

lemma display_terminal [display_simps]:
  fixes s :: "('d, 'e) shell"
  shows "sh_gui (emit ev s) = sh_gui s" "sh_net (emit ev s) = sh_net s"
    "sh_gui (stop st s) = sh_gui s" "sh_net (stop st s) = sh_net s"
    "sh_gui (kio_set_color a b s) = sh_gui s" "sh_net (kio_set_color a b s) = sh_net s"
  by (simp_all add: emit_def stop_def kio_set_color_def)

lemma display_text [display_simps]:
  fixes s :: "('d, 'e) shell"
  shows "sh_gui (say fmt args s) = sh_gui s" "sh_net (say fmt args s) = sh_net s"
    "sh_gui (snd (with_log f s)) = sh_gui s" "sh_net (snd (with_log f s)) = sh_net s"
    "sh_gui (log_line level msg s) = sh_gui s" "sh_net (log_line level msg s) = sh_net s"
  by (simp_all add: say_def with_log_def log_line_def display_simps split: option.split prod.split)

lemma display_work [display_simps]:
  "sh_gui (on_kernel f s) = sh_gui s" "sh_net (on_kernel f s) = sh_net s"
  "sh_gui (start_mouse bus s) = sh_gui s" "sh_net (start_mouse bus s) = sh_net s"
  "sh_gui (start_vmm pf s) = sh_gui s" "sh_net (start_vmm pf s) = sh_net s"
  "sh_gui (start_ata pf s) = sh_gui s" "sh_net (start_ata pf s) = sh_net s"
  "sh_gui (start_fs pf s) = sh_gui s" "sh_net (start_fs pf s) = sh_net s"
  "sh_gui (start_config pf s) = sh_gui s" "sh_net (start_config pf s) = sh_net s"
  "sh_gui (start_services s) = sh_gui s" "sh_net (start_services s) = sh_net s"
  "sh_gui (start_users s) = sh_gui s" "sh_net (start_users s) = sh_net s"
  "sh_gui (start_user_space pf s) = sh_gui s" "sh_net (start_user_space pf s) = sh_net s"
  by (simp_all add: on_kernel_def start_mouse_def start_vmm_def kernel_panic_def start_ata_def start_fs_def
      start_config_def start_services_def start_users_def start_user_space_def with_log_def Let_def display_simps
      split: option.split prod.split sum.split)

lemma display_ends [display_simps]:
  "sh_gui (boot_output s) = sh_gui s" "sh_net (boot_output s) = sh_net s"
  "sh_gui (boot_text_output s) = sh_gui s" "sh_net (boot_text_output s) = sh_net s"
  "sh_gui (boot_prompt_login s) = sh_gui s" "sh_net (boot_prompt_login s) = sh_net s"
  "sh_gui (boot_complete s) = sh_gui s" "sh_net (boot_complete s) = sh_net s"
  by (simp_all add: boot_output_def boot_text_output_def boot_prompt_login_def boot_complete_def Let_def display_simps)

lemma display_step [display_simps]:
  "sh_gui (init_step msg banner work s) = sh_gui (work (say banner [] (log_line LOG_INFO msg s)))"
  "sh_net (init_step msg banner work s) = sh_net (work (say banner [] (log_line LOG_INFO msg s)))"
  by (simp_all add: init_step_def proceed_def display_simps)

lemma display_phase:
  assumes "\<And>c. co_shell (f c) = work (co_shell c)"
    and "\<And>s. P (sh_gui s) (sh_net s) \<Longrightarrow> Q (sh_gui (work s)) (sh_net (work s))"
  shows "leads (displaying P) [f] (displaying Q)"
  using assms by (simp add: leads_def boot_phase_def displaying_def)

lemma display_keep: "(\<And>s. sh_gui (f s) = sh_gui s \<and> sh_net (f s) = sh_net s) \<Longrightarrow> leads (displaying P) [on_shell f] (displaying P)"
  by (rule display_phase [of _ f]) (simp_all add: on_shell_def)

lemma display_keeps: "list_all (\<lambda>f. \<forall>s. sh_gui (f s) = sh_gui s \<and> sh_net (f s) = sh_net s) fs \<Longrightarrow>
    leads (displaying P) (map on_shell fs) (displaying P)"
  by (rule leads_keep) (auto simp: list_all_iff intro: display_keep)

lemma graphics_display:
  "leads (displaying (\<lambda>g n. g = image_gui \<and> n = image_net)) (map on_shell (boot_graphics pf))
     (displaying (\<lambda>g n. gui_ok g \<and> n = image_net))"
proof -
  have split: "map on_shell (boot_graphics pf) = [on_shell (boot_graphics pf ! 0)] @ [on_shell (boot_graphics pf ! 1)] @
      [on_shell (boot_graphics pf ! 2)] @ [on_shell (boot_graphics pf ! 3)] @ [on_shell (boot_graphics pf ! 4)] @
      [on_shell (boot_graphics pf ! 5)] @ [on_shell (boot_graphics pf ! 6)] @ [on_shell (boot_graphics pf ! 7)]"
    by (simp add: boot_graphics_def)
  let ?g = "menu_init (btn_init (wm_init (fb_init image_gui)))"
  have step: "leads (displaying (\<lambda>g n. P g \<and> n = image_net)) [on_shell (boot_graphics pf ! i)]
      (displaying (\<lambda>g n. Q g \<and> n = image_net))"
    if "\<And>s. P (sh_gui s) \<Longrightarrow> Q (sh_gui ((boot_graphics pf ! i) s))" "\<And>s. sh_net ((boot_graphics pf ! i) s) = sh_net s" for P Q i
    using that by (intro display_phase [of _ "boot_graphics pf ! i"]) (simp_all add: on_shell_def)
  have img: "length (fb_backing image_gui) = 64000" by (simp add: image_gui_def fb_zero_def fb_consts)
  have "leads (displaying (\<lambda>g n. g = image_gui \<and> n = image_net)) [on_shell (boot_graphics pf ! 0)]
      (displaying (\<lambda>g n. g = fb_init image_gui \<and> n = image_net))"
    "leads (displaying (\<lambda>g n. g = fb_init image_gui \<and> n = image_net)) [on_shell (boot_graphics pf ! 1)]
      (displaying (\<lambda>g n. g = wm_init (fb_init image_gui) \<and> n = image_net))"
    "leads (displaying (\<lambda>g n. g = wm_init (fb_init image_gui) \<and> n = image_net)) [on_shell (boot_graphics pf ! 2)]
      (displaying (\<lambda>g n. g = wm_init (fb_init image_gui) \<and> n = image_net))"
    "leads (displaying (\<lambda>g n. g = wm_init (fb_init image_gui) \<and> n = image_net)) [on_shell (boot_graphics pf ! 3)]
      (displaying (\<lambda>g n. g = btn_init (wm_init (fb_init image_gui)) \<and> n = image_net))"
    "leads (displaying (\<lambda>g n. g = btn_init (wm_init (fb_init image_gui)) \<and> n = image_net)) [on_shell (boot_graphics pf ! 4)]
      (displaying (\<lambda>g n. g = ?g \<and> n = image_net))"
    "leads (displaying (\<lambda>g n. g = ?g \<and> n = image_net)) [on_shell (boot_graphics pf ! 5)]
      (displaying (\<lambda>g n. g = start_desktop ?g \<and> n = image_net))"
    "leads (displaying (\<lambda>g n. g = start_desktop ?g \<and> n = image_net)) [on_shell (boot_graphics pf ! 6)]
      (displaying (\<lambda>g n. (\<exists>c. g = settings_init c (start_desktop ?g)) \<and> n = image_net))"
    "leads (displaying (\<lambda>g n. (\<exists>c. g = settings_init c (start_desktop ?g)) \<and> n = image_net)) [on_shell (boot_graphics pf ! 7)]
      (displaying (\<lambda>g n. gui_ok g \<and> n = image_net))"
    by (rule step; auto simp: boot_graphics_def on_gui_def start_desktop_def display_simps gui_boots [OF img])+
  then show ?thesis unfolding split by (blast intro: leads_append)
qed

lemma network_display:
  "leads (displaying (\<lambda>g n. gui_ok g \<and> n = image_net)) (map on_shell (boot_network :: ('d, 'e) command list))
     (displaying (\<lambda>g n. gui_ok g \<and> net_ok n))"
proof -
  let ?bn = "boot_network :: ('d, 'e) command list"
  have split: "map on_shell ?bn = [on_shell (?bn ! 0)] @ [on_shell (?bn ! 1)] @
      [on_shell (?bn ! 2)] @ [on_shell (?bn ! 3)] @ [on_shell (?bn ! 4)]"
    by (simp add: boot_network_def)
  have step: "leads (displaying (\<lambda>g n. gui_ok g \<and> P n)) [on_shell (?bn ! i)] (displaying (\<lambda>g n. gui_ok g \<and> Q n))"
    if "\<And>s. P (sh_net s) \<Longrightarrow> Q (sh_net ((?bn ! i) s))" "\<And>s. sh_gui ((?bn ! i) s) = sh_gui s" for P Q i
    using that by (intro display_phase [of _ "?bn ! i"]) (simp_all add: on_shell_def)
  have "leads (displaying (\<lambda>g n. gui_ok g \<and> n = image_net)) [on_shell (?bn ! 0)]
      (displaying (\<lambda>g n. gui_ok g \<and> n = eth_init image_net))"
    "leads (displaying (\<lambda>g n. gui_ok g \<and> n = eth_init image_net)) [on_shell (?bn ! 1)]
      (displaying (\<lambda>g n. gui_ok g \<and> (\<exists>t. n = arp_init t (eth_init image_net))))"
    "leads (displaying (\<lambda>g n. gui_ok g \<and> (\<exists>t. n = arp_init t (eth_init image_net)))) [on_shell (?bn ! 2)]
      (displaying (\<lambda>g n. gui_ok g \<and> (\<exists>t. n = ipv4_init (arp_init t (eth_init image_net)))))"
    "leads (displaying (\<lambda>g n. gui_ok g \<and> (\<exists>t. n = ipv4_init (arp_init t (eth_init image_net))))) [on_shell (?bn ! 3)]
      (displaying (\<lambda>g n. gui_ok g \<and> (\<exists>t. n = icmp_init (ipv4_init (arp_init t (eth_init image_net))))))"
    "leads (displaying (\<lambda>g n. gui_ok g \<and> (\<exists>t. n = icmp_init (ipv4_init (arp_init t (eth_init image_net)))))) [on_shell (?bn ! 4)]
      (displaying (\<lambda>g n. gui_ok g \<and> net_ok n))"
    by (rule step; auto simp: boot_network_def on_net_def display_simps net_boots)+
  then show ?thesis unfolding split by (blast intro: leads_append)
qed

lemma heap_display: "leads (displaying P) [boot_heap pf] (displaying P)"
  by (auto simp: leads_def boot_phase_def displaying_def boot_heap_def on_shell_def kernel_panic_def display_simps
      split: prod.split)

lemma boot_display:
  "leads (displaying (\<lambda>g n. g = image_gui \<and> n = image_net)) (boot_phases pf) (displaying (\<lambda>g n. gui_ok g \<and> net_ok n))"
proof -
  have phases: "boot_phases pf = [on_shell boot_output] @ [boot_gdt pf] @ map on_shell (boot_text_output # boot_interrupt_lines pf) @
      map on_shell (boot_graphics pf) @ map on_shell boot_network @
      map on_shell [init_step ''Starting PIT timer at 100 Hz'' ''[init] Starting PIT timer at 100 Hz... ''
         (on_kernel (start_timer (mc_bus (pf_machine pf)))),
       init_step ''Installing kernel-owned page tables'' ''[init] Installing kernel-owned page tables... '' (start_vmm pf)] @
      [boot_heap pf] @ map on_shell (boot_tasks pf @ boot_storage pf @ [boot_prompt_login, boot_complete])"
    by (simp add: boot_phases_def)
  have gdt: "leads (displaying P) [boot_gdt pf] (displaying P)" for P
    by (rule display_phase [of _ "init_step ''Loading kernel GDT'' ''[init] Loading kernel GDT... '' (\<lambda>s. s)"])
       (simp_all add: boot_gdt_def on_shell_def display_simps)
  have out: "leads (displaying P) [on_shell boot_output] (displaying P)" for P
    by (rule display_keep) (simp add: display_simps)
  have lines: "leads (displaying P) (map on_shell (boot_text_output # boot_interrupt_lines pf)) (displaying P)" for P
    by (rule display_keeps) (simp add: boot_interrupt_lines_def Let_def display_simps)
  have timer: "leads (displaying P) (map on_shell [init_step ''Starting PIT timer at 100 Hz'' ''[init] Starting PIT timer at 100 Hz... ''
         (on_kernel (start_timer (mc_bus (pf_machine pf)))),
       init_step ''Installing kernel-owned page tables'' ''[init] Installing kernel-owned page tables... '' (start_vmm pf)])
      (displaying P)" for P
    by (rule display_keeps) (simp add: display_simps)
  have rest: "leads (displaying P) (map on_shell (boot_tasks pf @ boot_storage pf @ [boot_prompt_login, boot_complete])) (displaying P)" for P
    by (rule display_keeps) (simp add: boot_tasks_def boot_storage_def display_simps)
  show ?thesis
    unfolding phases
    by (rule leads_append [OF out leads_append [OF gdt leads_append [OF lines leads_append [OF graphics_display
          leads_append [OF network_display leads_append [OF timer leads_append [OF heap_display rest]]]]]]])
qed

section \<open>Tables after the boot\<close>

lemma image_booting:
  "booting (image_kernel d texts) (fs_clear_cache, no_ata, e) image_config (replicate PACKAGE_ENTRY_MAX zero_package)
     \<lparr>kernel_pml4 = empty_table, kernel_pdpt = empty_table, kernel_pd = empty_table,
       user_pdpt = empty_table, user_pd = empty_table, mapped_pages = 0, cr3 = 0\<rparr> (\<lambda>_. True)
     \<lparr>users = replicate USER_ENTRY_MAX zero_user, active_uid = 0, authenticated = False\<rparr>
     (co_shell (program_image d e texts gdt mem keys))"
  by (simp add: booting_def program_image_def image_config_def image_log_def log_inv_def history_ok_def shell_consts
      LOG_BUFFER_MAX_def LOG_MESSAGE_MAX_def list_all_length)

lemma load_packages_rows: "packages_ok es \<Longrightarrow> packages_ok (load_packages t es)"
proof (induction t es rule: load_packages.induct)
  case (1 t es)
  then show ?case
    by (subst load_packages.simps) (auto simp: packages_ok_store Let_def split: prod.split option.split)
qed

lemma package_init_rows: "package_init api w = (Some es, w') \<Longrightarrow> packages_ok es"
proof -
  have "packages_ok package_clear_entries"
    by (simp add: package_clear_entries_def packages_ok_def package_row_ok_def zero_package_def list_all_length
        PACKAGE_ENTRY_MAX_def PACKAGE_NAME_MAX_def PACKAGE_VERSION_MAX_def PACKAGE_FILE_MAX_def)
  then show "package_init api w = (Some es, w') \<Longrightarrow> packages_ok es"
    by (auto simp: package_init_def package_load_index_def load_packages_rows split: prod.splits read_result.splits)
qed

lemma boot_result:
  assumes "platform_ok pf"
    and "boot_interrupts (mc_bus (pf_machine pf)) (pf_stubs pf) (image_kernel d texts) = Some k"
    and "config_init (files_of (pf_machine pf)) image_config (storage_found pf e) = (Some c, w1)"
    and "package_init (files_of (pf_machine pf)) w1 = (Some es, w2)"
  obtains m where "booting k w2 c es m services_up boot_user (co_shell (boot pf (program_image d e texts gdt mem keys)))"
    "vmm_inv (pf_layout pf) m"
    "gui_ok (sh_gui (co_shell (boot pf (program_image d e texts gdt mem keys))))"
    "net_ok (sh_net (co_shell (boot pf (program_image d e texts gdt mem keys))))"
proof -
  let ?c = "program_image d e texts gdt mem keys"
  obtain m where m: "booting k w2 c es m services_up boot_user (co_shell (boot pf ?c))" "vmm_inv (pf_layout pf) m"
    using boot_leads [OF assms] image_booting [of d texts e gdt mem keys] unfolding leads_def boot_def by blast
  have "displaying (\<lambda>g n. g = image_gui \<and> n = image_net) (co_shell ?c)" by (simp add: displaying_def program_image_def)
  then have "displaying (\<lambda>g n. gui_ok g \<and> net_ok n) (co_shell (boot pf ?c))"
    using boot_display [of pf] unfolding leads_def boot_def by blast
  then show thesis using m by (intro that) (simp_all add: displaying_def booting_def)
qed

lemma booted_inv:
  assumes "boot_interrupts bus stubs k0 = Some k" "config_init api c0 w = (Some c, w1)"
    "package_init api w1 = (Some es, w2)" "booting k w2 c es m services_up boot_user s"
    "gui_ok (sh_gui s)" "net_ok (sh_net s)"
  shows "kernel_inv s"
proof -
  have "config_rows_ok c"
    using assms(2) config_load_rows by (fastforce simp: config_init_def split: prod.splits)
  then show ?thesis
    using assms boot_procs [OF assms(1)] package_init_rows [OF assms(3)] user_run_inv
    by (simp add: booting_def kernel_inv_def services_up_def boot_user_def)
qed

lemma boot_user_guest:
  "user_get_active_name boot_user (zbuf USER_NAME_MAX) = (0, copy_text (zbuf USER_NAME_MAX) ''guest'')"
  "\<not> authenticated boot_user"
  by code_simp+

section \<open>A platform for evaluation\<close>

text \<open>An empty disk connector: every port reads zero.\<close>

definition no_disk :: "unit port_bus" where
  "no_disk = \<lparr>inb = (\<lambda>p d. (0, d)), outb = (\<lambda>p v d. d), insw = (\<lambda>p d. (0, d)), outsw = (\<lambda>p v d. d)\<rparr>"

definition demo_platform :: "(board, unit) platform" where
  "demo_platform =
     \<lparr>pf_machine = \<lparr>mc_bus = board_bus, mc_disk = no_disk, mc_syscall_text = 0x1000\<rparr>,
      pf_stubs = (\<lambda>v. 0x100000 + 16 * ucast v), pf_tss_at = 0x20000, pf_tss_stack_at = 0x21000, pf_gdt_at = 0x22000,
      pf_layout = demo_layout, pf_kernel_end = 0x345678, pf_program = [0x0F, 0x05],
      pf_code_at = 0x600000, pf_stack_at = 0x800000\<rparr>"

lemma demo_platform_ok: "platform_ok demo_platform"
proof -
  have "unat (0x345678 :: u64) + 1060864 \<le> 2 ^ 64" by simp
  moreover have "(0x600000 :: u64) mod 0x200000 = 0" "(0x800000 :: u64) mod 0x200000 = 0" by code_simp+
  ultimately show ?thesis using demo_layout_ok by (simp add: platform_ok_def demo_platform_def PAGE_BYTES_def)
qed

lemma demo_interrupts:
  "\<exists>k. boot_interrupts (mc_bus (pf_machine demo_platform)) (pf_stubs demo_platform)
     (image_kernel (k_device board_kernel) (k_memory board_kernel)) = Some k"
  by (simp add: demo_platform_def boot_interrupts_def mouse_init_def mouse_write_def board_waits Let_def split_beta)

lemma demo_storage: "storage_found demo_platform () = (fs_clear_cache, no_ata, ())"
  by (simp add: storage_found_def demo_platform_def disk_of_def fs_init_def ata_blockdev_def ata_init_def
      ata_get_info_def no_ata_def ata_identify_def no_disk_def Let_def)

lemma no_files: "fa_read (fs_api dev) name n (fs_clear_cache, x) = (ReadFailed, (fs_clear_cache, x))"
  by (simp add: fs_api_def fs_read_file_def fs_clear_cache_def zero_info_def)

lemma demo_files:
  "\<exists>c. config_init (files_of (pf_machine demo_platform)) image_config (fs_clear_cache, no_ata, ()) =
     (Some c, (fs_clear_cache, no_ata, ()))"
  "package_init (files_of (pf_machine demo_platform)) (fs_clear_cache, no_ata, ()) =
     (Some package_clear_entries, (fs_clear_cache, no_ata, ()))"
  by (simp_all add: config_init_def config_load_def package_init_def package_load_index_def files_of_def no_files Let_def)

lemma demo_assumptions:
  obtains k c where "boot_interrupts (mc_bus (pf_machine demo_platform)) (pf_stubs demo_platform)
      (image_kernel (k_device board_kernel) (k_memory board_kernel)) = Some k"
    "config_init (files_of (pf_machine demo_platform)) image_config (storage_found demo_platform ()) =
      (Some c, (fs_clear_cache, no_ata, ()))"
  using demo_interrupts demo_files(1) demo_storage by metis

lemma demo_boots: "\<exists>s :: (board, unit) shell. kernel_inv s \<and> sh_users s = boot_user"
proof -
  obtain k c where b: "boot_interrupts (mc_bus (pf_machine demo_platform)) (pf_stubs demo_platform)
      (image_kernel (k_device board_kernel) (k_memory board_kernel)) = Some k"
    "config_init (files_of (pf_machine demo_platform)) image_config (storage_found demo_platform ()) =
      (Some c, (fs_clear_cache, no_ata, ()))"
    by (rule demo_assumptions)
  obtain s :: "(board, unit) shell" and m where s: "booting k (fs_clear_cache, no_ata, ()) c package_clear_entries m services_up boot_user s"
      "gui_ok (sh_gui s)" "net_ok (sh_net s)"
    using boot_result [OF demo_platform_ok b demo_files(2)] by metis
  have "kernel_inv s" by (rule booted_inv [OF b demo_files(2) s])
  then show ?thesis using s(1) by (auto simp: booting_def)
qed

section \<open>Properties\<close>

text \<open>C5. The kernel boots.  On a platform with room for its tables, heap and user program, whose
mouse controller answers and whose configuration and package files fit their buffers, \<open>kmain\<close> reaches
the shell running: the interrupt hardware, timer, scheduler and processes are those of
\<open>boot_interrupts\<close>, the configuration and the packages are those found on the disk, the three
built-in services are enabled and running, the guest account is active without a login, and the
tables of the shell's record satisfy their invariant \<open>kernel_inv\<close>.\<close>

theorem kernel_boots:
  assumes "platform_ok pf"
    and "boot_interrupts (mc_bus (pf_machine pf)) (pf_stubs pf) (image_kernel d texts) = Some k"
    and "config_init (files_of (pf_machine pf)) image_config (storage_found pf e) = (Some c, w1)"
    and "package_init (files_of (pf_machine pf)) w1 = (Some es, w2)"
    and "s = co_shell (boot pf (program_image d e texts gdt mem keys))"
  shows "con_status s = Running \<and> sh_kernel s = k \<and> sh_config s = c \<and> sh_packages s = es \<and> t_world s = w2 \<and>
    svc_map (sh_services s) = [''logger'' \<mapsto> (True, True), ''clock'' \<mapsto> (True, True), ''shell-ready'' \<mapsto> (True, True)] \<and>
    user_get_active_name (sh_users s) (zbuf USER_NAME_MAX) = (0, copy_text (zbuf USER_NAME_MAX) ''guest'') \<and>
    \<not> authenticated (sh_users s) \<and> kernel_inv s"
proof -
  obtain m where b: "booting k w2 c es m services_up boot_user s" and t: "gui_ok (sh_gui s)" "net_ok (sh_net s)"
    using boot_result [OF assms(1-4)] assms(5) by metis
  then show ?thesis
    using booted_inv [OF assms(2-4) b t] boot_user_guest by (simp add: booting_def services_up_def)
qed

lemma kernel_boots_witness:
  "con_status (co_shell (boot demo_platform (program_image (k_device board_kernel) ()
     (k_memory board_kernel) (gdt_init 0 0 0) (\<lambda>_. 0) []))) = Running"
proof -
  obtain k c where b: "boot_interrupts (mc_bus (pf_machine demo_platform)) (pf_stubs demo_platform)
      (image_kernel (k_device board_kernel) (k_memory board_kernel)) = Some k"
    "config_init (files_of (pf_machine demo_platform)) image_config (storage_found demo_platform ()) =
      (Some c, (fs_clear_cache, no_ata, ()))"
    by (rule demo_assumptions)
  show ?thesis
    using kernel_boots [OF demo_platform_ok b demo_files(2) refl] by blast
qed

text \<open>C2. The kernel's tables stay well formed.  From that boot on, whatever is typed at the shell,
including sessions of the editor and the browser, input that ends in the middle and commands that
halt the machine, these tables keep their form: the user table its unique uids and one active
enabled account; the service, configuration, package and log tables their sizes and terminated
texts; the process table its correspondence with the scheduler's tasks; the history its sixteen
rows; the window, button, menu and icon tables their sizes, unique identifiers and counters, and the
framebuffer and settings panels their sizes; the socket table its unique ports, the address cache
one entry per address, and the routes their number.  The page tables are those the boot built, which
map the kernel's memory onto itself, and the heap, the interrupt descriptors and their handlers are
as the boot left them.  The directory is not among them: what the disk holds is the subject of the
file system's properties.  A session is followed up to the first step that the C code leaves
undefined, such as printing the address cache with \<open>arp\<close>; the model stops there.\<close>

theorem sessions_keep_tables:
  assumes "platform_ok pf"
    and "boot_interrupts (mc_bus (pf_machine pf)) (pf_stubs pf) (image_kernel d texts) = Some k"
    and "config_init (files_of (pf_machine pf)) image_config (storage_found pf e) = (Some c, w1)"
    and "package_init (files_of (pf_machine pf)) w1 = (Some es, w2)"
    and "c0 = program_image d e texts gdt mem keys"
    and "booted = co_shell (boot pf c0)" and "s = co_shell (kmain pf c0)"
  shows "kernel_inv s \<and> vmm_inv (pf_layout pf) (sh_vmm s) \<and> sh_vmm s = sh_vmm booted \<and> sh_heap s = sh_heap booted \<and>
    k_idt (sh_kernel s) = k_idt k \<and> k_handlers (sh_kernel s) = k_handlers k"
proof -
  obtain m where b: "booting k w2 c es m services_up boot_user booted" and v: "vmm_inv (pf_layout pf) m"
    and t: "gui_ok (sh_gui booted)" "net_ok (sh_net booted)"
    using boot_result [OF assms(1-4)] assms(5,6) by metis
  have "s = (if con_status booted = Running then shell_run (pf_machine pf) booted else booted)"
    using assms(6,7) by (simp add: kmain_def boot_phase_def on_shell_def)
  moreover have "kernel_inv booted" by (rule booted_inv [OF assms(2-4) b t])
  ultimately have "kernel_inv s" "fixed_tables s = fixed_tables booted"
    by (simp_all add: keeps.run_keeps fixed.run_keeps)
  then show ?thesis using b v by (simp add: fixed_tables_def booting_def)
qed

lemma sessions_keep_tables_witness:
  "kernel_inv (co_shell (kmain demo_platform (program_image (k_device board_kernel) ()
     (k_memory board_kernel) (gdt_init 0 0 0) (\<lambda>_. 0) (map (int \<circ> of_char) (''adduser eve Eve'' @ [CHR 0x0A])))))"
proof -
  obtain k c where b: "boot_interrupts (mc_bus (pf_machine demo_platform)) (pf_stubs demo_platform)
      (image_kernel (k_device board_kernel) (k_memory board_kernel)) = Some k"
    "config_init (files_of (pf_machine demo_platform)) image_config (storage_found demo_platform ()) =
      (Some c, (fs_clear_cache, no_ata, ()))"
    by (rule demo_assumptions)
  show ?thesis using sessions_keep_tables [OF demo_platform_ok b demo_files(2) refl refl refl] by blast
qed

end
