(* ===== verification/ShellHistory.thy ===== *)
theory ShellHistory
  imports BootProps
begin

text \<open>
  What a line means to the shell: the history ring and its recall by number, and
  the dispatch of a line by its first word.
\<close>

section \<open>The history ring\<close>

definition history_list :: "('d, 'e) shell \<Rightarrow> string list" where
  "history_list s = map cstr (ring_list (sh_history s) (sh_history_next s) (sh_history_count s))"

definition history_line :: "char list \<Rightarrow> string" where
  "history_line line = take (SHELL_LINE_MAX - 1) (cstr line)"

interpretation hist: overwriting_ring 16 "history_ok :: ('d, 'e) shell \<Rightarrow> bool" history_list history_line history_store
proof
  fix s :: "('d, 'e) shell" and line
  assume ok: "history_ok s"
  let ?row = "sh_history s ! sh_history_next s" and ?s = "history_store line s"
  have len: "length ?row = 128" using ok by (simp add: history_ok_def list_all_length)
  then have ne: "?row \<noteq> []" by auto
  show "history_ok ?s"
    using ok len by (auto simp: history_ok_def history_store_def shell_consts intro!: list_all_update)
  have "history_list ?s = map cstr (last_n 16 (ring_list (sh_history s) (sh_history_next s) (sh_history_count s) @
      [copy_text ?row line]))"
    using ring_list_push [of 16 "sh_history s" "sh_history_next s" "sh_history_count s" "copy_text ?row line"] ok
    by (simp add: history_list_def history_store_def history_ok_def shell_consts)
  also have "\<dots> = last_n 16 (history_list s @ [cstr (copy_text ?row line)])"
    by (simp add: last_n_def drop_map history_list_def)
  also have "cstr (copy_text ?row line) = history_line line"
    using len ne by (simp add: cstr_copy_text history_line_def shell_consts)
  finally show "history_list ?s = last_n 16 (history_list s @ [history_line line])" .
next
  fix s :: "('d, 'e) shell"
  assume "history_ok s"
  then show "length (history_list s) \<le> 16" by (simp add: history_list_def history_ok_def)
qed

lemma history_adds:
  "fold shell_history_add ls s = fold history_store (filter (\<lambda>l. cget l 0 \<noteq> NUL) ls) s"
  by (induction ls arbitrary: s) (simp_all add: shell_history_add_def)

lemma history_clear: "history_ok (shell_history_clear s)" "history_list (shell_history_clear s) = []"
  by (simp_all add: history_ok_def history_list_def shell_history_clear_def shell_consts list_all_length ring_list_def)

text \<open>The history a list of lines leaves.\<close>

definition history_of :: "char list list \<Rightarrow> string list" where
  "history_of ls = last_n 16 (map history_line (filter (\<lambda>l. cget l 0 \<noteq> NUL) ls))"

lemma history_after:
  "history_ok (fold shell_history_add ls (shell_history_clear s))"
  "history_list (fold shell_history_add ls (shell_history_clear s)) = history_of ls"
  using hist.fold_push_inv [OF history_clear(1)] hist.fold_push_contents [OF history_clear(1)]
  by (simp_all add: history_adds history_clear history_of_def)

lemma history_get:
  assumes "history_ok s"
  shows "map_option cstr (shell_history_get i s) = (if i < length (history_list s) then Some (history_list s ! i) else None)"
    and "sh_history_count s = length (history_list s)"
proof -
  have "((sh_history_next s + 16 - sh_history_count s) mod 16 + i) mod 16 = (sh_history_next s + 16 - sh_history_count s + i) mod 16"
    by (simp add: mod_add_left_eq)
  then show "map_option cstr (shell_history_get i s) = (if i < length (history_list s) then Some (history_list s ! i) else None)"
    using assms by (simp add: shell_history_get_def history_list_def ring_list_nth history_ok_def Let_def shell_consts)
qed (simp add: history_list_def)

text \<open>What an expansion shows of the entry it takes.\<close>

definition expanded_text :: "char list + bool \<times> char list \<Rightarrow> string + bool \<times> string" where
  "expanded_text r = map_sum id (\<lambda>(b, e). (b, cstr e)) r"

lemma expand_last:
  assumes "history_ok s"
  shows "expanded_text (expand_line ''!!'' s) =
    (if history_list s = [] then Inl ''history empty\<newline>'' else Inr (True, last (history_list s)))"
proof -
  let ?H = "history_list s"
  have "strcmp (skip_spaces ''!!'') ''!!'' = 0" by (simp add: skip_spaces_def strcmp_0_iff)
  moreover have "map_option cstr (shell_history_get (length ?H - 1) s) = (if ?H = [] then None else Some (last ?H))"
    using history_get(1) [OF assms, of "length ?H - 1"] by (simp add: last_conv_nth)
  ultimately show ?thesis
    using history_get(2) [OF assms]
    by (auto simp: expand_line_def expanded_text_def Let_def split: option.splits if_splits)
qed

definition digits :: "char list \<Rightarrow> bool" where
  "digits ds \<longleftrightarrow> ds \<noteq> [] \<and> list_all (\<lambda>c. 48 \<le> uchar c \<and> uchar c \<le> 57) ds"

lemma expand_number:
  assumes "history_ok s" "digits ds"
  shows "expanded_text (expand_line (CHR ''!'' # ds) s) =
    (let n = unat (history_number ds) in
     if n = 0 \<or> length (history_list s) < n then Inl ''history entry not found\<newline>''
     else Inr (True, history_list s ! (n - 1)))"
proof -
  let ?H = "history_list s" and ?n = "unat (history_number ds)"
  obtain d ds' where ds: "ds = d # ds'" "48 \<le> uchar d" "uchar d \<le> 57" using assms(2) by (cases ds) (auto simp: digits_def)
  have "uchar CHR ''!'' = 33" by (simp add: uchar_def)
  then have "d \<noteq> CHR ''!''" using ds by auto
  then have "strcmp (CHR ''!'' # ds) ''!!'' \<noteq> 0" using ds by (auto simp: strcmp_0_iff cstr_Cons)
  moreover have "skip_spaces (CHR ''!'' # ds) = CHR ''!'' # ds" by (simp add: skip_spaces_def)
  moreover have "cget (CHR ''!'' # ds) 1 = d" using ds by simp
  moreover have "map_option cstr (shell_history_get (?n - 1) s) = (if ?n - 1 < length ?H then Some (?H ! (?n - 1)) else None)"
    by (rule history_get(1) [OF assms(1)])
  ultimately show ?thesis
    using ds history_get(2) [OF assms(1)]
    by (auto simp: expand_line_def expanded_text_def Let_def unat_eq_zero [symmetric] split: option.splits if_splits)
qed

section \<open>Dispatch by the first word\<close>

definition first_word :: "char list \<Rightarrow> string" where
  "first_word line = takeWhile (\<lambda>c. c \<noteq> CHR '' '') (cstr line)"

fun command_word :: "command_test \<Rightarrow> string" where
  "command_word (Exact w) = w"
| "command_word (Word w) = w"

fun takes_arguments :: "command_test \<Rightarrow> bool" where
  "takes_arguments (Exact w) = False"
| "takes_arguments (Word w) = True"

definition plain_word :: "string \<Rightarrow> bool" where
  "plain_word w \<longleftrightarrow> list_all (\<lambda>c. c \<noteq> NUL \<and> c \<noteq> CHR '' '') w"

lemma first_word_simps [simp]:
  "first_word [] = []"
  "first_word (c # l) = (if c = NUL \<or> c = CHR '' '' then [] else c # first_word l)"
  by (simp_all add: first_word_def cstr_Cons)

lemma first_word_chars:
  "plain_word w \<Longrightarrow>
   (\<forall>j < length w. cget line j = w ! j) \<and> (cget line (length w) = NUL \<or> cget line (length w) = CHR '' '') \<longleftrightarrow>
   first_word line = w"
proof (induction w arbitrary: line)
  case Nil
  then show ?case by (cases line) auto
next
  case (Cons c w)
  then have c: "c \<noteq> NUL" "c \<noteq> CHR '' ''" "plain_word w" by (simp_all add: plain_word_def)
  show ?case
  proof (cases line)
    case Nil
    then show ?thesis using c by auto
  next
    case (Cons x l)
    then show ?thesis using Cons.IH [OF c(3), of l] c by (auto simp: less_Suc_eq_0_disj)
  qed
qed

lemma cstr_plain: "plain_word w \<Longrightarrow> cstr w = w"
  by (simp add: cstr_def plain_word_def list_all_iff)

lemma starts_with_word_iff:
  assumes "plain_word w"
  shows "starts_with_word line w \<longleftrightarrow> first_word line = w"
proof -
  have "strlen w = length w" using cstr_plain [OF assms] by simp
  moreover have "cget w j = w ! j" if "j < length w" for j using that by (simp add: cget_def)
  ultimately have "starts_with_word line w \<longleftrightarrow>
      (\<forall>j < length w. cget line j = w ! j) \<and> (cget line (length w) = NUL \<or> cget line (length w) = CHR '' '')"
    by (simp add: starts_with_word_def Let_def memcmp_def memcmp_loop_0_iff cong: conj_cong)
  then show ?thesis by (simp only: first_word_chars [OF assms])
qed

lemma test_line_iff:
  assumes "plain_word (command_word t)"
  shows "test_line line t \<longleftrightarrow> first_word line = command_word t \<and> (takes_arguments t \<or> cstr line = command_word t)"
proof (cases t)
  case (Exact w)
  have "first_word line = w" if "cstr line = w"
    using assms that Exact by (simp add: first_word_def plain_word_def takeWhile_eq_all_conv list_all_iff)
  then show ?thesis using Exact assms by (auto simp: test_line_def strcmp_0_iff cstr_plain)
next
  case (Word w)
  then show ?thesis using assms by (simp add: test_line_def starts_with_word_iff)
qed

lemma command_words:
  "distinct (map (command_word \<circ> fst) (shell_commands mc))"
  "list_all (plain_word \<circ> command_word \<circ> fst) (shell_commands mc)"
  unfolding shell_commands_def by (simp, simp add: plain_word_def)

text \<open>The reference: the table as a map from words.\<close>

definition command_of ::
    "('d, 'e) machine \<Rightarrow> string \<Rightarrow> (command_test \<times> (char list \<Rightarrow> ('d, 'e) command)) option" where
  "command_of mc w = map_of (map (\<lambda>e. (command_word (fst e), e)) (shell_commands mc)) w"

lemma find_by_key:
  assumes "distinct (map f xs)" "\<And>x. x \<in> set xs \<Longrightarrow> P x \<longleftrightarrow> f x = k \<and> Q x"
  shows "find P xs = (case map_of (map (\<lambda>x. (f x, x)) xs) k of None \<Rightarrow> None | Some x \<Rightarrow> if Q x then Some x else None)"
  using assms
proof (induction xs)
  case (Cons x xs)
  have "map_of (map (\<lambda>x. (f x, x)) xs) k = None" if "f x = k"
    using Cons.prems(1) that by (auto simp: map_of_eq_None_iff image_iff)
  then show ?case using Cons by (auto split: option.split)
qed simp

lemma dispatch_lookup:
  "shell_dispatch mc line s =
     (case command_of mc (first_word line) of
        None \<Rightarrow> cmd_unknown line s
      | Some (t, act) \<Rightarrow> if takes_arguments t \<or> cstr line = command_word t then act line s else cmd_unknown line s)"
proof -
  have "find (\<lambda>(t, _). test_line line t) (shell_commands mc) =
      (case command_of mc (first_word line) of None \<Rightarrow> None
       | Some e \<Rightarrow> if takes_arguments (fst e) \<or> cstr line = command_word (fst e) then Some e else None)"
    unfolding command_of_def
  proof (rule find_by_key)
    show "distinct (map (\<lambda>e. command_word (fst e)) (shell_commands mc))"
      using command_words(1) [of mc] by (simp add: comp_def)
    fix e assume "e \<in> set (shell_commands mc)"
    then have "plain_word (command_word (fst e))" using command_words(2) [of mc] by (auto simp: list_all_iff)
    then show "(case e of (t, _) \<Rightarrow> test_line line t) \<longleftrightarrow>
        command_word (fst e) = first_word line \<and> (takes_arguments (fst e) \<or> cstr line = command_word (fst e))"
      by (cases e) (auto simp: test_line_iff)
  qed
  then show ?thesis by (auto simp: shell_dispatch_def split: option.splits)
qed

lemma command_su: "command_of mc ''su'' = Some (Word ''su'', cmd_su)"
  unfolding command_of_def shell_commands_def by simp

section \<open>Properties\<close>

text \<open>C21. The history.  After any lines have been remembered, the history holds the last sixteen of
those that are not empty, each cut to 127 characters, oldest first; asking for an entry by its
position gives that line or nothing, \<open>!!\<close> expands to the last one, and an exclamation mark with a
number to the entry of that number, both with a message when there is none.\<close>

theorem history_recalls_last_16:
  assumes "s' = fold shell_history_add ls (shell_history_clear s)" and "digits ds"
  shows "history_list s' = history_of ls \<and> sh_history_count s' = length (history_of ls) \<and>
    map_option cstr (shell_history_get i s') = (if i < length (history_of ls) then Some (history_of ls ! i) else None) \<and>
    expanded_text (expand_line ''!!'' s') =
      (if history_of ls = [] then Inl ''history empty\<newline>'' else Inr (True, last (history_of ls))) \<and>
    expanded_text (expand_line (CHR ''!'' # ds) s') =
      (let n = unat (history_number ds) in
       if n = 0 \<or> length (history_of ls) < n then Inl ''history entry not found\<newline>''
       else Inr (True, history_of ls ! (n - 1)))"
proof -
  note h = history_after [of ls s, folded assms(1)]
  show ?thesis
    unfolding h(2) [symmetric]
    using history_get [OF h(1)] expand_last [OF h(1)] expand_number [OF h(1) assms(2)] by simp
qed

lemma history_recalls_last_16_witness:
  "\<exists>s :: (unit, unit) shell. history_list s = [''ls'', ''ps''] \<and>
     expanded_text (expand_line ''!!'' s) = Inr (True, ''ps'') \<and>
     expanded_text (expand_line ''!1'' s) = Inr (True, ''ls'')"
proof -
  obtain s :: "(unit, unit) shell" where s: "s = fold shell_history_add [''ls'', [], ''ps''] (shell_history_clear undefined)"
    by blast
  have d: "digits ''1''" by (simp add: digits_def uchar_def)
  have h: "history_of [''ls'', [], ''ps''] = [''ls'', ''ps'']"
    by (simp add: history_of_def history_line_def last_n_def cstr_Cons shell_consts)
  have n: "unat (history_number ''1'') = 1" by (simp add: history_number_def uchar_def)
  show ?thesis
    using history_recalls_last_16 [OF s d, of 0] unfolding h n by (intro exI [of _ s]) simp
qed

text \<open>C16. Dispatch.  The chain of comparisons acts as one lookup of the line's first word in the
table of commands: no command is shadowed by an earlier one, a command with arguments takes the
rest of the line, a command without them must be the whole line, and everything else is unknown.\<close>

theorem dispatch_by_first_word:
  "shell_dispatch mc line s =
     (case command_of mc (first_word line) of
        None \<Rightarrow> cmd_unknown line s
      | Some (t, act) \<Rightarrow> if takes_arguments t \<or> cstr line = command_word t then act line s else cmd_unknown line s)"
  by (rule dispatch_lookup)

text \<open>A line that begins with a space is unknown.  The line is compared as it was typed, so a
command typed after a space, whatever it is, is reported as unknown.\<close>

theorem leading_space_is_unknown:
  assumes "cget line 0 = CHR '' ''" "cget (skip_spaces line) 0 \<notin> {NUL, CHR ''!''}"
  shows "shell_execute mc line s =
    proceed (\<lambda>s. if remembered (take 127 (cstr line)) line then shell_history_add line s else s)
      (cmd_unknown (take 127 (cstr line)) s)"
proof -
  have "strcmp (skip_spaces line) ''!!'' \<noteq> 0"
    using assms(2) by (cases "skip_spaces line") (auto simp: strcmp_0_iff cstr_Cons)
  then have e: "expand_line line s = Inr (False, line)" using assms(2) by (simp add: expand_line_def Let_def)
  obtain l where "line = CHR '' '' # l" using assms(1) by (cases line) auto
  then have "first_word (take 127 (cstr line)) = []" by (simp add: cstr_Cons)
  moreover have "command_of mc [] = None" unfolding command_of_def shell_commands_def by simp
  ultimately have "shell_dispatch mc (take 127 (cstr line)) s = cmd_unknown (take 127 (cstr line)) s"
    by (simp add: dispatch_lookup)
  then show ?thesis using e assms by (simp add: shell_execute_def Let_def shell_consts)
qed

lemma leading_space_is_unknown_witness:
  "\<forall>(mc :: (unit, unit) machine) s. shell_execute mc '' help'' s =
     proceed (shell_history_add '' help'') (cmd_unknown '' help'' s)"
proof (intro allI)
  fix mc :: "(unit, unit) machine" and s
  have w: "cget '' help'' 0 = CHR '' ''" "cget (skip_spaces '' help'') 0 \<notin> {NUL, CHR ''!''}"
    by (simp_all add: skip_spaces_def)
  have "take 127 (cstr '' help'') = '' help''" "remembered '' help'' '' help''"
    by (simp_all add: cstr_Cons remembered_def strcmp_0_iff)
  then show "shell_execute mc '' help'' s = proceed (shell_history_add '' help'') (cmd_unknown '' help'' s)"
    using leading_space_is_unknown [OF w, of mc s] by simp
qed

text \<open>C34. Switching users asks for no password.  From any well-formed state, \<open>su\<close> with the name of
any enabled account, the administrators among them, makes that account the active user, whoever was
active before, and leaves the login flag as it was.\<close>

theorem su_needs_no_password:
  assumes "kernel_inv s" and "plain_word name" "name \<noteq> []"
    and "user_find (users (sh_users s)) name = Some i" "enabled (users (sh_users s) ! i)"
  shows "let s' = shell_dispatch mc (''su '' @ name) s in
    con_out s' = con_out s @ [Put (''active user is now '' @ name @ [CHR 0x0A])] \<and>
    user_get_active (sh_users s') = Some (users (sh_users s) ! i) \<and>
    authenticated (sh_users s') = authenticated (sh_users s)"
proof -
  obtain c n where name: "name = c # n" "c \<noteq> NUL" "c \<noteq> CHR '' ''"
    using assms(2,3) by (cases name) (auto simp: plain_word_def)
  have "first_word (''su '' @ name) = ''su''" by simp
  then have d: "shell_dispatch mc (''su '' @ name) s = cmd_su (''su '' @ name) s"
    by (simp add: dispatch_lookup command_su)
  let ?db = "(sh_users s)\<lparr>active_uid := uid (users (sh_users s) ! i)\<rparr>"
  have "skip_spaces (drop 2 (''su '' @ name)) = name" using name by (simp add: skip_spaces_def)
  then have c: "cmd_su (''su '' @ name) s = say ''active user is now %s\<newline>'' [KStr name] (s\<lparr>sh_users := ?db\<rparr>)"
    using assms(4,5) name by (simp add: cmd_su_def on_user_def user_set_active_def)
  have out: "kprintf ''active user is now %s\<newline>'' [KStr name] = Some (''active user is now '' @ name @ [CHR 0x0A])"
    using cstr_plain [OF assms(2)] by (simp add: kputs_def)
  have inv: "user_inv (sh_users s)" by (rule kernel_invD(1) [OF assms(1)])
  then have tab: "user_table_ok (users ?db)" by (simp add: user_inv_def)
  have "is_active ?db i" using found_slot [OF _ assms(4)] inv assms(5) by (simp add: is_active_def user_inv_def)
  then have "user_get_active ?db = Some (users (sh_users s) ! i)" using active_user [OF tab] by simp
  moreover have "shell_dispatch mc (''su '' @ name) s =
      emit (Put (''active user is now '' @ name @ [CHR 0x0A])) (s\<lparr>sh_users := ?db\<rparr>)"
    by (simp only: d c say_def out option.case)
  ultimately show ?thesis by (simp add: emit_def)
qed

lemma su_needs_no_password_witness:
  "\<exists>s :: (board, unit) shell. \<not> authenticated (sh_users s) \<and> user_get_active_name (sh_users s) (zbuf USER_NAME_MAX) =
       (0, copy_text (zbuf USER_NAME_MAX) ''guest'') \<and>
     (let s' = shell_dispatch (pf_machine demo_platform) ''su root'' s in
        map_option role (user_get_active (sh_users s')) = Some USER_ROLE_ADMIN \<and> \<not> authenticated (sh_users s'))"
proof -
  obtain s :: "(board, unit) shell" where s: "kernel_inv s" "sh_users s = boot_user" using demo_boots by blast
  have w: "plain_word ''root''" "''root'' \<noteq> []" by (simp_all add: plain_word_def)
  have f: "user_find (users boot_user) ''root'' = Some 0" "enabled (users boot_user ! 0)"
      "role (users boot_user ! 0) = USER_ROLE_ADMIN"
    by code_simp+
  have "user_get_active (sh_users (shell_dispatch (pf_machine demo_platform) ''su root'' s)) = Some (users boot_user ! 0)"
      "\<not> authenticated (sh_users (shell_dispatch (pf_machine demo_platform) ''su root'' s))"
    using su_needs_no_password [OF s(1) w, unfolded s(2), OF f(1,2), of "pf_machine demo_platform"] boot_user_guest(2)
    by (simp_all add: Let_def)
  then show ?thesis using s(2) f(3) boot_user_guest by (intro exI [of _ s]) simp
qed

end
