(* ===== verification/Typing.thy ===== *)
theory Typing
  imports ShellHistory Keyboard
begin

text \<open>
  From scan codes to commands: the keyboard driver's interrupt handler fills a
  ring, the shell polls it, edits a line and executes it.  The keyboard's queue
  and the line reader are composed here into what the person at the keyboard
  sees, the text between two presses of the enter key.
\<close>

section \<open>Editing a line\<close>

text \<open>
  The reference for the line reader works on characters alone: a backspace takes
  the last character back, a tab is a space where tabs are taken, a printable
  character is appended while there is room, anything else does nothing.
\<close>

abbreviation BS :: char where "BS \<equiv> CHR 0x08"
abbreviation TAB :: char where "TAB \<equiv> CHR 0x09"

definition key_text :: "bool \<Rightarrow> char \<Rightarrow> char" where
  "key_text tabs c = (if tabs \<and> c = TAB then CHR '' '' else c)"

definition edit_char :: "bool \<Rightarrow> nat \<Rightarrow> string \<Rightarrow> char \<Rightarrow> string" where
  "edit_char tabs n buf c =
     (if c = BS then butlast buf
      else if printable (key_text tabs c) \<and> length buf + 1 < n then buf @ [key_text tabs c] else buf)"

definition edited :: "bool \<Rightarrow> nat \<Rightarrow> string \<Rightarrow> string" where
  "edited tabs n cs = foldl (edit_char tabs n) [] cs"

text \<open>What appears while the characters are typed: the kept ones and the effective backspaces.\<close>

fun echoed :: "bool \<Rightarrow> nat \<Rightarrow> string \<Rightarrow> string \<Rightarrow> string list" where
  "echoed tabs n buf [] = [[LF]]"
| "echoed tabs n buf (c # cs) =
     (let buf' = edit_char tabs n buf c in
      (if buf' = buf then [] else if c = BS then [[BS]] else [[key_text tabs c]]) @ echoed tabs n buf' cs)"

lemma edited_plain:
  "list_all printable cs \<Longrightarrow> length buf + length cs < n \<Longrightarrow> foldl (edit_char tabs n) buf cs = buf @ cs"
proof (induction cs arbitrary: buf)
  case (Cons c cs)
  have "\<not> printable BS" "\<not> printable TAB" by (simp_all add: printable_def uchar_def)
  then have "c \<noteq> BS" "key_text tabs c = c" using Cons.prems(1) by (auto simp: key_text_def)
  then show ?case using Cons by (simp add: edit_char_def)
qed simp

text \<open>The polls that returned a character.\<close>

definition presses :: "int list \<Rightarrow> int list" where
  "presses rs = filter (\<lambda>r. 0 \<le> r) rs"

lemma presses_simps [simp]:
  "presses [] = []" "presses (r # rs) = (if 0 \<le> r then r # presses rs else presses rs)"
  by (simp_all add: presses_def)

lemma ascii_char:
  assumes "uchar c < 128"
  shows "schar c = uchar c" "char_of (nat (uchar c)) = c"
  using assms by (simp_all add: schar_def uchar_def)

lemma uchar_eq: "uchar c = uchar d \<longleftrightarrow> c = d"
  by (simp add: uchar_def)

lemma uchar_control: "uchar c = 10 \<longleftrightarrow> c = LF" "uchar c = 8 \<longleftrightarrow> c = BS" "uchar c = 9 \<longleftrightarrow> c = TAB"
  using uchar_eq [of c LF] uchar_eq [of c BS] uchar_eq [of c TAB] by (simp_all add: uchar_def)

lemma butlast_same: "butlast xs = xs \<longleftrightarrow> xs = []"
  by (cases xs rule: rev_cases) simp_all

lemma space_char: "char_of (32 :: nat) = CHR '' ''"
  by code_simp

text \<open>The line reader follows the reference on the characters it is given.\<close>

lemma key_loop_edits:
  assumes "presses ks = map schar (cs @ LF # later)" "LF \<notin> set cs" "\<forall>c \<in> set cs. uchar c < 128"
  shows "\<exists>rest. key_loop tabs n ks buf =
      (Some (foldl (edit_char tabs n) buf cs), map Put (echoed tabs n buf cs), rest) \<and>
    presses rest = map schar later"
  using assms
proof (induction ks arbitrary: buf cs)
  case (Cons k ks)
  show ?case
  proof (cases "k < 0")
    case True
    then show ?thesis using Cons.IH [of cs buf] Cons.prems by simp
  next
    case False
    show ?thesis
    proof (cases cs)
      case Nil
      then have "k = 10" "presses ks = map schar later" using Cons.prems(1) False by (simp_all add: schar_def uchar_def)
      then show ?thesis using Nil by simp
    next
      case list: (Cons c cs')
      then have c: "uchar c < 128" "c \<noteq> LF" using Cons.prems list by auto
      have k: "k = uchar c" "presses ks = map schar (cs' @ LF # later)"
        using Cons.prems(1) list False by (simp_all add: ascii_char [OF c(1)])
      let ?buf = "edit_char tabs n buf c" and ?ch = "if tabs \<and> k = 9 then 32 else k"
      obtain rest where IH: "key_loop tabs n ks ?buf =
          (Some (foldl (edit_char tabs n) ?buf cs'), map Put (echoed tabs n ?buf cs'), rest)"
        "presses rest = map schar later"
        using Cons.IH [OF k(2), of ?buf] Cons.prems list by auto
      have ch: "?ch = uchar (key_text tabs c)" "char_of (nat ?ch) = key_text tabs c"
        using c(1) ascii_char(2) [OF c(1)] space_char unfolding k(1) uchar_control
        by (simp_all add: key_text_def uchar_def)
      have fits: "32 \<le> ?ch \<and> ?ch \<le> 126 \<and> length buf + 1 < n \<longleftrightarrow> printable (key_text tabs c) \<and> length buf + 1 < n"
        unfolding ch(1) printable_def by simp
      have "k \<noteq> 10" using c(2) k(1) uchar_control(1) by simp
      moreover have "k = 8 \<longleftrightarrow> c = BS" using k(1) uchar_control(2) by simp
      ultimately have "key_loop tabs n (k # ks) buf =
          (case key_loop tabs n ks ?buf of (l, out, r) \<Rightarrow>
            (l, (if ?buf = buf then [] else [Put (if c = BS then [BS] else [key_text tabs c])]) @ out, r))"
        using False fits ch(2) by (auto simp: edit_char_def butlast_same Let_def split: prod.split)
      then show ?thesis using IH list by (auto simp: Let_def)
    qed
  qed
qed simp

section \<open>From the keyboard to the shell\<close>

text \<open>The prompt only prints, whatever the configuration says it is.\<close>

lemma prompt_prints:
  "\<exists>out. shell_print_prompt s = s\<lparr>con_out := con_out s @ out\<rparr>"
proof -
  have u: "say ''%s@'' [KStr x] c = emit (Put (cstr x @ ''@'')) c"
    and p: "say ''%s'' [KStr x] c = emit (Put (cstr x)) c"
    and d: "say ''acharyaos> '' [] c = emit (Put ''acharyaos> '') c" for x and c :: "('d, 'e) shell"
    by (simp_all add: say_def kputs_def)
  show ?thesis
    by (auto simp: shell_print_prompt_def Let_def u p d kio_set_color_def emit_def split: prod.split)
qed

text \<open>
  \<open>kb\<close> is the keyboard when the shell prints its prompt; \<open>ops\<close> are the interrupts
  and polls that follow.  What the person has typed and the shell not yet read is
  what is buffered followed by what the scan codes type.
\<close>

definition typed_text :: "keyboard \<Rightarrow> kbd_op list \<Rightarrow> string" where
  "typed_text kb ops = kbd_contents kb @ typed (shift_down kb) ops"

definition keyboard_follows :: "keyboard \<Rightarrow> kbd_op list \<Rightarrow> bool" where
  "keyboard_follows kb ops \<longleftrightarrow> kbd_inv kb \<and> length (kbd_contents kb) + irq_count ops \<le> 127 \<and>
     list_all (\<lambda>c. uchar c < 128) (kbd_contents kb)"

lemma typed_ascii: "\<forall>c \<in> set (typed sh ops). uchar c < 128"
proof (induction sh ops rule: typed.induct)
  case (3 sh sc ops)
  have "unat (sc AND 0x7F) < 128"
    using word_and_le1 [of sc "0x7F"] by (simp add: word_le_nat_alt)
  then show ?case using 3 table_chars by (auto simp: Let_def)
qed simp_all

lemma nonneg_presses:
  assumes "filter (\<lambda>r. r \<noteq> -1) rs @ map schar b = map schar cs" "\<forall>c \<in> set cs. uchar c < 128"
  shows "filter (\<lambda>r. r \<noteq> -1) rs = presses rs"
proof -
  have "\<forall>r \<in> set (map schar cs). 0 \<le> r" using assms(2) by (auto simp: schar_def uchar_def)
  then have "\<forall>r \<in> set (filter (\<lambda>r. r \<noteq> -1) rs). 0 \<le> r" unfolding assms(1) [symmetric] by auto
  then show ?thesis unfolding presses_def by (intro filter_cong refl) auto
qed

lemma session_presses:
  assumes "keyboard_follows kb ops" "kbd_session ops kb = (rs, kb')"
  shows "presses rs @ map schar (kbd_contents kb') = map schar (typed_text kb ops)"
    and "\<forall>c \<in> set (typed_text kb ops). uchar c < 128"
proof -
  have a: "\<forall>c \<in> set (kbd_contents kb). uchar c < 128" using assms(1) by (simp add: keyboard_follows_def list_all_iff)
  then show asc: "\<forall>c \<in> set (typed_text kb ops). uchar c < 128"
    using typed_ascii [of "shift_down kb" ops] by (auto simp: typed_text_def)
  have "filter (\<lambda>r. r \<noteq> -1) rs @ map schar (kbd_contents kb') = map schar (typed_text kb ops)"
    using session_fifo [OF _ _ a assms(2)] assms(1) by (simp add: keyboard_follows_def typed_text_def)
  then show "presses rs @ map schar (kbd_contents kb') = map schar (typed_text kb ops)"
    using nonneg_presses [OF _ asc] by metis
qed

text \<open>A list of small integers has only one reading as characters.\<close>

lemma schar_eq: "uchar c < 128 \<Longrightarrow> uchar d < 128 \<Longrightarrow> schar c = schar d \<longleftrightarrow> c = d"
  by (simp add: schar_def uchar_eq)

lemma schar_split:
  assumes "xs @ map schar b = map schar (cs @ LF # later)" "length cs < length xs"
  obtains later' where "xs = map schar (cs @ LF # later')" "map schar later' @ map schar b = map schar later"
proof -
  let ?k = "length xs"
  have "xs = take ?k (map schar (cs @ LF # later))" "map schar b = drop ?k (map schar (cs @ LF # later))"
    unfolding assms(1) [symmetric] by simp_all
  then have "xs = map schar (cs @ LF # take (?k - Suc (length cs)) later)"
    "map schar b = map schar (drop (?k - Suc (length cs)) later)"
    using assms(2) by (simp_all add: take_map drop_map take_Cons' drop_Cons')
  then show ?thesis by (intro that [of "take (?k - Suc (length cs)) later"]) (simp_all flip: map_append)
qed

lemma schar_list:
  assumes "map schar cs = map schar ds" "\<forall>c \<in> set cs. uchar c < 128" "\<forall>d \<in> set ds. uchar d < 128"
  shows "cs = ds"
  using assms by (auto simp: list_eq_iff_nth_eq schar_eq)

section \<open>Properties\<close>

text \<open>C6. From the keyboard to a command.  Let the shell be at its prompt with the silent serial line,
and let \<open>ops\<close> be any interleaving of keyboard interrupts and polls that does not overfill the
keyboard's buffer.  If the text not yet read is \<open>cs\<close>, the enter key and \<open>later\<close>, and the polls get as
far as the enter key, then the shell prints its prompt and the echo, executes \<open>cs\<close> as edited by its
backspaces, and what the remaining polls and the buffer hold is exactly \<open>later\<close>: nothing is
lost, repeated or reordered between the interrupt handler and the command.\<close>

theorem typed_line_is_executed:
  assumes "keyboard_follows kb ops" "kbd_session ops kb = (con_in s, kb')" "con_status s = Running"
    and "typed_text kb ops = cs @ LF # later" "LF \<notin> set cs" "length cs < length (presses (con_in s))"
  shows "\<exists>s'. shell_loop mc s = shell_loop mc (shell_execute mc (edited True SHELL_LINE_MAX cs) s') \<and>
    presses (con_in s') @ map schar (kbd_contents kb') = map schar later \<and>
    s' = (shell_print_prompt s)\<lparr>con_in := con_in s',
      con_out := con_out (shell_print_prompt s) @ map Put (echoed True SHELL_LINE_MAX [] cs)\<rparr>"
proof -
  note split = session_presses [OF assms(1,2), unfolded assms(4)]
  obtain later' where p: "presses (con_in s) = map schar (cs @ LF # later')"
      "map schar later' @ map schar (kbd_contents kb') = map schar later"
    using schar_split [OF split(1) assms(6)] by blast
  obtain rest where k: "key_loop True SHELL_LINE_MAX (con_in s) [] =
      (Some (edited True SHELL_LINE_MAX cs), map Put (echoed True SHELL_LINE_MAX [] cs), rest)"
    and r: "presses rest = map schar later'"
    using key_loop_edits [OF p(1) assms(5), of True SHELL_LINE_MAX "[]"] split(2) unfolding edited_def by auto
  obtain out where pr: "shell_print_prompt s = s\<lparr>con_out := con_out s @ out\<rparr>" using prompt_prints by blast
  let ?s' = "(shell_print_prompt s)\<lparr>con_in := rest,
      con_out := con_out (shell_print_prompt s) @ map Put (echoed True SHELL_LINE_MAX [] cs)\<rparr>"
  have "shell_readline (shell_print_prompt s) = (Some (edited True SHELL_LINE_MAX cs), ?s')"
    using k by (simp add: shell_readline_def read_line_def pr)
  then have "shell_loop mc s = shell_loop mc (shell_execute mc (edited True SHELL_LINE_MAX cs) ?s')"
    using assms(3) by (subst shell_loop.simps) simp
  then show ?thesis using p(2) r by (intro exI [of _ ?s']) simp
qed

text \<open>Typing \<open>lx\<close>, backspace, \<open>s\<close>, enter and a \<open>p\<close>, polled in between, runs \<open>ls\<close> and leaves the \<open>p\<close>.\<close>

lemma typed_line_is_executed_witness:
  "\<exists>ops rs kb'. kbd_session ops keyboard_zero = (rs, kb') \<and> kbd_contents kb' = ''p'' \<and>
     (\<forall>(mc :: (board, unit) machine) s0. let s = s0\<lparr>con_in := rs, con_status := Running\<rparr> in
        \<exists>s'. shell_loop mc s = shell_loop mc (shell_execute mc ''ls'' s') \<and> presses (con_in s') = [])"
proof -
  let ?ops = "[KeyIrq 0x26, GetChar, KeyIrq 0xA6, KeyIrq 0x2D, GetChar, GetChar, KeyIrq 0x0E, KeyIrq 0x1F,
    KeyIrq 0x1C, GetChar, GetChar, GetChar, KeyIrq 0x19]"
  have f: "keyboard_follows keyboard_zero ?ops"
    using keyboard_zero_facts by (simp add: keyboard_follows_def irq_count_def)
  have "typed False ?ops = [CHR ''l'', CHR ''x'', BS, CHR ''s''] @ LF # ''p''" by code_simp
  then have t: "typed_text keyboard_zero ?ops = [CHR ''l'', CHR ''x'', BS, CHR ''s''] @ LF # ''p''"
    using keyboard_zero_facts by (simp add: typed_text_def)
  have "kbd_session ?ops keyboard_zero =
      (fst (kbd_session ?ops keyboard_zero), snd (kbd_session ?ops keyboard_zero))"
    by (rule prod.collapse [symmetric])
  moreover have "fst (kbd_session ?ops keyboard_zero) = [108, 120, -1, 8, 115, 10]" by code_simp
  moreover have "kbd_contents (snd (kbd_session ?ops keyboard_zero)) = ''p''" by code_simp
  ultimately obtain kb' where k: "kbd_session ?ops keyboard_zero = ([108, 120, -1, 8, 115, 10], kb')"
      "kbd_contents kb' = ''p''"
    by metis
  have e: "edited True SHELL_LINE_MAX [CHR ''l'', CHR ''x'', BS, CHR ''s''] = ''ls''"
    by (simp add: edited_def edit_char_def key_text_def printable_def uchar_def shell_consts)
  have run: "\<exists>s'. shell_loop mc s = shell_loop mc (shell_execute mc ''ls'' s') \<and> presses (con_in s') = []"
    if s: "s = s0\<lparr>con_in := [108, 120, -1, 8, 115, 10], con_status := Running\<rparr>"
    for mc :: "(board, unit) machine" and s s0
  proof -
    have i: "con_in s = [108, 120, -1, 8, 115, 10]" and st: "con_status s = Running" using s by simp_all
    have l: "length [CHR ''l'', CHR ''x'', BS, CHR ''s''] < length (presses (con_in s))" unfolding i by simp
    have n: "LF \<notin> set [CHR ''l'', CHR ''x'', BS, CHR ''s'']" by simp
    from typed_line_is_executed [OF f k(1) [folded i] st t n l, of mc]
    obtain s' where "shell_loop mc s = shell_loop mc (shell_execute mc ''ls'' s')"
      "presses (con_in s') @ map schar ''p'' = map schar ''p''"
      unfolding e k(2) by blast
    then show ?thesis by (intro exI [of _ s']) simp
  qed
  show ?thesis
    by (rule exI, rule exI, rule exI, rule conjI [OF k(1)], rule conjI [OF k(2)])
       (intro allI, unfold Let_def, rule run [OF refl])
qed

end
