(* ===== verification/Spec2Isabelle.thy ===== *)
theory Spec2Isabelle
  imports Prelude WordLib SlotTable Kstring Kheap Calc Scheduler PortIo Pic Kio Vga Timer Process
    Ring Keyboard Mouse Interrupts Vmm Gdt BlockDevice Ata Fs FsLemmas FsCorrect FileStore FsProps User Config ConfigProps
    TextLines Package PackageProps Log LogProps Service ServiceProps Arp Ipv4 Udp NetProps
    Framebuffer Window Button Menu Icons Desktop Settings FilesView
    GuiInv Console Editor EditorProps Browser Userspace Shell ShellStatus ShellActions ShellMain ShellLoop ShellInv
    ShellProps ShellFixed Paper Screen Boot BootProps ShellHistory Typing
begin

text \<open>
  Verification development of AcharyaOS, a small x86_64 kernel written in C.

  \<^bold>\<open>The program.\<close>  The boot assembly enters \<open>kmain\<close> (\<open>kernel/kmain.c\<close>), which brings up every
  component in a fixed order and runs the command shell.  The shell reads lines from the keyboard and
  calls the other components: memory (\<open>memory\<close>), tasks and processes (\<open>scheduler\<close>, \<open>process\<close>),
  the interrupt path and system calls (\<open>kernel/arch\<close>, \<open>drivers\<close>, \<open>syscall\<close>), the disk and the
  file system on it (\<open>drivers/disk\<close>, \<open>fs\<close>), the applications that keep their data in files or tables
  (\<open>kernel/config\<close>, \<open>package\<close>, \<open>service\<close>, \<open>user\<close>, \<open>debug\<close>, \<open>editor\<close>, \<open>browser\<close>, \<open>calc\<close>),
  the network stack (\<open>kernel/net\<close>) and the windowing code on a software framebuffer (\<open>gui\<close>).

  \<^bold>\<open>State.\<close>  The static variables of a source file are a record of its theory; a structure is a record
  with the structure's fields, an enumeration a datatype, an integer a word of its width, a character
  array a list of characters of fixed length whose text is the part before the first NUL (\<open>cstr\<close>).
  Counts and indices that the code keeps in \<open>size_t\<close> and bounds by a table size are natural numbers.
  Every function is a definition on these records that returns the new state; an out parameter is part
  of the result, a pointer that the code tests against null is an option, a failure is the code's own
  return value.  A buffer overrun or another undefined step is an explicit result (\<open>ReadOverrun\<close>,
  \<open>None\<close>, \<open>Undef\<close>, the status \<open>Faulty\<close>), never a default value.

  \<^bold>\<open>Hardware.\<close>  Ports are a parameter: a record \<open>port_bus\<close> of read and write functions on a device
  state (PortIo).  Drivers are translated over it; what the 8259 controllers (Pic, Interrupts) and an
  ATA drive (Ata) do with the accesses is a hypothesis about the bus, and a concrete chip pair and
  drive that satisfy the hypotheses are defined for the witnesses.  The hypothesis on the drive is the
  PIO protocol: after a command, and after each sector, it is busy for a number of polls of its own
  choice (\<open>timing\<close>), and the data register is served only while it is not busy and requests data in that
  direction.  The driver waits once per command and sends its flush command at once, so a transfer of
  several sectors and the completion of a write rest on two further hypotheses, named where they are
  used: the drive has each next sector at once (\<open>read_safe\<close>), and its busy times are below the driver's
  limits with the sector stored when the flush arrives (\<open>drive_timely\<close>).  Addresses of static objects, the
  interrupt stubs and the user program image are parameters too.

  \<^bold>\<open>Theories.\<close>
  \<^item> Prelude, WordLib, SlotTable, Ring, TextLines: C strings, words, the interface of the fixed-size
    registries, the two ring-buffer disciplines, line-oriented text.
  \<^item> Kstring (\<open>kernel/lib/kstring.c\<close>), Kheap (\<open>memory/kheap.c\<close>), Calc (\<open>kernel/calc/calc.c\<close>),
    Scheduler, Process, Vmm (\<open>memory/vmm.c\<close>), Gdt (\<open>kernel/arch/x86_64/gdt.c\<close>).
  \<^item> PortIo, Pic, Timer, Keyboard, Mouse, Vga, Kio (\<open>kernel/lib/kio.c\<close>), Interrupts
    (\<open>kernel/arch/x86_64/idt.c\<close> and \<open>syscall/syscall.c\<close>).
  \<^item> BlockDevice, Ata, Fs with FsLemmas, FsCorrect and FsProps, FileStore: the disk driver, the file
    system over the block device interface, and the file interface the applications use.
  \<^item> User, Config with ConfigProps, Package with PackageProps, Log with LogProps, Service with
    ServiceProps: the applications of \<open>kernel\<close> of the same names.
  \<^item> Arp (with \<open>eth.c\<close>), Ipv4, Udp (with \<open>icmp.c\<close>), NetProps: the network stack.
  \<^item> Framebuffer, Window, Button, Menu, Icons, Desktop, Settings, FilesView: the files of \<open>gui\<close>; their
    states extend one another in the order in which the modules use each other.  GuiInv: the invariant of
    their tables.
  \<^item> Console, Editor with EditorProps, Browser, Userspace: the terminal as a sequence of pending input
    values and of output texts, the two interactive programs and the launcher of the user program.
  \<^item> Shell, ShellStatus, ShellActions, ShellMain, ShellLoop: the shell over a record that holds the
    state of every component; one definition per command, the dispatch table, history and the loop.
  \<^item> ShellInv, ShellProps: the invariant of the tables of the record (\<open>kernel_inv\<close>: users, services, log,
    processes, configuration, packages, history, the screen's and the network's tables) and its
    preservation by every command; ShellFixed: the page tables, the heap and the interrupt descriptors,
    which no command changes; the directory is the subject of FsProps; ShellHistory: recall, dispatch by the first word, and the \<open>su\<close> command.
  \<^item> Paper: the text a session prints as a roll of paper whose rows never move, and the display as its last
    25 rows.  Screen: the kernel console as \<open>kernel/lib/kio.c\<close> drives it, text display and serial port at once.
  \<^item> Boot, BootProps: \<open>kmain\<close> of \<open>kernel/kmain.c\<close> composed phase by phase from the components above, the
    kernel panic and the login prompt; what the state is when the shell starts.
  \<^item> Typing: from scan codes to an executed command line, through the keyboard buffer and the line
    reader, against a reference that edits characters.

  \<^bold>\<open>Interfaces.\<close>  The locale \<open>slot_table\<close> states the two searches of a registry and is interpreted on
  the tables of users, configuration entries, packages, services, directory entries, sockets and
  windows; \<open>bounded_fifo\<close> is interpreted on the keyboard buffer and \<open>overwriting_ring\<close> on the log and
  on the shell history; \<open>command_invariant\<close> states when an assertion on the kernel record survives every
  shell command and is interpreted on \<open>kernel_inv\<close> and on the tables the boot fixes;
  \<open>block_device\<close> states what a disk promises, a write beyond its end included, and is provided by the ATA
  driver on every drive that follows the protocol and streams (\<open>ata_drive\<close>); \<open>file_store\<close> states whole-file reads, writes and
  deletions as a map from names to contents and is provided by the file system on every block device.

  \<^bold>\<open>What is shown.\<close>  For each component the invariant of its state and the effect of each operation on an
  abstract state (a map for registries and the file system, a list for rings, a document for the
  editor), with errors; round trips through the file system (configuration, package index, editor
  buffers) and through text (integers, addresses); the processor's page walk over the tables the code
  builds; fairness and accounting of the scheduler over whole runs of ticks; exact painting of the
  framebuffer; agreement of the calculator with a grammar.  Across components: the state that the start
  of the kernel reaches on a platform whose devices answer, the tables that stay well formed whatever is
  typed afterwards, and the path of the printed characters to the screen and the serial line.  A session
  is followed up to the first step that the C code leaves undefined, where the model stops with the
  status \<open>Faulty\<close>.  Where the code does not do what it means to, the theorem states what it does.

  \<^bold>\<open>Loops and bounds.\<close>  Loops over tables and buffers are structural or have a measure.  The calculator's
  mutual recursion has fuel \<open>calc_fuel\<close>, proved sufficient for every input; polling loops on a device
  are partial functions, so that not returning is \<open>None\<close>; the interactive loops end with the input.

  \<^bold>\<open>Not modelled.\<close>  The boot assembly, the interrupt stubs and the inline assembly of the port, page
  table and segment loads (processor mode switches and single instructions, represented by the port bus
  and by the addresses they are given), the linker script and the build files, and the user program's
  assembly, whose image is a parameter.  Interrupts are steps between the operations of the interrupt
  path (Interrupts, Keyboard) and do not fall between the statements of a shell command: a session of
  the shell sees the keyboard as the sequence of values its polls return.  There is no context switch in
  the code, so the scheduler is its accounting.
\<close>

end
